(* ===== verification/Prelude.thy ===== *)
theory Prelude
  imports Main "HOL-Library.Char_ord" "HOL-Library.List_Lexorder" "HOL-Library.Sublist"
begin

text \<open>
  What every component of the development shares: the result type of a step that may be
  refused, the SQL statements the repositories issue as functions on lists of rows, and
  the JavaScript string primitives the pure modules use.

  A string of the program is the list of its UTF-8 octets (a \<^theory_text>\<open>string\<close>), so every
  character the code tests for (digits, separators, quotes, line breaks) is one element.
  The order on strings is the lexicographic one of JavaScript's \<^verbatim>\<open><\<close>.
\<close>

named_theorems row_simps \<open>what an UPDATE or INSERT does to the rows of a table\<close>
named_theorems guard_simps \<open>guards of the operations, as conditions on rows\<close>

type_synonym uuid = string
type_synonym date = string
  \<comment> \<open>a calendar date as the code has it, \<^verbatim>\<open>YYYY-MM-DD\<close>\<close>
type_synonym instant = int
  \<comment> \<open>milliseconds since the epoch\<close>

section \<open>Steps that may be refused\<close>

definition bind_res :: "'e + 'a \<Rightarrow> ('a \<Rightarrow> 'e + 'b) \<Rightarrow> 'e + 'b" where
  "bind_res m f = (case m of Inl e \<Rightarrow> Inl e | Inr x \<Rightarrow> f x)"

lemma bind_res_simps [simp]:
  "bind_res (Inl e) f = Inl e"
  "bind_res (Inr x) f = f x"
  by (simp_all add: bind_res_def)

lemma bind_res_Inr_iff:
  "bind_res m f = Inr y \<longleftrightarrow> (\<exists>x. m = Inr x \<and> f x = Inr y)"
  by (cases m) simp_all

lemma bind_res_Inl_iff:
  "bind_res m f = Inl e \<longleftrightarrow> m = Inl e \<or> (\<exists>x. m = Inr x \<and> f x = Inl e)"
  by (cases m) simp_all

lemma bind_res_assoc [simp]:
  "bind_res (bind_res m f) g = bind_res m (\<lambda>x. bind_res (f x) g)"
  by (cases m) simp_all

definition guard_res :: "bool \<Rightarrow> 'e \<Rightarrow> 'e + unit" where
  "guard_res ok e = (if ok then Inr () else Inl e)"

lemma guard_res_Inr_iff [simp]: "guard_res ok e = Inr u \<longleftrightarrow> ok"
  by (simp add: guard_res_def)

lemma guard_res_simps [simp]:
  "guard_res True e = Inr ()"
  "guard_res False e = Inl e"
  by (simp_all add: guard_res_def)

text \<open>\<^verbatim>\<open>rows.map(f)\<close> where \<open>f\<close> may throw.\<close>

fun map_res :: "('a \<Rightarrow> 'e + 'b) \<Rightarrow> 'a list \<Rightarrow> 'e + 'b list" where
  "map_res f [] = Inr []"
| "map_res f (x # xs) = bind_res (f x) (\<lambda>y. bind_res (map_res f xs) (\<lambda>ys. Inr (y # ys)))"

lemma map_res_Inr_iff: "map_res f xs = Inr ys \<longleftrightarrow> list_all2 (\<lambda>x y. f x = Inr y) xs ys"
proof (induction xs arbitrary: ys)
  case Nil
  then show ?case by auto
next
  case (Cons x xs)
  then show ?case by (cases ys) (auto simp: bind_res_Inr_iff)
qed

lemma map_res_total: "(\<And>x. x \<in> set xs \<Longrightarrow> f x = Inr (g x)) \<Longrightarrow> map_res f xs = Inr (map g xs)"
  by (induction xs) simp_all

section \<open>SQL on lists of rows\<close>

text \<open>\<^verbatim>\<open>UPDATE t SET f WHERE P\<close>, and the rows its \<^verbatim>\<open>RETURNING\<close> names.\<close>

definition update_where :: "('r \<Rightarrow> bool) \<Rightarrow> ('r \<Rightarrow> 'r) \<Rightarrow> 'r list \<Rightarrow> 'r list" where
  "update_where P f rows = map (\<lambda>r. if P r then f r else r) rows"

text \<open>\<^verbatim>\<open>SELECT ... WHERE P LIMIT 1\<close>.\<close>

definition select_one :: "('r \<Rightarrow> bool) \<Rightarrow> 'r list \<Rightarrow> 'r option" where
  "select_one P rows = List.find P rows"

lemma length_update_where [row_simps, simp]: "length (update_where P f rows) = length rows"
  by (simp add: update_where_def)

lemma set_update_where [row_simps]:
  "set (update_where P f rows) = (\<lambda>r. if P r then f r else r) ` set rows"
  by (simp add: update_where_def)

lemma update_where_Nil [row_simps, simp]: "update_where P f [] = []"
  by (simp add: update_where_def)

lemma update_where_Cons [row_simps, simp]:
  "update_where P f (r # rows) = (if P r then f r else r) # update_where P f rows"
  by (simp add: update_where_def)

lemma nth_update_where [row_simps]:
  "i < length rows \<Longrightarrow>
   update_where P f rows ! i = (if P (rows ! i) then f (rows ! i) else rows ! i)"
  by (simp add: update_where_def)

lemma update_where_none:
  "(\<And>r. r \<in> set rows \<Longrightarrow> \<not> P r) \<Longrightarrow> update_where P f rows = rows"
  unfolding update_where_def by (rule map_idI) simp

lemma update_where_idem:
  assumes "\<And>r. P r \<Longrightarrow> \<not> P (f r)"
  shows "update_where P f (update_where P f rows) = update_where P f rows"
  using assms by (auto simp: update_where_def)

lemma map_update_where:
  assumes "\<And>r. P r \<Longrightarrow> g (f r) = g r"
  shows "map g (update_where P f rows) = map g rows"
  using assms by (simp add: update_where_def)

lemma update_where_hit: "r \<in> set rows \<Longrightarrow> P r \<Longrightarrow> f r \<in> set (update_where P f rows)"
  unfolding set_update_where by (rule image_eqI [where x = r]) simp_all

lemma filter_update_where:
  "(\<And>r. P r \<Longrightarrow> \<not> Q r \<and> \<not> Q (f r)) \<Longrightarrow> filter Q (update_where P f rows) = filter Q rows"
  by (induction rows) auto

lemma select_one_Some_iff:
  "select_one P rows = Some r \<longleftrightarrow>
   (\<exists>i < length rows. P (rows ! i) \<and> r = rows ! i \<and> (\<forall>j < i. \<not> P (rows ! j)))"
  by (auto simp: select_one_def find_Some_iff)

lemma select_one_SomeD: "select_one P rows = Some r \<Longrightarrow> r \<in> set rows \<and> P r"
  by (auto simp: select_one_Some_iff)

lemma select_one_None_iff [simp]: "select_one P rows = None \<longleftrightarrow> (\<forall>r \<in> set rows. \<not> P r)"
  by (auto simp: select_one_def find_None_iff)

lemma select_one_simps [simp]:
  "select_one P [] = None"
  "select_one P (r # rows) = (if P r then Some r else select_one P rows)"
  by (simp_all add: select_one_def)

lemma select_one_append:
  "select_one P (xs @ ys) = (case select_one P xs of None \<Rightarrow> select_one P ys | Some x \<Rightarrow> Some x)"
  by (induction xs) auto

lemma select_one_unique:
  assumes "distinct (map k rows)" "r \<in> set rows" "P r" "\<And>q. P q \<Longrightarrow> k q = k r"
  shows "select_one P rows = Some r"
  using assms(1,2)
proof (induction rows)
  case (Cons q rows)
  show ?case
  proof (cases "P q")
    case True
    then have "k q = k r" by (rule assms(4))
    then have "q = r"
      using Cons.prems by (metis distinct.simps(2) image_eqI list.set_map list.simps(9) set_ConsD)
    with True show ?thesis by simp
  next
    case False
    with Cons assms(3) show ?thesis by auto
  qed
qed simp

text \<open>
  A table that only grows: every old row is still there, in its place, changed at most as \<open>R\<close> allows.
\<close>

definition grows :: "('r \<Rightarrow> 'r \<Rightarrow> bool) \<Rightarrow> 'r list \<Rightarrow> 'r list \<Rightarrow> bool" where
  "grows R xs ys \<longleftrightarrow> (\<exists>zs ws. ys = zs @ ws \<and> list_all2 R xs zs)"

lemma grows_refl: "(\<And>x. R x x) \<Longrightarrow> grows R xs xs"
  unfolding grows_def by (metis append_Nil2 list_all2_refl)

lemma grows_append: "(\<And>x. R x x) \<Longrightarrow> grows R xs (xs @ ys)"
  unfolding grows_def by (metis list_all2_refl)

lemma grows_update_where:
  "(\<And>x. R x x) \<Longrightarrow> (\<And>x. x \<in> set xs \<Longrightarrow> P x \<Longrightarrow> R x (f x)) \<Longrightarrow> grows R xs (update_where P f xs)"
  unfolding grows_def update_where_def
  by (rule exI, rule exI [of _ "[]"]) (auto simp: list_all2_conv_all_nth)

lemma grows_trans:
  assumes "\<And>x y z. R x y \<Longrightarrow> R y z \<Longrightarrow> R x z" "grows R xs ys" "grows R ys us"
  shows "grows R xs us"
proof -
  obtain zs ws where y: "ys = zs @ ws" "list_all2 R xs zs" using assms(2) by (auto simp: grows_def)
  obtain as bs where u: "us = as @ bs" "list_all2 R (zs @ ws) as"
    using assms(3) y(1) by (auto simp: grows_def)
  from u(2) obtain a1 a2 where a: "as = a1 @ a2" "list_all2 R zs a1"
    by (auto simp: list_all2_append1)
  have "list_all2 R xs a1" using assms(1) y(2) a(2) by (rule list_all2_trans)
  then show ?thesis using u(1) a(1) unfolding grows_def by auto
qed

lemma grows_member:
  assumes "grows R xs ys" "x \<in> set xs"
  obtains y where "y \<in> set ys" "R x y"
proof -
  obtain zs ws where y: "ys = zs @ ws" "list_all2 R xs zs" using assms(1) by (auto simp: grows_def)
  from y(2) assms(2) have "\<exists>z \<in> set zs. R x z" by (induction rule: list_all2_induct) auto
  with y(1) that show thesis by auto
qed

lemma grows_map:
  assumes "grows R xs ys" "\<And>x y. R x y \<Longrightarrow> g y = g x"
  shows "prefix (map g xs) (map g ys)"
proof -
  obtain zs ws where y: "ys = zs @ ws" "list_all2 R xs zs" using assms(1) by (auto simp: grows_def)
  from y(2) have "map g zs = map g xs"
    using assms(2) by (induction rule: list_all2_induct) simp_all
  with y(1) show ?thesis by simp
qed

section \<open>Character strings\<close>

text \<open>
  \<^verbatim>\<open>String.prototype.trim\<close>: the white space and line terminators of ECMAScript, each as its octets
  (tab to carriage return, space, U+00A0, U+1680, U+2000 to U+200A, U+2028, U+2029, U+202F, U+205F,
  U+3000, U+FEFF).
\<close>

definition js_white :: "string list" where
  "js_white =
     map (\<lambda>c. [c]) [CHR 0x09, CHR 0x0A, CHR 0x0B, CHR 0x0C, CHR 0x0D, CHR 0x20] @
     [[CHR 0xC2, CHR 0xA0], [CHR 0xE1, CHR 0x9A, CHR 0x80]] @
     map (\<lambda>c. [CHR 0xE2, CHR 0x80, c])
       [CHR 0x80, CHR 0x81, CHR 0x82, CHR 0x83, CHR 0x84, CHR 0x85, CHR 0x86, CHR 0x87, CHR 0x88,
        CHR 0x89, CHR 0x8A, CHR 0xA8, CHR 0xA9, CHR 0xAF] @
     [[CHR 0xE2, CHR 0x81, CHR 0x9F], [CHR 0xE3, CHR 0x80, CHR 0x80], [CHR 0xEF, CHR 0xBB, CHR 0xBF]]"

fun strip_start :: "nat \<Rightarrow> string list \<Rightarrow> string \<Rightarrow> string" where
  "strip_start 0 pats s = s"
| "strip_start (Suc n) pats s =
     (case List.find (\<lambda>p. prefix p s) pats of
        Some p \<Rightarrow> strip_start n pats (drop (length p) s)
      | None \<Rightarrow> s)"

definition js_trimStart :: "string \<Rightarrow> string" where
  "js_trimStart s = strip_start (length s) js_white s"

definition js_trimEnd :: "string \<Rightarrow> string" where
  "js_trimEnd s = rev (strip_start (length s) (map rev js_white) (rev s))"

definition js_trim :: "string \<Rightarrow> string" where
  "js_trim s = js_trimEnd (js_trimStart s)"

text \<open>
  JavaScript counts UTF-16 units: an octet that continues a character counts nothing, the lead of a
  four-octet character counts two. \<open>utf16_take n\<close> is \<^verbatim>\<open>slice(0, n)\<close>, except that it never splits a
  surrogate pair.
\<close>

definition utf16_units :: "char \<Rightarrow> nat" where
  "utf16_units c =
     (let k = (of_char c :: nat) in if 128 \<le> k \<and> k < 192 then 0 else if 240 \<le> k then 2 else 1)"

definition utf16_length :: "string \<Rightarrow> nat" where
  "utf16_length s = sum_list (map utf16_units s)"

fun utf16_take :: "nat \<Rightarrow> string \<Rightarrow> string" where
  "utf16_take n [] = []"
| "utf16_take n (c # cs) =
     (if utf16_units c \<le> n then c # utf16_take (n - utf16_units c) cs else [])"

lemma utf16_take_length: "utf16_length (utf16_take n s) \<le> n"
  by (induction n s rule: utf16_take.induct) (auto simp: utf16_length_def)

lemma utf16_take_prefix: "prefix (utf16_take n s) s"
  by (induction n s rule: utf16_take.induct) auto

text \<open>A class of a regular expression, \<^verbatim>\<open>[lo-hi]\<close>.\<close>

definition in_class :: "char \<Rightarrow> char \<Rightarrow> char \<Rightarrow> bool" where
  [simp]: "in_class lo hi c \<longleftrightarrow> lo \<le> c \<and> c \<le> hi"

definition is_digit :: "char \<Rightarrow> bool" where
  "is_digit c \<longleftrightarrow> CHR ''0'' \<le> c \<and> c \<le> CHR ''9''"

definition to_upper1 :: "char \<Rightarrow> char" where
  "to_upper1 c = (if CHR ''a'' \<le> c \<and> c \<le> CHR ''z'' then char_of (of_char c - 32 :: nat) else c)"

definition to_lower1 :: "char \<Rightarrow> char" where
  "to_lower1 c = (if CHR ''A'' \<le> c \<and> c \<le> CHR ''Z'' then char_of (of_char c + 32 :: nat) else c)"

definition to_upper :: "string \<Rightarrow> string" where
  "to_upper = map to_upper1"

definition to_lower :: "string \<Rightarrow> string" where
  "to_lower = map to_lower1"

text \<open>\<^verbatim>\<open>s.replace(/c/g, t)\<close> for one character \<open>c\<close>, and \<^verbatim>\<open>s.replace(/\/+$/, '')\<close>.\<close>

definition replace_char :: "char \<Rightarrow> string \<Rightarrow> string \<Rightarrow> string" where
  "replace_char c t s = concat (map (\<lambda>x. if x = c then t else [x]) s)"

lemma replace_char_concat:
  "replace_char c t (concat (map f s)) = concat (map (\<lambda>x. replace_char c t (f x)) s)"
  by (induction s) (simp_all add: replace_char_def)

definition strip_slashes :: "string \<Rightarrow> string" where
  "strip_slashes s = rev (dropWhile (\<lambda>c. c = CHR ''/'') (rev s))"

text \<open>\<^verbatim>\<open>xs.join(sep)\<close>.\<close>

fun join :: "string \<Rightarrow> string list \<Rightarrow> string" where
  "join sep [] = []"
| "join sep [x] = x"
| "join sep (x # y # ys) = x @ sep @ join sep (y # ys)"

lemma join_Cons: "xs \<noteq> [] \<Longrightarrow> join sep (x # xs) = x @ sep @ join sep xs"
  by (cases xs) simp_all

lemma join_snoc_sep: "join sep xs @ sep = concat (map (\<lambda>x. x @ sep) xs)" if "xs \<noteq> []"
  using that
proof (induction xs)
  case (Cons x xs)
  then show ?case by (cases "xs = []") (simp_all add: join_Cons)
qed simp

text \<open>\<^verbatim>\<open>trim\<close> leaves printable ASCII alone.\<close>

definition graphic :: "char \<Rightarrow> bool" where
  "graphic c \<longleftrightarrow> CHR ''!'' \<le> c \<and> c \<le> CHR ''~''"

lemma strip_start_graphic:
  assumes "\<And>p. p \<in> set pats \<Longrightarrow> p \<noteq> [] \<and> \<not> graphic (hd p)" "s = [] \<or> graphic (hd s)"
  shows "strip_start n pats s = s"
proof (cases n)
  case (Suc k)
  have "\<not> prefix p s" if "p \<in> set pats" for p
    using assms(1) [OF that] assms(2) by (cases p; cases s) auto
  then have "List.find (\<lambda>p. prefix p s) pats = None" by (simp add: find_None_iff)
  with Suc show ?thesis by simp
qed simp

lemma js_white_not_graphic:
  "list_all (\<lambda>p. p \<noteq> [] \<and> \<not> graphic (hd p) \<and> \<not> graphic (last p)) js_white"
  by code_simp

lemma js_white_hd: "p \<in> set js_white \<Longrightarrow> p \<noteq> [] \<and> \<not> graphic (hd p) \<and> \<not> graphic (last p)"
  using js_white_not_graphic unfolding list_all_iff by blast

lemma js_trimStart_graphic: "s = [] \<or> graphic (hd s) \<Longrightarrow> js_trimStart s = s"
  unfolding js_trimStart_def using js_white_hd by (intro strip_start_graphic) auto

lemma js_trim_graphic:
  assumes "list_all graphic s"
  shows "js_trim s = s"
proof -
  have w: "p \<noteq> [] \<and> \<not> graphic (hd p)" if "p \<in> set js_white" for p
    using js_white_hd [OF that] by simp
  have w': "p \<noteq> [] \<and> \<not> graphic (hd p)" if m: "p \<in> set (map rev js_white)" for p
  proof -
    obtain q where "q \<in> set js_white" "p = rev q" using m by auto
    then show ?thesis using js_white_hd [of q] by (simp add: hd_rev)
  qed
  have hd: "t = [] \<or> graphic (hd t)" if "set t \<subseteq> set s" for t
    using that assms by (cases t) (simp_all add: list_all_iff)
  have "js_trimStart s = s"
    unfolding js_trimStart_def using w hd [OF order_refl] by (rule strip_start_graphic)
  moreover have "strip_start (length s) (map rev js_white) (rev s) = rev s"
    using w' hd [of "rev s"] by (intro strip_start_graphic) simp_all
  ultimately show ?thesis by (simp add: js_trim_def js_trimEnd_def)
qed

text \<open>Trimming removes only white space, so it stops at a printable character.\<close>

lemma strip_start_drop:
  assumes "\<forall>p \<in> set pats. list_all (\<lambda>c. \<not> graphic c) p"
  shows "\<exists>k. strip_start n pats s = drop k s \<and> list_all (\<lambda>c. \<not> graphic c) (take k s)"
  using assms
proof (induction n pats s rule: strip_start.induct)
  case (1 pats s)
  have "strip_start 0 pats s = drop 0 s \<and> list_all (\<lambda>c. \<not> graphic c) (take 0 s)" by simp
  then show ?case by blast
next
  case (2 n pats s)
  show ?case
  proof (cases "List.find (\<lambda>p. prefix p s) pats")
    case None
    then have "strip_start (Suc n) pats s = drop 0 s \<and> list_all (\<lambda>c. \<not> graphic c) (take 0 s)" by simp
    then show ?thesis by blast
  next
    case (Some p)
    then have p: "p \<in> set pats" "prefix p s" by (auto simp: find_Some_iff)
    from 2 Some obtain k where k: "strip_start n pats (drop (length p) s) = drop k (drop (length p) s)"
      "list_all (\<lambda>c. \<not> graphic c) (take k (drop (length p) s))" by blast
    obtain u where s: "s = p @ u" using p(2) by (auto simp: prefix_def)
    have "strip_start (Suc n) pats s = drop (length p + k) s \<and>
        list_all (\<lambda>c. \<not> graphic c) (take (length p + k) s)"
      using Some k 2(2) p(1) by (simp add: s)
    then show ?thesis by blast
  qed
qed

lemma js_white_octets: "\<forall>p \<in> set js_white. list_all (\<lambda>c. \<not> graphic c) p"
  unfolding list_all_iff [symmetric] by code_simp

lemma js_trim_hd:
  assumes "graphic c"
  shows "\<exists>t'. js_trim (c # t) = c # t' \<and> prefix t' t"
proof -
  have "\<forall>p \<in> set (map rev js_white). list_all (\<lambda>c. \<not> graphic c) p"
    using js_white_octets by (simp add: list_all_iff)
  then obtain k where k: "strip_start (length (c # t)) (map rev js_white) (rev (c # t)) = drop k (rev (c # t))"
    "list_all (\<lambda>c. \<not> graphic c) (take k (rev (c # t)))"
    using strip_start_drop by blast
  have "k \<le> length t"
  proof (rule ccontr)
    assume "\<not> k \<le> length t"
    then have "take k (rev (c # t)) = rev (c # t)" by simp
    with k(2) have "list_all (\<lambda>c. \<not> graphic c) (rev (c # t))" by metis
    with assms show False by simp
  qed
  moreover have "js_trimStart (c # t) = c # t"
    using assms by (simp add: js_trimStart_graphic)
  ultimately have "js_trim (c # t) = c # take (length t - k) t"
    using k(1) by (simp add: js_trim_def js_trimEnd_def rev_drop Suc_diff_le)
  then show ?thesis using take_is_prefix by blast
qed

text \<open>Sorting commutes with a map of the rows that are sorted.\<close>

lemma insort_key_map: "insort_key k (f x) (map f xs) = map f (insort_key (\<lambda>y. k (f y)) x xs)"
  by (induction xs) simp_all

lemma sort_key_map: "sort_key k (map f xs) = map f (sort_key (\<lambda>y. k (f y)) xs)"
  by (induction xs) (simp_all add: insort_key_map)

text \<open>Lexicographic order: it distributes over equally long prefixes.\<close>

lemma append_less_append:
  fixes a b c d :: "('a::linorder) list"
  assumes "length a = length c"
  shows "a @ b < c @ d \<longleftrightarrow> a < c \<or> a = c \<and> b < d"
  using assms by (induction a c rule: list_induct2) auto

lemma append_le_append:
  fixes a b c d :: "('a::linorder) list"
  assumes "length a = length c"
  shows "a @ b \<le> c @ d \<longleftrightarrow> a < c \<or> a = c \<and> b \<le> d"
  using assms by (induction a c rule: list_induct2) auto

end
