(* ===== verification/Errors.thy ===== *)
theory Errors
  imports Prelude
begin

text \<open>
  What an operation may answer instead of its result: the HTTP exceptions the services throw,
  the 409 vocabulary of \<^verbatim>\<open>packages/shared/src/conflict.ts\<close> with its typed detail, a violated
  database constraint by name, and the interceptor that turns the constraint into the conflict
  it means (\<^verbatim>\<open>apps/api/src/common/db-error\<close>).
\<close>

datatype booking_status = Pending_payment | Confirmed | Cancelled | Expired

datatype booking_source = Direct | Airbnb | Booking_com | Vrbo | Manual_block

datatype refusal_reason = Overlap | Min_stay | Max_guests | Unavailable | Archived

datatype invite_refusal = Invite_expired | Invite_accepted | Invite_revoked

definition OCCUPYING_STATUSES :: "booking_status list" where
  "OCCUPYING_STATUSES = [Pending_payment, Confirmed]"

datatype conflict =
    Email_taken
  | Unit_name_taken
  | Property_has_bookings nat
  | Unit_has_bookings nat
  | Dates_unavailable "refusal_reason list"
  | Booking_not_cancellable booking_status
  | Booking_not_payable booking_status
  | Channel_already_connected
  | Invite_not_acceptable invite_refusal
  | Invite_already_pending
  | Price_override_overlap
  | Payments_not_configured

text \<open>
  \<open>DbError c\<close> is a statement refused by constraint \<open>c\<close>, \<open>JsError\<close> any other thrown error (a 500).
\<close>

datatype app_error =
    NotFound string
  | Conflict conflict
  | BadRequest string
  | Unauthorized string
  | Forbidden string
  | InternalError string
  | BadGateway string
  | ServiceUnavailable string
  | DbError string
  | JsError string

text \<open>\<^verbatim>\<open>conflictBodySchema\<close>: the detail each code promises. A body outside it is not a conflict the
  client recognises (\<^verbatim>\<open>parseConflictBody\<close> answers null).\<close>

fun conflict_body_ok :: "conflict \<Rightarrow> bool" where
  "conflict_body_ok (Property_has_bookings n) = (n > 0)"
| "conflict_body_ok (Unit_has_bookings n) = (n > 0)"
| "conflict_body_ok (Dates_unavailable rs) = (rs \<noteq> [])"
| "conflict_body_ok _ = True"

definition parseConflictBody :: "conflict \<Rightarrow> conflict option" where
  "parseConflictBody c = (if conflict_body_ok c then Some c else None)"

section \<open>Constraint names and the conflicts they mean\<close>

definition constraint_map :: "(string \<times> conflict) list" where
  "constraint_map =
     [(''app_user_email_key'', Email_taken),
      (''unit_property_name_uniq'', Unit_name_taken),
      (''booking_no_overlap'', Dates_unavailable [Overlap]),
      (''channel_connection_unit_channel_uniq'', Channel_already_connected),
      (''staff_invite_live_email_uniq'', Invite_already_pending),
      (''price_override_no_overlap'', Price_override_overlap)]"

definition mapDbError :: "app_error \<Rightarrow> app_error option" where
  "mapDbError e =
     (case e of DbError c \<Rightarrow> map_option Conflict (map_of constraint_map c) | _ \<Rightarrow> None)"

text \<open>\<^verbatim>\<open>DbErrorInterceptor\<close>: \<^verbatim>\<open>mapDbError(err) ?? err\<close>, around every handler.\<close>

definition intercept :: "app_error + 'a \<Rightarrow> app_error + 'a" where
  "intercept r =
     (case r of Inr x \<Rightarrow> Inr x
      | Inl e \<Rightarrow> Inl (case mapDbError e of Some e' \<Rightarrow> e' | None \<Rightarrow> e))"

fun http_status :: "app_error \<Rightarrow> nat" where
  "http_status (NotFound _) = 404"
| "http_status (Conflict _) = 409"
| "http_status (BadRequest _) = 400"
| "http_status (Unauthorized _) = 401"
| "http_status (Forbidden _) = 403"
| "http_status (InternalError _) = 500"
| "http_status (BadGateway _) = 502"
| "http_status (ServiceUnavailable _) = 503"
| "http_status (DbError _) = 500"
| "http_status (JsError _) = 500"

lemma mapDbError_simps [simp]:
  "mapDbError (NotFound m) = None" "mapDbError (Conflict b) = None"
  "mapDbError (BadRequest m) = None" "mapDbError (Unauthorized m) = None"
  "mapDbError (Forbidden m) = None" "mapDbError (InternalError m) = None"
  "mapDbError (JsError m) = None" "mapDbError (BadGateway m) = None"
  "mapDbError (ServiceUnavailable m) = None"
  "mapDbError (DbError c) = map_option Conflict (map_of constraint_map c)"
  by (simp_all add: mapDbError_def)

lemma intercept_Inr [simp]: "intercept (Inr x) = Inr x"
  by (simp add: intercept_def)

lemma intercept_Inr_iff [simp]: "intercept r = Inr x \<longleftrightarrow> r = Inr x"
  by (cases r) (auto simp: intercept_def)

lemma intercept_overlap [simp]:
  "intercept (Inl (DbError ''booking_no_overlap'')) = Inl (Conflict (Dates_unavailable [Overlap]))"
  by (simp add: intercept_def constraint_map_def)

lemma intercept_conflict [simp]: "intercept (Inl (Conflict c)) = Inl (Conflict c)"
  by (simp add: intercept_def)

text \<open>
  The interceptor is idempotent, answers conflicts every client can parse, and never touches an
  answer that is already an HTTP exception.
\<close>

lemma intercept_idem: "intercept (intercept r) = intercept r"
  by (auto simp: intercept_def mapDbError_def split: sum.split app_error.split option.split)

lemma constraint_map_bodies: "map_of constraint_map c = Some b \<Longrightarrow> parseConflictBody b = Some b"
  by (auto simp: constraint_map_def parseConflictBody_def split: if_splits)

end
