(* ===== verification/Money.thy ===== *)
theory Money
  imports Errors "HOL-Library.Signed_Division"
begin

text \<open>
  Integer rupiah: the bounds of the wire form (\<^verbatim>\<open>packages/shared/src/money.ts\<close>), the ceiling on a
  nightly rate (\<^verbatim>\<open>unit.ts\<close>) and the deposit share (\<^verbatim>\<open>apps/api/src/payments/deposit.ts\<close>). BigInt is
  \<^theory_text>\<open>int\<close>; BigInt division truncates toward zero, which is \<open>sdiv\<close>.
\<close>

definition MAX_SAFE_INTEGER :: int where
  "MAX_SAFE_INTEGER = 2 ^ 53 - 1"

definition MAX_NIGHTLY_RATE_IDR :: int where
  "MAX_NIGHTLY_RATE_IDR = 1000000000"

definition rupiahSchema :: "int \<Rightarrow> bool" where
  "rupiahSchema n \<longleftrightarrow> 0 \<le> n \<and> n \<le> MAX_SAFE_INTEGER"

definition toRupiah :: "int \<Rightarrow> app_error + int" where
  "toRupiah value =
     (if value < 0 \<or> value > MAX_SAFE_INTEGER then Inl (JsError ''RangeError'') else Inr value)"

definition depositAmountIdr :: "int \<Rightarrow> int \<Rightarrow> int" where
  "depositAmountIdr totalPriceIdr pct = (totalPriceIdr * pct) sdiv 100"

definition isSellable :: "int \<Rightarrow> bool" where
  "isSellable basePriceIdr \<longleftrightarrow> basePriceIdr > 0"

lemma toRupiah_Inr_iff [simp]: "toRupiah v = Inr n \<longleftrightarrow> rupiahSchema v \<and> n = v"
  by (auto simp: toRupiah_def rupiahSchema_def)

lemma toRupiah_ok: "rupiahSchema v \<Longrightarrow> toRupiah v = Inr v"
  by simp

lemma toRupiah_Inl_iff [simp]:
  "toRupiah v = Inl e \<longleftrightarrow> \<not> rupiahSchema v \<and> e = JsError ''RangeError''"
  by (auto simp: toRupiah_def rupiahSchema_def)

lemma depositAmountIdr_floor:
  assumes "0 \<le> t" "0 \<le> p"
  shows "depositAmountIdr t p = t * p div 100"
  using assms by (simp add: depositAmountIdr_def signed_divide_int_def sgn_if)

lemma deposit_bounds:
  assumes "0 \<le> t" "1 \<le> p" "p \<le> 100"
  shows "0 \<le> depositAmountIdr t p" "depositAmountIdr t p \<le> t"
    "100 * depositAmountIdr t p \<le> t * p" "t * p < 100 * depositAmountIdr t p + 100"
proof -
  have d: "depositAmountIdr t p = t * p div 100" using assms by (simp add: depositAmountIdr_floor)
  have "t * p \<le> t * 100" using assms by (intro mult_left_mono) auto
  then have "t * p div 100 \<le> t" by simp
  then show "depositAmountIdr t p \<le> t" by (simp add: d)
  show "0 \<le> depositAmountIdr t p" using assms by (simp add: d pos_imp_zdiv_nonneg_iff)
  show "100 * depositAmountIdr t p \<le> t * p" "t * p < 100 * depositAmountIdr t p + 100"
    unfolding d by simp_all
qed

lemma deposit_full: "0 \<le> t \<Longrightarrow> depositAmountIdr t 100 = t"
  by (simp add: depositAmountIdr_floor)

end
