(* ===== verification/Schema.thy ===== *)
theory Schema
  imports Money
begin

text \<open>
  The database of \<^verbatim>\<open>packages/db/src/schema.ts\<close>: one record per table, the table contents as lists of
  rows, and the constraints that arbitrate the writes of \<^verbatim>\<open>booking\<close>, \<^verbatim>\<open>payment_event\<close> and the other
  tables. An UPDATE or INSERT checks its new rows against the resulting table and answers the name
  of the violated constraint, as PostgreSQL does.
\<close>

section \<open>Enumerations\<close>

datatype user_role = Owner | Staff

datatype sync_status = Sync_never | Sync_ok | Sync_error

datatype payment_status = Pay_pending | Pay_paid | Pay_failed

datatype conflict_status = Conf_open | Conf_resolved | Conf_dismissed

text \<open>A parsed JSON value (a webhook body, a \<^verbatim>\<open>jsonb\<close> column); numbers are whole.\<close>

datatype json =
    J_null
  | J_bool bool
  | J_num int
  | J_str string
  | J_arr "json list"
  | J_obj "(string \<times> json) list"

section \<open>Rows\<close>

text \<open>
  The columns in the order of the table declarations. A \<^verbatim>\<open>double precision\<close> coordinate is only
  stored and returned, so it is kept as its text; \<open>py_session\<close> is the payment session that
  \<^verbatim>\<open>payment.raw_payload\<close> holds.
\<close>

type_synonym double = string

record tenant_row =
  t_id :: uuid
  t_name :: string
  t_galleryCap :: int
  t_createdAt :: instant

record app_user_row =
  au_id :: uuid
  au_email :: string
  au_passwordHash :: string
  au_createdAt :: instant

record membership_row =
  m_appUserId :: uuid
  m_tenantId :: uuid
  m_role :: user_role
  m_createdAt :: instant

record property_row =
  p_id :: uuid
  p_tenantId :: uuid
  p_name :: string
  p_slug :: string
  p_address :: "string option"
  p_latitude :: "double option"
  p_longitude :: "double option"
  p_description :: "string option"
  p_photos :: "string list"
  p_licenseNo :: "string option"
  p_archivedAt :: "instant option"
  p_depositPct :: int
  p_timeZone :: string
  p_createdAt :: instant

record user_property_row =
  up_appUserId :: uuid
  up_propertyId :: uuid
  up_tenantId :: uuid

record staff_invite_row =
  si_id :: uuid
  si_tenantId :: uuid
  si_email :: string
  si_tokenHash :: string
  si_expiresAt :: instant
  si_acceptedAt :: "instant option"
  si_revokedAt :: "instant option"
  si_createdBy :: uuid
  si_createdAt :: instant

record staff_invite_property_row =
  sip_inviteId :: uuid
  sip_propertyId :: uuid
  sip_tenantId :: uuid

record unit_row =
  u_id :: uuid
  u_propertyId :: uuid
  u_tenantId :: uuid
  u_name :: string
  u_basePriceIdr :: int
  u_maxGuests :: int
  u_minStay :: int
  u_archivedAt :: "instant option"
  u_createdAt :: instant

record price_override_row =
  po_id :: uuid
  po_unitId :: uuid
  po_tenantId :: uuid
  po_fromDate :: date
  po_toDate :: date
  po_nightlyPriceIdr :: int
  po_createdAt :: instant

record channel_row =
  ch_id :: uuid
  ch_unitId :: uuid
  ch_tenantId :: uuid
  ch_channel :: booking_source
  ch_importIcalUrl :: string
  ch_lastSyncedAt :: "instant option"
  ch_lastStatus :: sync_status
  ch_lastError :: "string option"
  ch_createdAt :: instant

record conflict_row =
  sc_id :: uuid
  sc_tenantId :: uuid
  sc_channelConnectionId :: uuid
  sc_unitId :: uuid
  sc_externalUid :: string
  sc_checkIn :: date
  sc_checkOut :: date
  sc_status :: conflict_status
  sc_firstDetectedAt :: instant
  sc_lastSeenAt :: instant
  sc_closedAt :: "instant option"

record booking_row =
  bk_id :: uuid
  bk_tenantId :: uuid
  bk_unitId :: uuid
  bk_source :: booking_source
  bk_status :: booking_status
  bk_checkIn :: date
  bk_checkOut :: date
  bk_guestName :: "string option"
  bk_guestPhone :: "string option"
  bk_guestEmail :: "string option"
  bk_guestCount :: "int option"
  bk_totalPriceIdr :: "int option"
  bk_externalUid :: "string option"
  bk_channelConnectionId :: "uuid option"
  bk_holdExpiresAt :: "instant option"
  bk_createdAt :: instant

record payment_session =
  ps_token :: string
  ps_redirectUrl :: string

record payment_row =
  py_id :: uuid
  py_bookingId :: uuid
  py_provider :: string
  py_providerRef :: "string option"
  py_amountIdr :: int
  py_status :: payment_status
  py_handledAt :: "instant option"
  py_session :: "payment_session option"
  py_createdAt :: instant
  py_updatedAt :: instant

record payment_event_row =
  pe_id :: uuid
  pe_provider :: string
  pe_providerEventId :: string
  pe_bookingId :: "uuid option"
  pe_rawPayload :: "json option"
  pe_receivedAt :: instant

record credential_row =
  tc_id :: uuid
  tc_tenantId :: uuid
  tc_provider :: string
  tc_environment :: string
  tc_ciphertext :: string
  tc_nonce :: string
  tc_keyVersion :: int
  tc_lastVerifyStatus :: string
  tc_lastVerifyAt :: "instant option"
  tc_createdAt :: instant
  tc_updatedAt :: instant

record db =
  tenants :: "tenant_row list"
  app_users :: "app_user_row list"
  memberships :: "membership_row list"
  properties :: "property_row list"
  user_properties :: "user_property_row list"
  staff_invites :: "staff_invite_row list"
  staff_invite_properties :: "staff_invite_property_row list"
  units :: "unit_row list"
  price_overrides :: "price_override_row list"
  channels :: "channel_row list"
  sync_conflicts :: "conflict_row list"
  bookings :: "booking_row list"
  payments :: "payment_row list"
  payment_events :: "payment_event_row list"
  credentials :: "credential_row list"

definition empty_db :: db where
  "empty_db = \<lparr>tenants = [], app_users = [], memberships = [], properties = [],
     user_properties = [], staff_invites = [], staff_invite_properties = [], units = [],
     price_overrides = [], channels = [], sync_conflicts = [], bookings = [], payments = [],
     payment_events = [], credentials = []\<rparr>"

end
