(* ===== verification/Exclusion.thy ===== *)
theory Exclusion
  imports Prelude
begin

text \<open>
  The exclusion constraints of the database, as an interface. Two tables carry one: \<^verbatim>\<open>booking\<close>
  (\<^verbatim>\<open>booking_no_overlap\<close>, over the occupying statuses) and \<^verbatim>\<open>unit_price_override\<close>
  (\<^verbatim>\<open>price_override_no_overlap\<close>, over every row). The locale collects what such a constraint
  promises about the table it guards.
\<close>

text \<open>\<^verbatim>\<open>daterange(a, b, '[)') && daterange(c, d, '[)')\<close>: an empty range overlaps nothing.\<close>

definition range_overlaps :: "date \<Rightarrow> date \<Rightarrow> date \<Rightarrow> date \<Rightarrow> bool" where
  "range_overlaps a b c d \<longleftrightarrow> a < b \<and> c < d \<and> a < d \<and> c < b"

lemma range_overlaps_sym: "range_overlaps a b c d \<longleftrightarrow> range_overlaps c d a b"
  by (auto simp: range_overlaps_def)

lemma range_overlaps_iff_common:
  "range_overlaps a b c d \<longleftrightarrow> {a..<b} \<inter> {c..<d} \<noteq> {}"
proof
  assume "range_overlaps a b c d"
  then have "max a c \<in> {a..<b} \<inter> {c..<d}"
    by (auto simp: range_overlaps_def max_def)
  then show "{a..<b} \<inter> {c..<d} \<noteq> {}" by blast
next
  assume "{a..<b} \<inter> {c..<d} \<noteq> {}"
  then obtain x where "x \<in> {a..<b}" "x \<in> {c..<d}" by blast
  then have "a \<le> x" "x < b" "c \<le> x" "x < d" by simp_all
  then show "range_overlaps a b c d" unfolding range_overlaps_def by (meson order_le_less_trans)
qed

text \<open>
  \<^verbatim>\<open>EXCLUDE USING gist (unit_id WITH =, daterange(lo, hi, '[)') WITH &&) WHERE (occ)\<close>: row \<open>r\<close> is
  refused when another row of the table holds the same unit on a common night.
\<close>

definition excl_conflict ::
  "('r \<Rightarrow> uuid) \<Rightarrow> ('r \<Rightarrow> uuid) \<Rightarrow> ('r \<Rightarrow> date) \<Rightarrow> ('r \<Rightarrow> date) \<Rightarrow> ('r \<Rightarrow> bool) \<Rightarrow> 'r list \<Rightarrow> 'r \<Rightarrow> bool"
  where
  "excl_conflict rid key lo hi occ rows r \<longleftrightarrow>
     occ r \<and> (\<exists>q \<in> set rows. rid q \<noteq> rid r \<and> occ q \<and> key q = key r \<and>
       range_overlaps (lo q) (hi q) (lo r) (hi r))"

definition no_overlap ::
  "('r \<Rightarrow> uuid) \<Rightarrow> ('r \<Rightarrow> uuid) \<Rightarrow> ('r \<Rightarrow> date) \<Rightarrow> ('r \<Rightarrow> date) \<Rightarrow> ('r \<Rightarrow> bool) \<Rightarrow> 'r list \<Rightarrow> bool"
  where
  "no_overlap rid key lo hi occ rows \<longleftrightarrow>
     (\<forall>r \<in> set rows. \<forall>q \<in> set rows. rid q \<noteq> rid r \<and> occ q \<and> occ r \<and> key q = key r \<longrightarrow>
        \<not> range_overlaps (lo q) (hi q) (lo r) (hi r))"

fun first_violation :: "('r \<Rightarrow> string option) \<Rightarrow> 'r list \<Rightarrow> string option" where
  "first_violation v [] = None"
| "first_violation v (r # rs) = (case v r of Some c \<Rightarrow> Some c | None \<Rightarrow> first_violation v rs)"

lemma first_violation_None [simp]: "first_violation v rs = None \<longleftrightarrow> (\<forall>r \<in> set rs. v r = None)"
  by (induction rs) (auto split: option.splits)

lemma first_violation_Some: "first_violation v rs = Some c \<Longrightarrow> \<exists>r \<in> set rs. v r = Some c"
  by (induction rs) (auto split: option.splits)

locale excl_table =
  fixes rid key :: "'r \<Rightarrow> uuid"
    and lo hi :: "'r \<Rightarrow> date"
    and occ :: "'r \<Rightarrow> bool"
    and violation :: "'r list \<Rightarrow> 'r \<Rightarrow> string option"
  assumes violation_range: "violation rows r = None \<Longrightarrow> lo r < hi r"
    and violation_excl: "violation rows r = None \<Longrightarrow> \<not> excl_conflict rid key lo hi occ rows r"
begin

definition table_ok :: "'r list \<Rightarrow> bool" where
  "table_ok rows \<longleftrightarrow> distinct (map rid rows) \<and> (\<forall>r \<in> set rows. lo r < hi r) \<and>
     no_overlap rid key lo hi occ rows"

lemma table_ok_Nil [simp]: "table_ok []"
  by (simp add: table_ok_def no_overlap_def)

lemma insert_ok:
  assumes "table_ok rows" "rid r \<notin> rid ` set rows" "violation (rows @ [r]) r = None"
  shows "table_ok (rows @ [r])"
  using assms violation_range [OF assms(3)] violation_excl [OF assms(3)]
  by (auto simp: table_ok_def no_overlap_def excl_conflict_def range_overlaps_sym)

lemma update_ok:
  assumes "table_ok rows" "\<And>r. rid (f r) = rid r"
    and "\<forall>r \<in> set rows. P r \<longrightarrow> violation (update_where P f rows) (f r) = None"
  shows "table_ok (update_where P f rows)"
proof -
  let ?new = "update_where P f rows"
  have ids: "map rid ?new = map rid rows" by (intro map_update_where) (simp add: assms(2))
  have touched: "lo (f r) < hi (f r)" "\<not> excl_conflict rid key lo hi occ ?new (f r)"
    if "r \<in> set rows" "P r" for r
    using that assms(3) violation_range violation_excl by blast+
  have rng: "lo r < hi r" if "r \<in> set ?new" for r
    using that assms(1) touched(1) by (auto simp: set_update_where table_ok_def)
  have "\<not> range_overlaps (lo q) (hi q) (lo r) (hi r)"
    if r: "r \<in> set ?new" and q: "q \<in> set ?new" and o: "rid q \<noteq> rid r" "occ q" "occ r" "key q = key r"
    for r q
  proof -
    obtain r0 where r0: "r0 \<in> set rows" "r = (if P r0 then f r0 else r0)"
      using r by (auto simp: set_update_where)
    obtain q0 where q0: "q0 \<in> set rows" "q = (if P q0 then f q0 else q0)"
      using q by (auto simp: set_update_where)
    show ?thesis
    proof (cases "P r0 \<or> P q0")
      case True
      then have "\<not> excl_conflict rid key lo hi occ ?new r \<or> \<not> excl_conflict rid key lo hi occ ?new q"
        using r0 q0 touched(2) by auto
      then show ?thesis
        using r q o unfolding excl_conflict_def by (metis range_overlaps_sym)
    next
      case False
      with r0 q0 o assms(1) show ?thesis by (auto simp: table_ok_def no_overlap_def)
    qed
  qed
  with ids rng assms(1) show ?thesis by (auto simp: table_ok_def no_overlap_def)
qed

text \<open>A unit has at most one occupying row on a night.\<close>

lemma night_unique:
  assumes "table_ok rows" "r \<in> set rows" "q \<in> set rows" "occ r" "occ q" "key r = key q"
    and "lo r \<le> x" "x < hi r" "lo q \<le> x" "x < hi q"
  shows "r = q"
proof (rule ccontr)
  assume "r \<noteq> q"
  with assms(1-3) have "rid q \<noteq> rid r"
    by (auto simp: table_ok_def distinct_map inj_on_def)
  moreover have "range_overlaps (lo q) (hi q) (lo r) (hi r)"
    using assms by (auto simp: range_overlaps_def table_ok_def dest: order_le_less_trans)
  ultimately show False using assms by (auto simp: table_ok_def no_overlap_def)
qed

text \<open>Two occupying rows of a unit are disjoint, so their ranges are comparable.\<close>

lemma disjoint_ranges:
  assumes "table_ok rows" "r \<in> set rows" "q \<in> set rows" "occ r" "occ q" "key r = key q" "r \<noteq> q"
  shows "hi r \<le> lo q \<or> hi q \<le> lo r"
proof -
  have "rid q \<noteq> rid r" using assms by (auto simp: table_ok_def distinct_map inj_on_def)
  then have "\<not> range_overlaps (lo q) (hi q) (lo r) (hi r)"
    using assms unfolding table_ok_def no_overlap_def by metis
  moreover have "lo q < hi q" "lo r < hi r" using assms by (auto simp: table_ok_def)
  ultimately show ?thesis by (auto simp: range_overlaps_def not_less)
qed

text \<open>Shrinking what occupies keeps the table.\<close>

lemma weaken_ok:
  assumes "table_ok rows" "\<And>r. rid (f r) = rid r \<and> key (f r) = key r \<and> lo (f r) = lo r \<and> hi (f r) = hi r"
    and "\<And>r. r \<in> set rows \<Longrightarrow> P r \<Longrightarrow> occ (f r) \<Longrightarrow> occ r"
  shows "table_ok (update_where P f rows)"
proof -
  have ids: "map rid (update_where P f rows) = map rid rows"
    by (intro map_update_where) (simp add: assms(2))
  have "no_overlap rid key lo hi occ (update_where P f rows)"
    using assms unfolding table_ok_def no_overlap_def set_update_where
    by (auto split: if_splits)
  with ids assms(1,2) show ?thesis by (auto simp: table_ok_def set_update_where)
qed

lemma filter_ok: "table_ok rows \<Longrightarrow> table_ok (filter P rows)"
  by (auto simp: table_ok_def no_overlap_def distinct_map intro: inj_on_subset)

end

end
