(* ===== verification/Booking_Table.thy ===== *)
theory Booking_Table
  imports Schema Exclusion
begin

text \<open>
  The \<^verbatim>\<open>booking\<close> table with its constraints, and the three statements the code issues on it:
  INSERT, UPDATE and the idempotent upsert of the calendar import. \<open>booking_table_ok\<close> is the
  ledger invariant every operation of the later theories keeps.
\<close>

definition occupies :: "booking_row \<Rightarrow> bool" where
  "occupies r \<longleftrightarrow> bk_status r \<in> set OCCUPYING_STATUSES"

lemma occupies_iff [guard_simps]:
  "occupies r \<longleftrightarrow> bk_status r = Pending_payment \<or> bk_status r = Confirmed"
  by (simp add: occupies_def OCCUPYING_STATUSES_def)

text \<open>The CHECK constraints of the table.\<close>

definition booking_check :: "booking_row \<Rightarrow> string option" where
  "booking_check r =
     (if \<not> (case bk_guestCount r of None \<Rightarrow> True | Some n \<Rightarrow> n > 0)
      then Some ''booking_guest_count_positive''
      else if \<not> bk_checkOut r > bk_checkIn r then Some ''booking_stay_nonempty''
      else if \<not> (case bk_totalPriceIdr r of None \<Rightarrow> True | Some n \<Rightarrow> n \<ge> 0)
      then Some ''booking_total_price_nonneg''
      else None)"

text \<open>\<^verbatim>\<open>booking_no_overlap\<close>, over the occupying rows.\<close>

definition booking_no_overlap_refuses :: "booking_row list \<Rightarrow> booking_row \<Rightarrow> bool" where
  "booking_no_overlap_refuses =
     excl_conflict bk_id bk_unitId bk_checkIn bk_checkOut occupies"

text \<open>\<^verbatim>\<open>booking_external_uid_uniq\<close>: one row per connection and UID (NULLs never collide).\<close>

definition same_feed_event :: "booking_row \<Rightarrow> booking_row \<Rightarrow> bool" where
  "same_feed_event q r \<longleftrightarrow>
     bk_externalUid r \<noteq> None \<and> bk_externalUid q = bk_externalUid r \<and>
     bk_channelConnectionId r \<noteq> None \<and> bk_channelConnectionId q = bk_channelConnectionId r"

definition booking_violation :: "db \<Rightarrow> booking_row list \<Rightarrow> booking_row \<Rightarrow> string option" where
  "booking_violation d rows r =
     (case booking_check r of Some c \<Rightarrow> Some c
      | None \<Rightarrow>
          if booking_no_overlap_refuses rows r then Some ''booking_no_overlap''
          else if \<exists>q \<in> set rows. bk_id q \<noteq> bk_id r \<and> same_feed_event q r
          then Some ''booking_external_uid_uniq''
          else if \<not> (\<exists>u \<in> set (units d). u_id u = bk_unitId r \<and> u_tenantId u = bk_tenantId r)
          then Some ''booking_unit_tenant_fk''
          else None)"

text \<open>\<^verbatim>\<open>INSERT INTO booking\<close>; the id is the fresh \<^verbatim>\<open>gen_random_uuid()\<close>.\<close>

definition insert_booking :: "booking_row \<Rightarrow> db \<Rightarrow> app_error + db" where
  "insert_booking r d =
     (let rows = bookings d @ [r] in
      if \<exists>q \<in> set (bookings d). bk_id q = bk_id r then Inl (DbError ''booking_pkey'')
      else case booking_violation d rows r of
        Some c \<Rightarrow> Inl (DbError c)
      | None \<Rightarrow> Inr (d\<lparr>bookings := rows\<rparr>))"

text \<open>\<^verbatim>\<open>UPDATE booking SET f WHERE P\<close>: every touched row is checked in the resulting table.\<close>

definition update_booking ::
  "(booking_row \<Rightarrow> bool) \<Rightarrow> (booking_row \<Rightarrow> booking_row) \<Rightarrow> db \<Rightarrow> app_error + db" where
  "update_booking P f d =
     (let rows = update_where P f (bookings d) in
      case first_violation (booking_violation d rows) (map f (filter P (bookings d))) of
        Some c \<Rightarrow> Inl (DbError c)
      | None \<Rightarrow> Inr (d\<lparr>bookings := rows\<rparr>))"

section \<open>The ledger invariant\<close>

definition booking_table_ok :: "db \<Rightarrow> bool" where
  "booking_table_ok d \<longleftrightarrow>
     distinct (map bk_id (bookings d)) \<and>
     (\<forall>r \<in> set (bookings d). booking_check r = None) \<and>
     no_overlap bk_id bk_unitId bk_checkIn bk_checkOut occupies (bookings d) \<and>
     (\<forall>r \<in> set (bookings d). \<forall>q \<in> set (bookings d). bk_id q \<noteq> bk_id r \<longrightarrow> \<not> same_feed_event q r) \<and>
     (\<forall>r \<in> set (bookings d).
        \<exists>u \<in> set (units d). u_id u = bk_unitId r \<and> u_tenantId u = bk_tenantId r)"

lemma booking_check_stay: "booking_check r = None \<Longrightarrow> bk_checkIn r < bk_checkOut r"
  by (simp add: booking_check_def split: if_splits)

lemma booking_violation_None:
  "booking_violation d rows r = None \<longleftrightarrow>
     booking_check r = None \<and> \<not> booking_no_overlap_refuses rows r \<and>
     \<not> (\<exists>q \<in> set rows. bk_id q \<noteq> bk_id r \<and> same_feed_event q r) \<and>
     (\<exists>u \<in> set (units d). u_id u = bk_unitId r \<and> u_tenantId u = bk_tenantId r)"
  by (auto simp: booking_violation_def split: option.splits)

interpretation bt: excl_table bk_id bk_unitId bk_checkIn bk_checkOut occupies "booking_violation d"
  for d
  by unfold_locales
    (auto simp: booking_violation_None booking_no_overlap_refuses_def intro: booking_check_stay)

lemma booking_table_ok_bt: "booking_table_ok d \<Longrightarrow> bt.table_ok (bookings d)"
  by (auto simp: booking_table_ok_def bt.table_ok_def intro: booking_check_stay)

lemma booking_table_okI:
  assumes "bt.table_ok (bookings d)" "\<forall>r \<in> set (bookings d). booking_check r = None"
    "\<forall>r \<in> set (bookings d). \<forall>q \<in> set (bookings d). bk_id q \<noteq> bk_id r \<longrightarrow> \<not> same_feed_event q r"
    "\<forall>r \<in> set (bookings d).
        \<exists>u \<in> set (units d). u_id u = bk_unitId r \<and> u_tenantId u = bk_tenantId r"
  shows "booking_table_ok d"
  using assms by (auto simp: booking_table_ok_def bt.table_ok_def)

lemma insert_booking_cases:
  assumes "insert_booking r d = Inr d'"
  shows "d' = d\<lparr>bookings := bookings d @ [r]\<rparr>" "bk_id r \<notin> bk_id ` set (bookings d)"
    "booking_violation d (bookings d @ [r]) r = None"
  using assms by (auto simp: insert_booking_def Let_def split: if_splits option.splits)

lemma same_feed_event_sym: "same_feed_event q r \<longleftrightarrow> same_feed_event r q"
  by (auto simp: same_feed_event_def)

lemma insert_booking_ok:
  assumes "booking_table_ok d" "insert_booking r d = Inr d'"
  shows "booking_table_ok d'"
proof -
  note c = insert_booking_cases [OF assms(2)]
  have "bt.table_ok (bookings d @ [r])"
    using booking_table_ok_bt [OF assms(1)] c(2,3) by (rule bt.insert_ok)
  then show ?thesis
    using assms(1) c(3) unfolding c(1)
    by (intro booking_table_okI)
      (auto simp: booking_table_ok_def booking_violation_None same_feed_event_sym)
qed

lemma update_booking_cases:
  assumes "update_booking P f d = Inr d'"
  shows "d' = d\<lparr>bookings := update_where P f (bookings d)\<rparr>"
    "\<forall>r \<in> set (bookings d). P r \<longrightarrow>
       booking_violation d (update_where P f (bookings d)) (f r) = None"
  using assms by (auto simp: update_booking_def Let_def split: option.splits)

lemma update_booking_ok:
  assumes "booking_table_ok d" "update_booking P f d = Inr d'" "\<And>r. bk_id (f r) = bk_id r"
  shows "booking_table_ok d'"
proof -
  note c = update_booking_cases [OF assms(2)]
  let ?new = "update_where P f (bookings d)"
  have "bt.table_ok ?new"
    using booking_table_ok_bt [OF assms(1)] assms(3) c(2) by (rule bt.update_ok)
  moreover have "\<forall>r \<in> set ?new. booking_check r = None"
    using assms(1) c(2) by (auto simp: set_update_where booking_table_ok_def booking_violation_None)
  moreover have "\<forall>r \<in> set ?new. \<exists>u \<in> set (units d). u_id u = bk_unitId r \<and> u_tenantId u = bk_tenantId r"
    using assms(1) c(2) by (auto simp: set_update_where booking_table_ok_def booking_violation_None)
  moreover have "\<not> same_feed_event q r"
    if "r \<in> set ?new" "q \<in> set ?new" "bk_id q \<noteq> bk_id r" for r q
  proof -
    obtain r0 q0 where rq: "r0 \<in> set (bookings d)" "r = (if P r0 then f r0 else r0)"
      "q0 \<in> set (bookings d)" "q = (if P q0 then f q0 else q0)"
      using \<open>r \<in> set ?new\<close> \<open>q \<in> set ?new\<close> unfolding set_update_where by blast
    show ?thesis
    proof (cases "P r0 \<or> P q0")
      case True
      then show ?thesis
        using rq c(2) that unfolding booking_violation_None by (metis same_feed_event_sym)
    next
      case False
      then show ?thesis using rq that(3) assms(1) by (simp add: booking_table_ok_def)
    qed
  qed
  ultimately show ?thesis
    unfolding c(1) by (intro booking_table_okI) simp_all
qed

text \<open>
  A statement that only changes statuses, and turns no free row into an occupying one, is never
  refused: the sweeps, the cancellations and the confirmations of the program are of this kind.
\<close>

definition status_update :: "(booking_row \<Rightarrow> booking_row) \<Rightarrow> bool" where
  "status_update f \<longleftrightarrow> (\<exists>s. f = (\<lambda>r. r\<lparr>bk_status := s\<rparr>))"

lemma status_update_fields:
  assumes "status_update f"
  shows "bk_id (f r) = bk_id r" "bk_unitId (f r) = bk_unitId r" "bk_checkIn (f r) = bk_checkIn r"
    "bk_checkOut (f r) = bk_checkOut r" "bk_tenantId (f r) = bk_tenantId r"
    "booking_check (f r) = booking_check r" "same_feed_event (f q) r = same_feed_event q r"
    "same_feed_event q (f r) = same_feed_event q r"
  using assms by (auto simp: status_update_def booking_check_def same_feed_event_def)

lemma status_update_admitted:
  assumes "booking_table_ok d" "status_update f"
    and "\<And>r. r \<in> set (bookings d) \<Longrightarrow> P r \<Longrightarrow> occupies (f r) \<Longrightarrow> occupies r"
  shows "update_booking P f d = Inr (d\<lparr>bookings := update_where P f (bookings d)\<rparr>)"
proof -
  let ?new = "update_where P f (bookings d)"
  note F = status_update_fields [OF assms(2)]
  have "bt.table_ok ?new"
    using booking_table_ok_bt [OF assms(1)] F assms(3) by (intro bt.weaken_ok) auto
  then have no: "\<not> booking_no_overlap_refuses ?new r" if "r \<in> set ?new" for r
    using that
    by (auto simp: bt.table_ok_def no_overlap_def booking_no_overlap_refuses_def excl_conflict_def)
  have "booking_violation d ?new (f r) = None" if r: "r \<in> set (bookings d)" "P r" for r
  proof -
    have "f r \<in> set ?new" using r by (auto simp: set_update_where)
    moreover have "booking_check (f r) = None" using r assms(1) by (simp add: F booking_table_ok_def)
    moreover have "\<not> (\<exists>q \<in> set ?new. bk_id q \<noteq> bk_id (f r) \<and> same_feed_event q (f r))"
      using r assms(1) by (auto simp: set_update_where F booking_table_ok_def)
    moreover have "\<exists>u \<in> set (units d). u_id u = bk_unitId (f r) \<and> u_tenantId u = bk_tenantId (f r)"
      using r assms(1) by (simp add: F booking_table_ok_def)
    ultimately show ?thesis using no by (simp add: booking_violation_None)
  qed
  then have "first_violation (booking_violation d ?new) (map f (filter P (bookings d))) = None"
    unfolding first_violation_None by auto
  then show ?thesis by (simp add: update_booking_def Let_def del: first_violation_None)
qed

text \<open>At most one occupying booking holds a unit on a night.\<close>

lemma booking_night_unique:
  assumes "booking_table_ok d" "r \<in> set (bookings d)" "q \<in> set (bookings d)" "occupies r" "occupies q"
    "bk_unitId r = bk_unitId q" "bk_checkIn r \<le> x" "x < bk_checkOut r" "bk_checkIn q \<le> x" "x < bk_checkOut q"
  shows "r = q"
  using bt.night_unique [OF booking_table_ok_bt [OF assms(1)]] assms(2-) by blast

end
