(* ===== verification/Tenancy.thy ===== *)
theory Tenancy
  imports Booking_Table
begin

text \<open>
  Who a request acts for, and what the database lets it see: the principal and its single
  minting (\<^verbatim>\<open>TenantContext\<close>), the entry of an unauthenticated request (\<^verbatim>\<open>PublicScope\<close>), the
  transaction of \<^verbatim>\<open>TenantDbService.run\<close> with its liveness flag and flat joins, and the row-level
  security policies of the migrations, as predicates on rows. A \<open>session\<close> holds the three settings
  a transaction carries.
\<close>

section \<open>Principals\<close>

datatype principal = User_principal uuid uuid user_role | Visitor_principal uuid

fun principal_tenant :: "principal \<Rightarrow> uuid" where
  "principal_tenant (User_principal userId tenantId role) = tenantId"
| "principal_tenant (Visitor_principal tenantId) = tenantId"

text \<open>The context of one request: at most one principal, minted once.\<close>

type_synonym tenant_context = "principal option"

definition context_set :: "principal \<Rightarrow> tenant_context \<Rightarrow> app_error + tenant_context" where
  "context_set p ctx =
     (case ctx of Some q \<Rightarrow> Inl (JsError ''principal already minted'') | None \<Rightarrow> Inr (Some p))"

definition context_tenantId :: "tenant_context \<Rightarrow> app_error + uuid" where
  "context_tenantId ctx =
     (case ctx of None \<Rightarrow> Inl (JsError ''Tenant context is empty'') | Some p \<Rightarrow> Inr (principal_tenant p))"

text \<open>\<^verbatim>\<open>RolesGuard.canActivate\<close>.\<close>

definition roles_guard :: "user_role list option \<Rightarrow> tenant_context \<Rightarrow> app_error + bool" where
  "roles_guard required ctx =
     (case required of
        None \<Rightarrow> Inr True
      | Some [] \<Rightarrow> Inr True
      | Some roles \<Rightarrow>
          (case ctx of
             Some (User_principal uid tid role) \<Rightarrow>
               if role \<in> set roles then Inr True
               else Inl (Forbidden ''This action is restricted'')
           | _ \<Rightarrow> Inl (Forbidden ''This action requires a signed-in user'')))"

section \<open>Entering a tenant without a session\<close>

definition enterFromSlug :: "string \<Rightarrow> db \<Rightarrow> tenant_context \<Rightarrow> app_error + tenant_context" where
  "enterFromSlug slug d ctx =
     (case select_one (\<lambda>p. p_slug p = slug) (properties d) of
        None \<Rightarrow> Inl (NotFound ''Property not found'')
      | Some p \<Rightarrow> context_set (Visitor_principal (p_tenantId p)) ctx)"

definition enterFromUnitId :: "uuid \<Rightarrow> db \<Rightarrow> tenant_context \<Rightarrow> app_error + tenant_context" where
  "enterFromUnitId unitId d ctx =
     (case select_one (\<lambda>u. u_id u = unitId) (units d) of
        None \<Rightarrow> Inl (NotFound ''Unit not found'')
      | Some u \<Rightarrow> context_set (Visitor_principal (u_tenantId u)) ctx)"

definition enterFromBookingId :: "uuid \<Rightarrow> db \<Rightarrow> tenant_context \<Rightarrow> app_error + tenant_context" where
  "enterFromBookingId bookingId d ctx =
     (case select_one (\<lambda>b. bk_id b = bookingId) (bookings d) of
        None \<Rightarrow> Inl (NotFound ''Booking not found'')
      | Some b \<Rightarrow> context_set (Visitor_principal (bk_tenantId b)) ctx)"

section \<open>The transaction of a request\<close>

datatype property_scope = Scope_all | Scope_assigned uuid

fun scopeFor :: "principal \<Rightarrow> property_scope" where
  "scopeFor (User_principal userId tenantId Staff) = Scope_assigned userId"
| "scopeFor (User_principal userId tenantId Owner) = Scope_all"
| "scopeFor (Visitor_principal tenantId) = Scope_all"

record session =
  s_tenantId :: uuid
  s_scope :: property_scope

definition session_of :: "principal \<Rightarrow> session" where
  "session_of p = \<lparr>s_tenantId = principal_tenant p, s_scope = scopeFor p\<rparr>"

record active_tx =
  tx_session :: session
  tx_alive :: bool

text \<open>
  \<^verbatim>\<open>TenantDbService.run\<close> up to the callback: the transaction the callback runs in, joined or
  fresh, or the error. A fresh one sets the three settings from the principal.
\<close>

definition run_enter :: "tenant_context \<Rightarrow> active_tx option \<Rightarrow> app_error + active_tx" where
  "run_enter ctx joined =
     (case ctx of
        None \<Rightarrow> Inl (JsError ''Tenant context is empty'')
      | Some p \<Rightarrow>
          (case joined of
             None \<Rightarrow> Inr \<lparr>tx_session = session_of p, tx_alive = True\<rparr>
           | Some tx \<Rightarrow>
               if \<not> tx_alive tx
               then Inl (JsError ''the surrounding transaction has already settled'')
               else if s_tenantId (tx_session tx) \<noteq> principal_tenant p
               then Inl (JsError ''the principal changed inside an open transaction'')
               else if s_scope (tx_session tx) \<noteq> scopeFor p
               then Inl (JsError ''the property scope changed inside an open transaction'')
               else Inr tx))"

definition db_run ::
  "tenant_context \<Rightarrow> active_tx option \<Rightarrow> (active_tx \<Rightarrow> app_error + 'a) \<Rightarrow> app_error + 'a" where
  "db_run ctx joined fn = bind_res (run_enter ctx joined) fn"

text \<open>The session guard: which statements a settled transaction still issues.\<close>

type_synonym statement = "string option"
  \<comment> \<open>the SQL text of the query object, if it has one\<close>

definition isTransactionControl :: "statement \<Rightarrow> bool" where
  "isTransactionControl q =
     (case q of
        None \<Rightarrow> False
      | Some text \<Rightarrow>
          let normalized = to_lower (js_trim text)
          in normalized = ''commit'' \<or> normalized = ''rollback'')"

definition guard_issue :: "active_tx \<Rightarrow> statement \<Rightarrow> app_error + session" where
  "guard_issue tx q =
     (if \<not> tx_alive tx \<and> \<not> isTransactionControl q
      then Inl (JsError ''statement issued after its transaction settled'')
      else Inr (tx_session tx))"

definition settle :: "active_tx \<Rightarrow> active_tx" where
  "settle tx = tx\<lparr>tx_alive := False\<rparr>"

definition assertInTransaction :: "active_tx option \<Rightarrow> app_error + unit" where
  "assertInTransaction joined =
     (case joined of
        Some tx \<Rightarrow> if tx_alive tx then Inr () else Inl (JsError ''must be called inside run'')
      | None \<Rightarrow> Inl (JsError ''must be called inside run''))"

section \<open>Row-level security\<close>

text \<open>
  The policy of \<^verbatim>\<open>user_property\<close> and the helper \<^verbatim>\<open>app_property_visible\<close>, whose own read of
  \<^verbatim>\<open>user_property\<close> is under that policy.
\<close>

definition rls_user_property :: "session \<Rightarrow> user_property_row \<Rightarrow> bool" where
  "rls_user_property s up \<longleftrightarrow>
     up_tenantId up = s_tenantId s \<and>
     (s_scope s = Scope_all \<or> s_scope s = Scope_assigned (up_appUserId up))"

definition app_property_visible :: "db \<Rightarrow> session \<Rightarrow> uuid \<Rightarrow> bool" where
  "app_property_visible d s propertyId \<longleftrightarrow>
     s_scope s = Scope_all \<or>
     (\<exists>up \<in> set (user_properties d). rls_user_property s up \<and> up_propertyId up = propertyId \<and>
        s_scope s = Scope_assigned (up_appUserId up))"

definition rls_property :: "db \<Rightarrow> session \<Rightarrow> property_row \<Rightarrow> bool" where
  "rls_property d s p \<longleftrightarrow> p_tenantId p = s_tenantId s \<and> app_property_visible d s (p_id p)"

definition rls_unit :: "db \<Rightarrow> session \<Rightarrow> unit_row \<Rightarrow> bool" where
  "rls_unit d s u \<longleftrightarrow> u_tenantId u = s_tenantId s \<and> app_property_visible d s (u_propertyId u)"

text \<open>\<^verbatim>\<open>booking\<close>, \<^verbatim>\<open>channel_connection\<close>, \<^verbatim>\<open>sync_conflict\<close> and \<^verbatim>\<open>unit_price_override\<close> reach the
  property through their unit, which is read under its own policy.\<close>

definition unit_visible :: "db \<Rightarrow> session \<Rightarrow> uuid \<Rightarrow> bool" where
  "unit_visible d s unitId \<longleftrightarrow>
     (\<exists>u \<in> set (units d). u_id u = unitId \<and> rls_unit d s u \<and> app_property_visible d s (u_propertyId u))"

definition rls_booking :: "db \<Rightarrow> session \<Rightarrow> booking_row \<Rightarrow> bool" where
  "rls_booking d s b \<longleftrightarrow> bk_tenantId b = s_tenantId s \<and> unit_visible d s (bk_unitId b)"

definition rls_channel :: "db \<Rightarrow> session \<Rightarrow> channel_row \<Rightarrow> bool" where
  "rls_channel d s c \<longleftrightarrow> ch_tenantId c = s_tenantId s \<and> unit_visible d s (ch_unitId c)"

definition rls_conflict :: "db \<Rightarrow> session \<Rightarrow> conflict_row \<Rightarrow> bool" where
  "rls_conflict d s c \<longleftrightarrow> sc_tenantId c = s_tenantId s \<and> unit_visible d s (sc_unitId c)"

definition rls_override :: "db \<Rightarrow> session \<Rightarrow> price_override_row \<Rightarrow> bool" where
  "rls_override d s o1 \<longleftrightarrow> po_tenantId o1 = s_tenantId s \<and> unit_visible d s (po_unitId o1)"

definition rls_payment :: "db \<Rightarrow> session \<Rightarrow> payment_row \<Rightarrow> bool" where
  "rls_payment d s p \<longleftrightarrow>
     (\<exists>b \<in> set (bookings d). bk_id b = py_bookingId p \<and> rls_booking d s b)"

definition rls_credential :: "session \<Rightarrow> credential_row \<Rightarrow> bool" where
  "rls_credential s c \<longleftrightarrow> tc_tenantId c = s_tenantId s"

text \<open>A row written under a session must satisfy the policy too (\<^verbatim>\<open>WITH CHECK\<close>).\<close>

definition rls_insert_booking :: "session \<Rightarrow> booking_row \<Rightarrow> db \<Rightarrow> app_error + db" where
  "rls_insert_booking s r d =
     (if rls_booking d s r then insert_booking r d else Inl (DbError ''row-level security''))"

section \<open>Isolation\<close>

lemma session_of_simps [simp]:
  "s_tenantId (session_of p) = principal_tenant p" "s_scope (session_of p) = scopeFor p"
  by (simp_all add: session_of_def)

lemma enter_tenant:
  "enterFromSlug slug d None = Inr ctx \<Longrightarrow>
     \<exists>p \<in> set (properties d). p_slug p = slug \<and> ctx = Some (Visitor_principal (p_tenantId p))"
  "enterFromUnitId uid d None = Inr ctx \<Longrightarrow>
     \<exists>u \<in> set (units d). u_id u = uid \<and> ctx = Some (Visitor_principal (u_tenantId u))"
  "enterFromBookingId bid d None = Inr ctx \<Longrightarrow>
     \<exists>b \<in> set (bookings d). bk_id b = bid \<and> ctx = Some (Visitor_principal (bk_tenantId b))"
  by (auto simp: enterFromSlug_def enterFromUnitId_def enterFromBookingId_def context_set_def
      split: option.splits dest!: select_one_SomeD)

text \<open>Every statement runs under the tenant and the scope of the request's own principal.\<close>

lemma run_enter_session:
  assumes "run_enter ctx joined = Inr tx"
  shows "\<exists>p. ctx = Some p \<and> tx_session tx = session_of p \<and> tx_alive tx"
  using assms
  by (auto simp: run_enter_def session_of_def split: option.splits if_splits)

lemma db_run_fresh [simp]:
  "db_run (Some p) None fn = fn \<lparr>tx_session = session_of p, tx_alive = True\<rparr>"
  by (simp add: db_run_def run_enter_def)

lemma db_run_join:
  "tx_alive tx \<Longrightarrow> tx_session tx = session_of p \<Longrightarrow> db_run (Some p) (Some tx) fn = fn tx"
  by (simp add: db_run_def run_enter_def)

lemma settled_issues_nothing:
  "guard_issue (settle tx) q = Inr s \<Longrightarrow> isTransactionControl q"
  by (auto simp: guard_issue_def settle_def split: if_splits)

lemma visible_same_tenant:
  "rls_booking d s b \<Longrightarrow> bk_tenantId b = s_tenantId s"
  "rls_unit d s u \<Longrightarrow> u_tenantId u = s_tenantId s"
  "rls_property d s p \<Longrightarrow> p_tenantId p = s_tenantId s"
  "rls_channel d s c \<Longrightarrow> ch_tenantId c = s_tenantId s"
  "rls_conflict d s x \<Longrightarrow> sc_tenantId x = s_tenantId s"
  "rls_override d s o1 \<Longrightarrow> po_tenantId o1 = s_tenantId s"
  by (auto simp: rls_booking_def rls_unit_def rls_property_def rls_channel_def rls_conflict_def
      rls_override_def)

lemma app_property_visible_all [simp]: "s_scope s = Scope_all \<Longrightarrow> app_property_visible d s pid"
  by (simp add: app_property_visible_def)

lemma app_property_visible_assigned:
  "s_scope s = Scope_assigned uid \<Longrightarrow>
   app_property_visible d s pid \<longleftrightarrow>
     (\<exists>up \<in> set (user_properties d). up_tenantId up = s_tenantId s \<and> up_appUserId up = uid \<and>
        up_propertyId up = pid)"
  by (auto simp: app_property_visible_def rls_user_property_def)

lemma unit_visible_all:
  "s_scope s = Scope_all \<Longrightarrow>
   unit_visible d s uid \<longleftrightarrow> (\<exists>u \<in> set (units d). u_id u = uid \<and> u_tenantId u = s_tenantId s)"
  by (auto simp: unit_visible_def rls_unit_def)

text \<open>With the ledger's foreign key, an owner or a visitor sees exactly the tenant's bookings.\<close>

lemma rls_booking_all:
  assumes "booking_table_ok d" "s_scope s = Scope_all" "b \<in> set (bookings d)"
  shows "rls_booking d s b \<longleftrightarrow> bk_tenantId b = s_tenantId s"
  using assms unfolding rls_booking_def unit_visible_all [OF assms(2)] booking_table_ok_def
  by metis

end
