(* ===== verification/Iso_Date.thy ===== *)
theory Iso_Date
  imports Prelude
begin

text \<open>
  Calendar dates: the \<^verbatim>\<open>YYYY-MM-DD\<close> strings the whole program passes around, the
  JavaScript \<^verbatim>\<open>Date\<close> arithmetic it does on them, and the helpers of
  \<^verbatim>\<open>packages/shared/src/availability.ts\<close> built on it. The main fact is that the
  lexicographic order of valid date strings is the chronological one, which is what lets
  the program compare dates as strings.
\<close>

section \<open>Decimal numerals\<close>

definition digit_val :: "char \<Rightarrow> nat" where
  "digit_val c = of_char c - 48"

definition digit_char :: "nat \<Rightarrow> char" where
  "digit_char n = char_of (n + 48)"

fun pad :: "nat \<Rightarrow> nat \<Rightarrow> string" where
  "pad 0 n = []"
| "pad (Suc w) n = pad w (n div 10) @ [digit_char (n mod 10)]"

definition num :: "string \<Rightarrow> nat" where
  "num s = foldl (\<lambda>a c. 10 * a + digit_val c) 0 s"

lemma digit_val_char [simp]: "n < 10 \<Longrightarrow> digit_val (digit_char n) = n"
  by (simp add: digit_val_def digit_char_def)

lemma is_digit_iff: "is_digit c \<longleftrightarrow> 48 \<le> (of_char c :: nat) \<and> (of_char c :: nat) \<le> 57"
  by (simp add: is_digit_def less_eq_char_def)

lemma is_digit_digit_char [simp]: "n < 10 \<Longrightarrow> is_digit (digit_char n)"
  by (simp add: is_digit_iff digit_char_def)

lemma digit_char_val [simp]: "is_digit c \<Longrightarrow> digit_char (digit_val c) = c"
  by (simp add: is_digit_iff digit_char_def digit_val_def)

lemma digit_val_less [simp]: "is_digit c \<Longrightarrow> digit_val c < 10"
  unfolding is_digit_iff digit_val_def by linarith

lemma digit_val_mono: "is_digit c \<Longrightarrow> is_digit d \<Longrightarrow> c < d \<longleftrightarrow> digit_val c < digit_val d"
  by (auto simp: is_digit_iff digit_val_def less_char_def)

lemma digit_val_inj: "is_digit c \<Longrightarrow> is_digit d \<Longrightarrow> digit_val c = digit_val d \<Longrightarrow> c = d"
  by (metis digit_char_val)

lemma length_pad [simp]: "length (pad w n) = w"
  by (induction w arbitrary: n) auto

lemma pad_digits: "list_all is_digit (pad w n)"
  by (induction w arbitrary: n) auto

lemma num_snoc [simp]: "num (s @ [c]) = 10 * num s + digit_val c"
  by (simp add: num_def)

lemma num_Nil [simp]: "num [] = 0"
  by (simp add: num_def)

lemma num_pad: "num (pad w n) = n mod 10 ^ w"
proof (induction w arbitrary: n)
  case (Suc w)
  have "n mod 10 ^ Suc w = 10 * (n div 10 mod 10 ^ w) + n mod 10"
    by (simp add: mod_mult2_eq)
  with Suc show ?case by simp
qed simp

lemma num_less: "list_all is_digit s \<Longrightarrow> num s < 10 ^ length s"
proof (induction s rule: rev_induct)
  case (snoc c s)
  then have "num s < 10 ^ length s" "digit_val c < 10" by auto
  then show ?case by simp
qed simp

lemma pad_num: "list_all is_digit s \<Longrightarrow> pad (length s) (num s) = s"
  by (induction s rule: rev_induct) auto

lemma num_inj:
  "list_all is_digit s \<Longrightarrow> list_all is_digit t \<Longrightarrow> length s = length t \<Longrightarrow>
   num s = num t \<longleftrightarrow> s = t"
  by (metis pad_num)

lemma num_mono:
  "length s = length t \<Longrightarrow> list_all is_digit s \<Longrightarrow> list_all is_digit t \<Longrightarrow>
   s < t \<longleftrightarrow> num s < num t"
proof (induction s arbitrary: t rule: rev_induct)
  case Nil
  then show ?case by simp
next
  case (snoc c s)
  then obtain d t' where t: "t = t' @ [d]" by (cases t rule: rev_cases) auto
  with snoc have *: "length s = length t'" "list_all is_digit s" "list_all is_digit t'"
    "is_digit c" "is_digit d" by auto
  then have "s < t' \<longleftrightarrow> num s < num t'" "s = t' \<longleftrightarrow> num s = num t'"
    using snoc.IH num_inj by auto
  moreover have "digit_val c < 10" "digit_val d < 10" "c < d \<longleftrightarrow> digit_val c < digit_val d"
    using * digit_val_mono by auto
  ultimately show ?case
    using * by (cases "num s" "num t'" rule: linorder_cases) (auto simp: t append_less_append simp del: digit_val_less)
qed

section \<open>The civil calendar\<close>

text \<open>
  ECMAScript's day numbers: \<^verbatim>\<open>DayFromYear\<close> and the days of the months. Years are those of
  the proleptic Gregorian calendar, days are counted from 1970-01-01.
\<close>

definition leap :: "int \<Rightarrow> bool" where
  "leap y \<longleftrightarrow> y mod 4 = 0 \<and> (y mod 100 \<noteq> 0 \<or> y mod 400 = 0)"

definition day_from_year :: "int \<Rightarrow> int" where
  "day_from_year y =
     365 * (y - 1970) + (y - 1969) div 4 - (y - 1901) div 100 + (y - 1601) div 400"

definition days_in_year :: "int \<Rightarrow> int" where
  "days_in_year y = (if leap y then 366 else 365)"

definition feb_days :: "int \<Rightarrow> int" where
  "feb_days y = (if leap y then 29 else 28)"

definition month_days :: "int \<Rightarrow> int list" where
  "month_days y = [31, feb_days y, 31, 30, 31, 30, 31, 31, 30, 31, 30, 31]"

text \<open>Days of the year before month \<open>m\<close> (1 to 12).\<close>

definition days_before :: "int \<Rightarrow> nat \<Rightarrow> int" where
  "days_before y m = sum_list (take (m - 1) (month_days y))"

definition days_in_month :: "int \<Rightarrow> nat \<Rightarrow> int" where
  "days_in_month y m = month_days y ! (m - 1)"

definition civil_days :: "int \<Rightarrow> nat \<Rightarrow> nat \<Rightarrow> int" where
  "civil_days y m d = day_from_year y + days_before y m + int d - 1"

lemma div_Suc_int:
  fixes a k :: int
  assumes "0 < k"
  shows "(a + 1) div k = a div k + (if (a + 1) mod k = 0 then 1 else 0)"
proof -
  define q r where "q = a div k" and "r = a mod k"
  have a: "a = k * q + r" and r: "0 \<le> r" "r < k"
    using assms by (simp_all add: q_def r_def)
  show ?thesis
  proof (cases "r + 1 = k")
    case True
    then have "a + 1 = k * (q + 1)" by (simp add: a algebra_simps)
    with assms show ?thesis by (simp add: q_def [symmetric])
  next
    case False
    with r a have "(a + 1) div k = q" "(a + 1) mod k = r + 1"
      by (intro int_div_pos_eq [of _ _ _ "r + 1"] int_mod_pos_eq [of _ _ q]; simp)+
    with r show ?thesis by (simp add: q_def)
  qed
qed

lemma mod_shift_int: "(y - k * c) mod k = y mod (k::int)"
  by (metis mod_mult_self2 diff_add_cancel mult.commute)

lemma leap_rule:
  "(c \<longrightarrow> b) \<Longrightarrow> (b \<longrightarrow> a) \<Longrightarrow> (if a \<and> (\<not> b \<or> c) then 366 else 365) =
   365 + (if a then 1 else 0) - (if b then 1 else 0) + (if c then 1 else (0::int))"
  by (cases a; cases b; cases c) simp_all

lemma year_step_rule:
  fixes y :: int
  shows "d = 365 + i - j + k \<Longrightarrow>
    e = 365 * (y - 1969) + (p + i) - (q + j) + (r + k) \<Longrightarrow> e = 365 * (y - 1970) + p - q + r + d"
  by simp

lemma day_from_year_Suc: "day_from_year (y + 1) = day_from_year y + days_in_year y"
proof -
  have 4: "(y - 1968) div 4 = (y - 1969) div 4 + (if y mod 4 = 0 then 1 else 0)"
    using div_Suc_int [of 4 "y - 1969"] mod_shift_int [of y 4 492] by simp
  have 100: "(y - 1900) div 100 = (y - 1901) div 100 + (if y mod 100 = 0 then 1 else 0)"
    using div_Suc_int [of 100 "y - 1901"] mod_shift_int [of y 100 19] by simp
  have 400: "(y - 1600) div 400 = (y - 1601) div 400 + (if y mod 400 = 0 then 1 else 0)"
    using div_Suc_int [of 400 "y - 1601"] mod_shift_int [of y 400 4] by simp
  have "y mod 400 = 0 \<Longrightarrow> y mod 100 = 0" "y mod 100 = 0 \<Longrightarrow> y mod 4 = 0"
    using mod_mod_cancel [of 100 400 y] mod_mod_cancel [of 4 100 y] by auto
  then have "days_in_year y = 365 + (if y mod 4 = 0 then 1 else 0)
      - (if y mod 100 = 0 then 1 else 0) + (if y mod 400 = 0 then 1 else 0)"
    unfolding days_in_year_def leap_def by (intro leap_rule) blast+
  moreover have "day_from_year (y + 1) =
      365 * (y - 1969) + (y - 1968) div 4 - (y - 1900) div 100 + (y - 1600) div 400"
  proof -
    have "y + 1 - 1970 = y - 1969" "y + 1 - 1969 = y - 1968" "y + 1 - 1901 = y - 1900"
      "y + 1 - 1601 = y - 1600" by linarith+
    then show ?thesis unfolding day_from_year_def by (simp only:)
  qed
  ultimately show ?thesis
    unfolding 4 100 400 day_from_year_def [of y] by (rule year_step_rule)
qed

lemma days_in_year_pos: "365 \<le> days_in_year y" "days_in_year y \<le> 366"
  by (auto simp: days_in_year_def)

lemma day_from_year_add: "day_from_year y + 365 * int k \<le> day_from_year (y + int k)"
proof (induction k)
  case (Suc k)
  have "day_from_year (y + int (Suc k)) = day_from_year (y + int k) + days_in_year (y + int k)"
    using day_from_year_Suc [of "y + int k"] by (simp add: algebra_simps)
  then show ?case using Suc days_in_year_pos(1) [of "y + int k"] by simp
qed simp

lemma day_from_year_next: "y < z \<Longrightarrow> day_from_year y + days_in_year y \<le> day_from_year z"
  using day_from_year_add [of "y + 1" "nat (z - y - 1)"]
  by (simp add: day_from_year_Suc)

lemma day_from_year_mono: "y \<le> z \<Longrightarrow> day_from_year y \<le> day_from_year z"
  using day_from_year_add [of y "nat (z - y)"] by simp

definition valid_md :: "int \<Rightarrow> nat \<Rightarrow> nat \<Rightarrow> bool" where
  "valid_md y m d \<longleftrightarrow> 1 \<le> m \<and> m \<le> 12 \<and> 1 \<le> d \<and> int d \<le> days_in_month y m"

lemma month_cases:
  assumes "1 \<le> m" "m \<le> (12::nat)"
  obtains "m = 1" | "m = 2" | "m = 3" | "m = 4" | "m = 5" | "m = 6" | "m = 7" | "m = 8"
    | "m = 9" | "m = 10" | "m = 11" | "m = 12"
  using assms by (metis One_nat_def Suc_1 Suc_numeral add_One le_SucE le_antisym
    numeral_nat(7) semiring_norm(2,3,5,8))

lemmas month_defs = days_before_def days_in_month_def month_days_def feb_days_def days_in_year_def

lemma days_before_Suc:
  assumes "1 \<le> m" "m < 12"
  shows "days_before y (Suc m) = days_before y m + days_in_month y m"
proof -
  obtain k where m: "m = Suc k" using assms by (cases m) auto
  with assms have "k < length (month_days y)" by (simp add: month_days_def)
  then show ?thesis by (simp add: days_before_def days_in_month_def m take_Suc_conv_app_nth)
qed

lemma days_before_12: "days_before y 12 + days_in_month y 12 = days_in_year y"
  by (simp add: month_defs)

lemma days_before_bounds:
  assumes "1 \<le> m" "m \<le> 12"
  shows "0 \<le> days_before y m \<and> days_before y m \<le> 335"
  by (rule month_cases [OF assms]) (simp_all only:, simp_all add: month_defs)

lemma days_before_mono:
  assumes "valid_md y m d" "m < m'" "m' \<le> 12"
  shows "days_before y m + int d \<le> days_before y m'"
proof -
  have "days_before y (m + 1) \<le> days_before y (m + 1 + k)" if "m + 1 + k \<le> 12" for k
    using that
  proof (induction k)
    case (Suc k)
    have "0 \<le> days_in_month y (m + 1 + k)"
      using Suc.prems unfolding days_in_month_def month_days_def feb_days_def
      by (intro order_trans [OF _ list_all_length [THEN iffD1, rule_format,
            of "\<lambda>n. (0::int) \<le> n"]]) auto
    with Suc days_before_Suc [of "m + 1 + k" y] show ?case by simp
  qed simp
  from this [of "m' - m - 1"] assms show ?thesis
    using days_before_Suc [of m y] by (simp add: valid_md_def)
qed

section \<open>From a day number back to a civil date\<close>

definition year_of_day :: "int \<Rightarrow> int" where
  "year_of_day n =
     (let era = (n + 719528) div 146097; c = (n + 719528) mod 146097 div 365;
          y = 400 * era + c
      in if n < day_from_year y then y - 1 else y)"

fun month_split :: "int list \<Rightarrow> int \<Rightarrow> nat \<times> int" where
  "month_split [] r = (1, r)"
| "month_split (d # ds) r =
     (if r < d then (1, r) else let (m, q) = month_split ds (r - d) in (Suc m, q))"

definition civil_of_days :: "int \<Rightarrow> int \<times> nat \<times> nat" where
  "civil_of_days n =
     (let y = year_of_day n; (m, r) = month_split (month_days y) (n - day_from_year y)
      in (y, m, nat (r + 1)))"

lemma year_unique:
  assumes "day_from_year y \<le> n" "n < day_from_year (y + 1)"
    "day_from_year z \<le> n" "n < day_from_year (z + 1)"
  shows "y = z"
  using assms day_from_year_mono [of "y + 1" z] day_from_year_mono [of "z + 1" y] by linarith

lemma day_from_year_era: "day_from_year (400 * e + c) = 146097 * e + day_from_year c"
proof -
  have "(400 * e + c - 1969) div 4 = 100 * e + (c - 1969) div 4"
    "(400 * e + c - 1901) div 100 = 4 * e + (c - 1901) div 100"
    "(400 * e + c - 1601) div 400 = e + (c - 1601) div 400"
    using div_mult_self1 [of 4 "c - 1969" "100 * e"] div_mult_self1 [of 100 "c - 1901" "4 * e"]
      div_mult_self1 [of 400 "c - 1601" e] by (simp_all add: algebra_simps)
  then show ?thesis
    unfolding day_from_year_def by (simp only: right_diff_distrib distrib_left mult.assoc [symmetric])
qed

lemma day_from_year_0: "day_from_year 0 = -719528" "day_from_year 400 = -573431"
  by (simp_all add: day_from_year_def)

lemma year_of_day_bounds:
  "day_from_year (year_of_day n) \<le> n" "n < day_from_year (year_of_day n + 1)"
proof -
  define e r where "e = (n + 719528) div 146097" and "r = (n + 719528) mod 146097"
  define c where "c = r div 365"
  have n: "n + 719528 = 146097 * e + r" and r: "0 \<le> r" "r < 146097"
    by (simp_all add: e_def r_def)
  have c: "0 \<le> c" "c \<le> 400" "365 * c \<le> r" "r < 365 * c + 365"
    using r unfolding c_def by auto
  have lo: "day_from_year 0 + 365 * k \<le> day_from_year k" if "0 \<le> k" for k
    using day_from_year_add [of 0 "nat k"] that by simp
  have hi: "day_from_year (c - 1) + 365 * (401 - c) \<le> day_from_year 400"
    using day_from_year_add [of "c - 1" "nat (401 - c)"] c by simp
  have Y: "year_of_day n = (if n < day_from_year (400 * e + c) then 400 * e + c - 1 else 400 * e + c)"
    by (simp add: year_of_day_def Let_def e_def r_def c_def)
  have E: "day_from_year (400 * e + c - 1) = 146097 * e + day_from_year (c - 1)"
    "day_from_year (400 * e + c + 1) = 146097 * e + day_from_year (c + 1)"
    using day_from_year_era [of e "c - 1"] day_from_year_era [of e "c + 1"]
    by (simp_all add: add_diff_eq add.assoc)
  have "day_from_year (400 * e + c - 1) \<le> n" "n < day_from_year (400 * e + c + 1)"
    using lo [of "c + 1", unfolded day_from_year_0] hi [unfolded day_from_year_0] c n
    unfolding E by (simp_all add: distrib_left)
  then show "day_from_year (year_of_day n) \<le> n" "n < day_from_year (year_of_day n + 1)"
    unfolding Y by (simp_all split: if_split)
qed

lemma month_days_nonneg: "\<forall>d \<in> set (month_days y). 0 \<le> d"
  by (simp add: month_days_def feb_days_def)

lemma days_before_nonneg: "0 \<le> days_before y m"
  unfolding days_before_def
  using month_days_nonneg by (intro sum_list_nonneg) (blast dest: in_set_takeD)

lemma year_of_day_civil:
  assumes "valid_md y m d"
  shows "year_of_day (civil_days y m d) = y"
proof -
  have "0 \<le> days_before y m" by (rule days_before_nonneg)
  moreover have "days_before y m + int d \<le> days_in_year y"
    using assms days_before_mono [OF assms, of 12] days_before_12 [of y]
    by (cases "m = 12") (auto simp: valid_md_def month_days_def days_in_month_def)
  ultimately have "day_from_year y \<le> civil_days y m d" "civil_days y m d < day_from_year (y + 1)"
    using assms by (auto simp: civil_days_def day_from_year_Suc valid_md_def)
  from this year_of_day_bounds show ?thesis by (intro year_unique)
qed

lemma month_split_take:
  assumes "k < length ds" "0 \<le> r" "r < ds ! k" "\<forall>d \<in> set ds. 0 \<le> d"
  shows "month_split ds (sum_list (take k ds) + r) = (Suc k, r)"
  using assms
proof (induction ds arbitrary: k)
  case (Cons d ds)
  show ?case
  proof (cases k)
    case (Suc j)
    have "0 \<le> sum_list (take j ds)"
      using Cons.prems(4) by (intro sum_list_nonneg) (auto dest: in_set_takeD)
    then show ?thesis using Cons Suc by simp
  qed (use Cons in simp)
qed simp

lemma civil_of_civil_days:
  assumes "valid_md y m d"
  shows "civil_of_days (civil_days y m d) = (y, m, d)"
proof -
  have "month_split (month_days y) (days_before y m + (int d - 1)) = (Suc (m - 1), int d - 1)"
    unfolding days_before_def
    using assms by (intro month_split_take month_days_nonneg)
      (auto simp: valid_md_def days_in_month_def month_days_def)
  moreover have "civil_days y m d - day_from_year y = days_before y m + (int d - 1)"
    by (simp add: civil_days_def)
  ultimately show ?thesis
    unfolding civil_of_days_def year_of_day_civil [OF assms]
    using assms by (simp add: valid_md_def)
qed

lemma month_split_bounds:
  assumes "month_split ds r = (m, q)" "0 \<le> r" "r < sum_list ds"
  shows "1 \<le> m \<and> m \<le> length ds \<and> 0 \<le> q \<and> q < ds ! (m - 1) \<and> sum_list (take (m - 1) ds) + q = r"
  using assms
proof (induction ds arbitrary: r m)
  case (Cons d ds)
  show ?case
  proof (cases "r < d")
    case False
    with Cons.prems obtain m' where m: "m = Suc m'" and s: "month_split ds (r - d) = (m', q)"
      by (auto split: prod.splits)
    from Cons.IH [OF s] False Cons.prems show ?thesis
      by (cases m') (auto simp: m)
  qed (use Cons.prems in auto)
qed simp

lemma sum_month_days: "sum_list (month_days y) = days_in_year y"
  by (simp add: month_defs)

lemma civil_days_of_civil:
  assumes "civil_of_days n = (y, m, d)"
  shows "civil_days y m d = n" "valid_md y m d"
proof -
  obtain q where y: "y = year_of_day n"
    and s: "month_split (month_days y) (n - day_from_year y) = (m, q)" and d: "d = nat (q + 1)"
    using assms by (auto simp: civil_of_days_def Let_def split: prod.splits)
  have "1 \<le> m \<and> m \<le> length (month_days y) \<and> 0 \<le> q \<and> q < month_days y ! (m - 1)
      \<and> sum_list (take (m - 1) (month_days y)) + q = n - day_from_year y"
    using year_of_day_bounds [of n] day_from_year_Suc [of y]
    by (intro month_split_bounds [OF s]) (simp_all add: y sum_month_days)
  then show "civil_days y m d = n" "valid_md y m d"
    by (auto simp: civil_days_def valid_md_def d days_before_def days_in_month_def month_days_def)
qed

section \<open>Date strings\<close>

text \<open>
  \<open>is_iso_date\<close> says what the program's boundary (\<^verbatim>\<open>z.string().date()\<close>) admits: four digits, two,
  two, naming a day that exists. \<open>fmt_date\<close> prints one.
\<close>

definition fmt_date :: "nat \<Rightarrow> nat \<Rightarrow> nat \<Rightarrow> date" where
  "fmt_date y m d = pad 4 y @ ''-'' @ pad 2 m @ ''-'' @ pad 2 d"

definition iso_year :: "date \<Rightarrow> nat" where
  "iso_year s = num (take 4 s)"

definition iso_month :: "date \<Rightarrow> nat" where
  "iso_month s = num (take 2 (drop 5 s))"

definition iso_day :: "date \<Rightarrow> nat" where
  "iso_day s = num (take 2 (drop 8 s))"

definition is_iso_date :: "date \<Rightarrow> bool" where
  "is_iso_date s \<longleftrightarrow>
     length s = 10 \<and> list_all is_digit (take 4 s @ take 2 (drop 5 s) @ take 2 (drop 8 s)) \<and>
     take 1 (drop 4 s) = ''-'' \<and> take 1 (drop 7 s) = ''-'' \<and>
     valid_md (int (iso_year s)) (iso_month s) (iso_day s)"

definition day_of :: "date \<Rightarrow> int" where
  "day_of s = civil_days (int (iso_year s)) (iso_month s) (iso_day s)"

lemma iso_fields:
  assumes "y < 10000" "m < 100" "d < 100"
  shows "iso_year (fmt_date y m d) = y" "iso_month (fmt_date y m d) = m"
    "iso_day (fmt_date y m d) = d"
  using assms by (simp_all add: iso_year_def iso_month_def iso_day_def fmt_date_def num_pad)

lemma valid_md_less: "valid_md y m d \<Longrightarrow> m < 100 \<and> d < 100"
proof -
  assume v: "valid_md y m d"
  have "length (month_days y) = 12" by (simp add: month_days_def)
  with v have "m - 1 < length (month_days y)" unfolding valid_md_def by linarith
  then have "days_in_month y m \<in> set (month_days y)"
    unfolding days_in_month_def by (rule nth_mem)
  then have "days_in_month y m \<le> 31" by (auto simp: month_days_def feb_days_def)
  with v show ?thesis by (simp add: valid_md_def)
qed

lemma is_iso_date_fmt:
  "y < 10000 \<Longrightarrow> valid_md (int y) m d \<Longrightarrow> is_iso_date (fmt_date y m d)"
  using valid_md_less [of "int y" m d] iso_fields [of y m d] pad_digits
  by (simp add: is_iso_date_def fmt_date_def)

lemma list10_split:
  assumes "length s = 10"
  shows "s = take 4 s @ take 1 (drop 4 s) @ take 2 (drop 5 s) @ take 1 (drop 7 s) @ take 2 (drop 8 s)"
proof -
  have "s = take 4 s @ drop 4 s" "drop 4 s = take 1 (drop 4 s) @ drop 5 s"
    "drop 5 s = take 2 (drop 5 s) @ drop 7 s" "drop 7 s = take 1 (drop 7 s) @ drop 8 s"
    "drop 8 s = take 2 (drop 8 s)"
    using append_take_drop_id [of 1 "drop 4 s"] append_take_drop_id [of 2 "drop 5 s"]
      append_take_drop_id [of 1 "drop 7 s"] assms by simp_all
  then show ?thesis by metis
qed

lemma iso_date_fmt_iff:
  "is_iso_date s \<longleftrightarrow> (\<exists>y m d. y < 10000 \<and> valid_md (int y) m d \<and> s = fmt_date y m d)"
proof
  assume s: "is_iso_date s"
  then have dig: "list_all is_digit (take 4 s)" "list_all is_digit (take 2 (drop 5 s))"
    "list_all is_digit (take 2 (drop 8 s))" and len: "length s = 10"
    by (auto simp: is_iso_date_def)
  then have "pad 4 (iso_year s) = take 4 s" "pad 2 (iso_month s) = take 2 (drop 5 s)"
    "pad 2 (iso_day s) = take 2 (drop 8 s)"
    using pad_num [OF dig(1)] pad_num [OF dig(2)] pad_num [OF dig(3)]
    by (simp_all add: iso_year_def iso_month_def iso_day_def)
  then have "s = fmt_date (iso_year s) (iso_month s) (iso_day s)"
    using list10_split [OF len] s by (simp add: fmt_date_def is_iso_date_def)
  moreover have "iso_year s < 10000"
    using num_less [OF dig(1)] len by (simp add: iso_year_def)
  ultimately show "\<exists>y m d. y < 10000 \<and> valid_md (int y) m d \<and> s = fmt_date y m d"
    using s by (auto simp: is_iso_date_def)
qed (auto intro: is_iso_date_fmt)

lemma iso_dateE:
  assumes "is_iso_date s"
  obtains y m d where "y < 10000" "valid_md (int y) m d" "s = fmt_date y m d"
    "day_of s = civil_days (int y) m d"
proof -
  from assms obtain y m d where *: "y < 10000" "valid_md (int y) m d" "s = fmt_date y m d"
    unfolding iso_date_fmt_iff by blast
  with valid_md_less [OF *(2)] have "day_of s = civil_days (int y) m d"
    by (simp add: day_of_def iso_fields)
  with * that show ?thesis by blast
qed

lemma pad_less: "a < 10 ^ w \<Longrightarrow> b < 10 ^ w \<Longrightarrow> pad w a < pad w b \<longleftrightarrow> a < b"
  by (simp add: num_mono pad_digits num_pad)

lemma pad_eq: "a < 10 ^ w \<Longrightarrow> b < 10 ^ w \<Longrightarrow> pad w a = pad w b \<longleftrightarrow> a = b"
  by (metis num_pad mod_less)

lemma fmt_date_less:
  assumes "y < 10000" "m < 100" "d < 100" "y' < 10000" "m' < 100" "d' < 100"
  shows "fmt_date y m d < fmt_date y' m' d' \<longleftrightarrow>
    y < y' \<or> y = y' \<and> (m < m' \<or> m = m' \<and> d < d')"
  using assms pad_less [of y 4 y'] pad_eq [of y 4 y'] pad_less [of m 2 m'] pad_eq [of m 2 m']
    pad_less [of d 2 d']
  by (simp add: fmt_date_def append_less_append)

lemma civil_days_mono:
  assumes "valid_md y m d" "valid_md y' m' d'"
    and "y < y' \<or> y = y' \<and> (m < m' \<or> m = m' \<and> d < d')"
  shows "civil_days y m d < civil_days y' m' d'"
  using assms(3)
proof (elim disjE conjE)
  assume "y < y'"
  then have "day_from_year y + days_in_year y \<le> day_from_year y'" by (rule day_from_year_next)
  moreover have "civil_days y m d < day_from_year (y + 1)"
    using year_of_day_bounds(2) [of "civil_days y m d"] year_of_day_civil [OF assms(1)] by simp
  moreover have "day_from_year y' \<le> civil_days y' m' d'"
    using year_of_day_bounds(1) [of "civil_days y' m' d'"] year_of_day_civil [OF assms(2)] by simp
  ultimately show ?thesis by (simp add: day_from_year_Suc)
next
  assume "y = y'" "m < m'"
  then show ?thesis
    using days_before_mono [OF assms(1), of m'] assms(2) by (simp add: civil_days_def valid_md_def)
qed (simp add: civil_days_def)

theorem day_of_less_iff:
  assumes "is_iso_date s" "is_iso_date t"
  shows "s < t \<longleftrightarrow> day_of s < day_of t"
proof -
  obtain y m d where s: "y < 10000" "valid_md (int y) m d" "s = fmt_date y m d"
    "day_of s = civil_days (int y) m d" using assms(1) by (rule iso_dateE)
  obtain y' m' d' where t: "y' < 10000" "valid_md (int y') m' d'" "t = fmt_date y' m' d'"
    "day_of t = civil_days (int y') m' d'" using assms(2) by (rule iso_dateE)
  have 1: "day_of s < day_of t" if "s < t"
    using that civil_days_mono [OF s(2) t(2)] fmt_date_less [of y m d y' m' d'] s t
      valid_md_less [OF s(2)] valid_md_less [OF t(2)] by auto
  have 2: "day_of t < day_of s" if "t < s"
    using that civil_days_mono [OF t(2) s(2)] fmt_date_less [of y' m' d' y m d] s t
      valid_md_less [OF s(2)] valid_md_less [OF t(2)] by auto
  from 1 2 show ?thesis by (metis less_irrefl less_not_sym linorder_less_linear)
qed

lemma day_of_le_iff: "is_iso_date s \<Longrightarrow> is_iso_date t \<Longrightarrow> s \<le> t \<longleftrightarrow> day_of s \<le> day_of t"
  by (metis day_of_less_iff not_less)

lemma day_of_inj: "is_iso_date s \<Longrightarrow> is_iso_date t \<Longrightarrow> day_of s = day_of t \<longleftrightarrow> s = t"
  by (metis day_of_less_iff less_irrefl linorder_less_linear)

section \<open>JavaScript dates\<close>

text \<open>
  \<open>date_parse s\<close> is \<^verbatim>\<open>Date.parse(`${s}T00:00:00Z`)\<close>, \<open>None\<close> for NaN; \<open>iso_prefix t\<close> is
  \<^verbatim>\<open>new Date(t).toISOString().slice(0, 10)\<close>, with the six-digit signed year ECMAScript prints
  outside 0 to 9999; \<open>js_round_div a b\<close> is \<^verbatim>\<open>Math.round(a / b)\<close> (ties go up).
\<close>

definition MS_PER_NIGHT :: int where
  "MS_PER_NIGHT = 86400000"

definition date_parse :: "date \<Rightarrow> instant option" where
  "date_parse s = (if is_iso_date s then Some (MS_PER_NIGHT * day_of s) else None)"

definition iso_year_str :: "int \<Rightarrow> string" where
  "iso_year_str y =
     (if 0 \<le> y \<and> y \<le> 9999 then pad 4 (nat y)
      else (if y < 0 then ''-'' else ''+'') @ pad 6 (nat \<bar>y\<bar>))"

definition iso_prefix :: "instant \<Rightarrow> string" where
  "iso_prefix t =
     (let (y, m, d) = civil_of_days (t div MS_PER_NIGHT)
      in take 10 (iso_year_str y @ ''-'' @ pad 2 m @ ''-'' @ pad 2 d))"

definition js_round_div :: "int \<Rightarrow> int \<Rightarrow> int" where
  "js_round_div a b = (2 * a + b) div (2 * b)"

lemma js_round_div_exact [simp]: "0 < b \<Longrightarrow> js_round_div (b * k) b = k"
proof -
  assume b: "0 < b"
  have "(2 * (b * k) + b) div (2 * b) = k + b div (2 * b)"
    using b div_mult_self1 [of "2 * b" b k] by (simp add: algebra_simps)
  with b show ?thesis by (simp add: js_round_div_def)
qed

lemma iso_prefix_day:
  assumes "y < 10000" "valid_md (int y) m d" "t div MS_PER_NIGHT = civil_days (int y) m d"
  shows "iso_prefix t = fmt_date y m d"
  using assms by (simp add: iso_prefix_def civil_of_civil_days iso_year_str_def fmt_date_def)

lemma iso_prefix_parse:
  assumes "is_iso_date s"
  shows "iso_prefix (MS_PER_NIGHT * day_of s) = s"
  using assms by (elim iso_dateE) (simp add: iso_prefix_day MS_PER_NIGHT_def)

text \<open>Every day of the years 0 to 9999 has its date string.\<close>

definition first_day :: int where "first_day = -719528"
definition last_day :: int where "last_day = 2932896"

lemma year_of_day_range:
  assumes "first_day \<le> n" "n \<le> last_day"
  shows "0 \<le> year_of_day n" "year_of_day n < 10000"
proof -
  have "day_from_year 0 = first_day" "day_from_year 10000 = last_day + 1"
    by (simp_all add: day_from_year_def first_day_def last_day_def)
  then show "0 \<le> year_of_day n" "year_of_day n < 10000"
    using assms year_of_day_bounds [of n] day_from_year_mono [of "year_of_day n + 1" 0]
      day_from_year_mono [of 10000 "year_of_day n"] by linarith+
qed

lemma date_of_day:
  assumes "first_day \<le> n" "n \<le> last_day"
  shows "is_iso_date (iso_prefix (MS_PER_NIGHT * n))" "day_of (iso_prefix (MS_PER_NIGHT * n)) = n"
proof -
  obtain y m d where c: "civil_of_days n = (y, m, d)" by (cases "civil_of_days n")
  note v = civil_days_of_civil [OF c]
  have y: "y = year_of_day n" using c by (auto simp: civil_of_days_def Let_def split: prod.splits)
  with year_of_day_range [OF assms] obtain k where k: "y = int k" "k < 10000"
    by (metis nonneg_int_cases of_nat_less_numeral_iff)
  then have p: "iso_prefix (MS_PER_NIGHT * n) = fmt_date k m d"
    using v by (intro iso_prefix_day) (simp_all add: MS_PER_NIGHT_def)
  show "is_iso_date (iso_prefix (MS_PER_NIGHT * n))"
    unfolding p using k v by (intro is_iso_date_fmt) simp_all
  show "day_of (iso_prefix (MS_PER_NIGHT * n)) = n"
    unfolding p day_of_def
    using k v valid_md_less [OF v(2)] by (simp add: iso_fields)
qed

lemma day_of_range: "is_iso_date s \<Longrightarrow> first_day \<le> day_of s \<and> day_of s \<le> last_day"
proof (elim iso_dateE)
  fix y m d assume *: "y < 10000" "valid_md (int y) m d" "day_of s = civil_days (int y) m d"
  have "day_from_year 0 = first_day" "day_from_year 10000 = last_day + 1"
    by (simp_all add: day_from_year_def first_day_def last_day_def)
  then show ?thesis
    using * year_of_day_bounds [of "day_of s"] year_of_day_civil [OF *(2)]
      day_from_year_mono [of 0 "int y"] day_from_year_mono [of "int y + 1" 10000] by simp
qed

end
