(* ===== verification/Availability.thy ===== *)
theory Availability
  imports Iso_Date
begin

text \<open>
  \<^verbatim>\<open>packages/shared/src/availability.ts\<close>: the half-open interval primitives of the calendar. Nights
  of a stay, the pricing rule with dated overrides, the minimum stay and the merging of blocked
  ranges. The lemmas give the abstract meaning of each: a quote is the sum of its nights'
  prices, and merging yields the one canonical list of separated ranges with the same nights.
\<close>

section \<open>Nights\<close>

definition MAX_AVAILABILITY_NIGHTS :: int where
  "MAX_AVAILABILITY_NIGHTS = 366"

definition countNights :: "date \<Rightarrow> date \<Rightarrow> int option" where
  "countNights from to =
     (case (date_parse from, date_parse to) of
        (Some a, Some b) \<Rightarrow> Some (js_round_div (b - a) MS_PER_NIGHT)
      | _ \<Rightarrow> None)"

record blocked_range =
  br_from :: date
  br_to :: date

definition lastNightOf :: "blocked_range \<Rightarrow> date option" where
  "lastNightOf r = map_option (\<lambda>t. iso_prefix (t - MS_PER_NIGHT)) (date_parse (br_to r))"

definition meetsMinStay :: "int \<Rightarrow> int \<Rightarrow> bool" where
  "meetsMinStay nights minStay \<longleftrightarrow> nights \<ge> minStay"

lemma countNights_iso:
  assumes "is_iso_date a" "is_iso_date b"
  shows "countNights a b = Some (day_of b - day_of a)"
proof -
  have "MS_PER_NIGHT * day_of b - MS_PER_NIGHT * day_of a = MS_PER_NIGHT * (day_of b - day_of a)"
    by (simp add: right_diff_distrib)
  moreover have "0 < MS_PER_NIGHT" by (simp add: MS_PER_NIGHT_def)
  ultimately show ?thesis using assms by (simp add: countNights_def date_parse_def)
qed

lemma countNights_pos:
  "is_iso_date a \<Longrightarrow> is_iso_date b \<Longrightarrow> a < b \<Longrightarrow> \<exists>n. countNights a b = Some n \<and> 0 < n"
  by (simp add: countNights_iso day_of_less_iff)

lemma lastNightOf_iso:
  assumes "is_iso_date (br_to r)" "first_day < day_of (br_to r)"
  shows "\<exists>s. lastNightOf r = Some s \<and> is_iso_date s \<and> day_of s = day_of (br_to r) - 1"
proof -
  have e: "MS_PER_NIGHT * day_of (br_to r) - MS_PER_NIGHT = MS_PER_NIGHT * (day_of (br_to r) - 1)"
    by (simp add: right_diff_distrib)
  have "first_day \<le> day_of (br_to r) - 1" "day_of (br_to r) - 1 \<le> last_day"
    using assms day_of_range [OF assms(1)] by simp_all
  from date_of_day [OF this] assms(1) e show ?thesis
    by (simp add: lastNightOf_def date_parse_def)
qed

section \<open>The price of a stay\<close>

record override_span =
  os_from :: date
  os_to :: date
  os_price :: int

fun quote_loop :: "int \<Rightarrow> date \<Rightarrow> date \<Rightarrow> override_span list \<Rightarrow> int \<Rightarrow> int" where
  "quote_loop base from to [] tot = tot"
| "quote_loop base from to (o1 # os) tot =
     (let overlapFrom = (if os_from o1 > from then os_from o1 else from);
          overlapTo = (if os_to o1 < to then os_to o1 else to)
      in case countNights overlapFrom overlapTo of
           None \<Rightarrow> quote_loop base from to os tot
         | Some nights \<Rightarrow>
             quote_loop base from to os
               (if nights > 0 then tot + (os_price o1 - base) * nights else tot))"

definition quoteTotalIdr :: "int \<Rightarrow> date \<Rightarrow> date \<Rightarrow> override_span list \<Rightarrow> int option" where
  "quoteTotalIdr base from to overrides =
     (case countNights from to of
        None \<Rightarrow> None
      | Some nights \<Rightarrow> Some (quote_loop base from to overrides (base * nights)))"

text \<open>
  What the price means: night \<open>d\<close> costs the override that covers it, else the base price.
\<close>

definition span_ok :: "override_span \<Rightarrow> bool" where
  "span_ok s \<longleftrightarrow> is_iso_date (os_from s) \<and> is_iso_date (os_to s) \<and> os_from s < os_to s"

definition covers_night :: "override_span \<Rightarrow> int \<Rightarrow> bool" where
  "covers_night s d \<longleftrightarrow> day_of (os_from s) \<le> d \<and> d < day_of (os_to s)"

definition night_price :: "int \<Rightarrow> override_span list \<Rightarrow> int \<Rightarrow> int" where
  "night_price base os d =
     (case List.find (\<lambda>s. covers_night s d) os of None \<Rightarrow> base | Some s \<Rightarrow> os_price s)"

definition spans_disjoint :: "override_span list \<Rightarrow> bool" where
  "spans_disjoint os \<longleftrightarrow>
     sorted_wrt (\<lambda>s t. os_to s \<le> os_from t \<or> os_to t \<le> os_from s) os"

lemma overlap_bounds:
  assumes "is_iso_date a" "is_iso_date b" "span_ok s"
  shows "countNights (if os_from s > a then os_from s else a) (if os_to s < b then os_to s else b)
    = Some (min (day_of (os_to s)) (day_of b) - max (day_of (os_from s)) (day_of a))"
  using assms by (auto simp: countNights_iso span_ok_def day_of_less_iff)

lemma sum_span:
  "(\<Sum>d \<in> {a..<b}. if covers_night s d then c else (0::int)) =
   c * max 0 (min (day_of (os_to s)) b - max (day_of (os_from s)) a)"
proof -
  have "{a..<b} \<inter> {d. covers_night s d} =
      {max (day_of (os_from s)) a ..< min (day_of (os_to s)) b}"
    by (auto simp: covers_night_def)
  then show ?thesis by (simp add: sum.If_cases max_def)
qed

lemma quote_loop_sum:
  assumes "is_iso_date a" "is_iso_date b" "\<forall>s \<in> set os. span_ok s"
  shows "quote_loop base a b os tot = tot +
    (\<Sum>d \<in> {day_of a..<day_of b}.
       (\<Sum>s\<leftarrow>os. if covers_night s d then os_price s - base else 0))"
  using assms(3)
proof (induction os arbitrary: tot)
  case (Cons s os)
  define k where "k = min (day_of (os_to s)) (day_of b) - max (day_of (os_from s)) (day_of a)"
  note k = k_def [symmetric]
  have step: "quote_loop base a b (s # os) tot =
      quote_loop base a b os (tot + (os_price s - base) * max 0 k)"
    using overlap_bounds [OF assms(1,2), of s, unfolded k] Cons.prems
    by (auto simp: Let_def)
  have "(\<Sum>d \<in> {day_of a..<day_of b}. if covers_night s d then os_price s - base else 0) =
      (os_price s - base) * max 0 k"
    by (simp only: sum_span k_def)
  then show ?case
    using Cons by (simp add: step sum.distrib del: quote_loop.simps)
qed simp

lemma night_price_sum:
  assumes "spans_disjoint os" "\<forall>s \<in> set os. span_ok s"
  shows "base + (\<Sum>s\<leftarrow>os. if covers_night s d then os_price s - base else 0) = night_price base os d"
  using assms
proof (induction os)
  case (Cons s os)
  have IH: "base + (\<Sum>s\<leftarrow>os. if covers_night s d then os_price s - base else 0) = night_price base os d"
    using Cons by (simp add: spans_disjoint_def)
  show ?case
  proof (cases "covers_night s d")
    case True
    have "\<not> covers_night t d" if t: "t \<in> set os" for t
    proof -
      from t Cons.prems have "os_to s \<le> os_from t \<or> os_to t \<le> os_from s"
        by (auto simp: spans_disjoint_def)
      moreover have "span_ok s" "span_ok t" using t Cons.prems by auto
      ultimately show ?thesis using True by (auto simp: covers_night_def span_ok_def day_of_le_iff)
    qed
    then have "map (\<lambda>t. if covers_night t d then os_price t - base else 0) os = map (\<lambda>_. 0) os"
      by (intro map_cong) auto
    then have "(\<Sum>t\<leftarrow>os. if covers_night t d then os_price t - base else 0) = 0"
      by (metis sum_list_0)
    with True show ?thesis by (simp add: night_price_def)
  next
    case False
    with IH show ?thesis by (simp add: night_price_def)
  qed
qed (simp add: night_price_def)

lemma quote_is_sum_of_nights:
  assumes "is_iso_date a" "is_iso_date b" "a \<le> b" "\<forall>s \<in> set os. span_ok s" "spans_disjoint os"
  shows "quoteTotalIdr base a b os = Some (\<Sum>d \<in> {day_of a..<day_of b}. night_price base os d)"
proof -
  have n: "day_of a \<le> day_of b" using assms by (simp add: day_of_le_iff)
  have "(\<Sum>d \<in> {day_of a..<day_of b}. night_price base os d) =
      (\<Sum>d \<in> {day_of a..<day_of b}.
        base + (\<Sum>s\<leftarrow>os. if covers_night s d then os_price s - base else 0))"
    using assms by (simp add: night_price_sum)
  also have "\<dots> = base * (day_of b - day_of a) + (\<Sum>d \<in> {day_of a..<day_of b}.
        (\<Sum>s\<leftarrow>os. if covers_night s d then os_price s - base else 0))"
    using n by (simp add: sum.distrib)
  finally show ?thesis
    using assms by (simp add: quoteTotalIdr_def countNights_iso quote_loop_sum)
qed

section \<open>Merging blocked ranges\<close>

text \<open>
  The loop over the sorted ranges; \<open>merged\<close> is the array \<^verbatim>\<open>merged\<close> in reverse, so that its last
  element, which the loop updates in place, comes first.
\<close>

fun coalesce_loop :: "blocked_range list \<Rightarrow> blocked_range list \<Rightarrow> blocked_range list" where
  "coalesce_loop merged [] = merged"
| "coalesce_loop [] (r # rs) = coalesce_loop [r] rs"
| "coalesce_loop (l # ls) (r # rs) =
     (if br_from r \<le> br_to l
      then (if br_to r > br_to l then coalesce_loop (l\<lparr>br_to := br_to r\<rparr> # ls) rs
            else coalesce_loop (l # ls) rs)
      else coalesce_loop (r # l # ls) rs)"

definition coalesceRanges :: "blocked_range list \<Rightarrow> blocked_range list" where
  "coalesceRanges ranges =
     (if length ranges \<le> 1 then ranges
      else let sorted = sort_key br_from ranges
           in rev (coalesce_loop [hd sorted] (tl sorted)))"

text \<open>The points a list of ranges covers, and the normal form: non-empty ranges, in order, with a
  gap after each.\<close>

definition covered :: "blocked_range list \<Rightarrow> date set" where
  "covered rs = (\<Union>r \<in> set rs. {br_from r ..< br_to r})"

definition nonempty_ranges :: "blocked_range list \<Rightarrow> bool" where
  "nonempty_ranges rs \<longleftrightarrow> (\<forall>r \<in> set rs. br_from r < br_to r)"

definition separated :: "blocked_range list \<Rightarrow> bool" where
  "separated rs \<longleftrightarrow> nonempty_ranges rs \<and> sorted_wrt (\<lambda>r s. br_to r < br_from s) rs"

lemma covered_simps [simp]:
  "covered [] = {}"
  "covered (r # rs) = {br_from r ..< br_to r} \<union> covered rs"
  "covered (rs @ qs) = covered rs \<union> covered qs"
  "covered (rev rs) = covered rs"
  by (auto simp: covered_def)

lemma coalesce_loop_inv:
  assumes "separated (rev ls)" "nonempty_ranges rs" "sorted (map br_from rs)"
    and "\<And>l r. ls \<noteq> [] \<Longrightarrow> r \<in> set rs \<Longrightarrow> br_from (hd ls) \<le> br_from r"
  shows "separated (rev (coalesce_loop ls rs)) \<and> covered (coalesce_loop ls rs) = covered ls \<union> covered rs"
  using assms
proof (induction ls rs rule: coalesce_loop.induct)
  case (2 r rs)
  then show ?case by (simp add: separated_def nonempty_ranges_def)
next
  case (3 l ls r rs)
  have sep: "\<forall>x \<in> set ls. br_to x < br_from l" "separated (rev ls)" "br_from l < br_to l"
    "br_from r < br_to r" "br_from l \<le> br_from r"
    using 3 by (auto simp: separated_def nonempty_ranges_def sorted_wrt_append)
  consider "br_from r \<le> br_to l" "br_to l < br_to r" | "br_from r \<le> br_to l" "br_to r \<le> br_to l"
    | "br_to l < br_from r" by fastforce
  then show ?case
  proof cases
    case 1
    have "{br_from l..<br_to l} \<union> {br_from r..<br_to r} = {br_from l..<br_to r}"
      using 1 sep by auto
    then show ?thesis
      using 1 sep "3.IH"(1) "3.prems"
      by (auto simp: separated_def nonempty_ranges_def sorted_wrt_append)
  next
    case 2
    have "{br_from r..<br_to r} \<subseteq> {br_from l..<br_to l}"
      using 2 sep(5) by (simp add: ivl_subset)
    then have "covered (l # ls) \<union> covered (r # rs) = covered (l # ls) \<union> covered rs"
      unfolding covered_simps by blast
    moreover have "separated (rev (coalesce_loop (l # ls) rs)) \<and>
        covered (coalesce_loop (l # ls) rs) = covered (l # ls) \<union> covered rs"
      using 2 "3.prems" by (intro "3.IH"(2)) (auto simp: nonempty_ranges_def)
    moreover have "\<not> br_to l < br_to r" using 2 by (simp add: not_less)
    ultimately show ?thesis using 2 by (simp only: coalesce_loop.simps) simp
  next
    case 3
    have "\<forall>x \<in> set ls. br_to x < br_from r" using sep(1,5) by (blast intro: less_le_trans)
    with 3 show ?thesis
      using sep "3.IH"(3) "3.prems"
      by (auto simp: separated_def nonempty_ranges_def sorted_wrt_append)
  qed
qed simp

lemma coalesceRanges_normal:
  assumes "nonempty_ranges rs"
  shows "separated (coalesceRanges rs)" "covered (coalesceRanges rs) = covered rs"
proof -
  have "separated (coalesceRanges rs) \<and> covered (coalesceRanges rs) = covered rs"
  proof (cases "length rs \<le> 1")
    case True
    then show ?thesis
      using assms by (cases rs) (auto simp: coalesceRanges_def separated_def)
  next
    case False
    define q where "q = sort_key br_from rs"
    have q: "set q = set rs" "sorted (map br_from q)" "length q = length rs"
      by (simp_all add: q_def)
    with False obtain r qs where qs: "q = r # qs" by (cases q) auto
    then have "covered q = covered rs" "nonempty_ranges q"
      using q(1) assms by (simp_all only: covered_def nonempty_ranges_def)
    moreover have "separated (rev (coalesce_loop [r] qs)) \<and>
        covered (coalesce_loop [r] qs) = covered [r] \<union> covered qs"
      using q(2) \<open>nonempty_ranges q\<close> unfolding qs
      by (intro coalesce_loop_inv) (auto simp: separated_def nonempty_ranges_def)
    ultimately show ?thesis
      using False by (simp add: coalesceRanges_def q_def [symmetric] qs)
  qed
  then show "separated (coalesceRanges rs)" "covered (coalesceRanges rs) = covered rs" by auto
qed

text \<open>The normal form is determined by the points covered.\<close>

lemma separated_Cons:
  "separated (r # rs) \<longleftrightarrow> br_from r < br_to r \<and> (\<forall>s \<in> set rs. br_to r < br_from s) \<and> separated rs"
  by (auto simp: separated_def nonempty_ranges_def)

lemma separated_above: "separated (r # rs) \<Longrightarrow> x \<in> covered rs \<Longrightarrow> br_to r < x"
  by (auto simp: separated_Cons covered_def dest: less_le_trans)

lemma separated_head:
  assumes "separated (r # rs)"
  shows "br_from r \<in> covered (r # rs)" "\<And>x. x \<in> covered (r # rs) \<Longrightarrow> br_from r \<le> x"
    "br_to r \<notin> covered (r # rs)" "{br_from r..<br_to r} \<subseteq> covered (r # rs)"
  using assms separated_above [OF assms] by (fastforce simp: separated_Cons)+

lemma separated_unique:
  assumes "separated rs" "separated qs" "covered rs = covered qs"
  shows "rs = qs"
  using assms
proof (induction rs arbitrary: qs)
  case Nil
  then show ?case by (cases qs) (auto simp: separated_Cons)
next
  case (Cons r rs)
  then have "br_from r \<in> covered qs" using separated_head(1) by metis
  then obtain q qs' where qs: "qs = q # qs'" by (cases qs) auto
  note R = separated_head [OF Cons.prems(1)] and
    Q = separated_head [OF Cons.prems(2) [unfolded qs]]
  note eq = Cons.prems(3) [unfolded qs]
  have f: "br_from r = br_from q"
    using R(1,2) Q(1,2) eq by (metis antisym)
  have t: "br_to r = br_to q"
  proof (rule ccontr)
    assume "br_to r \<noteq> br_to q"
    then consider "br_to r < br_to q" | "br_to q < br_to r" by (metis linorder_less_linear)
    then show False
    proof cases
      case 1
      then have "br_to r \<in> {br_from q..<br_to q}"
        using f Cons.prems(1) by (simp add: separated_Cons order_less_imp_le)
      with Q(4) R(3) eq show False by auto
    next
      case 2
      then have "br_to q \<in> {br_from r..<br_to r}"
        using f Cons.prems(2) by (simp add: qs separated_Cons order_less_imp_le)
      with R(4) Q(3) eq show False by auto
    qed
  qed
  have "covered rs = covered qs'"
  proof -
    have "covered rs = {x \<in> covered (r # rs). br_to r < x}"
      using separated_above [OF Cons.prems(1)] by (auto simp: not_less order_less_imp_le)
    moreover have "covered qs' = {x \<in> covered (q # qs'). br_to q < x}"
      using separated_above [OF Cons.prems(2) [unfolded qs]] by (auto simp: not_less order_less_imp_le)
    moreover have "{x \<in> covered (r # rs). br_to r < x} = {x \<in> covered (q # qs'). br_to q < x}"
      unfolding eq t by (rule refl)
    ultimately show ?thesis by (metis (no_types, lifting))
  qed
  then have "rs = qs'"
    using Cons.IH [of qs'] Cons.prems by (simp add: qs separated_Cons)
  with f t show ?case by (simp add: qs)
qed

lemma coalesceRanges_canonical:
  assumes "nonempty_ranges rs" "nonempty_ranges qs" "covered rs = covered qs"
  shows "coalesceRanges rs = coalesceRanges qs"
  using assms by (intro separated_unique) (simp_all add: coalesceRanges_normal)

end
