(* ===== verification/Bookings.thy ===== *)
theory Bookings
  imports Tenancy Availability
begin

text \<open>
  The booking write and the availability read: \<^verbatim>\<open>apps/api/src/bookings\<close>. The two repositories, the
  quote every surface goes through, the guest's hold, the owner's block or walk-in, the guarded
  cancellation and the two sweeps of lapsed holds. A handler answers its response with the new
  database; an error answer is a rolled-back transaction.
\<close>

definition HOLD_TTL_MINUTES :: int where
  "HOLD_TTL_MINUTES = 15"

definition hold_expiry :: "instant \<Rightarrow> instant" where
  "hold_expiry now = now + HOLD_TTL_MINUTES * 60000"

section \<open>The availability read\<close>

record unit_pricing =
  up_basePriceIdr :: int
  up_minStay :: int
  up_archived :: bool

definition fetchUnitPricing :: "db \<Rightarrow> session \<Rightarrow> uuid \<Rightarrow> unit_pricing option" where
  "fetchUnitPricing d s unitId =
     map_option (\<lambda>(u, p). \<lparr>up_basePriceIdr = u_basePriceIdr u, up_minStay = u_minStay u,
         up_archived = (u_archivedAt u \<noteq> None \<or> p_archivedAt p \<noteq> None)\<rparr>)
       (select_one (\<lambda>(u, p). rls_unit d s u \<and> rls_property d s p \<and>
            p_id p = u_propertyId u \<and> p_tenantId p = u_tenantId u \<and>
            u_id u = unitId \<and> u_tenantId u = s_tenantId s)
          (List.product (units d) (properties d)))"

definition clip :: "date \<Rightarrow> date \<Rightarrow> date \<Rightarrow> date \<Rightarrow> blocked_range" where
  "clip a b from to = \<lparr>br_from = max a from, br_to = min b to\<rparr>"

definition findBlockedRanges :: "db \<Rightarrow> session \<Rightarrow> uuid \<Rightarrow> date \<Rightarrow> date \<Rightarrow> blocked_range list" where
  "findBlockedRanges d s unitId from to =
     map (\<lambda>b. clip (bk_checkIn b) (bk_checkOut b) from to)
       (sort_key bk_checkIn
         (filter (\<lambda>b. rls_booking d s b \<and> bk_unitId b = unitId \<and> bk_tenantId b = s_tenantId s \<and>
              bk_status b \<in> set OCCUPYING_STATUSES \<and>
              range_overlaps (bk_checkIn b) (bk_checkOut b) from to) (bookings d)))"

definition findPriceOverrides :: "db \<Rightarrow> session \<Rightarrow> uuid \<Rightarrow> date \<Rightarrow> date \<Rightarrow> override_span list" where
  "findPriceOverrides d s unitId from to =
     map (\<lambda>p. \<lparr>os_from = max (po_fromDate p) from, os_to = min (po_toDate p) to,
            os_price = po_nightlyPriceIdr p\<rparr>)
       (sort_key po_fromDate
         (filter (\<lambda>p. rls_override d s p \<and> po_unitId p = unitId \<and> po_tenantId p = s_tenantId s \<and>
              range_overlaps (po_fromDate p) (po_toDate p) from to) (price_overrides d)))"

record availability_response =
  ar_available :: bool
  ar_nights :: int
  ar_totalPriceIdr :: int
  ar_minStay :: int
  ar_reasons :: "refusal_reason list"
  ar_blockedRanges :: "blocked_range list"

datatype quote_outcome = Quote_ok availability_response | Quote_archived | Quote_not_found

text \<open>
  \<^verbatim>\<open>AvailabilityService.quote\<close>. A window whose nights are not a number makes the price computation
  throw, and so does a total outside the rupiah range.
\<close>

definition quote :: "db \<Rightarrow> active_tx \<Rightarrow> uuid \<Rightarrow> date \<Rightarrow> date \<Rightarrow> app_error + quote_outcome" where
  "quote d tx unitId from to =
     (let s = tx_session tx in
      case fetchUnitPricing d s unitId of
        None \<Rightarrow> Inr Quote_not_found
      | Some pricing \<Rightarrow>
          if up_archived pricing then Inr Quote_archived
          else
            let blockedRanges = coalesceRanges (findBlockedRanges d s unitId from to);
                overrides = findPriceOverrides d s unitId from to;
                overlap = blockedRanges \<noteq> []
            in case (countNights from to, quoteTotalIdr (up_basePriceIdr pricing) from to overrides) of
                 (Some nights, Some tot) \<Rightarrow>
                   let minStayOk = meetsMinStay nights (up_minStay pricing) in
                   bind_res (toRupiah tot) (\<lambda>price.
                     Inr (Quote_ok \<lparr>ar_available = (\<not> overlap \<and> minStayOk), ar_nights = nights,
                       ar_totalPriceIdr = price, ar_minStay = up_minStay pricing,
                       ar_reasons = (if overlap then [Overlap] else []) @
                                    (if \<not> minStayOk then [Min_stay] else []),
                       ar_blockedRanges = blockedRanges\<rparr>))
               | _ \<Rightarrow> Inl (JsError ''NaN is not an integer''))"

definition getPublicQuote :: "db \<Rightarrow> uuid \<Rightarrow> date \<Rightarrow> date \<Rightarrow> app_error + availability_response" where
  "getPublicQuote d unitId from to =
     bind_res (enterFromUnitId unitId d None) (\<lambda>ctx.
       db_run ctx None (\<lambda>tx.
         bind_res (quote d tx unitId from to) (\<lambda>outcome.
           case outcome of
             Quote_ok response \<Rightarrow> Inr response
           | _ \<Rightarrow> Inl (NotFound ''Unit not found''))))"

section \<open>The statements of the booking repository\<close>

definition lapsed :: "instant \<Rightarrow> booking_row \<Rightarrow> bool" where
  "lapsed now b \<longleftrightarrow>
     bk_status b = Pending_payment \<and> (case bk_holdExpiresAt b of None \<Rightarrow> False | Some t \<Rightarrow> t < now)"

definition set_status :: "booking_status \<Rightarrow> booking_row \<Rightarrow> booking_row" where
  "set_status st b = b\<lparr>bk_status := st\<rparr>"

definition expireLapsedHolds :: "active_tx \<Rightarrow> instant \<Rightarrow> uuid \<Rightarrow> db \<Rightarrow> app_error + db" where
  "expireLapsedHolds tx now unitId d =
     bind_res (assertInTransaction (Some tx)) (\<lambda>_.
       update_booking
         (\<lambda>b. rls_booking d (tx_session tx) b \<and> bk_unitId b = unitId \<and>
            bk_tenantId b = s_tenantId (tx_session tx) \<and> lapsed now b)
         (set_status Expired) d)"

definition fetchMaxGuests :: "db \<Rightarrow> session \<Rightarrow> uuid \<Rightarrow> int option" where
  "fetchMaxGuests d s unitId =
     map_option u_maxGuests
       (select_one (\<lambda>u. rls_unit d s u \<and> u_id u = unitId \<and> u_tenantId u = s_tenantId s) (units d))"

record hold_input =
  hi_unitId :: uuid
  hi_checkIn :: date
  hi_checkOut :: date
  hi_guestName :: string
  hi_guestPhone :: string
  hi_guestEmail :: "string option"
  hi_guestCount :: int
  hi_totalPriceIdr :: int

definition hold_row :: "uuid \<Rightarrow> uuid \<Rightarrow> instant \<Rightarrow> hold_input \<Rightarrow> booking_row" where
  "hold_row newId tenantId now i =
     \<lparr>bk_id = newId, bk_tenantId = tenantId, bk_unitId = hi_unitId i, bk_source = Direct,
      bk_status = Pending_payment, bk_checkIn = hi_checkIn i, bk_checkOut = hi_checkOut i,
      bk_guestName = Some (hi_guestName i), bk_guestPhone = Some (hi_guestPhone i),
      bk_guestEmail = hi_guestEmail i, bk_guestCount = Some (hi_guestCount i),
      bk_totalPriceIdr = Some (hi_totalPriceIdr i), bk_externalUid = None,
      bk_channelConnectionId = None, bk_holdExpiresAt = Some (hold_expiry now),
      bk_createdAt = now\<rparr>"

definition insertHold ::
  "active_tx \<Rightarrow> instant \<Rightarrow> uuid \<Rightarrow> hold_input \<Rightarrow> db \<Rightarrow> app_error + (booking_row \<times> db)" where
  "insertHold tx now newId i d =
     bind_res (assertInTransaction (Some tx)) (\<lambda>_.
       let r = hold_row newId (s_tenantId (tx_session tx)) now i in
       bind_res (rls_insert_booking (tx_session tx) r d) (\<lambda>d'. Inr (r, d')))"

record confirmed_input =
  ci_unitId :: uuid
  ci_source :: booking_source
  ci_checkIn :: date
  ci_checkOut :: date
  ci_guestName :: "string option"
  ci_guestPhone :: "string option"
  ci_guestEmail :: "string option"
  ci_guestCount :: "int option"
  ci_totalPriceIdr :: "int option"

definition confirmed_row :: "uuid \<Rightarrow> uuid \<Rightarrow> instant \<Rightarrow> confirmed_input \<Rightarrow> booking_row" where
  "confirmed_row newId tenantId now i =
     \<lparr>bk_id = newId, bk_tenantId = tenantId, bk_unitId = ci_unitId i, bk_source = ci_source i,
      bk_status = Confirmed, bk_checkIn = ci_checkIn i, bk_checkOut = ci_checkOut i,
      bk_guestName = ci_guestName i, bk_guestPhone = ci_guestPhone i,
      bk_guestEmail = ci_guestEmail i, bk_guestCount = ci_guestCount i,
      bk_totalPriceIdr = ci_totalPriceIdr i, bk_externalUid = None,
      bk_channelConnectionId = None, bk_holdExpiresAt = None,
      bk_createdAt = now\<rparr>"

definition insertConfirmed ::
  "active_tx \<Rightarrow> instant \<Rightarrow> uuid \<Rightarrow> confirmed_input \<Rightarrow> db \<Rightarrow> app_error + (booking_row \<times> db)" where
  "insertConfirmed tx now newId i d =
     bind_res (assertInTransaction (Some tx)) (\<lambda>_.
       let r = confirmed_row newId (s_tenantId (tx_session tx)) now i in
       bind_res (rls_insert_booking (tx_session tx) r d) (\<lambda>d'. Inr (r, d')))"

datatype cancel_outcome = Outcome_cancelled | Outcome_not_found | Outcome_terminal booking_status

definition cancelById :: "active_tx \<Rightarrow> uuid \<Rightarrow> db \<Rightarrow> app_error + (cancel_outcome \<times> db)" where
  "cancelById tx bid d =
     (let s = tx_session tx;
          hit = (\<lambda>b. rls_booking d s b \<and> bk_id b = bid \<and> bk_tenantId b = s_tenantId s \<and>
                   bk_status b \<in> set OCCUPYING_STATUSES)
      in bind_res (update_booking hit (set_status Cancelled) d) (\<lambda>d'.
           if filter hit (bookings d) \<noteq> [] then Inr (Outcome_cancelled, d')
           else case select_one (\<lambda>b. rls_booking d' s b \<and> bk_id b = bid \<and>
                       bk_tenantId b = s_tenantId s) (bookings d') of
                  None \<Rightarrow> Inr (Outcome_not_found, d')
                | Some b \<Rightarrow> Inr (Outcome_terminal (bk_status b), d')))"

definition hasPaidPayment :: "db \<Rightarrow> session \<Rightarrow> uuid \<Rightarrow> bool" where
  "hasPaidPayment d s bid \<longleftrightarrow>
     select_one (\<lambda>p. rls_payment d s p \<and> py_bookingId p = bid \<and> py_status p = Pay_paid) (payments d)
       \<noteq> None"

section \<open>The handlers\<close>

definition paymentCredentialExists :: "db \<Rightarrow> session \<Rightarrow> uuid \<Rightarrow> bool" where
  "paymentCredentialExists d s tenantId \<longleftrightarrow>
     select_one (\<lambda>c. rls_credential s c \<and> tc_tenantId c = tenantId) (credentials d) \<noteq> None"

definition sweepQuoteOrThrow ::
  "active_tx \<Rightarrow> instant \<Rightarrow> uuid \<Rightarrow> date \<Rightarrow> date \<Rightarrow> refusal_reason \<Rightarrow> db \<Rightarrow>
     app_error + (availability_response \<times> db)" where
  "sweepQuoteOrThrow tx now unitId checkIn checkOut archivedReason d =
     bind_res (expireLapsedHolds tx now unitId d) (\<lambda>d1.
     bind_res (quote d1 tx unitId checkIn checkOut) (\<lambda>outcome.
       case outcome of
         Quote_not_found \<Rightarrow> Inl (NotFound ''Unit not found'')
       | Quote_archived \<Rightarrow> Inl (Conflict (Dates_unavailable [archivedReason]))
       | Quote_ok response \<Rightarrow> Inr (response, d1)))"

record create_booking_request =
  cb_unitId :: uuid
  cb_checkIn :: date
  cb_checkOut :: date
  cb_guestName :: string
  cb_guestPhone :: string
  cb_guestEmail :: "string option"
  cb_guestCount :: int

text \<open>The two refinements of \<^verbatim>\<open>createBookingRequestSchema\<close> and the bounds of the head count.\<close>

definition stay_window_ok :: "date \<Rightarrow> date \<Rightarrow> bool" where
  "stay_window_ok a b \<longleftrightarrow>
     is_iso_date a \<and> is_iso_date b \<and> a < b \<and>
     (case countNights a b of None \<Rightarrow> False | Some n \<Rightarrow> n \<le> MAX_AVAILABILITY_NIGHTS)"

definition createBookingRequestSchema :: "create_booking_request \<Rightarrow> bool" where
  "createBookingRequestSchema req \<longleftrightarrow>
     stay_window_ok (cb_checkIn req) (cb_checkOut req) \<and>
     1 \<le> cb_guestCount req \<and> cb_guestCount req \<le> 64"

record create_booking_response =
  cr_bookingId :: uuid
  cr_status :: booking_status
  cr_holdExpiresAt :: instant
  cr_totalPriceIdr :: int
  cr_nights :: int

definition hold_input_of :: "create_booking_request \<Rightarrow> int \<Rightarrow> hold_input" where
  "hold_input_of req price =
     \<lparr>hi_unitId = cb_unitId req, hi_checkIn = cb_checkIn req, hi_checkOut = cb_checkOut req,
      hi_guestName = cb_guestName req, hi_guestPhone = cb_guestPhone req,
      hi_guestEmail = cb_guestEmail req, hi_guestCount = cb_guestCount req,
      hi_totalPriceIdr = price\<rparr>"

text \<open>The callback of the transaction of \<^verbatim>\<open>createPublicBooking\<close>: sweep, re-check, insert.\<close>

definition public_booking_tx ::
  "instant \<Rightarrow> uuid \<Rightarrow> create_booking_request \<Rightarrow> db \<Rightarrow> active_tx \<Rightarrow>
     app_error + (create_booking_response \<times> db)" where
  "public_booking_tx now newId req d tx =
     bind_res (sweepQuoteOrThrow tx now (cb_unitId req) (cb_checkIn req) (cb_checkOut req) Unavailable d)
       (\<lambda>(quoted, d1).
         case fetchMaxGuests d1 (tx_session tx) (cb_unitId req) of
           None \<Rightarrow> Inl (NotFound ''Unit not found'')
         | Some maxGuests \<Rightarrow>
             let reasons = ar_reasons quoted @
                   (if cb_guestCount req > maxGuests then [Max_guests] else [])
             in if reasons \<noteq> [] then Inl (Conflict (Dates_unavailable reasons))
                else bind_res (insertHold tx now newId (hold_input_of req (ar_totalPriceIdr quoted)) d1)
                  (\<lambda>(created, d2).
                    case (bk_holdExpiresAt created, bk_totalPriceIdr created) of
                      (Some expiry, Some price) \<Rightarrow>
                        bind_res (toRupiah price) (\<lambda>total_idr.
                          Inr (\<lparr>cr_bookingId = bk_id created, cr_status = bk_status created,
                             cr_holdExpiresAt = expiry, cr_totalPriceIdr = total_idr,
                             cr_nights = ar_nights quoted\<rparr>, d2))
                    | _ \<Rightarrow> Inl (InternalError ''Booking insert returned a null hold or price'')))"

definition createPublicBooking ::
  "bool \<Rightarrow> instant \<Rightarrow> uuid \<Rightarrow> create_booking_request \<Rightarrow> db \<Rightarrow>
     app_error + (create_booking_response \<times> db)" where
  "createPublicBooking requiresCredentials now newId req d =
     intercept (bind_res (enterFromUnitId (cb_unitId req) d None) (\<lambda>ctx.
       bind_res
         (if requiresCredentials
          then db_run ctx None (\<lambda>tx.
            Inr (paymentCredentialExists d (tx_session tx) (s_tenantId (tx_session tx))))
          else Inr True) (\<lambda>configured.
       if \<not> configured then Inl (Conflict Payments_not_configured)
       else db_run ctx None (public_booking_tx now newId req d))))"

text \<open>The owner's write: a block, or a walk-in with an optional negotiated price.\<close>

record walk_in =
  wi_guestName :: string
  wi_guestPhone :: "string option"
  wi_guestEmail :: "string option"
  wi_guestCount :: "int option"
  wi_totalPriceIdr :: "int option"

datatype owner_body = Manual_block_body | Walk_in_body walk_in

record create_owner_request =
  co_unitId :: uuid
  co_checkIn :: date
  co_checkOut :: date
  co_body :: owner_body

definition createOwnerBookingRequestSchema :: "create_owner_request \<Rightarrow> bool" where
  "createOwnerBookingRequestSchema req \<longleftrightarrow>
     stay_window_ok (co_checkIn req) (co_checkOut req) \<and>
     (case co_body req of
        Manual_block_body \<Rightarrow> True
      | Walk_in_body w \<Rightarrow>
          (case wi_guestCount w of None \<Rightarrow> True | Some n \<Rightarrow> 1 \<le> n \<and> n \<le> 64) \<and>
          (case wi_totalPriceIdr w of None \<Rightarrow> True | Some n \<Rightarrow> rupiahSchema n))"

record create_owner_response =
  or_bookingId :: uuid
  or_status :: booking_status
  or_source :: booking_source
  or_checkIn :: date
  or_checkOut :: date
  or_totalPriceIdr :: "int option"
  or_nights :: int

definition owner_input :: "create_owner_request \<Rightarrow> int \<Rightarrow> confirmed_input" where
  "owner_input req quoted =
     (case co_body req of
        Manual_block_body \<Rightarrow>
          \<lparr>ci_unitId = co_unitId req, ci_source = Manual_block, ci_checkIn = co_checkIn req,
           ci_checkOut = co_checkOut req, ci_guestName = None, ci_guestPhone = None,
           ci_guestEmail = None, ci_guestCount = None, ci_totalPriceIdr = None\<rparr>
      | Walk_in_body w \<Rightarrow>
          \<lparr>ci_unitId = co_unitId req, ci_source = Direct, ci_checkIn = co_checkIn req,
           ci_checkOut = co_checkOut req, ci_guestName = Some (wi_guestName w),
           ci_guestPhone = wi_guestPhone w, ci_guestEmail = wi_guestEmail w,
           ci_guestCount = wi_guestCount w,
           ci_totalPriceIdr = Some (case wi_totalPriceIdr w of Some p \<Rightarrow> p | None \<Rightarrow> quoted)\<rparr>)"

definition owner_booking_tx ::
  "instant \<Rightarrow> uuid \<Rightarrow> create_owner_request \<Rightarrow> db \<Rightarrow> active_tx \<Rightarrow>
     app_error + (create_owner_response \<times> db)" where
  "owner_booking_tx now newId req d tx =
     bind_res (sweepQuoteOrThrow tx now (co_unitId req) (co_checkIn req) (co_checkOut req) Archived d)
       (\<lambda>(quoted, d1).
         if Overlap \<in> set (ar_reasons quoted)
         then Inl (Conflict (Dates_unavailable [Overlap]))
         else bind_res (insertConfirmed tx now newId (owner_input req (ar_totalPriceIdr quoted)) d1)
           (\<lambda>(created, d2).
             bind_res
               (case bk_totalPriceIdr created of
                  None \<Rightarrow> Inr None
                | Some p \<Rightarrow> bind_res (toRupiah p) (\<lambda>n. Inr (Some n)))
               (\<lambda>price.
                 Inr (\<lparr>or_bookingId = bk_id created, or_status = bk_status created,
                   or_source = bk_source created, or_checkIn = bk_checkIn created,
                   or_checkOut = bk_checkOut created, or_totalPriceIdr = price,
                   or_nights = ar_nights quoted\<rparr>, d2))))"

definition createOwnerBooking ::
  "tenant_context \<Rightarrow> instant \<Rightarrow> uuid \<Rightarrow> create_owner_request \<Rightarrow> db \<Rightarrow>
     app_error + (create_owner_response \<times> db)" where
  "createOwnerBooking ctx now newId req d =
     intercept (db_run ctx None (owner_booking_tx now newId req d))"

datatype refund = Refund_none | Refund_manual

definition cancel_booking :: "tenant_context \<Rightarrow> uuid \<Rightarrow> db \<Rightarrow> app_error + (refund \<times> db)" where
  "cancel_booking ctx bid d =
     intercept (db_run ctx None (\<lambda>tx.
       bind_res (cancelById tx bid d) (\<lambda>(outcome, d').
         case outcome of
           Outcome_not_found \<Rightarrow> Inl (NotFound ''Booking not found'')
         | Outcome_terminal st \<Rightarrow> Inl (Conflict (Booking_not_cancellable st))
         | Outcome_cancelled \<Rightarrow>
             Inr (if hasPaidPayment d' (tx_session tx) bid then Refund_manual else Refund_none, d'))))"

text \<open>\<^verbatim>\<open>HoldSweeperService.sweepExpiredHolds\<close>, on the owner connection: every tenant's lapsed holds.\<close>

definition sweepExpiredHolds :: "instant \<Rightarrow> db \<Rightarrow> app_error + (nat \<times> db)" where
  "sweepExpiredHolds now d =
     bind_res (update_booking (lapsed now) (set_status Expired) d) (\<lambda>d'.
       Inr (length (filter (lapsed now) (bookings d)), d'))"

section \<open>The sweeps\<close>

lemma set_status_simps [row_simps, simp]:
  "bk_status (set_status st b) = st" "bk_id (set_status st b) = bk_id b"
  "bk_tenantId (set_status st b) = bk_tenantId b" "bk_unitId (set_status st b) = bk_unitId b"
  "bk_checkIn (set_status st b) = bk_checkIn b" "bk_checkOut (set_status st b) = bk_checkOut b"
  "bk_holdExpiresAt (set_status st b) = bk_holdExpiresAt b"
  "bk_externalUid (set_status st b) = bk_externalUid b"
  "bk_channelConnectionId (set_status st b) = bk_channelConnectionId b"
  "bk_totalPriceIdr (set_status st b) = bk_totalPriceIdr b"
  "bk_source (set_status st b) = bk_source b"
  by (simp_all add: set_status_def)

lemma status_update_set_status [simp]: "status_update (set_status st)"
  by (auto simp: status_update_def set_status_def fun_eq_iff)

lemma not_lapsed_expired [guard_simps, simp]: "\<not> lapsed now (set_status Expired b)"
  by (simp add: lapsed_def)

lemma lapsed_occupies: "lapsed now b \<Longrightarrow> occupies b"
  by (simp add: lapsed_def guard_simps)

lemma release_update:
  assumes "booking_table_ok d" "st = Expired \<or> st = Cancelled"
  shows "update_booking P (set_status st) d =
    Inr (d\<lparr>bookings := update_where P (set_status st) (bookings d)\<rparr>)"
  using assms by (intro status_update_admitted) (auto simp: guard_simps)

lemma sweepExpiredHolds_eq:
  assumes "booking_table_ok d"
  shows "sweepExpiredHolds now d =
    Inr (length (filter (lapsed now) (bookings d)),
         d\<lparr>bookings := update_where (lapsed now) (set_status Expired) (bookings d)\<rparr>)"
  using release_update [OF assms] by (simp add: sweepExpiredHolds_def)

text \<open>The opportunistic sweep, as the rows it expires.\<close>

definition swept_by :: "session \<Rightarrow> instant \<Rightarrow> uuid \<Rightarrow> db \<Rightarrow> booking_row \<Rightarrow> bool" where
  "swept_by s now unitId d b \<longleftrightarrow>
     rls_booking d s b \<and> bk_unitId b = unitId \<and> bk_tenantId b = s_tenantId s \<and> lapsed now b"

definition after_sweep :: "session \<Rightarrow> instant \<Rightarrow> uuid \<Rightarrow> db \<Rightarrow> db" where
  "after_sweep s now unitId d =
     d\<lparr>bookings := update_where (swept_by s now unitId d) (set_status Expired) (bookings d)\<rparr>"

lemma expireLapsedHolds_eq:
  assumes "booking_table_ok d" "tx_alive tx"
  shows "expireLapsedHolds tx now unitId d = Inr (after_sweep (tx_session tx) now unitId d)"
proof -
  have "(\<lambda>b. rls_booking d (tx_session tx) b \<and> bk_unitId b = unitId \<and>
      bk_tenantId b = s_tenantId (tx_session tx) \<and> lapsed now b) = swept_by (tx_session tx) now unitId d"
    by (simp add: fun_eq_iff swept_by_def)
  then show ?thesis
    using assms release_update [OF assms(1)]
    by (simp add: expireLapsedHolds_def assertInTransaction_def after_sweep_def)
qed

lemma after_sweep_fields [simp]:
  "units (after_sweep s now uid d) = units d" "properties (after_sweep s now uid d) = properties d"
  "user_properties (after_sweep s now uid d) = user_properties d"
  "price_overrides (after_sweep s now uid d) = price_overrides d"
  "payments (after_sweep s now uid d) = payments d"
  by (simp_all add: after_sweep_def)

lemma after_sweep_ok: "booking_table_ok d \<Longrightarrow> booking_table_ok (after_sweep s now uid d)"
  unfolding after_sweep_def
  by (rule update_booking_ok [where P = "swept_by s now uid d" and f = "set_status Expired"])
    (auto intro: release_update)

lemma visibility_cong:
  assumes "units d = units d'" "user_properties d = user_properties d'"
  shows "rls_booking d = rls_booking d'" "rls_unit d = rls_unit d'" "unit_visible d = unit_visible d'"
    "app_property_visible d = app_property_visible d'"
  using assms
  by (auto simp: fun_eq_iff rls_booking_def rls_unit_def unit_visible_def app_property_visible_def)

end
