(* ===== verification/Units.thy ===== *)
theory Units
  imports Tenancy Availability "HOL-Library.Product_Lexorder"
begin

text \<open>
  Inventory: \<^verbatim>\<open>apps/api/src/units\<close>. The \<^verbatim>\<open>unit\<close> and \<^verbatim>\<open>unit_price_override\<close> tables with their
  constraints, the units repository and service (list, create, patch, guarded delete, archive) and
  the price-override lifecycle. \<open>inventory_ok\<close> and \<open>override_table_ok\<close> are the invariants the
  booking quote relies on.
\<close>

section \<open>The unit table\<close>

definition unit_check :: "unit_row \<Rightarrow> string option" where
  "unit_check r =
     (if u_basePriceIdr r > 1000000000 then Some ''unit_base_price_max''
      else if u_basePriceIdr r < 0 then Some ''unit_base_price_nonneg''
      else if \<not> u_maxGuests r > 0 then Some ''unit_max_guests_positive''
      else if \<not> u_minStay r \<ge> 1 then Some ''unit_min_stay_positive''
      else None)"

definition same_unit_name :: "unit_row \<Rightarrow> unit_row \<Rightarrow> bool" where
  "same_unit_name q r \<longleftrightarrow> u_propertyId q = u_propertyId r \<and> u_name q = u_name r"

definition unit_violation :: "db \<Rightarrow> unit_row list \<Rightarrow> unit_row \<Rightarrow> string option" where
  "unit_violation d rows r =
     (case unit_check r of Some c \<Rightarrow> Some c
      | None \<Rightarrow>
          if \<exists>q \<in> set rows. u_id q \<noteq> u_id r \<and> same_unit_name q r
          then Some ''unit_property_name_uniq''
          else if \<not> (\<exists>p \<in> set (properties d). p_id p = u_propertyId r \<and> p_tenantId p = u_tenantId r)
          then Some ''unit_property_tenant_fk''
          else None)"

definition insert_unit :: "session \<Rightarrow> unit_row \<Rightarrow> db \<Rightarrow> app_error + db" where
  "insert_unit s r d =
     (let rows = units d @ [r] in
      if \<not> rls_unit d s r then Inl (DbError ''row-level security'')
      else if \<exists>q \<in> set (units d). u_id q = u_id r then Inl (DbError ''unit_pkey'')
      else case unit_violation d rows r of
        Some c \<Rightarrow> Inl (DbError c)
      | None \<Rightarrow> Inr (d\<lparr>units := rows\<rparr>))"

definition update_unit :: "(unit_row \<Rightarrow> bool) \<Rightarrow> (unit_row \<Rightarrow> unit_row) \<Rightarrow> db \<Rightarrow> app_error + db" where
  "update_unit P f d =
     (let rows = update_where P f (units d) in
      case first_violation (unit_violation d rows) (map f (filter P (units d))) of
        Some c \<Rightarrow> Inl (DbError c)
      | None \<Rightarrow> Inr (d\<lparr>units := rows\<rparr>))"

text \<open>
  Deleting a channel connection: \<^verbatim>\<open>sync_conflict\<close> cascades, \<^verbatim>\<open>booking.channel_connection_id\<close> is set
  null. Deleting a unit cascades its overrides, connections and conflicts; \<^verbatim>\<open>booking\<close> is \<^verbatim>\<open>no action\<close>,
  so a booking on the unit refuses the statement.
\<close>

definition forget_channel :: "(channel_row \<Rightarrow> bool) \<Rightarrow> db \<Rightarrow> booking_row \<Rightarrow> booking_row" where
  "forget_channel P d b =
     (if \<exists>c \<in> set (channels d). P c \<and> bk_channelConnectionId b = Some (ch_id c)
      then b\<lparr>bk_channelConnectionId := None\<rparr> else b)"

definition delete_channels :: "(channel_row \<Rightarrow> bool) \<Rightarrow> db \<Rightarrow> db" where
  "delete_channels P d =
     d\<lparr>channels := filter (\<lambda>c. \<not> P c) (channels d),
       sync_conflicts := filter (\<lambda>x. \<not> (\<exists>c \<in> set (channels d). P c \<and>
          sc_channelConnectionId x = ch_id c)) (sync_conflicts d),
       bookings := map (forget_channel P d) (bookings d)\<rparr>"

definition delete_units :: "(unit_row \<Rightarrow> bool) \<Rightarrow> db \<Rightarrow> app_error + db" where
  "delete_units P d =
     (let gone = (\<lambda>uid. \<exists>u \<in> set (units d). P u \<and> u_id u = uid) in
      if \<exists>b \<in> set (bookings d). gone (bk_unitId b) then Inl (DbError ''booking_unit_tenant_fk'')
      else Inr ((delete_channels (\<lambda>c. gone (ch_unitId c)) d)
        \<lparr>units := filter (\<lambda>u. \<not> P u) (units d),
         price_overrides := filter (\<lambda>p. \<not> gone (po_unitId p)) (price_overrides d),
         sync_conflicts := filter (\<lambda>x. \<not> gone (sc_unitId x))
           (sync_conflicts (delete_channels (\<lambda>c. gone (ch_unitId c)) d))\<rparr>))"

section \<open>The units repository\<close>

text \<open>A unit with its effective retirement flag, as the join with the property answers it.\<close>

type_synonym unit_out = "unit_row \<times> bool"

definition unit_columns :: "db \<Rightarrow> session \<Rightarrow> (unit_row \<Rightarrow> bool) \<Rightarrow> unit_out list" where
  "unit_columns d s P =
     map (\<lambda>(u, p). (u, u_archivedAt u \<noteq> None \<or> p_archivedAt p \<noteq> None))
       (filter (\<lambda>(u, p). rls_unit d s u \<and> rls_property d s p \<and> p_id p = u_propertyId u \<and> P u)
         (List.product (units d) (properties d)))"

definition propertyExists :: "db \<Rightarrow> session \<Rightarrow> uuid \<Rightarrow> bool" where
  "propertyExists d s propertyId \<longleftrightarrow>
     select_one (\<lambda>p. rls_property d s p \<and> p_id p = propertyId \<and> p_tenantId p = s_tenantId s)
       (properties d) \<noteq> None"

definition findByProperty :: "db \<Rightarrow> session \<Rightarrow> uuid \<Rightarrow> unit_out list" where
  "findByProperty d s propertyId =
     sort_key (\<lambda>(u, a). (u_createdAt u, u_id u))
       (unit_columns d s (\<lambda>u. u_propertyId u = propertyId \<and> u_tenantId u = s_tenantId s))"

definition findAllUnits :: "db \<Rightarrow> session \<Rightarrow> unit_out list" where
  "findAllUnits d s =
     sort_key (\<lambda>(u, a). (u_createdAt u, u_id u)) (unit_columns d s (\<lambda>u. u_tenantId u = s_tenantId s))"

definition findUnitById :: "db \<Rightarrow> session \<Rightarrow> uuid \<Rightarrow> unit_out option" where
  "findUnitById d s uid =
     select_one (\<lambda>_. True) (unit_columns d s (\<lambda>u. u_id u = uid \<and> u_tenantId u = s_tenantId s))"

definition owned_unit :: "db \<Rightarrow> session \<Rightarrow> uuid \<Rightarrow> unit_row \<Rightarrow> bool" where
  "owned_unit d s uid u \<longleftrightarrow> rls_unit d s u \<and> u_id u = uid \<and> u_tenantId u = s_tenantId s"

text \<open>\<^verbatim>\<open>writeThenRead\<close> with the guarded UPDATE of \<^verbatim>\<open>update\<close> and \<^verbatim>\<open>setArchived\<close>.\<close>

definition write_unit ::
  "session \<Rightarrow> uuid \<Rightarrow> (unit_row \<Rightarrow> unit_row) \<Rightarrow> db \<Rightarrow> app_error + (unit_out option \<times> db)" where
  "write_unit s uid f d =
     bind_res (update_unit (owned_unit d s uid) f d) (\<lambda>d'.
       Inr (if filter (owned_unit d s uid) (units d) = [] then None else findUnitById d' s uid, d'))"

definition lockForDelete :: "active_tx \<Rightarrow> uuid \<Rightarrow> db \<Rightarrow> app_error + bool" where
  "lockForDelete tx uid d =
     bind_res (assertInTransaction (Some tx)) (\<lambda>_.
       Inr (select_one (owned_unit d (tx_session tx) uid) (units d) \<noteq> None))"

definition countBookings :: "db \<Rightarrow> session \<Rightarrow> uuid \<Rightarrow> nat" where
  "countBookings d s uid =
     length (filter (\<lambda>b. rls_booking d s b \<and> bk_unitId b = uid \<and> bk_tenantId b = s_tenantId s)
       (bookings d))"

section \<open>The units service\<close>

record unit_response =
  ur_id :: uuid
  ur_propertyId :: uuid
  ur_tenantId :: uuid
  ur_name :: string
  ur_basePriceIdr :: int
  ur_maxGuests :: int
  ur_minStay :: int
  ur_archivedAt :: "instant option"
  ur_archived :: bool
  ur_createdAt :: instant

definition unit_toResponse :: "unit_out \<Rightarrow> app_error + unit_response" where
  "unit_toResponse row =
     (case row of (u, archived) \<Rightarrow>
        bind_res (toRupiah (u_basePriceIdr u)) (\<lambda>price.
          Inr \<lparr>ur_id = u_id u, ur_propertyId = u_propertyId u, ur_tenantId = u_tenantId u,
            ur_name = u_name u, ur_basePriceIdr = price, ur_maxGuests = u_maxGuests u,
            ur_minStay = u_minStay u, ur_archivedAt = u_archivedAt u, ur_archived = archived,
            ur_createdAt = u_createdAt u\<rparr>))"

definition listByProperty :: "tenant_context \<Rightarrow> uuid \<Rightarrow> db \<Rightarrow> app_error + unit_response list" where
  "listByProperty ctx propertyId d =
     db_run ctx None (\<lambda>tx.
       if \<not> propertyExists d (tx_session tx) propertyId then Inl (NotFound ''Property not found'')
       else map_res unit_toResponse (findByProperty d (tx_session tx) propertyId))"

definition listAllUnits :: "tenant_context \<Rightarrow> db \<Rightarrow> app_error + unit_response list" where
  "listAllUnits ctx d =
     db_run ctx None (\<lambda>tx. map_res unit_toResponse (findAllUnits d (tx_session tx)))"

record create_unit_request =
  cu_name :: string
  cu_basePriceIdr :: int
  cu_maxGuests :: int
  cu_minStay :: int

definition new_unit :: "uuid \<Rightarrow> uuid \<Rightarrow> uuid \<Rightarrow> instant \<Rightarrow> create_unit_request \<Rightarrow> unit_row" where
  "new_unit newId propertyId tenantId now dto =
     \<lparr>u_id = newId, u_propertyId = propertyId, u_tenantId = tenantId, u_name = cu_name dto,
      u_basePriceIdr = cu_basePriceIdr dto, u_maxGuests = cu_maxGuests dto,
      u_minStay = cu_minStay dto, u_archivedAt = None, u_createdAt = now\<rparr>"

text \<open>The service reads the property and then inserts in a second transaction; the row read back is
  the created one.\<close>

definition create_unit ::
  "tenant_context \<Rightarrow> instant \<Rightarrow> uuid \<Rightarrow> uuid \<Rightarrow> create_unit_request \<Rightarrow> db \<Rightarrow>
     app_error + (unit_response \<times> db)" where
  "create_unit ctx now newId propertyId dto d =
     intercept (db_run ctx None (\<lambda>tx.
       let s = tx_session tx in
       if \<not> propertyExists d s propertyId then Inl (NotFound ''Property not found'')
       else bind_res (insert_unit s (new_unit newId propertyId (s_tenantId s) now dto) d) (\<lambda>d'.
         case findUnitById d' s newId of
           None \<Rightarrow> Inl (JsError ''Cannot destructure property of undefined'')
         | Some row \<Rightarrow> bind_res (unit_toResponse row) (\<lambda>r. Inr (r, d')))))"

record update_unit_request =
  uu_name :: "string option"
  uu_basePriceIdr :: "int option"
  uu_maxGuests :: "int option"
  uu_minStay :: "int option"

definition patch_unit :: "update_unit_request \<Rightarrow> unit_row \<Rightarrow> unit_row" where
  "patch_unit dto u =
     u\<lparr>u_name := (case uu_name dto of Some v \<Rightarrow> v | None \<Rightarrow> u_name u),
       u_basePriceIdr := (case uu_basePriceIdr dto of Some v \<Rightarrow> v | None \<Rightarrow> u_basePriceIdr u),
       u_maxGuests := (case uu_maxGuests dto of Some v \<Rightarrow> v | None \<Rightarrow> u_maxGuests u),
       u_minStay := (case uu_minStay dto of Some v \<Rightarrow> v | None \<Rightarrow> u_minStay u)\<rparr>"

definition empty_unit_patch :: "update_unit_request \<Rightarrow> bool" where
  "empty_unit_patch dto \<longleftrightarrow>
     uu_name dto = None \<and> uu_basePriceIdr dto = None \<and> uu_maxGuests dto = None \<and> uu_minStay dto = None"

definition answer_unit :: "(unit_out option \<times> db) \<Rightarrow> app_error + (unit_response \<times> db)" where
  "answer_unit out =
     (case out of
        (None, d') \<Rightarrow> Inl (NotFound ''Unit not found'')
      | (Some row, d') \<Rightarrow> bind_res (unit_toResponse row) (\<lambda>r. Inr (r, d')))"

definition modify_unit ::
  "tenant_context \<Rightarrow> uuid \<Rightarrow> update_unit_request \<Rightarrow> db \<Rightarrow> app_error + (unit_response \<times> db)" where
  "modify_unit ctx uid dto d =
     intercept (db_run ctx None (\<lambda>tx.
       if empty_unit_patch dto then answer_unit (findUnitById d (tx_session tx) uid, d)
       else bind_res (write_unit (tx_session tx) uid (patch_unit dto) d) answer_unit))"

definition set_archived :: "instant \<Rightarrow> bool \<Rightarrow> unit_row \<Rightarrow> unit_row" where
  "set_archived now archived u =
     u\<lparr>u_archivedAt :=
         (if archived then (case u_archivedAt u of Some t \<Rightarrow> Some t | None \<Rightarrow> Some now) else None)\<rparr>"

definition setArchived_unit ::
  "tenant_context \<Rightarrow> instant \<Rightarrow> uuid \<Rightarrow> bool \<Rightarrow> db \<Rightarrow> app_error + (unit_response \<times> db)" where
  "setArchived_unit ctx now uid archived d =
     intercept (db_run ctx None (\<lambda>tx.
       bind_res (write_unit (tx_session tx) uid (set_archived now archived) d) answer_unit))"

definition remove_unit :: "tenant_context \<Rightarrow> uuid \<Rightarrow> db \<Rightarrow> app_error + db" where
  "remove_unit ctx uid d =
     intercept (db_run ctx None (\<lambda>tx.
       bind_res (lockForDelete tx uid d) (\<lambda>locked.
         if \<not> locked then Inl (NotFound ''Unit not found'')
         else let n = countBookings d (tx_session tx) uid in
           if n > 0 then Inl (Conflict (Unit_has_bookings n))
           else delete_units (owned_unit d (tx_session tx) uid) d)))"

end
