(* ===== verification/Price_Overrides.thy ===== *)
theory Price_Overrides
  imports Units
begin

text \<open>
  Dated prices: the \<^verbatim>\<open>unit_price_override\<close> table with its exclusion constraint and the lifecycle of
  \<^verbatim>\<open>price-overrides.service.ts\<close>; then the inventory invariants and who keeps them.
\<close>

section \<open>The override table\<close>

definition override_check :: "price_override_row \<Rightarrow> string option" where
  "override_check r =
     (if \<not> (1 \<le> po_nightlyPriceIdr r \<and> po_nightlyPriceIdr r \<le> 1000000000)
      then Some ''price_override_nightly_range''
      else if \<not> po_toDate r > po_fromDate r then Some ''price_override_range_nonempty''
      else None)"

text \<open>\<^verbatim>\<open>price_override_no_overlap\<close> has no predicate: every row counts.\<close>

definition override_occupies :: "price_override_row \<Rightarrow> bool" where
  "override_occupies r = True"

definition override_no_overlap_refuses :: "price_override_row list \<Rightarrow> price_override_row \<Rightarrow> bool" where
  "override_no_overlap_refuses =
     excl_conflict po_id po_unitId po_fromDate po_toDate override_occupies"

definition override_violation ::
  "db \<Rightarrow> price_override_row list \<Rightarrow> price_override_row \<Rightarrow> string option" where
  "override_violation d rows r =
     (case override_check r of Some c \<Rightarrow> Some c
      | None \<Rightarrow>
          if override_no_overlap_refuses rows r then Some ''price_override_no_overlap''
          else if \<not> (\<exists>u \<in> set (units d). u_id u = po_unitId r \<and> u_tenantId u = po_tenantId r)
          then Some ''price_override_unit_tenant_fk''
          else None)"

definition insert_override :: "session \<Rightarrow> price_override_row \<Rightarrow> db \<Rightarrow> app_error + db" where
  "insert_override s r d =
     (let rows = price_overrides d @ [r] in
      if \<not> rls_override d s r then Inl (DbError ''row-level security'')
      else if \<exists>q \<in> set (price_overrides d). po_id q = po_id r
      then Inl (DbError ''unit_price_override_pkey'')
      else case override_violation d rows r of
        Some c \<Rightarrow> Inl (DbError c)
      | None \<Rightarrow> Inr (d\<lparr>price_overrides := rows\<rparr>))"

lemma override_violation_None:
  "override_violation d rows r = None \<longleftrightarrow>
     override_check r = None \<and> \<not> override_no_overlap_refuses rows r \<and>
     (\<exists>u \<in> set (units d). u_id u = po_unitId r \<and> u_tenantId u = po_tenantId r)"
  by (auto simp: override_violation_def split: option.splits)

lemma override_check_None:
  "override_check r = None \<longleftrightarrow>
     1 \<le> po_nightlyPriceIdr r \<and> po_nightlyPriceIdr r \<le> 1000000000 \<and> po_fromDate r < po_toDate r"
  by (auto simp: override_check_def)

interpretation ot: excl_table po_id po_unitId po_fromDate po_toDate override_occupies
  "override_violation d" for d
  by unfold_locales
    (auto simp: override_violation_None override_no_overlap_refuses_def override_check_None)

section \<open>The lifecycle\<close>

definition findByUnit :: "db \<Rightarrow> session \<Rightarrow> uuid \<Rightarrow> price_override_row list" where
  "findByUnit d s unitId =
     sort_key po_fromDate
       (filter (\<lambda>p. rls_override d s p \<and> po_unitId p = unitId \<and> po_tenantId p = s_tenantId s)
         (price_overrides d))"

definition overlapExists :: "db \<Rightarrow> session \<Rightarrow> uuid \<Rightarrow> date \<Rightarrow> date \<Rightarrow> bool" where
  "overlapExists d s unitId from to \<longleftrightarrow>
     select_one (\<lambda>p. rls_override d s p \<and> po_unitId p = unitId \<and> po_tenantId p = s_tenantId s \<and>
        range_overlaps (po_fromDate p) (po_toDate p) from to) (price_overrides d) \<noteq> None"

record create_override_request =
  cp_from :: date
  cp_to :: date
  cp_nightlyPriceIdr :: int

definition createPriceOverrideRequestSchema :: "create_override_request \<Rightarrow> bool" where
  "createPriceOverrideRequestSchema dto \<longleftrightarrow>
     is_iso_date (cp_from dto) \<and> is_iso_date (cp_to dto) \<and> rupiahSchema (cp_nightlyPriceIdr dto) \<and>
     cp_nightlyPriceIdr dto \<ge> 1 \<and> cp_nightlyPriceIdr dto \<le> MAX_NIGHTLY_RATE_IDR \<and>
     cp_from dto < cp_to dto"

record override_response =
  pr_id :: uuid
  pr_unitId :: uuid
  pr_from :: date
  pr_to :: date
  pr_nightlyPriceIdr :: int
  pr_createdAt :: instant

definition override_toResponse :: "price_override_row \<Rightarrow> app_error + override_response" where
  "override_toResponse row =
     bind_res (toRupiah (po_nightlyPriceIdr row)) (\<lambda>price.
       Inr \<lparr>pr_id = po_id row, pr_unitId = po_unitId row, pr_from = po_fromDate row,
         pr_to = po_toDate row, pr_nightlyPriceIdr = price, pr_createdAt = po_createdAt row\<rparr>)"

definition assertUnitOwned :: "db \<Rightarrow> session \<Rightarrow> uuid \<Rightarrow> app_error + unit" where
  "assertUnitOwned d s unitId =
     guard_res (findUnitById d s unitId \<noteq> None) (NotFound ''Unit not found'')"

definition list_overrides :: "tenant_context \<Rightarrow> uuid \<Rightarrow> db \<Rightarrow> app_error + override_response list" where
  "list_overrides ctx unitId d =
     db_run ctx None (\<lambda>tx.
       bind_res (assertUnitOwned d (tx_session tx) unitId) (\<lambda>_.
         map_res override_toResponse (findByUnit d (tx_session tx) unitId)))"

definition new_override ::
  "uuid \<Rightarrow> uuid \<Rightarrow> uuid \<Rightarrow> instant \<Rightarrow> create_override_request \<Rightarrow> price_override_row" where
  "new_override newId unitId tenantId now dto =
     \<lparr>po_id = newId, po_unitId = unitId, po_tenantId = tenantId, po_fromDate = cp_from dto,
      po_toDate = cp_to dto, po_nightlyPriceIdr = cp_nightlyPriceIdr dto, po_createdAt = now\<rparr>"

definition create_override ::
  "tenant_context \<Rightarrow> instant \<Rightarrow> uuid \<Rightarrow> uuid \<Rightarrow> create_override_request \<Rightarrow> db \<Rightarrow>
     app_error + (override_response \<times> db)" where
  "create_override ctx now newId unitId dto d =
     intercept (db_run ctx None (\<lambda>tx.
       let s = tx_session tx; row = new_override newId unitId (s_tenantId s) now dto in
       bind_res (assertUnitOwned d s unitId) (\<lambda>_.
         if overlapExists d s unitId (cp_from dto) (cp_to dto)
         then Inl (Conflict Price_override_overlap)
         else bind_res (insert_override s row d) (\<lambda>d'.
           bind_res (override_toResponse row) (\<lambda>r. Inr (r, d'))))))"

definition remove_override :: "tenant_context \<Rightarrow> uuid \<Rightarrow> db \<Rightarrow> app_error + db" where
  "remove_override ctx oid d =
     intercept (db_run ctx None (\<lambda>tx.
       let s = tx_session tx;
           hit = (\<lambda>p. rls_override d s p \<and> po_id p = oid \<and> po_tenantId p = s_tenantId s)
       in if filter hit (price_overrides d) = [] then Inl (NotFound ''Price override not found'')
          else Inr (d\<lparr>price_overrides := filter (\<lambda>p. \<not> hit p) (price_overrides d)\<rparr>)))"

section \<open>The inventory invariants\<close>

definition inventory_ok :: "db \<Rightarrow> bool" where
  "inventory_ok d \<longleftrightarrow>
     distinct (map u_id (units d)) \<and> distinct (map p_id (properties d)) \<and>
     (\<forall>p \<in> set (properties d). 1 \<le> p_depositPct p \<and> p_depositPct p \<le> 100) \<and>
     (\<forall>u \<in> set (units d). unit_check u = None \<and>
        (\<exists>p \<in> set (properties d). p_id p = u_propertyId u \<and> p_tenantId p = u_tenantId u)) \<and>
     (\<forall>u \<in> set (units d). \<forall>v \<in> set (units d). u_id u \<noteq> u_id v \<longrightarrow> \<not> same_unit_name u v)"

definition override_table_ok :: "db \<Rightarrow> bool" where
  "override_table_ok d \<longleftrightarrow>
     ot.table_ok (price_overrides d) \<and>
     (\<forall>p \<in> set (price_overrides d). override_check p = None \<and>
        (\<exists>u \<in> set (units d). u_id u = po_unitId p \<and> u_tenantId u = po_tenantId p))"

definition dates_ok :: "db \<Rightarrow> bool" where
  "dates_ok d \<longleftrightarrow>
     (\<forall>b \<in> set (bookings d). is_iso_date (bk_checkIn b) \<and> is_iso_date (bk_checkOut b)) \<and>
     (\<forall>p \<in> set (price_overrides d). is_iso_date (po_fromDate p) \<and> is_iso_date (po_toDate p))"

lemma unit_check_None [guard_simps]:
  "unit_check r = None \<longleftrightarrow>
     0 \<le> u_basePriceIdr r \<and> u_basePriceIdr r \<le> 1000000000 \<and> 0 < u_maxGuests r \<and> 1 \<le> u_minStay r"
  by (auto simp: unit_check_def)

lemma unit_by_id:
  "inventory_ok d \<Longrightarrow> u \<in> set (units d) \<Longrightarrow> v \<in> set (units d) \<Longrightarrow> u_id u = u_id v \<Longrightarrow> u = v"
  by (auto simp: inventory_ok_def distinct_map inj_on_def)

lemma property_by_id:
  "inventory_ok d \<Longrightarrow> p \<in> set (properties d) \<Longrightarrow> q \<in> set (properties d) \<Longrightarrow> p_id p = p_id q \<Longrightarrow> p = q"
  by (auto simp: inventory_ok_def distinct_map inj_on_def)

lemma unit_property:
  assumes "inventory_ok d" "u \<in> set (units d)"
  obtains p where "p \<in> set (properties d)" "p_id p = u_propertyId u" "p_tenantId p = u_tenantId u"
  using assms unfolding inventory_ok_def by blast

text \<open>A unit's property is visible exactly when the unit is.\<close>

lemma rls_unit_property:
  "p_id p = u_propertyId u \<Longrightarrow> p_tenantId p = u_tenantId u \<Longrightarrow> rls_property d s p \<longleftrightarrow> rls_unit d s u"
  by (simp add: rls_property_def rls_unit_def)

definition effective_archived :: "db \<Rightarrow> unit_row \<Rightarrow> bool" where
  "effective_archived d u \<longleftrightarrow>
     u_archivedAt u \<noteq> None \<or>
     (\<exists>p \<in> set (properties d). p_id p = u_propertyId u \<and> p_archivedAt p \<noteq> None)"

lemma set_unit_columns:
  assumes "inventory_ok d"
  shows "(u, a) \<in> set (unit_columns d s P) \<longleftrightarrow>
    u \<in> set (units d) \<and> rls_unit d s u \<and> P u \<and> a = effective_archived d u"
proof
  assume "(u, a) \<in> set (unit_columns d s P)"
  then obtain p where p: "p \<in> set (properties d)" "p_id p = u_propertyId u" "u \<in> set (units d)"
    "rls_unit d s u" "P u" "a = (u_archivedAt u \<noteq> None \<or> p_archivedAt p \<noteq> None)"
    by (auto simp: unit_columns_def)
  then have "effective_archived d u = (u_archivedAt u \<noteq> None \<or> p_archivedAt p \<noteq> None)"
    using property_by_id [OF assms] unfolding effective_archived_def by metis
  with p show "u \<in> set (units d) \<and> rls_unit d s u \<and> P u \<and> a = effective_archived d u" by simp
next
  assume r: "u \<in> set (units d) \<and> rls_unit d s u \<and> P u \<and> a = effective_archived d u"
  then obtain p where p: "p \<in> set (properties d)" "p_id p = u_propertyId u" "p_tenantId p = u_tenantId u"
    using unit_property [OF assms] by blast
  then have "effective_archived d u = (u_archivedAt u \<noteq> None \<or> p_archivedAt p \<noteq> None)"
    using property_by_id [OF assms] unfolding effective_archived_def by metis
  with r p have "a = (u_archivedAt u \<noteq> None \<or> p_archivedAt p \<noteq> None)" "rls_property d s p"
    by (simp_all add: rls_unit_property)
  with r p show "(u, a) \<in> set (unit_columns d s P)"
    unfolding unit_columns_def by (auto intro!: image_eqI [where x = "(u, p)"])
qed

lemma owned_unit_tenant: "owned_unit d s uid u \<Longrightarrow> u_tenantId u = s_tenantId s"
  by (simp add: owned_unit_def)

lemma list_all_same: "x \<in> set xs \<Longrightarrow> (\<And>y. y \<in> set xs \<Longrightarrow> y = x) \<Longrightarrow> \<exists>ys. xs = x # ys"
proof (cases xs)
  case (Cons y ys)
  assume "\<And>y. y \<in> set xs \<Longrightarrow> y = x"
  with Cons have "y = x" by (metis list.set_intros(1))
  with Cons show ?thesis by blast
qed simp

lemma findUnitById_Some:
  assumes "inventory_ok d" "u \<in> set (units d)" "owned_unit d s uid u"
  shows "findUnitById d s uid = Some (u, effective_archived d u)"
proof -
  let ?rows = "unit_columns d s (\<lambda>u. u_id u = uid \<and> u_tenantId u = s_tenantId s)"
  have "(u, effective_archived d u) \<in> set ?rows"
    using assms by (simp add: set_unit_columns owned_unit_def)
  moreover have "x = (u, effective_archived d u)" if x: "x \<in> set ?rows" for x
  proof -
    obtain v a where va: "x = (v, a)" by (cases x)
    with x have v: "v \<in> set (units d)" "u_id v = uid" "a = effective_archived d v"
      unfolding va set_unit_columns [OF assms(1)] by blast+
    have "u_id v = u_id u" using v(2) assms(3) by (simp add: owned_unit_def)
    then have "v = u" by (rule unit_by_id [OF assms(1) v(1) assms(2)])
    with va v show ?thesis by simp
  qed
  ultimately have "\<exists>rs. ?rows = (u, effective_archived d u) # rs" by (rule list_all_same)
  then show ?thesis unfolding findUnitById_def by auto
qed

lemma findUnitById_None:
  assumes "inventory_ok d" "\<forall>u \<in> set (units d). \<not> owned_unit d s uid u"
  shows "findUnitById d s uid = None"
proof -
  have "x \<notin> set (unit_columns d s (\<lambda>u. u_id u = uid \<and> u_tenantId u = s_tenantId s))" for x
    using assms(2) set_unit_columns [OF assms(1), of "fst x" "snd x"] by (auto simp: owned_unit_def)
  then show ?thesis unfolding findUnitById_def by simp
qed

text \<open>The unit an override or a booking names is visible to whoever owns the unit.\<close>

lemma unit_visible_owned:
  "u \<in> set (units d) \<Longrightarrow> owned_unit d s uid u \<Longrightarrow> unit_visible d s uid"
  by (auto simp: unit_visible_def owned_unit_def rls_unit_def)

lemma unit_visible_iff:
  "unit_visible d s uid \<longleftrightarrow> (\<exists>u \<in> set (units d). owned_unit d s uid u)"
  by (auto simp: unit_visible_def owned_unit_def rls_unit_def)

lemma override_seen:
  assumes "inventory_ok d" "override_table_ok d" "u \<in> set (units d)" "owned_unit d s uid u"
    "p \<in> set (price_overrides d)" "po_unitId p = uid"
  shows "rls_override d s p" "po_tenantId p = s_tenantId s"
proof -
  from assms obtain v where "v \<in> set (units d)" "u_id v = po_unitId p" "u_tenantId v = po_tenantId p"
    unfolding override_table_ok_def by blast
  with assms have "u_tenantId u = po_tenantId p"
    using unit_by_id [OF assms(1)] by (metis owned_unit_def)
  then show t: "po_tenantId p = s_tenantId s" using assms(4) by (simp add: owned_unit_def)
  then show "rls_override d s p"
    using unit_visible_owned [OF assms(3,4)] assms(6) by (simp add: rls_override_def)
qed

lemma booking_seen:
  assumes "inventory_ok d" "booking_table_ok d" "u \<in> set (units d)" "owned_unit d s uid u"
    "b \<in> set (bookings d)" "bk_unitId b = uid"
  shows "rls_booking d s b" "bk_tenantId b = s_tenantId s"
proof -
  from assms obtain v where "v \<in> set (units d)" "u_id v = bk_unitId b" "u_tenantId v = bk_tenantId b"
    unfolding booking_table_ok_def by blast
  with assms have "u_tenantId u = bk_tenantId b"
    using unit_by_id [OF assms(1)] by (metis owned_unit_def)
  then show t: "bk_tenantId b = s_tenantId s" using assms(4) by (simp add: owned_unit_def)
  then show "rls_booking d s b"
    using unit_visible_owned [OF assms(3,4)] assms(6) by (simp add: rls_booking_def)
qed

section \<open>What the lifecycle answers\<close>

definition override_clash :: "db \<Rightarrow> uuid \<Rightarrow> date \<Rightarrow> date \<Rightarrow> bool" where
  "override_clash d unitId from to \<longleftrightarrow>
     (\<exists>q \<in> set (price_overrides d). po_unitId q = unitId \<and>
        range_overlaps (po_fromDate q) (po_toDate q) from to)"

lemma overlapExists_iff:
  assumes "inventory_ok d" "override_table_ok d" "u \<in> set (units d)" "owned_unit d s unitId u"
  shows "overlapExists d s unitId from to \<longleftrightarrow> override_clash d unitId from to"
  using override_seen [OF assms]
  by (auto simp: overlapExists_def override_clash_def)

lemma new_override_simps [row_simps, simp]:
  "po_id (new_override i u t now dto) = i" "po_unitId (new_override i u t now dto) = u"
  "po_tenantId (new_override i u t now dto) = t" "po_fromDate (new_override i u t now dto) = cp_from dto"
  "po_toDate (new_override i u t now dto) = cp_to dto"
  "po_nightlyPriceIdr (new_override i u t now dto) = cp_nightlyPriceIdr dto"
  by (simp_all add: new_override_def)

lemma new_override_check:
  "createPriceOverrideRequestSchema dto \<Longrightarrow> override_check (new_override i u t now dto) = None"
  by (simp add: override_check_None createPriceOverrideRequestSchema_def MAX_NIGHTLY_RATE_IDR_def)

text \<open>The exclusion constraint refuses exactly what the pre-check refuses.\<close>

lemma override_refused_iff:
  assumes "i \<notin> po_id ` set (price_overrides d)"
  shows "override_no_overlap_refuses (price_overrides d @ [new_override i unitId t now dto])
      (new_override i unitId t now dto) \<longleftrightarrow> override_clash d unitId (cp_from dto) (cp_to dto)"
  using assms
  by (auto simp: override_no_overlap_refuses_def excl_conflict_def override_clash_def
      override_occupies_def)

lemma insert_override_iff:
  assumes "inventory_ok d" "u \<in> set (units d)" "owned_unit d s unitId u"
    and "createPriceOverrideRequestSchema dto" "i \<notin> po_id ` set (price_overrides d)"
  shows "insert_override s (new_override i unitId (s_tenantId s) now dto) d =
    (if override_clash d unitId (cp_from dto) (cp_to dto) then Inl (DbError ''price_override_no_overlap'')
     else Inr (d\<lparr>price_overrides := price_overrides d @ [new_override i unitId (s_tenantId s) now dto]\<rparr>))"
proof -
  have "\<exists>u \<in> set (units d). u_id u = unitId \<and> u_tenantId u = s_tenantId s"
    using assms(2,3) by (auto simp: owned_unit_def)
  moreover have "rls_override d s (new_override i unitId (s_tenantId s) now dto)"
    using unit_visible_owned [OF assms(2,3)] by (simp add: rls_override_def)
  moreover have "\<not> (\<exists>q \<in> set (price_overrides d). po_id q = i)"
    using assms(5) by (metis image_eqI)
  ultimately show ?thesis
    using new_override_check [OF assms(4)]
    by (simp add: insert_override_def Let_def override_violation_def override_refused_iff [OF assms(5)])
qed

lemma insert_override_ok:
  assumes "override_table_ok d" "insert_override s r d = Inr d'"
  shows "override_table_ok d'"
proof -
  have c: "d' = d\<lparr>price_overrides := price_overrides d @ [r]\<rparr>"
    "po_id r \<notin> po_id ` set (price_overrides d)"
    "override_violation d (price_overrides d @ [r]) r = None"
    using assms(2) by (auto simp: insert_override_def Let_def split: if_splits option.splits)
  have "ot.table_ok (price_overrides d @ [r])"
    using assms(1) c(2,3) unfolding override_table_ok_def by (intro ot.insert_ok) auto
  with assms(1) c show ?thesis
    by (auto simp: override_table_ok_def override_violation_None)
qed

text \<open>The whole contract of adding a price override: an unknown or foreign unit is 404, an
  overlap with any existing override of the unit is the typed 409, and otherwise exactly the requested
  row is appended. No other answer exists for a request that passed validation.\<close>

theorem create_override_contract:
  assumes "inventory_ok d" "override_table_ok d" "createPriceOverrideRequestSchema dto"
    and "newId \<notin> po_id ` set (price_overrides d)"
  shows "create_override (Some p) now newId unitId dto d =
    (let s = session_of p; row = new_override newId unitId (principal_tenant p) now dto in
     if \<forall>u \<in> set (units d). \<not> owned_unit d s unitId u then Inl (NotFound ''Unit not found'')
     else if override_clash d unitId (cp_from dto) (cp_to dto) then Inl (Conflict Price_override_overlap)
     else Inr (\<lparr>pr_id = newId, pr_unitId = unitId, pr_from = cp_from dto, pr_to = cp_to dto,
                 pr_nightlyPriceIdr = cp_nightlyPriceIdr dto, pr_createdAt = now\<rparr>,
               d\<lparr>price_overrides := price_overrides d @ [row]\<rparr>))"
proof (cases "\<forall>u \<in> set (units d). \<not> owned_unit d (session_of p) unitId u")
  case True
  then show ?thesis
    using findUnitById_None [OF assms(1) True]
    by (simp add: create_override_def Let_def assertUnitOwned_def intercept_def)
next
  case False
  then obtain u where u: "u \<in> set (units d)" "owned_unit d (session_of p) unitId u" by blast
  have "rupiahSchema (cp_nightlyPriceIdr dto)"
    using assms(3) by (simp add: createPriceOverrideRequestSchema_def)
  then show ?thesis
    using False u findUnitById_Some [OF assms(1) u] overlapExists_iff [OF assms(1,2) u]
      insert_override_iff [OF assms(1) u assms(3,4)]
    by (auto simp: create_override_def Let_def assertUnitOwned_def override_toResponse_def
        intercept_def toRupiah_ok new_override_def)
qed

end
