(* ===== verification/Inventory.thy ===== *)
theory Inventory
  imports Price_Overrides
begin

text \<open>
  What the units service promises: the guarded delete never destroys a booking and never trips a
  foreign key, retirement is idempotent and keeps its first date, and every operation keeps
  \<open>inventory_ok\<close> and \<open>override_table_ok\<close>.
\<close>

section \<open>Writing one unit\<close>

lemma insert_unit_cases:
  assumes "insert_unit s r d = Inr d'"
  shows "d' = d\<lparr>units := units d @ [r]\<rparr>" "rls_unit d s r" "u_id r \<notin> u_id ` set (units d)"
    "unit_violation d (units d @ [r]) r = None"
  using assms by (auto simp: insert_unit_def Let_def split: if_splits option.splits)

lemma unit_violation_None:
  "unit_violation d rows r = None \<longleftrightarrow>
     unit_check r = None \<and> \<not> (\<exists>q \<in> set rows. u_id q \<noteq> u_id r \<and> same_unit_name q r) \<and>
     (\<exists>p \<in> set (properties d). p_id p = u_propertyId r \<and> p_tenantId p = u_tenantId r)"
  by (auto simp: unit_violation_def split: option.splits)

lemma same_unit_name_sym: "same_unit_name q r \<longleftrightarrow> same_unit_name r q"
  by (auto simp: same_unit_name_def)

lemma insert_unit_ok:
  assumes "inventory_ok d" "insert_unit s r d = Inr d'"
  shows "inventory_ok d'"
proof -
  note c = insert_unit_cases [OF assms(2)]
  show ?thesis
    using assms(1) c(3,4) unfolding c(1) inventory_ok_def unit_violation_None
    by (auto simp: same_unit_name_sym)
qed

lemma update_unit_cases:
  assumes "update_unit P f d = Inr d'"
  shows "d' = d\<lparr>units := update_where P f (units d)\<rparr>"
    "\<forall>r \<in> set (units d). P r \<longrightarrow> unit_violation d (update_where P f (units d)) (f r) = None"
  using assms by (auto simp: update_unit_def Let_def split: option.splits)

lemma update_unit_ok:
  assumes "inventory_ok d" "update_unit P f d = Inr d'" "\<And>r. u_id (f r) = u_id r"
  shows "inventory_ok d'"
proof -
  note c = update_unit_cases [OF assms(2)]
  let ?new = "update_where P f (units d)"
  have "map u_id ?new = map u_id (units d)" by (intro map_update_where) (simp add: assms(3))
  moreover have "unit_check r = None \<and>
      (\<exists>p \<in> set (properties d). p_id p = u_propertyId r \<and> p_tenantId p = u_tenantId r)"
    if "r \<in> set ?new" for r
    using that assms(1) c(2) by (auto simp: set_update_where inventory_ok_def unit_violation_None)
  moreover have "\<not> same_unit_name r q"
    if "r \<in> set ?new" "q \<in> set ?new" "u_id r \<noteq> u_id q" for r q
  proof -
    obtain r0 q0 where rq: "r0 \<in> set (units d)" "r = (if P r0 then f r0 else r0)"
      "q0 \<in> set (units d)" "q = (if P q0 then f q0 else q0)"
      using \<open>r \<in> set ?new\<close> \<open>q \<in> set ?new\<close> unfolding set_update_where by blast
    show ?thesis
    proof (cases "P r0 \<or> P q0")
      case True
      then show ?thesis
        using rq c(2) that unfolding unit_violation_None by (metis same_unit_name_sym)
    next
      case False
      then show ?thesis using rq that(3) assms(1) by (simp add: inventory_ok_def)
    qed
  qed
  ultimately show ?thesis using assms(1) unfolding c(1) inventory_ok_def by simp
qed

lemma delete_units_cases:
  assumes "delete_units P d = Inr d'"
  shows "units d' = filter (\<lambda>u. \<not> P u) (units d)" "properties d' = properties d"
    "\<forall>b \<in> set (bookings d). \<forall>u \<in> set (units d). P u \<longrightarrow> u_id u \<noteq> bk_unitId b"
    "bookings d' = map (forget_channel (\<lambda>c. \<exists>u \<in> set (units d). P u \<and> u_id u = ch_unitId c) d) (bookings d)"
    "price_overrides d' = filter (\<lambda>p. \<not> (\<exists>u \<in> set (units d). P u \<and> u_id u = po_unitId p)) (price_overrides d)"
  using assms by (auto simp: delete_units_def Let_def delete_channels_def split: if_splits)

lemma forget_channel_simps [row_simps, simp]:
  "bk_id (forget_channel P d b) = bk_id b" "bk_unitId (forget_channel P d b) = bk_unitId b"
  "bk_status (forget_channel P d b) = bk_status b" "bk_tenantId (forget_channel P d b) = bk_tenantId b"
  "bk_checkIn (forget_channel P d b) = bk_checkIn b" "bk_checkOut (forget_channel P d b) = bk_checkOut b"
  "bk_externalUid (forget_channel P d b) = bk_externalUid b"
  "bk_guestCount (forget_channel P d b) = bk_guestCount b"
  "bk_totalPriceIdr (forget_channel P d b) = bk_totalPriceIdr b"
  by (simp_all add: forget_channel_def)

lemma forget_channel_feed:
  "same_feed_event (forget_channel P d a) (forget_channel P d b) \<Longrightarrow> same_feed_event a b"
  by (auto simp: same_feed_event_def forget_channel_def split: if_splits)

lemma forget_channel_check [simp]: "booking_check (forget_channel P d b) = booking_check b"
  by (simp add: booking_check_def)

lemma forget_channel_occupies [simp]: "occupies (forget_channel P d b) = occupies b"
  by (simp add: occupies_def)

lemma delete_units_booking_ok:
  assumes "booking_table_ok d" "delete_units P d = Inr d'"
  shows "booking_table_ok d'"
proof -
  note c = delete_units_cases [OF assms(2)]
  let ?f = "forget_channel (\<lambda>c. \<exists>u \<in> set (units d). P u \<and> u_id u = ch_unitId c) d"
  have "\<exists>u \<in> set (units d'). u_id u = bk_unitId b \<and> u_tenantId u = bk_tenantId b"
    if "b \<in> set (bookings d)" for b
    using that assms(1) c(1,3) unfolding booking_table_ok_def by fastforce
  then show ?thesis
    using assms(1) unfolding booking_table_ok_def c(4)
    by (auto simp: no_overlap_def comp_def dest: forget_channel_feed)
qed

lemma delete_units_inventory_ok:
  assumes "inventory_ok d" "delete_units P d = Inr d'"
  shows "inventory_ok d'"
  using assms(1) delete_units_cases [OF assms(2)] unfolding inventory_ok_def
  by (auto simp: distinct_map intro: inj_on_subset)

lemma delete_units_overrides_ok:
  assumes "override_table_ok d" "delete_units P d = Inr d'"
  shows "override_table_ok d'"
proof -
  note c = delete_units_cases [OF assms(2)]
  have "ot.table_ok (price_overrides d')"
    using assms(1) unfolding c(5) override_table_ok_def by (intro ot.filter_ok) blast
  moreover have "override_check p = None \<and> (\<exists>u \<in> set (units d'). u_id u = po_unitId p \<and> u_tenantId u = po_tenantId p)"
    if "p \<in> set (price_overrides d')" for p
    using that assms(1) c(1,5) unfolding override_table_ok_def by fastforce
  ultimately show ?thesis by (simp add: override_table_ok_def)
qed

section \<open>The guarded delete\<close>

lemma countBookings_all:
  assumes "inventory_ok d" "booking_table_ok d" "u \<in> set (units d)" "owned_unit d s uid u"
  shows "countBookings d s uid = length (filter (\<lambda>b. bk_unitId b = uid) (bookings d))"
  unfolding countBookings_def
  using booking_seen [OF assms] by (intro arg_cong [where f = length] filter_cong) auto

text \<open>The guarded delete of a unit (ADR-0002): an unknown or foreign unit is 404; a unit any
  booking ever referenced - cancelled and expired ones included - is refused with the exact count of
  those bookings; otherwise the unit goes, and with it only its own overrides, connections and
  conflicts. No foreign-key error is reachable, and no booking row is ever lost.\<close>

theorem remove_unit_contract:
  assumes "inventory_ok d" "booking_table_ok d"
  shows "case remove_unit (Some p) uid d of
      Inl e \<Rightarrow>
        ((\<forall>u \<in> set (units d). \<not> owned_unit d (session_of p) uid u) \<and> e = NotFound ''Unit not found'') \<or>
        ((\<exists>u \<in> set (units d). owned_unit d (session_of p) uid u) \<and>
           (\<exists>b \<in> set (bookings d). bk_unitId b = uid) \<and>
           e = Conflict (Unit_has_bookings (length (filter (\<lambda>b. bk_unitId b = uid) (bookings d)))))
    | Inr d' \<Rightarrow>
        (\<exists>u \<in> set (units d). owned_unit d (session_of p) uid u) \<and>
        (\<forall>b \<in> set (bookings d). bk_unitId b \<noteq> uid) \<and>
        units d' = filter (\<lambda>u. u_id u \<noteq> uid) (units d) \<and>
        price_overrides d' = filter (\<lambda>q. po_unitId q \<noteq> uid) (price_overrides d) \<and>
        map bk_id (bookings d') = map bk_id (bookings d) \<and>
        map bk_status (bookings d') = map bk_status (bookings d)"
proof (cases "\<exists>u \<in> set (units d). owned_unit d (session_of p) uid u")
  case False
  then have "remove_unit (Some p) uid d = Inl (NotFound ''Unit not found'')"
    by (simp add: remove_unit_def lockForDelete_def assertInTransaction_def intercept_def)
  with False show ?thesis by simp
next
  case True
  then obtain u where u: "u \<in> set (units d)" "owned_unit d (session_of p) uid u" by blast
  have same: "owned_unit d (session_of p) uid v \<longleftrightarrow> u_id v = uid" if "v \<in> set (units d)" for v
    using that u unit_by_id [OF assms(1) that u(1)] by (auto simp: owned_unit_def)
  have step: "remove_unit (Some p) uid d =
      intercept (let n = countBookings d (session_of p) uid in
        if n > 0 then Inl (Conflict (Unit_has_bookings n))
        else delete_units (owned_unit d (session_of p) uid) d)"
    using True by (auto simp: remove_unit_def lockForDelete_def assertInTransaction_def cong: if_cong)
  show ?thesis
  proof (cases "\<exists>b \<in> set (bookings d). bk_unitId b = uid")
    case True
    then have "0 < length (filter (\<lambda>b. bk_unitId b = uid) (bookings d))"
      by (auto simp: filter_empty_conv)
    with step countBookings_all [OF assms u] have "remove_unit (Some p) uid d =
        Inl (Conflict (Unit_has_bookings (length (filter (\<lambda>b. bk_unitId b = uid) (bookings d)))))"
      by simp
    with True u show ?thesis by auto
  next
    case False
    then have z: "countBookings d (session_of p) uid = 0"
      using countBookings_all [OF assms u] by simp
    have "\<not> (\<exists>b \<in> set (bookings d). \<exists>u \<in> set (units d).
        owned_unit d (session_of p) uid u \<and> u_id u = bk_unitId b)"
      using False by (auto simp: owned_unit_def)
    then obtain d' where d': "delete_units (owned_unit d (session_of p) uid) d = Inr d'"
      by (simp add: delete_units_def Let_def)
    note c = delete_units_cases [OF d']
    have "units d' = filter (\<lambda>u. u_id u \<noteq> uid) (units d)"
      unfolding c(1) by (intro filter_cong) (simp_all add: same)
    moreover have "price_overrides d' = filter (\<lambda>q. po_unitId q \<noteq> uid) (price_overrides d)"
      unfolding c(5) using same u by (intro filter_cong) auto
    moreover have "remove_unit (Some p) uid d = Inr d'" using step z d' by simp
    ultimately show ?thesis using u False by (auto simp: c(4) comp_def)
  qed
qed

section \<open>Retirement\<close>

lemma set_archived_violation:
  assumes "inventory_ok d" "u \<in> set (units d)"
  shows "unit_violation d (update_where P (set_archived now a) (units d)) (set_archived now a u) = None"
  using assms
  by (auto simp: unit_violation_None inventory_ok_def set_update_where set_archived_def
      unit_check_def same_unit_name_def split: if_splits)

lemma archive_update:
  assumes "inventory_ok d"
  shows "update_unit P (set_archived now a) d =
    Inr (d\<lparr>units := update_where P (set_archived now a) (units d)\<rparr>)"
proof -
  let ?new = "update_where P (set_archived now a) (units d)"
  have "first_violation (unit_violation d ?new) (map (set_archived now a) (filter P (units d))) = None"
    unfolding first_violation_None using set_archived_violation [OF assms] by auto
  then show ?thesis by (simp add: update_unit_def Let_def del: first_violation_None)
qed

lemma set_archived_simps [row_simps, simp]:
  "u_id (set_archived t a u) = u_id u" "u_tenantId (set_archived t a u) = u_tenantId u"
  "u_propertyId (set_archived t a u) = u_propertyId u" "u_name (set_archived t a u) = u_name u"
  "u_basePriceIdr (set_archived t a u) = u_basePriceIdr u"
  by (simp_all add: set_archived_def)

lemma owned_unit_cong:
  "user_properties d' = user_properties d \<Longrightarrow> owned_unit d' s uid u = owned_unit d s uid u"
  by (simp add: owned_unit_def rls_unit_def app_property_visible_def)

lemma owned_unit_archived [simp]:
  "owned_unit d s uid (set_archived t a u) = owned_unit d s uid u"
  by (simp add: owned_unit_def rls_unit_def)

text \<open>Archiving, seen from the one unit it concerns.\<close>

definition archived_db :: "db \<Rightarrow> session \<Rightarrow> uuid \<Rightarrow> instant \<Rightarrow> bool \<Rightarrow> db" where
  "archived_db d s uid t a = d\<lparr>units := update_where (owned_unit d s uid) (set_archived t a) (units d)\<rparr>"

lemma archived_db_simps [simp]:
  "bookings (archived_db d s uid t a) = bookings d"
  "properties (archived_db d s uid t a) = properties d"
  "user_properties (archived_db d s uid t a) = user_properties d"
  "units (archived_db d s uid t a) = update_where (owned_unit d s uid) (set_archived t a) (units d)"
  by (simp_all add: archived_db_def)

lemma archived_db_ok:
  assumes "inventory_ok d"
  shows "inventory_ok (archived_db d s uid t a)"
  using assms archive_update [OF assms] unfolding archived_db_def
  by (rule update_unit_ok) simp

lemma setArchived_unit_eq:
  assumes "inventory_ok d" "u \<in> set (units d)" "owned_unit d (session_of p) uid u"
    and "d' = archived_db d (session_of p) uid t a"
  shows "setArchived_unit (Some p) t uid a d =
    intercept (answer_unit (Some (set_archived t a u, effective_archived d' (set_archived t a u)), d'))"
proof -
  have "set_archived t a u \<in> set (units d')"
    using assms(2,3) by (auto simp: assms(4) set_update_where image_iff intro!: bexI [of _ u])
  moreover have "owned_unit d' (session_of p) uid (set_archived t a u)"
    using assms(3) owned_unit_cong [of d' d] by (simp add: assms(4))
  ultimately have "findUnitById d' (session_of p) uid =
      Some (set_archived t a u, effective_archived d' (set_archived t a u))"
    using archived_db_ok [OF assms(1)] by (intro findUnitById_Some) (simp_all add: assms(4))
  moreover have "filter (owned_unit d (session_of p) uid) (units d) \<noteq> []"
    using assms(2,3) by (auto simp: filter_empty_conv)
  ultimately show ?thesis
    using assms(4) by (simp add: setArchived_unit_def write_unit_def archive_update [OF assms(1)]
      archived_db_def)
qed

lemma setArchived_unit_unknown:
  assumes "inventory_ok d" "\<forall>u \<in> set (units d). \<not> owned_unit d (session_of p) uid u"
  shows "setArchived_unit (Some p) t uid a d = Inl (NotFound ''Unit not found'')"
proof -
  have "filter (owned_unit d (session_of p) uid) (units d) = []"
    using assms(2) by (auto simp: filter_empty_conv)
  then show ?thesis
    by (simp add: setArchived_unit_def write_unit_def archive_update [OF assms(1)] answer_unit_def
      intercept_def)
qed

lemma setArchived_unit_ok:
  assumes "inventory_ok d" "setArchived_unit (Some p) t uid a d = Inr (r, d')"
  obtains u where "u \<in> set (units d)" "owned_unit d (session_of p) uid u"
    "d' = archived_db d (session_of p) uid t a"
    "unit_toResponse (set_archived t a u, effective_archived d' (set_archived t a u)) = Inr r"
proof -
  from assms setArchived_unit_unknown have "\<exists>u \<in> set (units d). owned_unit d (session_of p) uid u"
    by fastforce
  then obtain u where u: "u \<in> set (units d)" "owned_unit d (session_of p) uid u" by blast
  from setArchived_unit_eq [OF assms(1) u refl] assms(2) show ?thesis
    using u by (intro that) (auto simp: answer_unit_def bind_res_Inr_iff)
qed

lemma set_archived_again:
  "set_archived t2 True (set_archived t1 True u) = set_archived t1 True u"
  by (simp add: set_archived_def split: option.splits)

lemma archive_again:
  "archived_db (archived_db d s uid t1 True) s uid t2 True = archived_db d s uid t1 True"
proof -
  have "owned_unit (archived_db d s uid t1 True) s uid = owned_unit d s uid"
    by (intro ext owned_unit_cong) simp
  then show ?thesis
    by (auto simp: archived_db_def update_where_def set_archived_again)
qed

text \<open>Retirement is idempotent (ADR-0005): archiving an archived unit, at any later time,
  answers the same response - the original date included - and changes nothing; the unit is then
  effectively archived, and no booking was touched.\<close>

theorem archive_idempotent:
  assumes "inventory_ok d" "setArchived_unit (Some p) t1 uid True d = Inr (r, d1)"
  shows "setArchived_unit (Some p) t2 uid True d1 = Inr (r, d1) \<and>
    ur_archived r \<and> ur_archivedAt r \<noteq> None \<and> bookings d1 = bookings d"
proof -
  from assms obtain u where u: "u \<in> set (units d)" "owned_unit d (session_of p) uid u"
    "d1 = archived_db d (session_of p) uid t1 True"
    "unit_toResponse (set_archived t1 True u, effective_archived d1 (set_archived t1 True u)) = Inr r"
    by (rule setArchived_unit_ok)
  let ?v = "set_archived t1 True u"
  have v: "?v \<in> set (units d1)" "owned_unit d1 (session_of p) uid ?v"
    using u(1,2) owned_unit_cong [of d1 d]
    by (auto simp: u(3) set_update_where image_iff intro!: bexI [of _ u])
  have "inventory_ok d1" unfolding u(3) by (rule archived_db_ok [OF assms(1)])
  note e = setArchived_unit_eq [OF this v refl, of t2 True]
  have "archived_db d1 (session_of p) uid t2 True = d1" unfolding u(3) by (rule archive_again)
  with e u(4) have "setArchived_unit (Some p) t2 uid True d1 = Inr (r, d1)"
    by (simp add: set_archived_again answer_unit_def)
  moreover have "u_archivedAt ?v \<noteq> None" by (simp add: set_archived_def split: option.splits)
  ultimately show ?thesis
    using u(3,4) by (auto simp: unit_toResponse_def bind_res_Inr_iff effective_archived_def)
qed

end
