(* ===== verification/Booking_Rules.thy ===== *)
theory Booking_Rules
  imports Bookings Inventory
begin

text \<open>
  What the booking component promises. The availability read and the write agree because both are
  functions of the occupying rows; a request that passed validation has only the documented answers;
  lapsed holds never refuse a booking; cancellation is a one-way door.
\<close>

section \<open>The quote, computed from the ledger\<close>

lemma fetchUnitPricing_Some:
  assumes "inventory_ok d" "u \<in> set (units d)" "owned_unit d s uid u"
  shows "fetchUnitPricing d s uid = Some \<lparr>up_basePriceIdr = u_basePriceIdr u, up_minStay = u_minStay u,
    up_archived = effective_archived d u\<rparr>"
proof -
  let ?P = "\<lambda>(u, p). rls_unit d s u \<and> rls_property d s p \<and> p_id p = u_propertyId u \<and>
    p_tenantId p = u_tenantId u \<and> u_id u = uid \<and> u_tenantId u = s_tenantId s"
  obtain p where p: "p \<in> set (properties d)" "p_id p = u_propertyId u" "p_tenantId p = u_tenantId u"
    using unit_property [OF assms(1,2)] .
  have hit: "?P (u, p)" "(u, p) \<in> set (List.product (units d) (properties d))"
    using assms(2,3) p by (auto simp: owned_unit_def rls_unit_property)
  then obtain vq where vq: "select_one ?P (List.product (units d) (properties d)) = Some vq"
    by (cases "select_one ?P (List.product (units d) (properties d))") (fastforce simp: owned_unit_def)+
  obtain v q where [simp]: "vq = (v, q)" by (cases vq)
  have "v \<in> set (units d)" "q \<in> set (properties d)" "u_id v = uid" "p_id q = u_propertyId v"
    using select_one_SomeD [OF vq] by auto
  note vq' = this
  have [simp]: "v = u"
    using vq'(3) assms(3) by (intro unit_by_id [OF assms(1) vq'(1) assms(2)]) (simp add: owned_unit_def)
  have "q = p" using vq'(4) p(2) by (intro property_by_id [OF assms(1) vq'(2) p(1)]) simp
  moreover have "effective_archived d u \<longleftrightarrow> (u_archivedAt u \<noteq> None \<or> p_archivedAt p \<noteq> None)"
    using p property_by_id [OF assms(1)] unfolding effective_archived_def by metis
  ultimately show ?thesis using vq by (simp add: fetchUnitPricing_def)
qed

lemma fetchUnitPricing_None:
  assumes "\<forall>u \<in> set (units d). \<not> owned_unit d s uid u"
  shows "fetchUnitPricing d s uid = None"
  using assms by (auto simp: fetchUnitPricing_def owned_unit_def)

text \<open>An occupying booking of the unit on some night of the window.\<close>

definition nights_taken :: "db \<Rightarrow> uuid \<Rightarrow> date \<Rightarrow> date \<Rightarrow> bool" where
  "nights_taken d unitId from to \<longleftrightarrow>
     (\<exists>b \<in> set (bookings d). bk_unitId b = unitId \<and> occupies b \<and>
        range_overlaps (bk_checkIn b) (bk_checkOut b) from to)"

lemma coalesceRanges_empty: "nonempty_ranges rs \<Longrightarrow> coalesceRanges rs = [] \<longleftrightarrow> rs = []"
proof
  assume ne: "nonempty_ranges rs" and e: "coalesceRanges rs = []"
  have "covered rs = {}" using coalesceRanges_normal(2) [OF ne] e by simp
  then show "rs = []" using ne by (cases rs) (auto simp: nonempty_ranges_def)
qed (simp add: coalesceRanges_def)

lemma clip_nonempty:
  "range_overlaps a b c d \<Longrightarrow> br_from (clip a b c d) < br_to (clip a b c d)"
  by (auto simp: range_overlaps_def clip_def max_def min_def)

lemma blocked_nonempty: "nonempty_ranges (findBlockedRanges d s uid a b)"
  by (auto simp: nonempty_ranges_def findBlockedRanges_def clip_nonempty)

lemma blocked_iff_taken:
  assumes "inventory_ok d" "booking_table_ok d" "u \<in> set (units d)" "owned_unit d s uid u"
  shows "coalesceRanges (findBlockedRanges d s uid a b) \<noteq> [] \<longleftrightarrow> nights_taken d uid a b"
  unfolding coalesceRanges_empty [OF blocked_nonempty]
proof -
  have "findBlockedRanges d s uid a b \<noteq> [] \<longleftrightarrow> set (findBlockedRanges d s uid a b) \<noteq> {}"
    by simp
  also have "\<dots> \<longleftrightarrow> nights_taken d uid a b"
    using booking_seen [OF assms]
    unfolding findBlockedRanges_def nights_taken_def occupies_def by auto
  finally show "findBlockedRanges d s uid a b \<noteq> [] \<longleftrightarrow> nights_taken d uid a b" .
qed

section \<open>The price of the quote\<close>

definition row_covers :: "price_override_row \<Rightarrow> int \<Rightarrow> bool" where
  "row_covers p n \<longleftrightarrow> day_of (po_fromDate p) \<le> n \<and> n < day_of (po_toDate p)"

text \<open>The rate of a night, read off the override table.\<close>

definition nightly_rate :: "db \<Rightarrow> uuid \<Rightarrow> int \<Rightarrow> int \<Rightarrow> int" where
  "nightly_rate d unitId base n =
     (case List.find (\<lambda>p. po_unitId p = unitId \<and> row_covers p n) (price_overrides d) of
        None \<Rightarrow> base | Some p \<Rightarrow> po_nightlyPriceIdr p)"

definition clip_override :: "date \<Rightarrow> date \<Rightarrow> price_override_row \<Rightarrow> override_span" where
  "clip_override a b p = \<lparr>os_from = max (po_fromDate p) a, os_to = min (po_toDate p) b,
     os_price = po_nightlyPriceIdr p\<rparr>"

lemma is_iso_max: "is_iso_date a \<Longrightarrow> is_iso_date b \<Longrightarrow> is_iso_date (max a b) \<and> is_iso_date (min a b)"
  by (simp add: max_def min_def)

lemma day_of_max:
  "is_iso_date a \<Longrightarrow> is_iso_date b \<Longrightarrow>
   day_of (max a b) = max (day_of a) (day_of b) \<and> day_of (min a b) = min (day_of a) (day_of b)"
  by (simp add: max_def min_def day_of_le_iff)

lemma clip_override_covers:
  assumes "is_iso_date a" "is_iso_date b" "is_iso_date (po_fromDate p)" "is_iso_date (po_toDate p)"
  shows "covers_night (clip_override a b p) n \<longleftrightarrow> row_covers p n \<and> day_of a \<le> n \<and> n < day_of b"
  using assms by (auto simp: covers_night_def clip_override_def row_covers_def day_of_max)

lemma sorted_wrt_distinct:
  "distinct xs \<Longrightarrow> (\<And>x y. x \<in> set xs \<Longrightarrow> y \<in> set xs \<Longrightarrow> x \<noteq> y \<Longrightarrow> R x y) \<Longrightarrow> sorted_wrt R xs"
  by (induction xs) auto

lemma find_price:
  assumes "\<And>x y. x \<in> set xs \<Longrightarrow> y \<in> set xs \<Longrightarrow> P x \<Longrightarrow> P y \<Longrightarrow> x = y"
  shows "List.find P xs = Some x \<longleftrightarrow> x \<in> set xs \<and> P x"
proof
  show "List.find P xs = Some x \<Longrightarrow> x \<in> set xs \<and> P x" by (auto simp: find_Some_iff)
  assume x: "x \<in> set xs \<and> P x"
  then obtain y where y: "List.find P xs = Some y"
    by (cases "List.find P xs") (auto simp: find_None_iff)
  then have "y \<in> set xs" "P y" by (auto simp: find_Some_iff)
  with x have "x = y" using assms by blast
  with y show "List.find P xs = Some x" by simp
qed

definition db_ok :: "db \<Rightarrow> bool" where
  "db_ok d \<longleftrightarrow> inventory_ok d \<and> booking_table_ok d \<and> override_table_ok d \<and> dates_ok d"

lemma db_okD [dest]:
  "db_ok d \<Longrightarrow> inventory_ok d" "db_ok d \<Longrightarrow> booking_table_ok d" "db_ok d \<Longrightarrow> override_table_ok d"
  "db_ok d \<Longrightarrow> dates_ok d"
  by (simp_all add: db_ok_def)

definition window_ok :: "date \<Rightarrow> date \<Rightarrow> bool" where
  "window_ok a b \<longleftrightarrow> is_iso_date a \<and> is_iso_date b \<and> a < b"

lemma overrides_of_window:
  assumes "db_ok d" "u \<in> set (units d)" "owned_unit d s uid u"
  shows "findPriceOverrides d s uid a b =
     map (clip_override a b) (sort_key po_fromDate
       (filter (\<lambda>p. po_unitId p = uid \<and> range_overlaps (po_fromDate p) (po_toDate p) a b)
         (price_overrides d)))"
  using override_seen [OF db_okD(1) [OF assms(1)] db_okD(3) [OF assms(1)] assms(2,3)]
  unfolding findPriceOverrides_def clip_override_def
  by (intro arg_cong [where f = "map _"] arg_cong [where f = "sort_key _"] filter_cong) auto

lemma override_row:
  assumes "db_ok d" "p \<in> set (price_overrides d)"
  shows "is_iso_date (po_fromDate p)" "is_iso_date (po_toDate p)" "po_fromDate p < po_toDate p"
    "1 \<le> po_nightlyPriceIdr p" "po_nightlyPriceIdr p \<le> 1000000000"
proof -
  have "override_check p = None" using assms by (auto simp: db_ok_def override_table_ok_def)
  then show "po_fromDate p < po_toDate p" "1 \<le> po_nightlyPriceIdr p" "po_nightlyPriceIdr p \<le> 1000000000"
    by (simp_all add: override_check_None)
  show "is_iso_date (po_fromDate p)" "is_iso_date (po_toDate p)"
    using assms by (auto simp: db_ok_def dates_ok_def)
qed

lemma overrides_disjoint:
  assumes "db_ok d" "p \<in> set (price_overrides d)" "q \<in> set (price_overrides d)"
    "po_unitId p = po_unitId q" "p \<noteq> q"
  shows "po_toDate p \<le> po_fromDate q \<or> po_toDate q \<le> po_fromDate p"
  using assms by (intro ot.disjoint_ranges [of "price_overrides d"])
    (auto simp: db_ok_def override_table_ok_def override_occupies_def)

lemma override_night_unique:
  assumes "db_ok d" "p \<in> set (price_overrides d)" "q \<in> set (price_overrides d)"
    "po_unitId p = po_unitId q" "row_covers p n" "row_covers q n"
  shows "p = q"
proof (rule ccontr)
  assume "p \<noteq> q"
  with assms overrides_disjoint have "po_toDate p \<le> po_fromDate q \<or> po_toDate q \<le> po_fromDate p" by blast
  then have "day_of (po_toDate p) \<le> day_of (po_fromDate q) \<or> day_of (po_toDate q) \<le> day_of (po_fromDate p)"
    using override_row(1,2) [OF assms(1,2)] override_row(1,2) [OF assms(1,3)] by (simp add: day_of_le_iff)
  with assms(5,6) show False by (auto simp: row_covers_def)
qed

lemma nightly_rate_cases:
  assumes "db_ok d"
  shows "p \<in> set (price_overrides d) \<Longrightarrow> po_unitId p = uid \<Longrightarrow> row_covers p n \<Longrightarrow>
      nightly_rate d uid base n = po_nightlyPriceIdr p"
    and "\<forall>p \<in> set (price_overrides d). po_unitId p = uid \<longrightarrow> \<not> row_covers p n \<Longrightarrow>
      nightly_rate d uid base n = base"
proof -
  let ?P = "\<lambda>p. po_unitId p = uid \<and> row_covers p n"
  assume p: "p \<in> set (price_overrides d)" "po_unitId p = uid" "row_covers p n"
  have "List.find ?P (price_overrides d) = Some p"
    using p override_night_unique [OF assms] by (subst find_price) auto
  then show "nightly_rate d uid base n = po_nightlyPriceIdr p" by (simp add: nightly_rate_def)
next
  assume "\<forall>p \<in> set (price_overrides d). po_unitId p = uid \<longrightarrow> \<not> row_covers p n"
  then have "List.find (\<lambda>p. po_unitId p = uid \<and> row_covers p n) (price_overrides d) = None"
    by (auto simp: find_None_iff)
  then show "nightly_rate d uid base n = base" by (simp add: nightly_rate_def)
qed

lemma nightly_rate_bounds:
  assumes "db_ok d" "0 \<le> base" "base \<le> 1000000000"
  shows "0 \<le> nightly_rate d uid base n \<and> nightly_rate d uid base n \<le> 1000000000"
proof (cases "\<exists>p \<in> set (price_overrides d). po_unitId p = uid \<and> row_covers p n")
  case True
  then obtain p where p: "p \<in> set (price_overrides d)" "po_unitId p = uid" "row_covers p n" by blast
  then show ?thesis
    using override_row(4,5) [OF assms(1) p(1)] nightly_rate_cases(1) [OF assms(1) p] by simp
next
  case False
  then have "nightly_rate d uid base n = base" by (intro nightly_rate_cases(2) [OF assms(1)]) blast
  with assms show ?thesis by simp
qed

lemma window_spans:
  assumes "db_ok d" "u \<in> set (units d)" "owned_unit d s uid u" "window_ok a b"
  shows "\<forall>x \<in> set (findPriceOverrides d s uid a b). span_ok x"
    and "spans_disjoint (findPriceOverrides d s uid a b)"
proof -
  let ?rows = "sort_key po_fromDate
       (filter (\<lambda>p. po_unitId p = uid \<and> range_overlaps (po_fromDate p) (po_toDate p) a b)
         (price_overrides d))"
  note e = overrides_of_window [OF assms(1-3)]
  show "\<forall>x \<in> set (findPriceOverrides d s uid a b). span_ok x"
  proof
    fix x assume "x \<in> set (findPriceOverrides d s uid a b)"
    then obtain p where p: "p \<in> set (price_overrides d)" "range_overlaps (po_fromDate p) (po_toDate p) a b"
      "x = clip_override a b p" unfolding e by auto
    note r = override_row(1,2) [OF assms(1) p(1)]
    have "max (po_fromDate p) a < min (po_toDate p) b"
      using p(2) by (auto simp: range_overlaps_def max_def min_def)
    with r assms(4) show "span_ok x"
      unfolding p(3) span_ok_def window_ok_def clip_override_def by (simp add: is_iso_max)
  qed
  have "distinct (price_overrides d)"
    using assms(1) by (auto simp: db_ok_def override_table_ok_def ot.table_ok_def distinct_map)
  then have "sorted_wrt (\<lambda>p q. po_toDate p \<le> po_fromDate q \<or> po_toDate q \<le> po_fromDate p) ?rows"
    using overrides_disjoint [OF assms(1)] by (intro sorted_wrt_distinct) auto
  then show "spans_disjoint (findPriceOverrides d s uid a b)"
    unfolding e spans_disjoint_def sorted_wrt_map
    by (rule sorted_wrt_mono_rel [rotated]) (auto simp: clip_override_def min_def max_def)
qed

lemma window_night_price:
  assumes "db_ok d" "u \<in> set (units d)" "owned_unit d s uid u" "window_ok a b"
    and n: "day_of a \<le> n" "n < day_of b"
  shows "night_price base (findPriceOverrides d s uid a b) n = nightly_rate d uid base n"
proof -
  let ?os = "findPriceOverrides d s uid a b"
  note e = overrides_of_window [OF assms(1-3), of a b]
  have cov: "covers_night (clip_override a b p) n \<longleftrightarrow> row_covers p n" if "p \<in> set (price_overrides d)" for p
    using that assms(4) n override_row [OF assms(1)] by (simp add: clip_override_covers window_ok_def)
  have ov: "range_overlaps (po_fromDate p) (po_toDate p) a b"
    if "p \<in> set (price_overrides d)" "row_covers p n" for p
    using that assms(4) n override_row(1-3) [OF assms(1) that(1)]
    by (simp add: range_overlaps_def row_covers_def day_of_less_iff window_ok_def)
  show ?thesis
  proof (cases "List.find (\<lambda>x. covers_night x n) ?os")
    case None
    then have "\<forall>p \<in> set (price_overrides d). po_unitId p = uid \<longrightarrow> \<not> row_covers p n"
      using cov ov unfolding e find_None_iff by force
    with None nightly_rate_cases(2) [OF assms(1)] show ?thesis by (simp add: night_price_def)
  next
    case (Some x)
    then have "x \<in> set ?os" "covers_night x n" by (auto simp: find_Some_iff)
    then obtain p where p: "p \<in> set (price_overrides d)" "po_unitId p = uid" "x = clip_override a b p"
      unfolding e by auto
    with \<open>covers_night x n\<close> cov have "nightly_rate d uid base n = po_nightlyPriceIdr p"
      by (intro nightly_rate_cases(1) [OF assms(1)]) auto
    with Some p show ?thesis by (simp add: night_price_def clip_override_def)
  qed
qed

definition stay_price :: "db \<Rightarrow> uuid \<Rightarrow> int \<Rightarrow> date \<Rightarrow> date \<Rightarrow> int" where
  "stay_price d unitId base from to = (\<Sum>n \<in> {day_of from..<day_of to}. nightly_rate d unitId base n)"

lemma quoteTotal_stay_price:
  assumes "db_ok d" "u \<in> set (units d)" "owned_unit d s uid u" "window_ok a b"
  shows "quoteTotalIdr base a b (findPriceOverrides d s uid a b) = Some (stay_price d uid base a b)"
proof -
  have "quoteTotalIdr base a b (findPriceOverrides d s uid a b) =
      Some (\<Sum>n \<in> {day_of a..<day_of b}. night_price base (findPriceOverrides d s uid a b) n)"
    using assms(4) window_spans [OF assms]
    by (intro quote_is_sum_of_nights) (auto simp: window_ok_def)
  also have "(\<Sum>n \<in> {day_of a..<day_of b}. night_price base (findPriceOverrides d s uid a b) n) =
      stay_price d uid base a b"
    unfolding stay_price_def using window_night_price [OF assms] by (intro sum.cong) auto
  finally show ?thesis .
qed

lemma sum_between:
  assumes "\<And>x. x \<in> A \<Longrightarrow> 0 \<le> f x \<and> f x \<le> (c::int)"
  shows "0 \<le> sum f A \<and> sum f A \<le> int (card A) * c"
  using assms sum_bounded_above [of A f c] by (auto intro!: sum_nonneg)

lemma stay_price_bounds:
  assumes "db_ok d" "0 \<le> base" "base \<le> 1000000000" "day_of b - day_of a \<le> MAX_AVAILABILITY_NIGHTS"
  shows "rupiahSchema (stay_price d uid base a b)"
proof -
  have b: "0 \<le> stay_price d uid base a b \<and>
      stay_price d uid base a b \<le> int (card {day_of a..<day_of b}) * 1000000000"
    unfolding stay_price_def using nightly_rate_bounds [OF assms(1-3)] by (intro sum_between) auto
  have "int (card {day_of a..<day_of b}) \<le> 366"
    using assms(4) by (simp add: MAX_AVAILABILITY_NIGHTS_def)
  with b show ?thesis by (simp add: rupiahSchema_def MAX_SAFE_INTEGER_def)
qed

section \<open>The quote\<close>

definition refusals :: "db \<Rightarrow> unit_row \<Rightarrow> date \<Rightarrow> date \<Rightarrow> refusal_reason list" where
  "refusals d u a b =
     (if nights_taken d (u_id u) a b then [Overlap] else []) @
     (if day_of b - day_of a < u_minStay u then [Min_stay] else [])"

definition quoted_response :: "db \<Rightarrow> session \<Rightarrow> unit_row \<Rightarrow> date \<Rightarrow> date \<Rightarrow> availability_response" where
  "quoted_response d s u a b =
     \<lparr>ar_available = (refusals d u a b = []), ar_nights = day_of b - day_of a,
      ar_totalPriceIdr = stay_price d (u_id u) (u_basePriceIdr u) a b, ar_minStay = u_minStay u,
      ar_reasons = refusals d u a b,
      ar_blockedRanges = coalesceRanges (findBlockedRanges d s (u_id u) a b)\<rparr>"

lemma unit_row_bounds:
  assumes "db_ok d" "u \<in> set (units d)"
  shows "0 \<le> u_basePriceIdr u" "u_basePriceIdr u \<le> 1000000000" "0 < u_maxGuests u" "1 \<le> u_minStay u"
proof -
  have "unit_check u = None" using assms by (auto simp: db_ok_def inventory_ok_def)
  then show "0 \<le> u_basePriceIdr u" "u_basePriceIdr u \<le> 1000000000" "0 < u_maxGuests u" "1 \<le> u_minStay u"
    by (simp_all add: unit_check_None)
qed

lemma stay_window_iff:
  "stay_window_ok a b \<longleftrightarrow> window_ok a b \<and> day_of b - day_of a \<le> MAX_AVAILABILITY_NIGHTS"
  by (auto simp: stay_window_ok_def window_ok_def countNights_iso)

lemma quote_eq:
  assumes "db_ok d" "u \<in> set (units d)" "owned_unit d (tx_session tx) uid u" "stay_window_ok a b"
  shows "quote d tx uid a b =
    Inr (if effective_archived d u then Quote_archived
         else Quote_ok (quoted_response d (tx_session tx) u a b))"
proof -
  let ?s = "tx_session tx"
  have w: "window_ok a b" "day_of b - day_of a \<le> MAX_AVAILABILITY_NIGHTS"
    using assms(4) by (simp_all add: stay_window_iff)
  have uid: "u_id u = uid" using assms(3) by (simp add: owned_unit_def)
  note price = quoteTotal_stay_price [OF assms(1-3) w(1)]
  have "rupiahSchema (stay_price d uid (u_basePriceIdr u) a b)"
    using unit_row_bounds [OF assms(1,2)] w(2) by (intro stay_price_bounds [OF assms(1)])
  moreover have "countNights a b = Some (day_of b - day_of a)"
    using w(1) by (simp add: window_ok_def countNights_iso)
  moreover have "coalesceRanges (findBlockedRanges d ?s uid a b) \<noteq> [] \<longleftrightarrow> nights_taken d uid a b"
    using assms by (intro blocked_iff_taken) auto
  ultimately show ?thesis
    using fetchUnitPricing_Some [OF db_okD(1) [OF assms(1)] assms(2,3)] price
    by (auto simp: quote_def Let_def quoted_response_def refusals_def uid meetsMinStay_def toRupiah_ok)
qed

lemma quote_unknown:
  "\<forall>u \<in> set (units d). \<not> owned_unit d (tx_session tx) uid u \<Longrightarrow> quote d tx uid a b = Inr Quote_not_found"
  by (simp add: quote_def Let_def fetchUnitPricing_None)

lemma blocked_covered:
  assumes "db_ok d" "u \<in> set (units d)" "owned_unit d s uid u"
  shows "x \<in> covered (coalesceRanges (findBlockedRanges d s uid a b)) \<longleftrightarrow>
    a \<le> x \<and> x < b \<and> (\<exists>k \<in> set (bookings d). bk_unitId k = uid \<and> occupies k \<and>
      bk_checkIn k \<le> x \<and> x < bk_checkOut k)"
proof -
  have "covered (coalesceRanges (findBlockedRanges d s uid a b)) = covered (findBlockedRanges d s uid a b)"
    by (rule coalesceRanges_normal(2) [OF blocked_nonempty])
  also have "x \<in> \<dots> \<longleftrightarrow> (\<exists>k \<in> set (bookings d). bk_unitId k = uid \<and> occupies k \<and>
      range_overlaps (bk_checkIn k) (bk_checkOut k) a b \<and> max (bk_checkIn k) a \<le> x \<and>
      x < min (bk_checkOut k) b)"
    using booking_seen [OF db_okD(1,2) assms(2,3)] assms(1)
    by (auto simp: covered_def findBlockedRanges_def clip_def occupies_def)
  also have "\<dots> \<longleftrightarrow> a \<le> x \<and> x < b \<and> (\<exists>k \<in> set (bookings d). bk_unitId k = uid \<and> occupies k \<and>
      bk_checkIn k \<le> x \<and> x < bk_checkOut k)"
    by (auto simp: range_overlaps_def dest: order_le_less_trans)
  finally show ?thesis .
qed

lemma visitor_owns:
  "u \<in> set (units d) \<Longrightarrow> owned_unit d (session_of (Visitor_principal (u_tenantId u))) (u_id u) u"
  by (simp add: owned_unit_def rls_unit_def)

lemma enter_unit:
  assumes "inventory_ok d" "u \<in> set (units d)"
  shows "enterFromUnitId (u_id u) d None = Inr (Some (Visitor_principal (u_tenantId u)))"
proof -
  have "select_one (\<lambda>v. u_id v = u_id u) (units d) = Some u"
    using assms by (intro select_one_unique [where k = u_id]) (auto simp: inventory_ok_def)
  then show ?thesis by (simp add: enterFromUnitId_def context_set_def)
qed

text \<open>Claim C3. The public availability read, in full: for a unit of the ledger and a valid window
  the answer is 404 when the unit (or its property) is archived, and otherwise the nights of the window,
  the sum of their nightly rates, and the refusals; the blocked ranges it lists cover exactly the
  instants of the window some occupying booking holds, and it is available exactly when nothing in
  the window is held and the stay is long enough.\<close>

theorem public_quote_contract:
  assumes "db_ok d" "u \<in> set (units d)" "stay_window_ok a b"
  shows "case getPublicQuote d (u_id u) a b of
      Inl e \<Rightarrow> effective_archived d u \<and> e = NotFound ''Unit not found''
    | Inr r \<Rightarrow> \<not> effective_archived d u \<and>
        ar_nights r = day_of b - day_of a \<and>
        ar_totalPriceIdr r = (\<Sum>n \<in> {day_of a..<day_of b}. nightly_rate d (u_id u) (u_basePriceIdr u) n) \<and>
        ar_available r = (\<not> nights_taken d (u_id u) a b \<and> u_minStay u \<le> day_of b - day_of a) \<and>
        separated (ar_blockedRanges r) \<and>
        (\<forall>x. x \<in> covered (ar_blockedRanges r) \<longleftrightarrow> a \<le> x \<and> x < b \<and>
           (\<exists>k \<in> set (bookings d). bk_unitId k = u_id u \<and> occupies k \<and>
              bk_checkIn k \<le> x \<and> x < bk_checkOut k))"
proof -
  let ?s = "session_of (Visitor_principal (u_tenantId u))"
  note o = visitor_owns [OF assms(2)]
  have q: "quote d \<lparr>tx_session = ?s, tx_alive = True\<rparr> (u_id u) a b =
      Inr (if effective_archived d u then Quote_archived else Quote_ok (quoted_response d ?s u a b))"
    using quote_eq [OF assms(1,2) _ assms(3), of "\<lparr>tx_session = ?s, tx_alive = True\<rparr>"] o by simp
  have r: "getPublicQuote d (u_id u) a b = (if effective_archived d u then Inl (NotFound ''Unit not found'')
      else Inr (quoted_response d ?s u a b))"
    using q by (simp add: getPublicQuote_def enter_unit [OF db_okD(1) [OF assms(1)] assms(2)])
  show ?thesis
    using coalesceRanges_normal(1) [OF blocked_nonempty] blocked_covered [OF assms(1,2) o]
    by (auto simp: r quoted_response_def stay_price_def refusals_def)
qed

section \<open>After the sweep\<close>

definition live_taken :: "db \<Rightarrow> instant \<Rightarrow> uuid \<Rightarrow> date \<Rightarrow> date \<Rightarrow> bool" where
  "live_taken d now unitId from to \<longleftrightarrow>
     (\<exists>b \<in> set (bookings d). bk_unitId b = unitId \<and> occupies b \<and> \<not> lapsed now b \<and>
        range_overlaps (bk_checkIn b) (bk_checkOut b) from to)"

lemma after_sweep_db_ok:
  assumes "db_ok d"
  shows "db_ok (after_sweep s now uid d)"
proof -
  have "dates_ok (after_sweep s now uid d)"
    using db_okD(4) [OF assms] by (auto simp: dates_ok_def after_sweep_def set_update_where)
  with assms show ?thesis
    by (simp add: db_ok_def inventory_ok_def override_table_ok_def after_sweep_ok)
qed

lemma expired_free [simp]: "\<not> occupies (set_status Expired b)" "\<not> occupies (set_status Cancelled b)"
  by (simp_all add: occupies_iff)

lemma after_sweep_taken:
  assumes "db_ok d" "u \<in> set (units d)" "owned_unit d s uid u"
  shows "nights_taken (after_sweep s now uid d) uid a b \<longleftrightarrow> live_taken d now uid a b"
proof -
  have sw: "swept_by s now uid d k \<longleftrightarrow> lapsed now k" if "k \<in> set (bookings d)" "bk_unitId k = uid" for k
    using booking_seen [OF db_okD(1,2) assms(2,3) that] assms(1) that by (simp add: swept_by_def)
  show ?thesis
    unfolding nights_taken_def live_taken_def after_sweep_def
    using sw by (auto simp: set_update_where split: if_splits)
qed

lemma after_sweep_rate [simp]:
  "nightly_rate (after_sweep s now uid d) v base n = nightly_rate d v base n"
  "stay_price (after_sweep s now uid d) v base a b = stay_price d v base a b"
  "effective_archived (after_sweep s now uid d) u = effective_archived d u"
  by (simp_all add: nightly_rate_def stay_price_def effective_archived_def)

lemma after_sweep_owned [simp]:
  "owned_unit (after_sweep s now uid d) s' v u = owned_unit d s' v u"
  by (rule owned_unit_cong) simp

lemma sweepQuote_eq:
  assumes "db_ok d" "u \<in> set (units d)" "owned_unit d (tx_session tx) uid u" "stay_window_ok a b"
    "tx_alive tx" and d1_def: "d1 = after_sweep (tx_session tx) now uid d"
  shows "sweepQuoteOrThrow tx now uid a b ar d =
    (if effective_archived d u then Inl (Conflict (Dates_unavailable [ar]))
     else Inr (quoted_response d1 (tx_session tx) u a b, d1))"
proof -
  have "quote d1 tx uid a b = Inr (if effective_archived d u then Quote_archived
         else Quote_ok (quoted_response d1 (tx_session tx) u a b))"
    using quote_eq [of d1 u tx uid a b] assms after_sweep_db_ok [OF assms(1)]
    by (simp add: d1_def)
  then show ?thesis
    using expireLapsedHolds_eq [OF db_okD(2) [OF assms(1)] assms(5)]
    by (simp add: sweepQuoteOrThrow_def d1_def)
qed

lemma sweepQuote_unknown:
  assumes "db_ok d" "tx_alive tx" "\<forall>u \<in> set (units d). \<not> owned_unit d (tx_session tx) uid u"
  shows "sweepQuoteOrThrow tx now uid a b ar d = Inl (NotFound ''Unit not found'')"
  using assms expireLapsedHolds_eq [OF db_okD(2) [OF assms(1)] assms(2)]
  by (simp add: sweepQuoteOrThrow_def quote_unknown)

text \<open>What the database answers to a booking that passed the re-check: the exclusion constraint and
  the re-check ask the same question.\<close>

definition plain_row :: "booking_row \<Rightarrow> bool" where
  "plain_row r \<longleftrightarrow> booking_check r = None \<and> occupies r \<and> bk_externalUid r = None"

lemma insert_iff_free:
  assumes "db_ok d" "u \<in> set (units d)" "owned_unit d s uid u" "plain_row r"
    "bk_id r \<notin> bk_id ` set (bookings d)" "bk_unitId r = uid" "bk_tenantId r = s_tenantId s"
  shows "rls_insert_booking s r d =
    (if nights_taken d uid (bk_checkIn r) (bk_checkOut r) then Inl (DbError ''booking_no_overlap'')
     else Inr (d\<lparr>bookings := bookings d @ [r]\<rparr>))"
proof -
  have vis: "rls_booking d s r"
    using unit_visible_owned [OF assms(2,3)] assms(6,7) by (simp add: rls_booking_def)
  have fk: "\<exists>v \<in> set (units d). u_id v = bk_unitId r \<and> u_tenantId v = bk_tenantId r"
    using assms(2,3,6,7) by (auto simp: owned_unit_def)
  have fresh: "\<forall>q \<in> set (bookings d). bk_id q \<noteq> bk_id r" using assms(5) by (metis image_eqI)
  then have ex: "booking_no_overlap_refuses (bookings d @ [r]) r \<longleftrightarrow>
      nights_taken d uid (bk_checkIn r) (bk_checkOut r)"
    using assms(4,6)
    by (auto simp: booking_no_overlap_refuses_def excl_conflict_def nights_taken_def plain_row_def)
  have "\<not> (\<exists>q \<in> set (bookings d). bk_id q = bk_id r)" using fresh by blast
  then show ?thesis
    using vis fk assms(4)
    by (simp add: rls_insert_booking_def insert_booking_def Let_def booking_violation_def ex
        plain_row_def same_feed_event_def)
qed

section \<open>The guest's write\<close>

definition live_refusals :: "db \<Rightarrow> instant \<Rightarrow> unit_row \<Rightarrow> date \<Rightarrow> date \<Rightarrow> refusal_reason list" where
  "live_refusals d now u a b =
     (if live_taken d now (u_id u) a b then [Overlap] else []) @
     (if day_of b - day_of a < u_minStay u then [Min_stay] else [])"

lemma after_sweep_refusals:
  assumes "db_ok d" "u \<in> set (units d)" "owned_unit d s (u_id u) u"
  shows "refusals (after_sweep s now (u_id u) d) u a b = live_refusals d now u a b"
  by (simp add: refusals_def live_refusals_def after_sweep_taken [OF assms])

lemma after_sweep_ids: "bk_id ` set (bookings (after_sweep s now uid d)) = bk_id ` set (bookings d)"
proof -
  have "map bk_id (bookings (after_sweep s now uid d)) = map bk_id (bookings d)"
    by (simp add: after_sweep_def map_update_where)
  then have "set (map bk_id (bookings (after_sweep s now uid d))) = set (map bk_id (bookings d))" by simp
  then show ?thesis by simp
qed

lemma fetchMaxGuests_Some:
  assumes "inventory_ok d" "u \<in> set (units d)" "owned_unit d s uid u"
  shows "fetchMaxGuests d s uid = Some (u_maxGuests u)"
proof -
  have "select_one (owned_unit d s uid) (units d) = Some u"
    using assms by (intro select_one_unique [where k = u_id]) (auto simp: inventory_ok_def owned_unit_def)
  then show ?thesis by (simp add: fetchMaxGuests_def owned_unit_def [abs_def])
qed

definition credential_saved :: "db \<Rightarrow> uuid \<Rightarrow> bool" where
  "credential_saved d tenantId \<longleftrightarrow> (\<exists>c \<in> set (credentials d). tc_tenantId c = tenantId)"

definition guest_refusals :: "db \<Rightarrow> instant \<Rightarrow> unit_row \<Rightarrow> create_booking_request \<Rightarrow> refusal_reason list" where
  "guest_refusals d now u req =
     live_refusals d now u (cb_checkIn req) (cb_checkOut req) @
     (if cb_guestCount req > u_maxGuests u then [Max_guests] else [])"

lemma hold_row_simps [row_simps, simp]:
  "bk_id (hold_row i t now h) = i" "bk_tenantId (hold_row i t now h) = t"
  "bk_unitId (hold_row i t now h) = hi_unitId h" "bk_status (hold_row i t now h) = Pending_payment"
  "bk_checkIn (hold_row i t now h) = hi_checkIn h" "bk_checkOut (hold_row i t now h) = hi_checkOut h"
  "bk_totalPriceIdr (hold_row i t now h) = Some (hi_totalPriceIdr h)"
  "bk_holdExpiresAt (hold_row i t now h) = Some (hold_expiry now)"
  "bk_guestCount (hold_row i t now h) = Some (hi_guestCount h)"
  "bk_externalUid (hold_row i t now h) = None" "bk_source (hold_row i t now h) = Direct"
  by (simp_all add: hold_row_def)

lemma hold_input_simps [row_simps, simp]:
  "hi_unitId (hold_input_of req n) = cb_unitId req" "hi_checkIn (hold_input_of req n) = cb_checkIn req"
  "hi_checkOut (hold_input_of req n) = cb_checkOut req"
  "hi_guestCount (hold_input_of req n) = cb_guestCount req"
  "hi_totalPriceIdr (hold_input_of req n) = n"
  by (simp_all add: hold_input_of_def)

lemma hold_plain:
  assumes "createBookingRequestSchema req" "0 \<le> n"
  shows "plain_row (hold_row i t now (hold_input_of req n))"
  using assms
  by (simp add: plain_row_def booking_check_def occupies_iff createBookingRequestSchema_def
      stay_window_iff window_ok_def)

lemma public_tx_eq:
  assumes "db_ok d" "u \<in> set (units d)" "createBookingRequestSchema req" "cb_unitId req = u_id u"
    "owned_unit d (tx_session tx) (u_id u) u" "tx_alive tx" "newId \<notin> bk_id ` set (bookings d)"
    and d1: "d1 = after_sweep (tx_session tx) now (u_id u) d"
    and price: "price = stay_price d (u_id u) (u_basePriceIdr u) (cb_checkIn req) (cb_checkOut req)"
  shows "public_booking_tx now newId req d tx =
    (if effective_archived d u then Inl (Conflict (Dates_unavailable [Unavailable]))
     else if guest_refusals d now u req \<noteq> []
     then Inl (Conflict (Dates_unavailable (guest_refusals d now u req)))
     else Inr (\<lparr>cr_bookingId = newId, cr_status = Pending_payment, cr_holdExpiresAt = hold_expiry now,
                 cr_totalPriceIdr = price,
                 cr_nights = day_of (cb_checkOut req) - day_of (cb_checkIn req)\<rparr>,
               d1\<lparr>bookings := bookings d1 @
                 [hold_row newId (s_tenantId (tx_session tx)) now (hold_input_of req price)]\<rparr>))"
proof -
  let ?s = "tx_session tx" and ?a = "cb_checkIn req" and ?b = "cb_checkOut req"
  let ?row = "hold_row newId (s_tenantId ?s) now (hold_input_of req price)"
  have w: "stay_window_ok ?a ?b" using assms(3) by (simp add: createBookingRequestSchema_def)
  have ok1: "db_ok d1" unfolding d1 by (rule after_sweep_db_ok [OF assms(1)])
  have u1: "u \<in> set (units d1)" "owned_unit d1 ?s (u_id u) u" using assms(2,5) by (simp_all add: d1)
  have pr: "rupiahSchema price"
    unfolding price using unit_row_bounds [OF assms(1,2)] w
    by (intro stay_price_bounds [OF assms(1)]) (auto simp: stay_window_iff)
  have taken: "nights_taken d1 (u_id u) ?a ?b = live_taken d now (u_id u) ?a ?b"
    unfolding d1 by (rule after_sweep_taken [OF assms(1,2,5)])
  have ins: "rls_insert_booking ?s ?row d1 =
      (if live_taken d now (u_id u) ?a ?b then Inl (DbError ''booking_no_overlap'')
       else Inr (d1\<lparr>bookings := bookings d1 @ [?row]\<rparr>))"
    using insert_iff_free [OF ok1 u1, of ?row] hold_plain [OF assms(3), of price] pr assms(4,7) taken
    by (simp add: rupiahSchema_def d1 after_sweep_ids)
  have fetch: "fetchMaxGuests d1 ?s (u_id u) = Some (u_maxGuests u)"
    by (rule fetchMaxGuests_Some [OF db_okD(1) [OF ok1] u1])
  have q: "ar_reasons (quoted_response d1 ?s u ?a ?b) = live_refusals d now u ?a ?b"
    "ar_totalPriceIdr (quoted_response d1 ?s u ?a ?b) = price"
    "ar_nights (quoted_response d1 ?s u ?a ?b) = day_of ?b - day_of ?a"
    by (simp_all add: quoted_response_def d1 after_sweep_refusals [OF assms(1,2,5)] price)
  have free: "\<not> live_taken d now (u_id u) ?a ?b" if "guest_refusals d now u req = []"
    using that by (auto simp: guest_refusals_def live_refusals_def split: if_splits)
  note sq = sweepQuote_eq [OF assms(1,2,5) w assms(6) d1]
  show ?thesis
  proof (cases "guest_refusals d now u req = []")
    case True
    with free have "\<not> live_taken d now (u_id u) ?a ?b" by blast
    with True show ?thesis
      using sq assms(4,6) fetch q ins pr
      by (simp add: public_booking_tx_def guest_refusals_def Let_def insertHold_def
          assertInTransaction_def toRupiah_ok)
  next
    case False
    then show ?thesis
      using sq assms(4) fetch q
      by (simp add: public_booking_tx_def guest_refusals_def Let_def)
  qed
qed

lemma find_unit:
  assumes "inventory_ok d" "u \<in> set (units d)"
  shows "List.find (\<lambda>v. u_id v = u_id u) (units d) = Some u"
  using assms unit_by_id [OF assms(1)] by (subst find_price) auto

lemma enter_unit_unknown:
  "List.find (\<lambda>v. u_id v = uid) (units d) = None \<Longrightarrow>
   enterFromUnitId uid d None = Inl (NotFound ''Unit not found'')"
  by (simp add: enterFromUnitId_def select_one_def)

lemma credential_visible:
  "paymentCredentialExists d (session_of p) (principal_tenant p) = credential_saved d (principal_tenant p)"
  by (auto simp: paymentCredentialExists_def credential_saved_def rls_credential_def)

text \<open>Claim C1. The guest's booking, on every branch. A valid request answers 404 for an unknown
  unit; the gateway refusal when the provider needs the owner's credentials and none is saved; the
  archived refusal; otherwise all reasons at once (dates held by an unexpired hold or a confirmed
  booking, a stay too short, too many guests); and if none applies the lapsed holds of the unit are
  expired and one pending row is appended, at the summed nightly price and with the hold's expiry.
  No 500 and no other state change is possible.\<close>

theorem guest_booking_contract:
  assumes "db_ok d" "createBookingRequestSchema req" "newId \<notin> bk_id ` set (bookings d)"
  shows "createPublicBooking requiresCredentials now newId req d =
    (case List.find (\<lambda>u. u_id u = cb_unitId req) (units d) of
       None \<Rightarrow> Inl (NotFound ''Unit not found'')
     | Some u \<Rightarrow>
         if requiresCredentials \<and> \<not> credential_saved d (u_tenantId u)
         then Inl (Conflict Payments_not_configured)
         else if effective_archived d u then Inl (Conflict (Dates_unavailable [Unavailable]))
         else if guest_refusals d now u req \<noteq> []
         then Inl (Conflict (Dates_unavailable (guest_refusals d now u req)))
         else let price = stay_price d (u_id u) (u_basePriceIdr u) (cb_checkIn req) (cb_checkOut req);
                  d1 = after_sweep (session_of (Visitor_principal (u_tenantId u))) now (u_id u) d
              in Inr (\<lparr>cr_bookingId = newId, cr_status = Pending_payment,
                       cr_holdExpiresAt = now + 900000, cr_totalPriceIdr = price,
                       cr_nights = day_of (cb_checkOut req) - day_of (cb_checkIn req)\<rparr>,
                     d1\<lparr>bookings := bookings d1 @
                       [hold_row newId (u_tenantId u) now (hold_input_of req price)]\<rparr>))"
proof (cases "List.find (\<lambda>u. u_id u = cb_unitId req) (units d)")
  case None
  then show ?thesis by (simp add: createPublicBooking_def enter_unit_unknown intercept_def)
next
  case (Some u)
  then have u: "u \<in> set (units d)" "cb_unitId req = u_id u" by (auto simp: find_Some_iff)
  have tx: "public_booking_tx now newId req d
      \<lparr>tx_session = session_of (Visitor_principal (u_tenantId u)), tx_alive = True\<rparr> =
    (if effective_archived d u then Inl (Conflict (Dates_unavailable [Unavailable]))
     else if guest_refusals d now u req \<noteq> []
     then Inl (Conflict (Dates_unavailable (guest_refusals d now u req)))
     else let price = stay_price d (u_id u) (u_basePriceIdr u) (cb_checkIn req) (cb_checkOut req);
              d1 = after_sweep (session_of (Visitor_principal (u_tenantId u))) now (u_id u) d
          in Inr (\<lparr>cr_bookingId = newId, cr_status = Pending_payment,
                   cr_holdExpiresAt = hold_expiry now, cr_totalPriceIdr = price,
                   cr_nights = day_of (cb_checkOut req) - day_of (cb_checkIn req)\<rparr>,
                 d1\<lparr>bookings := bookings d1 @
                   [hold_row newId (u_tenantId u) now (hold_input_of req price)]\<rparr>))"
    using public_tx_eq [OF assms(1) u(1) assms(2) u(2) _ _ assms(3) refl refl,
        of "\<lparr>tx_session = session_of (Visitor_principal (u_tenantId u)), tx_alive = True\<rparr>" now]
      visitor_owns [OF u(1)] by (simp add: Let_def)
  have "hold_expiry now = now + 900000" by (simp add: hold_expiry_def HOLD_TTL_MINUTES_def)
  then show ?thesis
    using Some tx enter_unit [OF db_okD(1) [OF assms(1)] u(1)]
      credential_visible [of d "Visitor_principal (u_tenantId u)"]
    by (simp add: createPublicBooking_def u(2) intercept_def Let_def)
qed

text \<open>Claim C2. The race loser is told what a polite caller is told: in whatever consistent state
  the insert lands, it goes in exactly when no occupying booking holds a night of it, and otherwise
  the violated exclusion constraint reaches the client as the conflict of the re-check.\<close>

theorem race_loser_same_answer:
  assumes "db_ok d" "u \<in> set (units d)" "owned_unit d (tx_session tx) (u_id u) u" "tx_alive tx"
    and "createBookingRequestSchema req" "cb_unitId req = u_id u" "0 \<le> price"
    and "newId \<notin> bk_id ` set (bookings d)"
  shows "intercept (insertHold tx now newId (hold_input_of req price) d) =
    (if nights_taken d (u_id u) (cb_checkIn req) (cb_checkOut req)
     then Inl (Conflict (Dates_unavailable [Overlap]))
     else let row = hold_row newId (s_tenantId (tx_session tx)) now (hold_input_of req price)
          in Inr (row, d\<lparr>bookings := bookings d @ [row]\<rparr>))"
  using insert_iff_free [OF assms(1-3), of "hold_row newId (s_tenantId (tx_session tx)) now (hold_input_of req price)"]
    hold_plain [OF assms(5,7)] assms(4,6,8)
  by (simp add: insertHold_def assertInTransaction_def Let_def)

section \<open>The owner's write\<close>

definition owner_row :: "uuid \<Rightarrow> uuid \<Rightarrow> instant \<Rightarrow> create_owner_request \<Rightarrow> int \<Rightarrow> booking_row" where
  "owner_row newId tenantId now req quoted = confirmed_row newId tenantId now (owner_input req quoted)"

lemma owner_row_simps [row_simps, simp]:
  "bk_id (owner_row i t now req n) = i" "bk_tenantId (owner_row i t now req n) = t"
  "bk_unitId (owner_row i t now req n) = co_unitId req" "bk_status (owner_row i t now req n) = Confirmed"
  "bk_checkIn (owner_row i t now req n) = co_checkIn req"
  "bk_checkOut (owner_row i t now req n) = co_checkOut req"
  "bk_holdExpiresAt (owner_row i t now req n) = None" "bk_externalUid (owner_row i t now req n) = None"
  by (simp_all add: owner_row_def confirmed_row_def owner_input_def split: owner_body.splits)

lemma owner_row_price:
  assumes "createOwnerBookingRequestSchema req" "rupiahSchema n"
  shows "case bk_totalPriceIdr (owner_row i t now req n) of None \<Rightarrow> True | Some v \<Rightarrow> rupiahSchema v"
  using assms
  by (auto simp: owner_row_def confirmed_row_def owner_input_def createOwnerBookingRequestSchema_def
      split: owner_body.splits option.splits)

lemma owner_plain:
  assumes "createOwnerBookingRequestSchema req" "rupiahSchema n"
  shows "plain_row (owner_row i t now req n)"
proof -
  have "co_checkIn req < co_checkOut req"
    using assms(1) by (simp add: createOwnerBookingRequestSchema_def stay_window_iff window_ok_def)
  moreover have "case bk_guestCount (owner_row i t now req n) of None \<Rightarrow> True | Some k \<Rightarrow> k > 0"
    using assms(1)
    by (auto simp: owner_row_def confirmed_row_def owner_input_def createOwnerBookingRequestSchema_def
        split: owner_body.splits option.splits)
  ultimately show ?thesis
    using owner_row_price [OF assms, of i t now]
    by (auto simp: plain_row_def booking_check_def occupies_iff rupiahSchema_def split: option.splits)
qed

lemma owner_tx_eq:
  assumes "db_ok d" "u \<in> set (units d)" "createOwnerBookingRequestSchema req" "co_unitId req = u_id u"
    "owned_unit d (tx_session tx) (u_id u) u" "tx_alive tx" "newId \<notin> bk_id ` set (bookings d)"
    and d1: "d1 = after_sweep (tx_session tx) now (u_id u) d"
    and price: "price = stay_price d (u_id u) (u_basePriceIdr u) (co_checkIn req) (co_checkOut req)"
    and row: "row = owner_row newId (s_tenantId (tx_session tx)) now req price"
  shows "owner_booking_tx now newId req d tx =
    (if effective_archived d u then Inl (Conflict (Dates_unavailable [Archived]))
     else if live_taken d now (u_id u) (co_checkIn req) (co_checkOut req)
     then Inl (Conflict (Dates_unavailable [Overlap]))
     else Inr (\<lparr>or_bookingId = newId, or_status = Confirmed, or_source = bk_source row,
                 or_checkIn = co_checkIn req, or_checkOut = co_checkOut req,
                 or_totalPriceIdr = bk_totalPriceIdr row,
                 or_nights = day_of (co_checkOut req) - day_of (co_checkIn req)\<rparr>,
               d1\<lparr>bookings := bookings d1 @ [row]\<rparr>))"
proof -
  let ?s = "tx_session tx" and ?a = "co_checkIn req" and ?b = "co_checkOut req"
  have w: "stay_window_ok ?a ?b" using assms(3) by (simp add: createOwnerBookingRequestSchema_def)
  have ok1: "db_ok d1" unfolding d1 by (rule after_sweep_db_ok [OF assms(1)])
  have u1: "u \<in> set (units d1)" "owned_unit d1 ?s (u_id u) u" using assms(2,5) by (simp_all add: d1)
  have pr: "rupiahSchema price"
    unfolding price using unit_row_bounds [OF assms(1,2)] w
    by (intro stay_price_bounds [OF assms(1)]) (auto simp: stay_window_iff)
  have "nights_taken d1 (u_id u) ?a ?b = live_taken d now (u_id u) ?a ?b"
    unfolding d1 by (rule after_sweep_taken [OF assms(1,2,5)])
  then have ins: "rls_insert_booking ?s row d1 =
      (if live_taken d now (u_id u) ?a ?b then Inl (DbError ''booking_no_overlap'')
       else Inr (d1\<lparr>bookings := bookings d1 @ [row]\<rparr>))"
    using insert_iff_free [OF ok1 u1, of row] owner_plain [OF assms(3) pr] assms(4,7)
    by (simp add: d1 after_sweep_ids row)
  have q: "Overlap \<in> set (ar_reasons (quoted_response d1 ?s u ?a ?b)) \<longleftrightarrow> live_taken d now (u_id u) ?a ?b"
    "ar_totalPriceIdr (quoted_response d1 ?s u ?a ?b) = price"
    "ar_nights (quoted_response d1 ?s u ?a ?b) = day_of ?b - day_of ?a"
    by (auto simp: quoted_response_def d1 after_sweep_refusals [OF assms(1,2,5)] price live_refusals_def)
  have tp: "(case bk_totalPriceIdr row of None \<Rightarrow> Inr None
      | Some v \<Rightarrow> bind_res (toRupiah v) (\<lambda>n. Inr (Some n))) = Inr (bk_totalPriceIdr row)"
    using owner_row_price [OF assms(3) pr, of newId "s_tenantId ?s" now]
    by (auto simp: row toRupiah_ok split: option.splits)
  show ?thesis
    using sweepQuote_eq [OF assms(1,2,5) w assms(6) d1] assms(4,6) q ins tp
    by (simp add: owner_booking_tx_def insertConfirmed_def assertInTransaction_def Let_def
        row [unfolded owner_row_def, symmetric]) (simp add: row)
qed


section \<open>Cancellation\<close>

definition seen_booking :: "db \<Rightarrow> session \<Rightarrow> uuid \<Rightarrow> booking_row \<Rightarrow> bool" where
  "seen_booking d s bid b \<longleftrightarrow> rls_booking d s b \<and> bk_id b = bid"

lemma seen_cancellable:
  "(\<lambda>b. rls_booking d s b \<and> bk_id b = bid \<and> bk_tenantId b = s_tenantId s \<and>
      bk_status b \<in> set OCCUPYING_STATUSES) = (\<lambda>b. seen_booking d s bid b \<and> occupies b)"
  by (auto simp: seen_booking_def occupies_def rls_booking_def)

lemma seen_select:
  "(\<lambda>b. rls_booking d s b \<and> bk_id b = bid \<and> bk_tenantId b = s_tenantId s) = seen_booking d s bid"
  by (auto simp: seen_booking_def rls_booking_def)

lemma booking_by_id:
  "booking_table_ok d \<Longrightarrow> a \<in> set (bookings d) \<Longrightarrow> b \<in> set (bookings d) \<Longrightarrow> bk_id a = bk_id b \<Longrightarrow> a = b"
  by (auto simp: booking_table_ok_def distinct_map inj_on_def)

lemma cancelById_eq:
  assumes "booking_table_ok d"
  shows "cancelById tx bid d =
    (case List.find (seen_booking d (tx_session tx) bid) (bookings d) of
       None \<Rightarrow> Inr (Outcome_not_found, d)
     | Some b \<Rightarrow> if occupies b
         then Inr (Outcome_cancelled,
           d\<lparr>bookings := update_where (\<lambda>x. bk_id x = bid) (set_status Cancelled) (bookings d)\<rparr>)
         else Inr (Outcome_terminal (bk_status b), d))"
proof -
  let ?s = "tx_session tx" and ?hit = "\<lambda>b. seen_booking d (tx_session tx) bid b \<and> occupies b"
  have upd: "update_booking ?hit (set_status Cancelled) d =
      Inr (d\<lparr>bookings := update_where ?hit (set_status Cancelled) (bookings d)\<rparr>)"
    by (rule release_update [OF assms]) simp
  have cong: "rls_booking (d\<lparr>bookings := rows\<rparr>) = rls_booking d" for rows
    by (rule visibility_cong) simp_all
  note unfold = cancelById_def Let_def seen_cancellable upd bind_res_simps cong seen_select
  show ?thesis
  proof (cases "List.find (seen_booking d ?s bid) (bookings d)")
    case None
    then have no: "\<forall>b \<in> set (bookings d). \<not> seen_booking d ?s bid b" by (auto simp: find_None_iff)
    then have "update_where ?hit (set_status Cancelled) (bookings d) = bookings d"
      by (intro update_where_none) auto
    with no None show ?thesis
      unfolding unfold by (auto simp: select_one_def filter_empty_conv)
  next
    case (Some b)
    then have b: "b \<in> set (bookings d)" "seen_booking d ?s bid b" by (auto simp: find_Some_iff)
    have only: "seen_booking d ?s bid x \<longleftrightarrow> bk_id x = bid" if "x \<in> set (bookings d)" for x
      using that b booking_by_id [OF assms that b(1)] by (auto simp: seen_booking_def)
    show ?thesis
    proof (cases "occupies b")
      case True
      have "?hit x \<longleftrightarrow> bk_id x = bid" if "x \<in> set (bookings d)" for x
        using that b True only [OF that] booking_by_id [OF assms that b(1)]
        by (auto simp: seen_booking_def)
      then have "update_where ?hit (set_status Cancelled) (bookings d) =
          update_where (\<lambda>x. bk_id x = bid) (set_status Cancelled) (bookings d)"
        by (auto simp: update_where_def)
      moreover have "filter ?hit (bookings d) \<noteq> []" using b True by (auto simp: filter_empty_conv)
      ultimately show ?thesis using Some True unfolding unfold by simp
    next
      case False
      then have none: "\<not> ?hit x" if "x \<in> set (bookings d)" for x
        using that b booking_by_id [OF assms that b(1)] by (auto simp: seen_booking_def)
      then have "update_where ?hit (set_status Cancelled) (bookings d) = bookings d"
        by (intro update_where_none) auto
      moreover have "filter ?hit (bookings d) = []" using none by (auto simp: filter_empty_conv)
      ultimately show ?thesis using Some False unfolding unfold by (simp add: select_one_def)
    qed
  qed
qed

definition paid :: "db \<Rightarrow> uuid \<Rightarrow> bool" where
  "paid d bid \<longleftrightarrow> (\<exists>p \<in> set (payments d). py_bookingId p = bid \<and> py_status p = Pay_paid)"

lemma hasPaidPayment_iff:
  assumes "b \<in> set (bookings d)" "bk_id b = bid" "rls_booking d s b"
  shows "hasPaidPayment d s bid = paid d bid"
  using assms by (auto simp: hasPaidPayment_def paid_def rls_payment_def)

definition cancelled_db :: "db \<Rightarrow> uuid \<Rightarrow> db" where
  "cancelled_db d bid =
     d\<lparr>bookings := update_where (\<lambda>x. bk_id x = bid) (set_status Cancelled) (bookings d)\<rparr>"

lemma cancel_booking_eq:
  assumes "booking_table_ok d"
  shows "cancel_booking (Some p) bid d =
    (case List.find (seen_booking d (session_of p) bid) (bookings d) of
       None \<Rightarrow> Inl (NotFound ''Booking not found'')
     | Some b \<Rightarrow>
         if bk_status b = Pending_payment \<or> bk_status b = Confirmed
         then Inr (if paid d bid then Refund_manual else Refund_none, cancelled_db d bid)
         else Inl (Conflict (Booking_not_cancellable (bk_status b))))"
proof (cases "List.find (seen_booking d (session_of p) bid) (bookings d)")
  case None
  then show ?thesis
    using cancelById_eq [OF assms, of "\<lparr>tx_session = session_of p, tx_alive = True\<rparr>" bid]
    by (simp add: cancel_booking_def intercept_def)
next
  case (Some b)
  then have b: "b \<in> set (bookings d)" "rls_booking d (session_of p) b" "bk_id b = bid"
    by (auto simp: find_Some_iff seen_booking_def)
  have vis: "rls_booking (cancelled_db d bid) = rls_booking d"
    by (rule visibility_cong) (simp_all add: cancelled_db_def)
  have "set_status Cancelled b \<in> set (bookings (cancelled_db d bid))"
    using b by (auto simp: cancelled_db_def set_update_where image_iff intro!: bexI [of _ b])
  moreover have "rls_booking (cancelled_db d bid) (session_of p) (set_status Cancelled b)"
    using b(2) unfolding vis by (simp add: rls_booking_def)
  ultimately have "hasPaidPayment (cancelled_db d bid) (session_of p) bid = paid (cancelled_db d bid) bid"
    using b(3) by (intro hasPaidPayment_iff) simp_all
  moreover have "paid (cancelled_db d bid) bid = paid d bid" by (simp add: paid_def cancelled_db_def)
  ultimately show ?thesis
    using Some cancelById_eq [OF assms, of "\<lparr>tx_session = session_of p, tx_alive = True\<rparr>" bid]
    by (simp add: cancel_booking_def intercept_def occupies_iff cancelled_db_def [symmetric])
qed

text \<open>Claim C13. Cancellation, on every branch: a booking outside the caller's scope is 404, a
  terminal one is refused with the status it has, and a pending or confirmed one becomes cancelled -
  nothing else changes - with a manual refund due exactly when a payment of it was paid.\<close>

theorem cancel_contract:
  assumes "booking_table_ok d"
  shows "cancel_booking (Some p) bid d =
    (case List.find (seen_booking d (session_of p) bid) (bookings d) of
       None \<Rightarrow> Inl (NotFound ''Booking not found'')
     | Some b \<Rightarrow>
         if bk_status b = Pending_payment \<or> bk_status b = Confirmed
         then Inr (if paid d bid then Refund_manual else Refund_none, cancelled_db d bid)
         else Inl (Conflict (Booking_not_cancellable (bk_status b))))"
  using assms by (rule cancel_booking_eq)

section \<open>The hold sweeper\<close>

text \<open>Claim C30. The sweep of lapsed holds never fails, expires exactly the lapsed ones and counts
  them, leaves none behind, is idempotent, and frees a night exactly when only lapsed holds held it.\<close>

theorem sweep_contract:
  assumes "booking_table_ok d"
  shows "\<exists>d'. sweepExpiredHolds now d = Inr (length (filter (lapsed now) (bookings d)), d') \<and>
    bookings d' = map (\<lambda>b. if lapsed now b then b\<lparr>bk_status := Expired\<rparr> else b) (bookings d) \<and>
    sweepExpiredHolds now d' = Inr (0, d') \<and>
    nights_taken d' unitId from to = live_taken d now unitId from to"
proof -
  let ?d' = "d\<lparr>bookings := update_where (lapsed now) (set_status Expired) (bookings d)\<rparr>"
  have e: "sweepExpiredHolds now d = Inr (length (filter (lapsed now) (bookings d)), ?d')"
    by (rule sweepExpiredHolds_eq [OF assms])
  have ok: "booking_table_ok ?d'"
    using assms release_update [OF assms] by (rule update_booking_ok) simp_all
  have none: "filter (lapsed now) (bookings ?d') = []"
    by (auto simp: filter_empty_conv set_update_where split: if_splits)
  then have "update_where (lapsed now) (set_status Expired) (bookings ?d') = bookings ?d'"
    by (intro update_where_none) (auto simp: filter_empty_conv)
  then have "sweepExpiredHolds now ?d' = Inr (0, ?d')"
    using sweepExpiredHolds_eq [OF ok, of now] none by simp
  moreover have "nights_taken ?d' unitId from to = live_taken d now unitId from to"
    unfolding nights_taken_def live_taken_def by (auto simp: set_update_where split: if_splits)
  ultimately show ?thesis
    using e by (intro exI [of _ ?d']) (simp add: update_where_def set_status_def)
qed

end
