(* ===== verification/Sample.thy ===== *)
theory Sample
  imports Booking_Rules
begin

text \<open>
  One small consistent ledger, on which the theorems of the development are instantiated: a villa
  with one unit (two-night minimum), a price override, a confirmed and paid stay, a lapsed hold and a
  cancelled stay.
\<close>

definition "sample_property = \<lparr>p_id = ''p1'', p_tenantId = ''t1'', p_name = ''Villa'', p_slug = ''villa'',
  p_address = None, p_latitude = None, p_longitude = None, p_description = None, p_photos = [],
  p_licenseNo = None, p_archivedAt = None, p_depositPct = 50, p_timeZone = ''Asia/Makassar'',
  p_createdAt = 0\<rparr>"

definition "sample_unit = \<lparr>u_id = ''u1'', u_propertyId = ''p1'', u_tenantId = ''t1'', u_name = ''A'',
  u_basePriceIdr = 500000, u_maxGuests = 2, u_minStay = 2, u_archivedAt = None, u_createdAt = 0\<rparr>"

definition "spare_unit = \<lparr>u_id = ''u2'', u_propertyId = ''p1'', u_tenantId = ''t1'', u_name = ''B'',
  u_basePriceIdr = 0, u_maxGuests = 4, u_minStay = 1, u_archivedAt = Some 7, u_createdAt = 1\<rparr>"

definition "sample_override = \<lparr>po_id = ''o1'', po_unitId = ''u1'', po_tenantId = ''t1'',
  po_fromDate = ''2026-08-10'', po_toDate = ''2026-08-12'', po_nightlyPriceIdr = 800000, po_createdAt = 0\<rparr>"

definition sample_booking ::
  "uuid \<Rightarrow> booking_status \<Rightarrow> date \<Rightarrow> date \<Rightarrow> instant option \<Rightarrow> booking_row" where
  "sample_booking i st a b hold = \<lparr>bk_id = i, bk_tenantId = ''t1'', bk_unitId = ''u1'', bk_source = Direct,
     bk_status = st, bk_checkIn = a, bk_checkOut = b, bk_guestName = Some ''Ayu'',
     bk_guestPhone = Some ''+62811'', bk_guestEmail = None, bk_guestCount = Some 2,
     bk_totalPriceIdr = Some 2000000, bk_externalUid = None, bk_channelConnectionId = None,
     bk_holdExpiresAt = hold, bk_createdAt = 0\<rparr>"

definition "sample_payment = \<lparr>py_id = ''y1'', py_bookingId = ''b1'', py_provider = ''fake'',
  py_providerRef = Some ''b1'', py_amountIdr = 1000000, py_status = Pay_paid, py_handledAt = None,
  py_session = None, py_createdAt = 0, py_updatedAt = 0\<rparr>"

definition sample_db :: db where
  "sample_db = empty_db\<lparr>properties := [sample_property], units := [sample_unit, spare_unit],
     price_overrides := [sample_override],
     bookings := [sample_booking ''b1'' Confirmed ''2026-08-01'' ''2026-08-05'' None,
                  sample_booking ''b2'' Pending_payment ''2026-08-20'' ''2026-08-25'' (Some 1000),
                  sample_booking ''b3'' Cancelled ''2026-08-01'' ''2026-08-03'' None],
     payments := [sample_payment]\<rparr>"

lemmas sample_defs = sample_db_def empty_db_def sample_property_def sample_unit_def spare_unit_def
  sample_override_def sample_booking_def sample_payment_def

lemma sample_rows:
  "units sample_db = [sample_unit, spare_unit]" "properties sample_db = [sample_property]"
  "price_overrides sample_db = [sample_override]" "payments sample_db = [sample_payment]"
  "bookings sample_db = [sample_booking ''b1'' Confirmed ''2026-08-01'' ''2026-08-05'' None,
                  sample_booking ''b2'' Pending_payment ''2026-08-20'' ''2026-08-25'' (Some 1000),
                  sample_booking ''b3'' Cancelled ''2026-08-01'' ''2026-08-03'' None]"
  "credentials sample_db = []" "user_properties sample_db = []"
  by (simp_all add: sample_db_def empty_db_def)

lemma sample_dates:
  "is_iso_date ''2026-08-01'' \<and> is_iso_date ''2026-08-05'' \<and> is_iso_date ''2026-08-20'' \<and>
   is_iso_date ''2026-08-25'' \<and> is_iso_date ''2026-08-03'' \<and> is_iso_date ''2026-08-10'' \<and>
   is_iso_date ''2026-08-12''"
  by code_simp

lemma sample_inventory: "inventory_ok sample_db"
  unfolding inventory_ok_def sample_rows
  by (simp add: sample_property_def sample_unit_def spare_unit_def unit_check_def same_unit_name_def)

lemma sample_bookings: "booking_table_ok sample_db"
  unfolding booking_table_ok_def sample_rows no_overlap_def
  by (simp add: sample_booking_def sample_unit_def spare_unit_def booking_check_def range_overlaps_def
      same_feed_event_def occupies_iff)

lemma sample_overrides: "override_table_ok sample_db"
  unfolding override_table_ok_def ot.table_ok_def sample_rows no_overlap_def
  by (simp add: sample_override_def sample_unit_def spare_unit_def override_check_def)

lemma sample_ok: "db_ok sample_db"
  using sample_dates
  by (simp add: db_ok_def sample_inventory sample_bookings sample_overrides dates_ok_def sample_rows
      sample_booking_def sample_override_def)

end
