(* ===== verification/Gateway.thy ===== *)
theory Gateway
  imports Schema Iso_Date
begin

text \<open>
  The payment provider behind its port: \<^verbatim>\<open>payment-gateway.ts\<close> is the record \<open>gateway\<close>,
  \<^verbatim>\<open>midtrans.gateway.ts\<close> and \<^verbatim>\<open>fake-payment.gateway.ts\<close> are its two implementations. SHA-512 and the
  HTTP exchange are parameters; everything the adapter decides from them is defined here.
\<close>

section \<open>The port\<close>

record gateway_credential =
  gc_serverKey :: string
  gc_environment :: string

datatype payment_outcome = Out_settlement | Out_failure | Out_pending | Out_ignore

record parsed_event =
  ev_providerEventId :: string
  ev_orderId :: string
  ev_outcome :: payment_outcome
  ev_grossAmountIdr :: int
  ev_raw :: json

record create_session_input =
  cs_orderId :: string
  cs_amountIdr :: int
  cs_itemName :: string
  cs_customerName :: "string option"
  cs_customerPhone :: "string option"
  cs_customerEmail :: "string option"
  cs_finishUrl :: "string option"

datatype verify_outcome = Verify_ok | Verify_failed

record gateway =
  gw_provider :: string
  gw_requiresCredentials :: bool
  gw_createSession :: "create_session_input \<Rightarrow> gateway_credential \<Rightarrow> app_error + payment_session"
  gw_peekOrderId :: "json \<Rightarrow> string option"
  gw_verifyAndParse :: "json \<Rightarrow> gateway_credential \<Rightarrow> app_error + parsed_event"
  gw_fetchStatus :: "string \<Rightarrow> gateway_credential \<Rightarrow> app_error + parsed_event option"
  gw_verifyCredential :: "gateway_credential \<Rightarrow> verify_outcome"

section \<open>Midtrans\<close>

definition json_field :: "json \<Rightarrow> string \<Rightarrow> json option" where
  "json_field body k = (case body of J_obj kvs \<Rightarrow> map_of kvs k | _ \<Rightarrow> None)"

definition string_field :: "json \<Rightarrow> string \<Rightarrow> string option" where
  "string_field body k = (case json_field body k of Some (J_str s) \<Rightarrow> Some s | _ \<Rightarrow> None)"

text \<open>\<^verbatim>\<open>z.string().min(1)\<close>.\<close>

definition required_field :: "json \<Rightarrow> string \<Rightarrow> string option" where
  "required_field body k =
     (case string_field body k of Some s \<Rightarrow> if s = [] then None else Some s | None \<Rightarrow> None)"

record midtrans_notification =
  mn_order_id :: string
  mn_status_code :: string
  mn_gross_amount :: string
  mn_signature_key :: string
  mn_transaction_status :: string
  mn_transaction_id :: string
  mn_fraud_status :: "string option"

definition midtransNotificationSchema :: "json \<Rightarrow> midtrans_notification option" where
  "midtransNotificationSchema body =
     (case (required_field body ''order_id'', required_field body ''status_code'',
            required_field body ''gross_amount'', required_field body ''signature_key'',
            required_field body ''transaction_status'', required_field body ''transaction_id'') of
        (Some oid, Some code, Some gross, Some sig, Some status, Some txid) \<Rightarrow>
          (case json_field body ''fraud_status'' of
             None \<Rightarrow> Some \<lparr>mn_order_id = oid, mn_status_code = code, mn_gross_amount = gross,
               mn_signature_key = sig, mn_transaction_status = status, mn_transaction_id = txid,
               mn_fraud_status = None\<rparr>
           | Some (J_str f) \<Rightarrow> Some \<lparr>mn_order_id = oid, mn_status_code = code, mn_gross_amount = gross,
               mn_signature_key = sig, mn_transaction_status = status, mn_transaction_id = txid,
               mn_fraud_status = Some f\<rparr>
           | Some _ \<Rightarrow> None)
      | _ \<Rightarrow> None)"

definition midtransOutcome :: "string \<Rightarrow> string option \<Rightarrow> payment_outcome" where
  "midtransOutcome transactionStatus fraudStatus =
     (if transactionStatus = ''capture'' then
        (if fraudStatus = Some ''accept'' then Out_settlement
         else if fraudStatus = Some ''challenge'' then Out_pending
         else Out_failure)
      else if transactionStatus = ''settlement'' then Out_settlement
      else if transactionStatus = ''pending'' then Out_pending
      else if transactionStatus \<in> {''deny'', ''cancel'', ''expire'', ''failure''} then Out_failure
      else Out_ignore)"

text \<open>\<^verbatim>\<open>gross.split('.')[0]\<close>, digits only, widened to an integer.\<close>

definition parseGrossAmountIdr :: "string \<Rightarrow> app_error + int" where
  "parseGrossAmountIdr gross =
     (let intPart = takeWhile (\<lambda>c. c \<noteq> CHR ''.'') gross in
      if intPart = [] \<or> \<not> list_all is_digit intPart
      then Inl (BadRequest ''Webhook gross_amount is not a whole number'')
      else Inr (int (num intPart)))"

definition midtrans_peekOrderId :: "json \<Rightarrow> string option" where
  "midtrans_peekOrderId body = required_field body ''order_id''"

definition midtrans_verifyAndParse ::
  "(string \<Rightarrow> string) \<Rightarrow> json \<Rightarrow> gateway_credential \<Rightarrow> app_error + parsed_event" where
  "midtrans_verifyAndParse sha512 body credential =
     (case midtransNotificationSchema body of
        None \<Rightarrow> Inl (BadRequest ''Malformed webhook payload'')
      | Some n \<Rightarrow>
          let expected = sha512 (mn_order_id n @ mn_status_code n @ mn_gross_amount n @
                gc_serverKey credential)
          in if expected \<noteq> mn_signature_key n then Inl (Unauthorized ''Invalid webhook signature'')
             else bind_res (parseGrossAmountIdr (mn_gross_amount n)) (\<lambda>gross.
               Inr \<lparr>ev_providerEventId = mn_transaction_id n @ '':'' @ mn_transaction_status n,
                 ev_orderId = mn_order_id n,
                 ev_outcome = midtransOutcome (mn_transaction_status n) (mn_fraud_status n),
                 ev_grossAmountIdr = gross, ev_raw = body\<rparr>))"

text \<open>An HTTP exchange: unreachable or timed out, or a status with the parsed body, if it parses.\<close>

datatype http_reply = Unreachable | Reply nat "json option"

definition http_ok :: "nat \<Rightarrow> bool" where
  "http_ok status \<longleftrightarrow> 200 \<le> status \<and> status \<le> 299"

definition snapUrl :: "string option \<Rightarrow> gateway_credential \<Rightarrow> string" where
  "snapUrl override credential =
     (case override of Some url \<Rightarrow> url
      | None \<Rightarrow> if gc_environment credential = ''sandbox''
          then ''https://app.sandbox.midtrans.com/snap/v1/transactions''
          else ''https://app.midtrans.com/snap/v1/transactions'')"

definition apiUrl :: "string option \<Rightarrow> gateway_credential \<Rightarrow> string" where
  "apiUrl override credential =
     (case override of Some url \<Rightarrow> url
      | None \<Rightarrow> if gc_environment credential = ''sandbox''
          then ''https://api.sandbox.midtrans.com/v2''
          else ''https://api.midtrans.com/v2'')"

definition optional_member :: "string \<Rightarrow> string option \<Rightarrow> (string \<times> json) list" where
  "optional_member k v = (case v of None \<Rightarrow> [] | Some s \<Rightarrow> [(k, J_str s)])"

definition snap_body :: "create_session_input \<Rightarrow> json" where
  "snap_body input =
     J_obj ([(''transaction_details'',
              J_obj [(''order_id'', J_str (cs_orderId input)), (''gross_amount'', J_num (cs_amountIdr input))]),
             (''item_details'',
              J_arr [J_obj [(''id'', J_str (cs_orderId input)), (''price'', J_num (cs_amountIdr input)),
                (''quantity'', J_num 1), (''name'', J_str (utf16_take 50 (cs_itemName input)))]]),
             (''customer_details'',
              J_obj (optional_member ''first_name'' (cs_customerName input) @
                optional_member ''email'' (cs_customerEmail input) @
                optional_member ''phone'' (cs_customerPhone input)))] @
            (case cs_finishUrl input of
               Some url \<Rightarrow> if url = [] then [] else [(''callbacks'', J_obj [(''finish'', J_str url)])]
             | None \<Rightarrow> []))"

definition session_of_reply :: "http_reply \<Rightarrow> app_error + payment_session" where
  "session_of_reply res =
     (case res of
        Unreachable \<Rightarrow> Inl (BadGateway ''Payment provider is unreachable'')
      | Reply status body \<Rightarrow>
          if \<not> http_ok status then Inl (BadGateway ''Payment provider rejected the request'')
          else case body of
            None \<Rightarrow> Inl (BadGateway ''Payment provider returned an invalid session'')
          | Some b \<Rightarrow>
              (case (string_field b ''token'', string_field b ''redirect_url'') of
                 (Some token, Some url) \<Rightarrow> Inr \<lparr>ps_token = token, ps_redirectUrl = url\<rparr>
               | _ \<Rightarrow> Inl (BadGateway ''Payment provider returned an invalid session'')))"

definition status_of_reply ::
  "(string \<Rightarrow> string) \<Rightarrow> http_reply \<Rightarrow> gateway_credential \<Rightarrow> app_error + parsed_event option" where
  "status_of_reply sha512 res credential =
     (case res of
        Unreachable \<Rightarrow> Inl (BadGateway ''Payment provider is unreachable'')
      | Reply status body \<Rightarrow>
          if status = 404 then Inr None
          else if \<not> http_ok status then Inl (BadGateway ''Payment provider status check failed'')
          else case body of
            None \<Rightarrow> Inl (BadGateway ''Payment provider returned an invalid status'')
          | Some b \<Rightarrow>
              if string_field b ''status_code'' = Some ''404'' then Inr None
              else bind_res (midtrans_verifyAndParse sha512 b credential) (\<lambda>ev. Inr (Some ev)))"

definition verify_of_reply :: "http_reply \<Rightarrow> verify_outcome" where
  "verify_of_reply res =
     (case res of
        Unreachable \<Rightarrow> Verify_failed
      | Reply status body \<Rightarrow>
          if status = 404 then Verify_ok
          else if http_ok status then
            (case body of Some b \<Rightarrow>
               if string_field b ''status_code'' = Some ''404'' then Verify_ok else Verify_failed
             | None \<Rightarrow> Verify_failed)
          else Verify_failed)"

text \<open>The network: what a POST to Snap and a GET of an order's status come back with.\<close>

record midtrans_io =
  mi_sha512 :: "string \<Rightarrow> string"
  mi_snapBase :: "string option"
  mi_apiBase :: "string option"
  mi_post :: "string \<Rightarrow> string \<Rightarrow> json \<Rightarrow> http_reply"
  mi_status :: "string \<Rightarrow> string \<Rightarrow> string \<Rightarrow> http_reply"
  mi_probe :: string

definition midtransGateway :: "midtrans_io \<Rightarrow> gateway" where
  "midtransGateway io =
     \<lparr>gw_provider = ''midtrans'', gw_requiresCredentials = True,
      gw_createSession = (\<lambda>input credential.
        session_of_reply (mi_post io (snapUrl (mi_snapBase io) credential) (gc_serverKey credential) (snap_body input))),
      gw_peekOrderId = midtrans_peekOrderId,
      gw_verifyAndParse = midtrans_verifyAndParse (mi_sha512 io),
      gw_fetchStatus = (\<lambda>orderId credential. status_of_reply (mi_sha512 io)
        (mi_status io (apiUrl (mi_apiBase io) credential) (gc_serverKey credential) orderId) credential),
      gw_verifyCredential = (\<lambda>credential. verify_of_reply
        (mi_status io (apiUrl (mi_apiBase io) credential) (gc_serverKey credential) (mi_probe io)))\<rparr>"

section \<open>The fake gateway\<close>

definition fake_verifyAndParse :: "json \<Rightarrow> app_error + parsed_event" where
  "fake_verifyAndParse body =
     (case (string_field body ''orderId'', string_field body ''transactionId'',
            string_field body ''transactionStatus'', json_field body ''grossAmountIdr'') of
        (Some oid, Some txid, Some status, Some (J_num gross)) \<Rightarrow>
          if json_field body ''signatureValid'' = Some (J_bool False)
          then Inl (Unauthorized ''Invalid webhook signature'')
          else Inr \<lparr>ev_providerEventId = txid @ '':'' @ status, ev_orderId = oid,
            ev_outcome = midtransOutcome status None, ev_grossAmountIdr = gross, ev_raw = body\<rparr>
      | _ \<Rightarrow> Inl (BadRequest ''Malformed webhook payload''))"

definition fakeGateway :: "(string \<Rightarrow> json option) \<Rightarrow> verify_outcome \<Rightarrow> gateway" where
  "fakeGateway statuses verifyOutcome =
     \<lparr>gw_provider = ''midtrans'', gw_requiresCredentials = False,
      gw_createSession = (\<lambda>input credential. Inr \<lparr>ps_token = ''fake-token-'' @ cs_orderId input,
        ps_redirectUrl = ''https://sandbox.example/pay/'' @ cs_orderId input\<rparr>),
      gw_peekOrderId = (\<lambda>body. required_field body ''orderId''),
      gw_verifyAndParse = (\<lambda>body credential. fake_verifyAndParse body),
      gw_fetchStatus = (\<lambda>orderId credential.
        case statuses orderId of None \<Rightarrow> Inr None
        | Some body \<Rightarrow> bind_res (fake_verifyAndParse body) (\<lambda>ev. Inr (Some ev))),
      gw_verifyCredential = (\<lambda>credential. verifyOutcome)\<rparr>"

section \<open>What a verified event is\<close>

lemma required_field_Some: "required_field b k = Some s \<longleftrightarrow> string_field b k = Some s \<and> s \<noteq> []"
  by (auto simp: required_field_def split: option.splits)

lemma schema_order_id: "midtransNotificationSchema b = Some n \<Longrightarrow> midtrans_peekOrderId b = Some (mn_order_id n)"
  by (auto simp: midtransNotificationSchema_def midtrans_peekOrderId_def
      split: option.splits json.splits)

text \<open>Claim C40. An event the Midtrans adapter hands on was signed: its signature is the SHA-512 of
  order, status code, amount and the key of the credential it was verified under, the order it names
  is the one peeked from the body to choose that credential, and its amount is the whole-rupiah part
  of the signed text.\<close>

theorem verified_event_is_signed:
  assumes "midtrans_verifyAndParse sha512 body credential = Inr ev"
  shows "\<exists>n. midtransNotificationSchema body = Some n \<and>
    mn_signature_key n = sha512 (mn_order_id n @ mn_status_code n @ mn_gross_amount n @ gc_serverKey credential) \<and>
    midtrans_peekOrderId body = Some (ev_orderId ev) \<and> ev_orderId ev = mn_order_id n \<and>
    0 \<le> ev_grossAmountIdr ev \<and>
    parseGrossAmountIdr (mn_gross_amount n) = Inr (ev_grossAmountIdr ev) \<and>
    (ev_outcome ev = Out_settlement \<longleftrightarrow> mn_transaction_status n = ''settlement'' \<or>
       mn_transaction_status n = ''capture'' \<and> mn_fraud_status n = Some ''accept'')"
proof -
  from assms obtain n where n: "midtransNotificationSchema body = Some n"
    by (auto simp: midtrans_verifyAndParse_def split: option.splits)
  with assms have v: "sha512 (mn_order_id n @ mn_status_code n @ mn_gross_amount n @ gc_serverKey credential) =
      mn_signature_key n" "ev_orderId ev = mn_order_id n"
      "parseGrossAmountIdr (mn_gross_amount n) = Inr (ev_grossAmountIdr ev)"
      "ev_outcome ev = midtransOutcome (mn_transaction_status n) (mn_fraud_status n)"
    by (auto simp: midtrans_verifyAndParse_def Let_def bind_res_Inr_iff split: if_splits)
  from v(3) have "0 \<le> ev_grossAmountIdr ev"
    by (auto simp: parseGrossAmountIdr_def Let_def split: if_splits)
  with n v show ?thesis
    using schema_order_id [OF n] by (intro exI [of _ n]) (auto simp: midtransOutcome_def)
qed

end
