(* ===== verification/Credentials.thy ===== *)
theory Credentials
  imports Gateway Tenancy
begin

text \<open>
  The tenant's own gateway credential: the AES-256-GCM blob format (\<^verbatim>\<open>credential-crypto.ts\<close>), the
  resolver that decrypts it, the owner's save and status read, and the key rotation. The cipher itself
  is the parameter \<open>aead\<close>: \<open>seal key nonce plaintext\<close> answers the body and the tag, \<open>open\<close> answers
  \<open>None\<close> when authentication fails. Base64 decoding is the parameter \<open>b64\<close>.
\<close>

record aead =
  aead_seal :: "string \<Rightarrow> string \<Rightarrow> string \<Rightarrow> string \<times> string"
  aead_open :: "string \<Rightarrow> string \<Rightarrow> string \<Rightarrow> string \<Rightarrow> string option"

text \<open>What GCM guarantees: a body as long as the plaintext, a 16-byte tag, and opening what was sealed
  under the same key and nonce.\<close>

definition aead_lawful :: "aead \<Rightarrow> bool" where
  "aead_lawful c \<longleftrightarrow>
     (\<forall>k n p. length (fst (aead_seal c k n p)) = length p \<and> length (snd (aead_seal c k n p)) = 16 \<and>
        aead_open c k n (fst (aead_seal c k n p)) (snd (aead_seal c k n p)) = Some p)"

definition TAG_BYTES :: nat where "TAG_BYTES = 16"
definition KEY_BYTES :: nat where "KEY_BYTES = 32"
definition NONCE_BYTES :: nat where "NONCE_BYTES = 12"

definition decodeEncryptionKey :: "(string \<Rightarrow> string) \<Rightarrow> string option \<Rightarrow> app_error + string" where
  "decodeEncryptionKey b64 value =
     (let raw = (case value of Some v \<Rightarrow> js_trim v | None \<Rightarrow> []);
          key = (if raw = [] then [] else b64 raw)
      in if length key \<noteq> KEY_BYTES
         then Inl (InternalError ''CREDENTIAL_ENCRYPTION_KEY is unset or not 32 base64-encoded bytes'')
         else Inr key)"

text \<open>\<^verbatim>\<open>encryptCredential\<close>; the fresh random nonce is an argument.\<close>

definition encryptCredential :: "aead \<Rightarrow> string \<Rightarrow> string \<Rightarrow> string \<Rightarrow> string \<times> string" where
  "encryptCredential c nonce plaintext key =
     (case aead_seal c key nonce plaintext of (body, tag) \<Rightarrow> (body @ tag, nonce))"

definition decryptCredential :: "aead \<Rightarrow> string \<Rightarrow> string \<Rightarrow> string \<Rightarrow> app_error + string" where
  "decryptCredential c ciphertext nonce key =
     (if length ciphertext \<le> TAG_BYTES
      then Inl (InternalError ''Stored credential ciphertext is too short to carry a GCM tag'')
      else let tag = drop (length ciphertext - TAG_BYTES) ciphertext;
               body = take (length ciphertext - TAG_BYTES) ciphertext
           in case aead_open c key nonce body tag of
                None \<Rightarrow> Inl (InternalError ''Stored credential failed authentication'')
              | Some plaintext \<Rightarrow> Inr plaintext)"

section \<open>Resolution\<close>

record secrets =
  sx_aead :: aead
  sx_b64 :: "string \<Rightarrow> string"
  sx_key :: "string option"
  sx_keyVersion :: "int option"

definition paymentEnvironmentSchema :: "string \<Rightarrow> app_error + string" where
  "paymentEnvironmentSchema e =
     (if e = ''sandbox'' \<or> e = ''production'' then Inr e else Inl (JsError ''ZodError''))"

definition FAKE_CREDENTIAL :: gateway_credential where
  "FAKE_CREDENTIAL = \<lparr>gc_serverKey = ''fake'', gc_environment = ''sandbox''\<rparr>"

definition maybeResolve ::
  "secrets \<Rightarrow> uuid \<Rightarrow> string \<Rightarrow> db \<Rightarrow> app_error + gateway_credential option" where
  "maybeResolve sx tenantId provider d =
     (case select_one (\<lambda>r. tc_tenantId r = tenantId \<and> tc_provider r = provider) (credentials d) of
        None \<Rightarrow> Inr None
      | Some row \<Rightarrow>
          bind_res (decodeEncryptionKey (sx_b64 sx) (sx_key sx)) (\<lambda>key.
          bind_res (decryptCredential (sx_aead sx) (tc_ciphertext row) (tc_nonce row) key) (\<lambda>serverKey.
          bind_res (paymentEnvironmentSchema (tc_environment row)) (\<lambda>environment.
            Inr (Some \<lparr>gc_serverKey = serverKey, gc_environment = environment\<rparr>)))))"

definition resolveOrThrow ::
  "secrets \<Rightarrow> uuid \<Rightarrow> string \<Rightarrow> db \<Rightarrow> app_error + gateway_credential" where
  "resolveOrThrow sx tenantId provider d =
     bind_res (maybeResolve sx tenantId provider d) (\<lambda>credential.
       case credential of None \<Rightarrow> Inl (Conflict Payments_not_configured) | Some c \<Rightarrow> Inr c)"

definition forGatewayOrThrow ::
  "secrets \<Rightarrow> gateway \<Rightarrow> uuid \<Rightarrow> db \<Rightarrow> app_error + gateway_credential" where
  "forGatewayOrThrow sx gw tenantId d =
     (if \<not> gw_requiresCredentials gw then Inr FAKE_CREDENTIAL
      else resolveOrThrow sx tenantId ''midtrans'' d)"

section \<open>The owner's surface\<close>

record credential_status =
  cx_provider :: string
  cx_environment :: string
  cx_configuredAt :: instant
  cx_lastVerifyStatus :: string
  cx_lastVerifyAt :: "instant option"

definition paymentProviderSchema :: "string \<Rightarrow> bool" where
  "paymentProviderSchema p \<longleftrightarrow> p = ''midtrans''"

definition credential_toResponse :: "credential_row \<Rightarrow> app_error + credential_status" where
  "credential_toResponse row =
     (if \<not> paymentProviderSchema (tc_provider row) then Inl (JsError ''ZodError'')
      else bind_res (paymentEnvironmentSchema (tc_environment row)) (\<lambda>environment.
        if tc_lastVerifyStatus row \<notin> {''ok'', ''failed'', ''unchecked''} then Inl (JsError ''ZodError'')
        else Inr \<lparr>cx_provider = tc_provider row, cx_environment = environment,
          cx_configuredAt = tc_createdAt row, cx_lastVerifyStatus = tc_lastVerifyStatus row,
          cx_lastVerifyAt = tc_lastVerifyAt row\<rparr>))"

definition statusList :: "db \<Rightarrow> session \<Rightarrow> credential_row list" where
  "statusList d s =
     sort_key tc_provider (filter (\<lambda>r. rls_credential s r \<and> tc_tenantId r = s_tenantId s) (credentials d))"

definition list_credentials :: "tenant_context \<Rightarrow> db \<Rightarrow> app_error + credential_status list" where
  "list_credentials ctx d =
     db_run ctx None (\<lambda>tx. map_res credential_toResponse (statusList d (tx_session tx)))"

text \<open>The CHECK constraints of the table, and the upsert on \<^verbatim>\<open>(tenant_id, provider)\<close>.\<close>

definition credential_check :: "credential_row \<Rightarrow> string option" where
  "credential_check r =
     (if \<not> length (tc_ciphertext r) > 16 then Some ''tenant_payment_credential_ciphertext_len''
      else if tc_environment r \<notin> {''sandbox'', ''production''} then Some ''tenant_payment_credential_environment''
      else if \<not> tc_keyVersion r \<ge> 1 then Some ''tenant_payment_credential_key_version''
      else if length (tc_nonce r) \<noteq> 12 then Some ''tenant_payment_credential_nonce_len''
      else if tc_lastVerifyStatus r \<notin> {''ok'', ''failed'', ''unchecked''}
      then Some ''tenant_payment_credential_verify_status''
      else None)"

definition replace_credential :: "credential_row \<Rightarrow> credential_row \<Rightarrow> credential_row" where
  "replace_credential v r =
     r\<lparr>tc_environment := tc_environment v, tc_ciphertext := tc_ciphertext v, tc_nonce := tc_nonce v,
       tc_keyVersion := tc_keyVersion v, tc_lastVerifyStatus := tc_lastVerifyStatus v,
       tc_lastVerifyAt := tc_lastVerifyAt v, tc_updatedAt := tc_updatedAt v\<rparr>"

definition upsert_credential :: "credential_row \<Rightarrow> db \<Rightarrow> app_error + db" where
  "upsert_credential v d =
     (case credential_check v of
        Some c \<Rightarrow> Inl (DbError c)
      | None \<Rightarrow>
          let same = (\<lambda>r. tc_tenantId r = tc_tenantId v \<and> tc_provider r = tc_provider v) in
          if \<exists>r \<in> set (credentials d). same r
          then Inr (d\<lparr>credentials := update_where same (replace_credential v) (credentials d)\<rparr>)
          else Inr (d\<lparr>credentials := credentials d @ [v]\<rparr>))"

definition currentKeyVersion :: "int option \<Rightarrow> int" where
  "currentKeyVersion raw = (case raw of Some v \<Rightarrow> if v \<ge> 1 then v else 1 | None \<Rightarrow> 1)"

definition verify_status :: "verify_outcome \<Rightarrow> string" where
  "verify_status v = (case v of Verify_ok \<Rightarrow> ''ok'' | Verify_failed \<Rightarrow> ''failed'')"

definition save_credential ::
  "secrets \<Rightarrow> gateway \<Rightarrow> tenant_context \<Rightarrow> instant \<Rightarrow> uuid \<Rightarrow> string \<Rightarrow> string \<Rightarrow> string \<Rightarrow> string \<Rightarrow> db \<Rightarrow>
     app_error + (credential_status \<times> db)" where
  "save_credential sx gw ctx now newId nonce providerParam serverKey environment d =
     (if \<not> paymentProviderSchema providerParam then Inl (NotFound ''Unknown payment provider'')
      else
        bind_res (decodeEncryptionKey (sx_b64 sx) (sx_key sx)) (\<lambda>key.
        let probe = gw_verifyCredential gw \<lparr>gc_serverKey = serverKey, gc_environment = environment\<rparr>;
            (ciphertext, nonce') = encryptCredential (sx_aead sx) nonce serverKey key
        in db_run ctx None (\<lambda>tx.
             let s = tx_session tx in
             bind_res (upsert_credential
               \<lparr>tc_id = newId, tc_tenantId = s_tenantId s, tc_provider = providerParam,
                tc_environment = environment, tc_ciphertext = ciphertext, tc_nonce = nonce',
                tc_keyVersion = currentKeyVersion (sx_keyVersion sx),
                tc_lastVerifyStatus = verify_status probe, tc_lastVerifyAt = Some now,
                tc_createdAt = now, tc_updatedAt = now\<rparr> d) (\<lambda>d'.
             case select_one (\<lambda>r. tc_provider r = providerParam) (statusList d' s) of
               None \<Rightarrow> Inl (NotFound ''Credential not found after save'')
             | Some saved \<Rightarrow> bind_res (credential_toResponse saved) (\<lambda>r. Inr (r, d'))))))"

section \<open>Rotation\<close>

text \<open>\<^verbatim>\<open>rotateCredentials\<close>: the loop over the rows, each with its fresh nonce; the failed ids are
  collected and their rows left untouched.\<close>

definition rotate_row ::
  "aead \<Rightarrow> string \<Rightarrow> string \<Rightarrow> int \<Rightarrow> instant \<Rightarrow> (uuid \<Rightarrow> string) \<Rightarrow> credential_row \<Rightarrow> credential_row \<times> bool option"
  where
  "rotate_row c oldKey newKey newVersion now nonces r =
     (if tc_keyVersion r \<ge> newVersion then (r, None)
      else case decryptCredential c (tc_ciphertext r) (tc_nonce r) oldKey of
        Inl e \<Rightarrow> (r, Some False)
      | Inr plaintext \<Rightarrow>
          (case encryptCredential c (nonces (tc_id r)) plaintext newKey of
             (ciphertext, nonce) \<Rightarrow>
               (r\<lparr>tc_ciphertext := ciphertext, tc_nonce := nonce, tc_keyVersion := newVersion,
                  tc_updatedAt := now\<rparr>, Some True)))"

record rotation_result =
  ro_rotated :: nat
  ro_newVersion :: int
  ro_failed :: "uuid list"

definition rotateCredentials ::
  "aead \<Rightarrow> string \<Rightarrow> string \<Rightarrow> int \<Rightarrow> instant \<Rightarrow> (uuid \<Rightarrow> string) \<Rightarrow> db \<Rightarrow> rotation_result \<times> db" where
  "rotateCredentials c oldKey newKey fromVersion now nonces d =
     (let out = map (rotate_row c oldKey newKey (fromVersion + 1) now nonces) (credentials d)
      in (\<lparr>ro_rotated = length (filter (\<lambda>(r, o1). o1 = Some True) out),
           ro_newVersion = fromVersion + 1,
           ro_failed = map (\<lambda>(r, o1). tc_id r) (filter (\<lambda>(r, o1). o1 = Some False) out)\<rparr>,
          d\<lparr>credentials := map fst out\<rparr>))"

section \<open>Round trips\<close>

lemma decrypt_encrypt:
  assumes "aead_lawful c" "p \<noteq> []" "encryptCredential c n p k = (ct, n')"
  shows "decryptCredential c ct n' k = Inr p" "n' = n" "length ct = length p + 16"
proof -
  obtain b t where bt: "aead_seal c k n p = (b, t)" by (cases "aead_seal c k n p")
  have l: "length b = length p" "length t = 16" "aead_open c k n b t = Some p"
    using assms(1) bt unfolding aead_lawful_def by (metis fst_conv snd_conv)+
  have ct: "ct = b @ t" and n: "n' = n" using assms(3) bt by (simp_all add: encryptCredential_def)
  then show "n' = n" "length ct = length p + 16" using l by simp_all
  show "decryptCredential c ct n' k = Inr p"
    using l assms(2) by (simp add: decryptCredential_def Let_def ct n TAG_BYTES_def)
qed

lemma update_where_credential:
  assumes "\<exists>r \<in> set rows. P r" "\<And>r. P r \<Longrightarrow> P (f r)"
  shows "\<exists>r. P r \<and> select_one P (update_where P f rows) = Some (f r)"
  using assms by (induction rows) auto

lemma upsert_select:
  assumes "upsert_credential v d = Inr d'"
  obtains r where "tc_ciphertext r = tc_ciphertext v" "tc_nonce r = tc_nonce v"
    "tc_environment r = tc_environment v" "tc_keyVersion r = tc_keyVersion v"
    "select_one (\<lambda>r. tc_tenantId r = tc_tenantId v \<and> tc_provider r = tc_provider v) (credentials d') = Some r"
proof -
  let ?same = "\<lambda>r. tc_tenantId r = tc_tenantId v \<and> tc_provider r = tc_provider v"
  from assms have c: "credential_check v = None"
    by (auto simp: upsert_credential_def split: option.splits)
  show ?thesis
  proof (cases "\<exists>r \<in> set (credentials d). ?same r")
    case True
    with assms c have d': "credentials d' = update_where ?same (replace_credential v) (credentials d)"
      by (auto simp: upsert_credential_def Let_def)
    have "\<exists>r. ?same r \<and> select_one ?same (credentials d') = Some (replace_credential v r)"
      unfolding d' using True by (intro update_where_credential) (auto simp: replace_credential_def)
    then obtain r where "select_one ?same (credentials d') = Some (replace_credential v r)" by blast
    then show ?thesis by (intro that [of "replace_credential v r"]) (simp_all add: replace_credential_def)
  next
    case False
    with assms c have d': "credentials d' = credentials d @ [v]"
      by (auto simp: upsert_credential_def Let_def)
    have "select_one ?same (credentials d') = Some v"
      unfolding d' using False by (auto simp: select_one_append simp del: select_one_None_iff split: option.split dest!: select_one_SomeD)
    then show ?thesis by (intro that) simp_all
  qed
qed

text \<open>Claim C38. Save, then resolve: whatever key an owner saved - replacing an earlier one or not - is the
  key and the environment the gateway layer gets back for that tenant, decrypted under the same
  application key.\<close>

theorem saved_credential_resolves:
  assumes "aead_lawful (sx_aead sx)" "serverKey \<noteq> []"
    and "save_credential sx gw (Some p) now newId nonce provider serverKey environment d = Inr (r, d')"
  shows "maybeResolve sx (principal_tenant p) provider d' =
      Inr (Some \<lparr>gc_serverKey = serverKey, gc_environment = environment\<rparr>)"
proof -
  from assms(3) obtain key where key: "decodeEncryptionKey (sx_b64 sx) (sx_key sx) = Inr key"
    by (auto simp: save_credential_def bind_res_Inr_iff split: if_splits)
  obtain ct n' where enc: "encryptCredential (sx_aead sx) nonce serverKey key = (ct, n')"
    by (cases "encryptCredential (sx_aead sx) nonce serverKey key")
  note dec = decrypt_encrypt [OF assms(1,2) enc]
  define v where "v = \<lparr>tc_id = newId, tc_tenantId = principal_tenant p, tc_provider = provider,
                tc_environment = environment, tc_ciphertext = ct, tc_nonce = n',
                tc_keyVersion = currentKeyVersion (sx_keyVersion sx),
                tc_lastVerifyStatus = verify_status (gw_verifyCredential gw
                  \<lparr>gc_serverKey = serverKey, gc_environment = environment\<rparr>), tc_lastVerifyAt = Some now,
                tc_createdAt = now, tc_updatedAt = now\<rparr>"
  from assms(3) obtain x where x: "upsert_credential v d = Inr x"
    "(case select_one (\<lambda>r. tc_provider r = provider) (statusList x (session_of p)) of
        None \<Rightarrow> Inl (NotFound ''Credential not found after save'')
      | Some saved \<Rightarrow> bind_res (credential_toResponse saved) (\<lambda>r. Inr (r, x))) = Inr (r, d')"
    unfolding v_def by (auto simp: save_credential_def key enc Let_def bind_res_Inr_iff split: if_splits)
  then have up: "upsert_credential v d = Inr d'"
    by (cases "select_one (\<lambda>r. tc_provider r = provider) (statusList x (session_of p))")
      (auto simp: bind_res_Inr_iff)
  then have "credential_check v = None" by (auto simp: upsert_credential_def split: option.splits)
  then have env: "paymentEnvironmentSchema environment = Inr environment"
    by (auto simp: credential_check_def v_def paymentEnvironmentSchema_def split: if_splits)
  from up obtain r' where "tc_ciphertext r' = ct" "tc_nonce r' = n'" "tc_environment r' = environment"
    "select_one (\<lambda>r. tc_tenantId r = principal_tenant p \<and> tc_provider r = provider) (credentials d') = Some r'"
    by (rule upsert_select) (simp add: v_def)
  then show ?thesis using key dec env by (simp add: maybeResolve_def)
qed

definition rotated_row :: "aead \<Rightarrow> string \<Rightarrow> string \<Rightarrow> int \<Rightarrow> credential_row \<Rightarrow> credential_row \<Rightarrow> bool" where
  "rotated_row c oldKey newKey newVersion r r' \<longleftrightarrow>
     (if tc_keyVersion r \<ge> newVersion then r' = r
      else case decryptCredential c (tc_ciphertext r) (tc_nonce r) oldKey of
        Inl e \<Rightarrow> r' = r
      | Inr s \<Rightarrow> tc_id r' = tc_id r \<and> tc_environment r' = tc_environment r \<and> tc_keyVersion r' = newVersion \<and>
          (s = [] \<or> decryptCredential c (tc_ciphertext r') (tc_nonce r') newKey = Inr s))"

lemma rotate_row_ok:
  assumes "aead_lawful c"
  shows "rotated_row c oldKey newKey newVersion r (fst (rotate_row c oldKey newKey newVersion now nonces r))"
proof (cases "newVersion \<le> tc_keyVersion r")
  case True
  then show ?thesis by (simp add: rotate_row_def rotated_row_def)
next
  case low: False
  show ?thesis
  proof (cases "decryptCredential c (tc_ciphertext r) (tc_nonce r) oldKey")
    case (Inl e)
    with low show ?thesis by (simp add: rotate_row_def rotated_row_def)
  next
    case (Inr s)
    obtain ct n where e: "encryptCredential c (nonces (tc_id r)) s newKey = (ct, n)"
      by (cases "encryptCredential c (nonces (tc_id r)) s newKey")
    have "s = [] \<or> decryptCredential c ct n newKey = Inr s"
      using decrypt_encrypt(1) [OF assms _ e] by blast
    with low Inr e show ?thesis by (simp add: rotate_row_def rotated_row_def)
  qed
qed

lemma rotate_row_again:
  assumes "fst (rotate_row c oldKey newKey v now nonces r) = r'"
  shows "fst (rotate_row c oldKey newKey v now' nonces' r') = r'"
    "snd (rotate_row c oldKey newKey v now' nonces' r') \<noteq> Some True"
proof -
  have "fst (rotate_row c oldKey newKey v now' nonces' r') = r' \<and>
      snd (rotate_row c oldKey newKey v now' nonces' r') \<noteq> Some True"
    using assms
    by (cases "decryptCredential c (tc_ciphertext r) (tc_nonce r) oldKey")
      (auto simp: rotate_row_def split: if_splits prod.splits)
  then show "fst (rotate_row c oldKey newKey v now' nonces' r') = r'"
    "snd (rotate_row c oldKey newKey v now' nonces' r') \<noteq> Some True" by auto
qed

text \<open>Claim C39. Key rotation loses no credential and is resumable: a row below the new generation that
  the old key opens reads the same under the new key, every other row is untouched, and a second run
  over the result rewrites nothing, whatever its clock and nonces.\<close>

theorem rotation_contract:
  assumes "aead_lawful c" "rotateCredentials c oldKey newKey fromVersion now nonces d = (res, d')"
  shows "list_all2 (rotated_row c oldKey newKey (fromVersion + 1)) (credentials d) (credentials d') \<and>
    credentials (snd (rotateCredentials c oldKey newKey fromVersion now' nonces' d')) = credentials d' \<and>
    ro_rotated (fst (rotateCredentials c oldKey newKey fromVersion now' nonces' d')) = 0"
proof -
  let ?f = "rotate_row c oldKey newKey (fromVersion + 1) now nonces"
  let ?g = "rotate_row c oldKey newKey (fromVersion + 1) now' nonces'"
  have d': "credentials d' = map (fst \<circ> ?f) (credentials d)"
    using assms(2) by (auto simp: rotateCredentials_def Let_def)
  have again: "fst (?g r') = r' \<and> snd (?g r') \<noteq> Some True" if "r' \<in> set (credentials d')" for r'
  proof -
    from that obtain r where "fst (?f r) = r'" unfolding d' by auto
    then show ?thesis using rotate_row_again by blast
  qed
  have "list_all2 (rotated_row c oldKey newKey (fromVersion + 1)) (credentials d) (credentials d')"
    unfolding d' list.rel_map using rotate_row_ok [OF assms(1)] by (simp add: list.rel_refl_strong)
  moreover have "map (fst \<circ> ?g) (credentials d') = credentials d'"
    using again by (intro map_idI) simp
  moreover have "filter (\<lambda>(r, o1). o1 = Some True) (map ?g (credentials d')) = []"
    using again by (force simp: filter_empty_conv)
  ultimately show ?thesis by (simp add: rotateCredentials_def Let_def)
qed

end
