(* ===== verification/Wa_Link.thy ===== *)
theory Wa_Link
  imports Prelude
begin

text \<open>
  The guest's phone number and the \<^verbatim>\<open>wa.me\<close> deeplink: \<^verbatim>\<open>packages/shared/src/booking-confirmation.ts\<close> and
  the E.164 schema of \<^verbatim>\<open>booking.ts\<close>, with \<^verbatim>\<open>encodeURIComponent\<close> on UTF-8 octets and its decoder.
\<close>

text \<open>\<^verbatim>\<open>/^\+[1-9]\d{7,14}$/\<close>.\<close>

definition is_e164 :: "string \<Rightarrow> bool" where
  "is_e164 s =
     (case s of
        a # c # rest \<Rightarrow> a = CHR ''+'' \<and> is_digit c \<and> c \<noteq> CHR ''0'' \<and>
          list_all is_digit rest \<and> 7 \<le> length rest \<and> length rest \<le> 14
      | _ \<Rightarrow> False)"

definition normalizeWaPhone :: "string option \<Rightarrow> string" where
  "normalizeWaPhone raw =
     (case raw of
        None \<Rightarrow> []
      | Some s \<Rightarrow> if s = [] then []
          else let trimmed = js_trim s in if is_e164 trimmed then tl trimmed else [])"

definition unreserved :: "char \<Rightarrow> bool" where
  "unreserved c \<longleftrightarrow>
     in_class (CHR ''a'') (CHR ''z'') c \<or> in_class (CHR ''A'') (CHR ''Z'') c \<or> is_digit c \<or>
     c \<in> set ''-_.!~*()'' \<or> c = CHR 0x27"

definition hex_char :: "nat \<Rightarrow> char" where
  "hex_char n = (if n < 10 then char_of (48 + n) else char_of (55 + n))"

definition hex_val :: "char \<Rightarrow> nat" where
  "hex_val c = (let k = (of_char c :: nat) in if k < 58 then k - 48 else k - 55)"

definition encode_octet :: "char \<Rightarrow> string" where
  "encode_octet c =
     (if unreserved c then [c]
      else let k = (of_char c :: nat) in [CHR ''%'', hex_char (k div 16), hex_char (k mod 16)])"

definition encodeURIComponent :: "string \<Rightarrow> string" where
  "encodeURIComponent s = concat (map encode_octet s)"

fun decodeURIComponent :: "string \<Rightarrow> string" where
  "decodeURIComponent [] = []"
| "decodeURIComponent (c # cs) =
     (if c = CHR ''%'' then
        (case cs of h # l # rest \<Rightarrow> char_of (16 * hex_val h + hex_val l) # decodeURIComponent rest
         | _ \<Rightarrow> [])
      else c # decodeURIComponent cs)"

definition newline :: string where
  "newline = [CHR 0x0A]"

definition wa_text :: "string option \<Rightarrow> string \<Rightarrow> string \<Rightarrow> date \<Rightarrow> date \<Rightarrow> string" where
  "wa_text guestName propertyName unitName checkIn checkOut =
     (let greeting = (case guestName of
            Some g \<Rightarrow> if g = [] then ''Here'' @ [CHR 0x27] @ ''s your booking:''
              else ''Hi '' @ g @ '', here'' @ [CHR 0x27] @ ''s your booking:''
          | None \<Rightarrow> ''Here'' @ [CHR 0x27] @ ''s your booking:'')
      in greeting @ newline @ propertyName @ '' - '' @ unitName @ newline @
         ''Check-in: '' @ checkIn @ newline @ ''Check-out: '' @ checkOut)"

definition buildWaMeLink ::
  "string option \<Rightarrow> string option \<Rightarrow> string \<Rightarrow> string \<Rightarrow> date \<Rightarrow> date \<Rightarrow> string option" where
  "buildWaMeLink phone guestName propertyName unitName checkIn checkOut =
     (let p = normalizeWaPhone phone in
      if p = [] then None
      else Some (''https://wa.me/'' @ p @ ''?text='' @
        encodeURIComponent (wa_text guestName propertyName unitName checkIn checkOut)))"

lemma hex_val_char: "n < 16 \<Longrightarrow> hex_val (hex_char n) = n"
  by (auto simp: hex_val_def hex_char_def)

lemma unreserved_percent [simp]: "\<not> unreserved (CHR ''%'')"
  by (simp add: unreserved_def is_digit_def less_eq_char_def)

lemma decode_octet: "decodeURIComponent (encode_octet c @ rest) = c # decodeURIComponent rest"
proof (cases "unreserved c")
  case True
  then have "c \<noteq> CHR ''%''" using unreserved_percent by metis
  with True show ?thesis by (simp add: encode_octet_def)
next
  case False
  let ?k = "of_char c :: nat"
  have "?k < 256" by simp
  then have "?k div 16 < 16" "?k mod 16 < 16" by (simp_all add: less_mult_imp_div_less)
  then have "16 * hex_val (hex_char (?k div 16)) + hex_val (hex_char (?k mod 16)) = ?k"
    by (simp add: hex_val_char)
  with False show ?thesis by (simp add: encode_octet_def Let_def)
qed

lemma decode_encode: "decodeURIComponent (encodeURIComponent s) = s"
  by (induction s) (simp_all add: encodeURIComponent_def decode_octet)

text \<open>The deeplink, when there is one, addresses a canonical E.164 number with its plus dropped
  (so no ambiguous national number is ever linked), and its text decodes to the booking summary, whatever
  characters the names contain.\<close>

theorem wa_link_contract:
  "case buildWaMeLink phone guestName propertyName unitName checkIn checkOut of
     None \<Rightarrow> normalizeWaPhone phone = []
   | Some link \<Rightarrow> (\<exists>s digits text. phone = Some s \<and> js_trim s = CHR ''+'' # digits \<and> is_e164 (js_trim s) \<and>
       list_all is_digit digits \<and> 8 \<le> length digits \<and> length digits \<le> 15 \<and>
       link = ''https://wa.me/'' @ digits @ ''?text='' @ text \<and>
       decodeURIComponent text = wa_text guestName propertyName unitName checkIn checkOut)"
proof (cases "normalizeWaPhone phone = []")
  case True
  then show ?thesis by (simp add: buildWaMeLink_def)
next
  case False
  then obtain s where s: "phone = Some s" "is_e164 (js_trim s)" "normalizeWaPhone phone = tl (js_trim s)"
    by (auto simp: normalizeWaPhone_def Let_def split: option.splits if_splits)
  then obtain c rest where cr: "js_trim s = CHR ''+'' # c # rest" "is_digit c" "list_all is_digit rest"
    "7 \<le> length rest" "length rest \<le> 14"
    by (auto simp: is_e164_def split: list.splits)
  let ?text = "encodeURIComponent (wa_text guestName propertyName unitName checkIn checkOut)"
  have "buildWaMeLink phone guestName propertyName unitName checkIn checkOut =
      Some (''https://wa.me/'' @ (c # rest) @ ''?text='' @ ?text)"
    using s cr by (simp add: buildWaMeLink_def Let_def)
  then show ?thesis
    using s cr by (auto intro!: exI [of _ s] exI [of _ "c # rest"] exI [of _ ?text] simp: decode_encode)
qed

end
