(* ===== verification/Payments.thy ===== *)
theory Payments
  imports Credentials Booking_Rules Wa_Link
begin

text \<open>
  Money in: \<^verbatim>\<open>apps/api/src/payments\<close>. Paying for a live hold, the idempotent webhook and its pull
  counterpart, the confirmation read and the inbox of paid but lapsed bookings. The gateway is an
  argument, so everything here holds for Midtrans and for the fake alike.
\<close>

section \<open>The payment tables\<close>

definition payment_check :: "payment_row \<Rightarrow> string option" where
  "payment_check r = (if py_amountIdr r < 0 then Some ''payment_amount_nonneg'' else None)"

definition insert_payment :: "session \<Rightarrow> payment_row \<Rightarrow> db \<Rightarrow> app_error + db" where
  "insert_payment s r d =
     (if \<not> rls_payment d s r then Inl (DbError ''row-level security'')
      else if \<exists>q \<in> set (payments d). py_id q = py_id r then Inl (DbError ''payment_pkey'')
      else case payment_check r of
        Some c \<Rightarrow> Inl (DbError c)
      | None \<Rightarrow> Inr (d\<lparr>payments := payments d @ [r]\<rparr>))"

definition update_payments :: "(payment_row \<Rightarrow> bool) \<Rightarrow> (payment_row \<Rightarrow> payment_row) \<Rightarrow> db \<Rightarrow> db" where
  "update_payments P f d = d\<lparr>payments := update_where P f (payments d)\<rparr>"

definition PAYMENT_EVENT_UNIQ :: string where
  "PAYMENT_EVENT_UNIQ = ''payment_event_provider_event_uniq''"

definition insert_payment_event :: "payment_event_row \<Rightarrow> db \<Rightarrow> app_error + db" where
  "insert_payment_event r d =
     (if \<exists>q \<in> set (payment_events d). pe_provider q = pe_provider r \<and>
          pe_providerEventId q = pe_providerEventId r
      then Inl (DbError PAYMENT_EVENT_UNIQ)
      else Inr (d\<lparr>payment_events := payment_events d @ [r]\<rparr>))"

section \<open>The payments repository\<close>

record pay_context =
  px_status :: booking_status
  px_unitId :: uuid
  px_totalPriceIdr :: "int option"
  px_depositPct :: int
  px_unitName :: string
  px_propertyName :: string
  px_guestName :: "string option"
  px_guestPhone :: "string option"
  px_guestEmail :: "string option"

text \<open>The join of a booking with its unit and property, under the policies and the tenant filters.\<close>

definition booking_join :: "db \<Rightarrow> session \<Rightarrow> uuid \<Rightarrow> (booking_row \<times> unit_row \<times> property_row) list" where
  "booking_join d s bid =
     filter (\<lambda>(b, u, p). rls_booking d s b \<and> rls_unit d s u \<and> rls_property d s p \<and>
         u_id u = bk_unitId b \<and> u_tenantId u = s_tenantId s \<and>
         p_id p = u_propertyId u \<and> p_tenantId p = s_tenantId s \<and>
         bk_id b = bid \<and> bk_tenantId b = s_tenantId s)
       (List.product (bookings d) (List.product (units d) (properties d)))"

definition lockAndLoad :: "active_tx \<Rightarrow> uuid \<Rightarrow> db \<Rightarrow> app_error + pay_context option" where
  "lockAndLoad tx bid d =
     bind_res (assertInTransaction (Some tx)) (\<lambda>_.
       Inr (map_option (\<lambda>(b, u, p).
           \<lparr>px_status = bk_status b, px_unitId = bk_unitId b, px_totalPriceIdr = bk_totalPriceIdr b,
            px_depositPct = p_depositPct p, px_unitName = u_name u, px_propertyName = p_name p,
            px_guestName = bk_guestName b, px_guestPhone = bk_guestPhone b,
            px_guestEmail = bk_guestEmail b\<rparr>)
         (select_one (\<lambda>_. True) (booking_join d (tx_session tx) bid))))"

definition readStatusAndUnit :: "db \<Rightarrow> session \<Rightarrow> uuid \<Rightarrow> (booking_status \<times> uuid) option" where
  "readStatusAndUnit d s bid =
     map_option (\<lambda>b. (bk_status b, bk_unitId b))
       (select_one (\<lambda>b. rls_booking d s b \<and> bk_id b = bid \<and> bk_tenantId b = s_tenantId s) (bookings d))"

definition readStatus :: "db \<Rightarrow> session \<Rightarrow> uuid \<Rightarrow> booking_status option" where
  "readStatus d s bid = map_option fst (readStatusAndUnit d s bid)"

text \<open>Newest first: the stable order of equal timestamps is the heap's.\<close>

definition newest_pending :: "db \<Rightarrow> session \<Rightarrow> uuid \<Rightarrow> payment_row option" where
  "newest_pending d s bid =
     select_one (\<lambda>_. True) (sort_key (\<lambda>p. - py_createdAt p)
       (filter (\<lambda>p. rls_payment d s p \<and> py_bookingId p = bid \<and> py_status p = Pay_pending) (payments d)))"

definition findOpenSession :: "db \<Rightarrow> session \<Rightarrow> uuid \<Rightarrow> app_error + payment_row option" where
  "findOpenSession d s bid =
     (case newest_pending d s bid of
        None \<Rightarrow> Inr None
      | Some row \<Rightarrow>
          (case py_session row of
             None \<Rightarrow> Inl (InternalError ''An open payment has a malformed session payload'')
           | Some session \<Rightarrow> Inr (Some row)))"

definition findPendingPaymentOrderId :: "db \<Rightarrow> session \<Rightarrow> uuid \<Rightarrow> uuid option" where
  "findPendingPaymentOrderId d s bid = map_option py_id (newest_pending d s bid)"

section \<open>Paying\<close>

record pay_env =
  pv_gateway :: gateway
  pv_secrets :: secrets
  pv_webBase :: "string option"
  pv_isUrl :: "string \<Rightarrow> bool"

record payment_session_response =
  pq_provider :: string
  pq_token :: string
  pq_redirectUrl :: string
  pq_amountIdr :: int
  pq_deposit :: bool

definition pay_toResponse ::
  "pay_env \<Rightarrow> string \<Rightarrow> payment_session \<Rightarrow> int \<Rightarrow> int \<Rightarrow> app_error + payment_session_response" where
  "pay_toResponse env provider session amountIdr totalPriceIdr =
     bind_res (toRupiah amountIdr) (\<lambda>amount.
       if \<not> paymentProviderSchema provider \<or> \<not> pv_isUrl env (ps_redirectUrl session)
       then Inl (JsError ''ZodError'')
       else Inr \<lparr>pq_provider = provider, pq_token = ps_token session,
         pq_redirectUrl = ps_redirectUrl session, pq_amountIdr = amount,
         pq_deposit = (amountIdr < totalPriceIdr)\<rparr>)"

definition session_input :: "pay_env \<Rightarrow> uuid \<Rightarrow> int \<Rightarrow> pay_context \<Rightarrow> uuid \<Rightarrow> create_session_input" where
  "session_input env paymentId amount ctx bid =
     \<lparr>cs_orderId = paymentId, cs_amountIdr = amount,
      cs_itemName = px_propertyName ctx @ '' - '' @ px_unitName ctx,
      cs_customerName = px_guestName ctx, cs_customerPhone = px_guestPhone ctx,
      cs_customerEmail = px_guestEmail ctx,
      cs_finishUrl = (case pv_webBase env of
          Some base \<Rightarrow> if base = [] then None else Some (base @ ''/booking/'' @ bid)
        | None \<Rightarrow> None)\<rparr>"

definition payment_with_session ::
  "uuid \<Rightarrow> uuid \<Rightarrow> string \<Rightarrow> int \<Rightarrow> payment_session \<Rightarrow> instant \<Rightarrow> payment_row" where
  "payment_with_session pid bid provider amount session now =
     \<lparr>py_id = pid, py_bookingId = bid, py_provider = provider, py_providerRef = Some pid,
      py_amountIdr = amount, py_status = Pay_pending, py_handledAt = None, py_session = Some session,
      py_createdAt = now, py_updatedAt = now\<rparr>"

definition pay_tx ::
  "pay_env \<Rightarrow> gateway_credential \<Rightarrow> instant \<Rightarrow> uuid \<Rightarrow> uuid \<Rightarrow> db \<Rightarrow> active_tx \<Rightarrow>
     app_error + (payment_session_response \<times> db)" where
  "pay_tx env credential now paymentId bid d tx =
     (let s = tx_session tx; gw = pv_gateway env in
      bind_res (lockAndLoad tx bid d) (\<lambda>loaded.
      case loaded of
        None \<Rightarrow> Inl (Conflict (Booking_not_payable Expired))
      | Some ctx \<Rightarrow>
        bind_res (expireLapsedHolds tx now (px_unitId ctx) d) (\<lambda>d1.
        let status = readStatus d1 s bid in
        if status \<noteq> Some Pending_payment
        then Inl (Conflict (Booking_not_payable (case status of Some st \<Rightarrow> st | None \<Rightarrow> Expired)))
        else case px_totalPriceIdr ctx of
          None \<Rightarrow> Inl (InternalError ''A pending booking is missing its price'')
        | Some totalPrice \<Rightarrow>
          bind_res (findOpenSession d1 s bid) (\<lambda>found.
          case found of
            Some row \<Rightarrow>
              bind_res (pay_toResponse env (py_provider row) (the (py_session row)) (py_amountIdr row) totalPrice)
                (\<lambda>r. Inr (r, d1))
          | None \<Rightarrow>
              let amountIdr = depositAmountIdr totalPrice (px_depositPct ctx) in
              bind_res (toRupiah amountIdr) (\<lambda>amount.
              bind_res (gw_createSession gw (session_input env paymentId amount ctx bid) credential)
                (\<lambda>session.
              bind_res (insert_payment s
                (payment_with_session paymentId bid (gw_provider gw) amountIdr session now) d1) (\<lambda>d2.
              bind_res (pay_toResponse env (gw_provider gw) session amountIdr totalPrice)
                (\<lambda>r. Inr (r, d2)))))))))"

definition pay ::
  "pay_env \<Rightarrow> instant \<Rightarrow> uuid \<Rightarrow> uuid \<Rightarrow> db \<Rightarrow> app_error + (payment_session_response \<times> db)" where
  "pay env now paymentId bid d =
     intercept (bind_res (enterFromBookingId bid d None) (\<lambda>ctx.
       bind_res (context_tenantId ctx) (\<lambda>tenantId.
       bind_res (forGatewayOrThrow (pv_secrets env) (pv_gateway env) tenantId d) (\<lambda>credential.
         db_run ctx None (pay_tx env credential now paymentId bid d)))))"

section \<open>The webhook\<close>

datatype apply_result =
    Unknown_order
  | Amount_mismatch uuid int int
  | Settled uuid bool
  | Failed_payment uuid
  | Noop payment_outcome

definition set_payment_status :: "payment_status \<Rightarrow> instant \<Rightarrow> payment_row \<Rightarrow> payment_row" where
  "set_payment_status st now p = p\<lparr>py_status := st, py_updatedAt := now\<rparr>"

definition pending_payment :: "uuid \<Rightarrow> payment_row \<Rightarrow> bool" where
  "pending_payment pid p \<longleftrightarrow> py_id p = pid \<and> py_status p = Pay_pending"

definition pending_booking :: "uuid \<Rightarrow> booking_row \<Rightarrow> bool" where
  "pending_booking bid b \<longleftrightarrow> bk_id b = bid \<and> bk_status b = Pending_payment"

definition applyOutcome ::
  "instant \<Rightarrow> parsed_event \<Rightarrow> payment_row \<Rightarrow> db \<Rightarrow> app_error + (apply_result \<times> db)" where
  "applyOutcome now event pay1 d =
     (if ev_grossAmountIdr event \<noteq> py_amountIdr pay1
      then Inr (Amount_mismatch (py_bookingId pay1) (py_amountIdr pay1) (ev_grossAmountIdr event), d)
      else case ev_outcome event of
        Out_settlement \<Rightarrow>
          let d1 = update_payments (pending_payment (py_id pay1)) (set_payment_status Pay_paid now) d in
          bind_res (update_booking (pending_booking (py_bookingId pay1)) (set_status Confirmed) d1) (\<lambda>d2.
            Inr (Settled (py_bookingId pay1)
              (filter (pending_booking (py_bookingId pay1)) (bookings d1) \<noteq> []), d2))
      | Out_failure \<Rightarrow>
          Inr (Failed_payment (py_bookingId pay1),
            update_payments (pending_payment (py_id pay1)) (set_payment_status Pay_failed now) d)
      | outcome \<Rightarrow> Inr (Noop outcome, d))"

definition apply_event ::
  "instant \<Rightarrow> uuid \<Rightarrow> string \<Rightarrow> parsed_event \<Rightarrow> db \<Rightarrow> app_error + (apply_result \<times> db)" where
  "apply_event now newId provider event d =
     (case select_one (\<lambda>p. py_id p = ev_orderId event) (payments d) of
        None \<Rightarrow> Inr (Unknown_order, d)
      | Some pay1 \<Rightarrow>
          bind_res (insert_payment_event
            \<lparr>pe_id = newId, pe_provider = provider, pe_providerEventId = ev_providerEventId event,
             pe_bookingId = Some (py_bookingId pay1), pe_rawPayload = Some (ev_raw event),
             pe_receivedAt = now\<rparr> d) (\<lambda>d1. applyOutcome now event pay1 d1))"

text \<open>
  The transaction around \<open>apply_event\<close>: an error rolls it back, and the event's unique constraint is
  caught outside and means already processed. The result names what the transaction decided, for the
  effects after it: \<open>None\<close> when nothing was decided.
\<close>

definition deliver ::
  "instant \<Rightarrow> uuid \<Rightarrow> string \<Rightarrow> parsed_event \<Rightarrow> db \<Rightarrow> app_error + (apply_result option \<times> db)" where
  "deliver now newId provider event d =
     (case apply_event now newId provider event d of
        Inr (r, d') \<Rightarrow> Inr (Some r, d')
      | Inl e \<Rightarrow> if e = DbError PAYMENT_EVENT_UNIQ then Inr (None, d) else Inl e)"

text \<open>\<^verbatim>\<open>afterCommit\<close>: the bookings whose confirmation is notified.\<close>

fun notified :: "apply_result option \<Rightarrow> uuid list" where
  "notified (Some (Settled bid True)) = [bid]"
| "notified _ = []"

definition credentialForOrder ::
  "pay_env \<Rightarrow> string \<Rightarrow> db \<Rightarrow> app_error + gateway_credential option" where
  "credentialForOrder env orderId d =
     (if \<not> gw_requiresCredentials (pv_gateway env) then Inr (Some FAKE_CREDENTIAL)
      else case select_one (\<lambda>(p, b). bk_id b = py_bookingId p \<and> py_id p = orderId)
          (List.product (payments d) (bookings d)) of
        None \<Rightarrow> Inr None
      | Some (p, b) \<Rightarrow> maybeResolve (pv_secrets env) (bk_tenantId b) ''midtrans'' d)"

definition handle_webhook ::
  "pay_env \<Rightarrow> instant \<Rightarrow> uuid \<Rightarrow> string \<Rightarrow> json \<Rightarrow> db \<Rightarrow> app_error + (apply_result option \<times> db)" where
  "handle_webhook env now newId providerParam body d =
     (let gw = pv_gateway env in
      if \<not> paymentProviderSchema providerParam \<or> providerParam \<noteq> gw_provider gw
      then Inl (NotFound ''Unknown payment provider'')
      else case gw_peekOrderId gw body of
        None \<Rightarrow> Inl (BadRequest ''Webhook payload carries no order id'')
      | Some orderId \<Rightarrow>
          bind_res (credentialForOrder env orderId d) (\<lambda>found.
          case found of
            None \<Rightarrow> Inr (None, d)
          | Some credential \<Rightarrow>
              bind_res (gw_verifyAndParse gw body credential) (\<lambda>event.
                deliver now newId providerParam event d)))"

definition reconcile ::
  "pay_env \<Rightarrow> instant \<Rightarrow> uuid \<Rightarrow> string \<Rightarrow> db \<Rightarrow> app_error + (apply_result option \<times> db)" where
  "reconcile env now newId orderId d =
     (let gw = pv_gateway env in
      bind_res (credentialForOrder env orderId d) (\<lambda>found.
      case found of
        None \<Rightarrow> Inr (None, d)
      | Some credential \<Rightarrow>
          bind_res (gw_fetchStatus gw orderId credential) (\<lambda>status.
          case status of
            None \<Rightarrow> Inr (None, d)
          | Some event \<Rightarrow> deliver now newId (gw_provider gw) event d)))"

end
