(* ===== verification/Delivery.thy ===== *)
theory Delivery
  imports Prelude
begin

text \<open>
  At-least-once delivery, as an interface. A consumer keeps a log of the keys it processed and
  promises that a logged event changes nothing, that an event it can place is logged by the step
  that processes it, and that logging is permanent. Then any redelivery, however late and however
  interleaved, is inert, and a whole delivery history acts like its first occurrences.
\<close>

locale at_least_once =
  fixes ok :: "'s \<Rightarrow> bool"
    and known seen :: "'e \<Rightarrow> 's \<Rightarrow> bool"
    and step :: "'e \<Rightarrow> 's \<Rightarrow> 's"
    and key :: "'e \<Rightarrow> 'k"
  assumes ok_step: "ok s \<Longrightarrow> ok (step e s)"
    and seen_inert: "ok s \<Longrightarrow> seen e s \<Longrightarrow> step e s = s"
    and unknown_inert: "ok s \<Longrightarrow> \<not> known e s \<Longrightarrow> step e s = s"
    and recorded: "ok s \<Longrightarrow> known e s \<Longrightarrow> seen e (step e s)"
    and seen_kept: "ok s \<Longrightarrow> seen e s \<Longrightarrow> seen e (step f s)"
    and known_kept: "ok s \<Longrightarrow> known e (step f s) = known e s"
    and seen_key: "key e = key f \<Longrightarrow> seen e s = seen f s"
begin

definition run :: "'e list \<Rightarrow> 's \<Rightarrow> 's" where
  "run es s = fold step es s"

lemma run_simps [simp]: "run [] s = s" "run (e # es) s = run es (step e s)"
  by (simp_all add: run_def)

lemma run_append: "run (es @ fs) s = run fs (run es s)"
  by (simp add: run_def)

lemma run_ok: "ok s \<Longrightarrow> ok (run es s)"
  by (induction es arbitrary: s) (simp_all add: ok_step)

lemma run_seen: "ok s \<Longrightarrow> seen e s \<Longrightarrow> seen e (run es s)"
  by (induction es arbitrary: s) (simp_all add: ok_step seen_kept)

lemma run_known: "ok s \<Longrightarrow> known e (run es s) = known e s"
  by (induction es arbitrary: s) (simp_all add: ok_step known_kept)

text \<open>A later delivery under the same key finds nothing to do.\<close>

lemma redelivery:
  assumes "ok s" "key e = key f" "known e s \<or> \<not> known f s"
  shows "step f (run es (step e s)) = run es (step e s)"
proof (cases "known e s")
  case True
  have o: "ok (run es (step e s))" by (intro run_ok ok_step assms(1))
  have "seen e (run es (step e s))"
    using recorded [OF assms(1) True] by (intro run_seen ok_step assms(1))
  then have "seen f (run es (step e s))" using seen_key [OF assms(2)] by blast
  with o show ?thesis by (rule seen_inert)
next
  case False
  with assms(3) have "\<not> known f s" by blast
  then have "\<not> known f (run es (step e s))"
    using run_known [OF ok_step [OF assms(1)]] known_kept [OF assms(1)] by simp
  then show ?thesis by (intro unknown_inert run_ok ok_step assms(1))
qed

fun first_of :: "'k set \<Rightarrow> 'e list \<Rightarrow> 'e list" where
  "first_of K [] = []"
| "first_of K (e # es) = (if key e \<in> K then first_of K es else e # first_of (insert (key e) K) es)"

lemma exactly_once_from:
  assumes "ok s" "\<forall>e \<in> set es. key e \<in> K \<longrightarrow> seen e s \<or> \<not> known e s"
    and "\<forall>e \<in> set es. \<forall>f \<in> set es. key e = key f \<longrightarrow> known e s = known f s"
  shows "run es s = run (first_of K es) s"
  using assms
proof (induction es arbitrary: s K)
  case Nil
  show ?case by simp
next
  case (Cons e es)
  have old: "\<forall>e \<in> set es. key e \<in> K \<longrightarrow> seen e s \<or> \<not> known e s"
    using Cons.prems(2) by (meson list.set_intros(2))
  have tail: "\<forall>e \<in> set es. \<forall>f \<in> set es. key e = key f \<longrightarrow> known e s = known f s"
    using Cons.prems(3) by (meson list.set_intros(2))
  show ?case
  proof (cases "key e \<in> K")
    case True
    then have "seen e s \<or> \<not> known e s" using Cons.prems(2) by simp
    then have "step e s = s" using seen_inert unknown_inert Cons.prems(1) by blast
    moreover have "run es s = run (first_of K es) s"
      by (rule Cons.IH [OF Cons.prems(1) old tail])
    ultimately show ?thesis using True by simp
  next
    case False
    have pre: "seen f (step e s) \<or> \<not> known f (step e s)"
      if f: "f \<in> set es" "key f \<in> insert (key e) K" for f
    proof (cases "key f = key e")
      case True
      have "known f s = known e s"
        using Cons.prems(3) [rule_format, of f e, OF _ _ True] f(1) by (meson list.set_intros)
      then show ?thesis
        using recorded [OF Cons.prems(1)] seen_key [OF True] known_kept [OF Cons.prems(1)] by blast
    next
      case False
      then have "seen f s \<or> \<not> known f s" using f Cons.prems(2) by auto
      then show ?thesis using seen_kept known_kept Cons.prems(1) by blast
    qed
    have "run es (step e s) = run (first_of (insert (key e) K) es) (step e s)"
    proof (rule Cons.IH)
      show "ok (step e s)" by (rule ok_step [OF Cons.prems(1)])
      show "\<forall>f \<in> set es. key f \<in> insert (key e) K \<longrightarrow> seen f (step e s) \<or> \<not> known f (step e s)"
        using pre by blast
      show "\<forall>f \<in> set es. \<forall>g \<in> set es. key f = key g \<longrightarrow> known f (step e s) = known g (step e s)"
        unfolding known_kept [OF Cons.prems(1)] by (rule tail)
    qed
    with False show ?thesis by simp
  qed
qed

lemma exactly_once:
  assumes "ok s" "\<forall>e \<in> set es. \<forall>f \<in> set es. key e = key f \<longrightarrow> known e s = known f s"
  shows "run es s = run (first_of {} es) s"
  by (rule exactly_once_from [OF assms(1) _ assms(2)]) simp

end

end
