(* ===== verification/Payment_Rules.thy ===== *)
theory Payment_Rules
  imports Payments Delivery
begin

text \<open>
  What the payment component promises: one delivery does exactly what the contract says, repeated
  deliveries do nothing more, a dead booking is never revived, and a guest is charged the deposit
  share once per attempt.
\<close>

section \<open>One delivery\<close>

lemma booking_table_ok_cong:
  "bookings d' = bookings d \<Longrightarrow> units d' = units d \<Longrightarrow> booking_table_ok d' = booking_table_ok d"
  by (simp add: booking_table_ok_def)

lemma confirm_update:
  assumes "booking_table_ok d"
  shows "update_booking (pending_booking bid) (set_status Confirmed) d =
    Inr (d\<lparr>bookings := update_where (pending_booking bid) (set_status Confirmed) (bookings d)\<rparr>)"
  using assms by (intro status_update_admitted) (auto simp: pending_booking_def occupies_iff)

definition event_logged :: "string \<Rightarrow> string \<Rightarrow> db \<Rightarrow> bool" where
  "event_logged provider eid d \<longleftrightarrow>
     (\<exists>q \<in> set (payment_events d). pe_provider q = provider \<and> pe_providerEventId q = eid)"

definition event_row :: "instant \<Rightarrow> uuid \<Rightarrow> string \<Rightarrow> parsed_event \<Rightarrow> uuid \<Rightarrow> payment_event_row" where
  "event_row now newId provider event bid =
     \<lparr>pe_id = newId, pe_provider = provider, pe_providerEventId = ev_providerEventId event,
      pe_bookingId = Some bid, pe_rawPayload = Some (ev_raw event), pe_receivedAt = now\<rparr>"

text \<open>What a delivery of an event for payment \<open>p\<close>, not logged before, leaves behind.\<close>

definition delivered_db :: "instant \<Rightarrow> uuid \<Rightarrow> string \<Rightarrow> parsed_event \<Rightarrow> payment_row \<Rightarrow> db \<Rightarrow> db" where
  "delivered_db now newId provider event p d =
     (let logged = d\<lparr>payment_events := payment_events d @ [event_row now newId provider event (py_bookingId p)]\<rparr>;
          right = (ev_grossAmountIdr event = py_amountIdr p)
      in if right \<and> ev_outcome event = Out_settlement
         then logged\<lparr>payments := update_where (pending_payment (py_id p)) (set_payment_status Pay_paid now) (payments d),
           bookings := update_where (pending_booking (py_bookingId p)) (set_status Confirmed) (bookings d)\<rparr>
         else if right \<and> ev_outcome event = Out_failure
         then logged\<lparr>payments := update_where (pending_payment (py_id p)) (set_payment_status Pay_failed now) (payments d)\<rparr>
         else logged)"

definition delivery_result :: "parsed_event \<Rightarrow> payment_row \<Rightarrow> db \<Rightarrow> apply_result" where
  "delivery_result event p d =
     (if ev_grossAmountIdr event \<noteq> py_amountIdr p
      then Amount_mismatch (py_bookingId p) (py_amountIdr p) (ev_grossAmountIdr event)
      else if ev_outcome event = Out_settlement
      then Settled (py_bookingId p) (\<exists>b \<in> set (bookings d). pending_booking (py_bookingId p) b)
      else if ev_outcome event = Out_failure then Failed_payment (py_bookingId p)
      else Noop (ev_outcome event))"

lemma deliver_eq:
  assumes "booking_table_ok d"
  shows "deliver now newId provider event d =
    (case select_one (\<lambda>p. py_id p = ev_orderId event) (payments d) of
       None \<Rightarrow> Inr (Some Unknown_order, d)
     | Some p \<Rightarrow>
         if event_logged provider (ev_providerEventId event) d then Inr (None, d)
         else Inr (Some (delivery_result event p d), delivered_db now newId provider event p d))"
proof (cases "select_one (\<lambda>p. py_id p = ev_orderId event) (payments d)")
  case None
  then show ?thesis by (simp add: deliver_def apply_event_def del: select_one_None_iff)
next
  case (Some p)
  show ?thesis
  proof (cases "event_logged provider (ev_providerEventId event) d")
    case True
    with Some show ?thesis
      by (simp add: deliver_def apply_event_def insert_payment_event_def event_logged_def)
  next
    case False
    let ?d1 = "d\<lparr>payment_events := payment_events d @ [event_row now newId provider event (py_bookingId p)]\<rparr>"
    let ?d2 = "update_payments (pending_payment (py_id p)) (set_payment_status Pay_paid now) ?d1"
    have "booking_table_ok ?d2"
      using assms by (subst booking_table_ok_cong) (simp_all add: update_payments_def)
    note conf = confirm_update [OF this]
    have ins: "insert_payment_event (event_row now newId provider event (py_bookingId p)) d = Inr ?d1"
      using False by (simp add: insert_payment_event_def event_logged_def event_row_def)
    have "applyOutcome now event p ?d1 = Inr (delivery_result event p d, delivered_db now newId provider event p d)"
      using conf
      by (cases "ev_outcome event")
        (auto simp: applyOutcome_def delivery_result_def delivered_db_def Let_def update_payments_def
          filter_empty_conv)
    with Some False ins show ?thesis
      by (simp add: deliver_def apply_event_def event_row_def [symmetric])
  qed
qed

lemma delivered_db_simps [simp]:
  "units (delivered_db now i pr ev p d) = units d"
  "properties (delivered_db now i pr ev p d) = properties d"
  "price_overrides (delivered_db now i pr ev p d) = price_overrides d"
  "payment_events (delivered_db now i pr ev p d) =
     payment_events d @ [event_row now i pr ev (py_bookingId p)]"
  by (simp_all add: delivered_db_def Let_def)

lemma delivered_bookings:
  "bookings (delivered_db now i pr ev p d) =
     (if ev_grossAmountIdr ev = py_amountIdr p \<and> ev_outcome ev = Out_settlement
      then update_where (pending_booking (py_bookingId p)) (set_status Confirmed) (bookings d) else bookings d)"
  by (simp add: delivered_db_def Let_def)

lemma delivered_ok:
  assumes "booking_table_ok d"
  shows "booking_table_ok (delivered_db now i pr ev p d)"
proof -
  let ?c = "d\<lparr>bookings := update_where (pending_booking (py_bookingId p)) (set_status Confirmed) (bookings d)\<rparr>"
  have "booking_table_ok ?c"
    using assms confirm_update [OF assms] by (rule update_booking_ok) simp
  then have "booking_table_ok ?c \<and> booking_table_ok d" using assms by simp
  then show ?thesis
    by (auto simp: booking_table_ok_def delivered_bookings)
qed

lemma deliver_ok:
  assumes "booking_table_ok d" "deliver now i pr ev d = Inr (r, d')"
  shows "booking_table_ok d'"
  using assms delivered_ok [OF assms(1)]
  by (auto simp: deliver_eq [OF assms(1)] split: option.splits if_splits)

lemma notified_Settled [simp]: "notified (Some (Settled bid c)) = (if c then [bid] else [])"
  by simp

text \<open>Claim C9. One delivery of a verified event, in full. An order without a payment changes nothing; an
  event already logged changes nothing; otherwise the event is logged, and an amount that differs from
  the charge moves no status, a settlement makes the pending payment paid and the pending booking
  confirmed, a failure makes the pending payment failed. A booking that is no longer pending keeps
  its status: nothing is ever revived, and the delivery never fails.\<close>

theorem delivery_contract:
  assumes "booking_table_ok d"
  shows "\<exists>r d'. deliver now newId provider event d = Inr (r, d') \<and>
    (case select_one (\<lambda>p. py_id p = ev_orderId event) (payments d) of
       None \<Rightarrow> r = Some Unknown_order \<and> d' = d
     | Some p \<Rightarrow>
         if event_logged provider (ev_providerEventId event) d then r = None \<and> d' = d
         else event_logged provider (ev_providerEventId event) d' \<and>
           payments d' = map (\<lambda>q. if py_id q = py_id p \<and> py_status q = Pay_pending \<and>
               ev_grossAmountIdr event = py_amountIdr p \<and>
               (ev_outcome event = Out_settlement \<or> ev_outcome event = Out_failure)
             then q\<lparr>py_status := (if ev_outcome event = Out_settlement then Pay_paid else Pay_failed),
                    py_updatedAt := now\<rparr> else q) (payments d) \<and>
           bookings d' = map (\<lambda>b. if bk_id b = py_bookingId p \<and> bk_status b = Pending_payment \<and>
               ev_grossAmountIdr event = py_amountIdr p \<and> ev_outcome event = Out_settlement
             then b\<lparr>bk_status := Confirmed\<rparr> else b) (bookings d) \<and>
           (notified r = [py_bookingId p] \<longleftrightarrow> (\<exists>b \<in> set (bookings d). bk_id b = py_bookingId p \<and>
               bk_status b = Pending_payment \<and> ev_grossAmountIdr event = py_amountIdr p \<and>
               ev_outcome event = Out_settlement)))"
proof (cases "select_one (\<lambda>p. py_id p = ev_orderId event) (payments d)")
  case None
  then show ?thesis by (simp add: deliver_eq [OF assms] del: select_one_None_iff)
next
  case (Some p)
  show ?thesis
  proof (cases "event_logged provider (ev_providerEventId event) d")
    case True
    with Some show ?thesis by (simp add: deliver_eq [OF assms])
  next
    case False
    let ?d' = "delivered_db now newId provider event p d"
    have "event_logged provider (ev_providerEventId event) ?d'"
      by (simp add: event_logged_def event_row_def)
    moreover have "payments ?d' = map (\<lambda>q. if py_id q = py_id p \<and> py_status q = Pay_pending \<and>
               ev_grossAmountIdr event = py_amountIdr p \<and>
               (ev_outcome event = Out_settlement \<or> ev_outcome event = Out_failure)
             then q\<lparr>py_status := (if ev_outcome event = Out_settlement then Pay_paid else Pay_failed),
                    py_updatedAt := now\<rparr> else q) (payments d)"
      by (auto simp: delivered_db_def Let_def update_where_def pending_payment_def set_payment_status_def
          map_idI)
    moreover have "bookings ?d' = map (\<lambda>b. if bk_id b = py_bookingId p \<and> bk_status b = Pending_payment \<and>
               ev_grossAmountIdr event = py_amountIdr p \<and> ev_outcome event = Out_settlement
             then b\<lparr>bk_status := Confirmed\<rparr> else b) (bookings d)"
      by (auto simp: delivered_bookings update_where_def pending_booking_def set_status_def
          intro!: map_idI [symmetric])
    moreover have "notified (Some (delivery_result event p d)) = [py_bookingId p] \<longleftrightarrow>
        (\<exists>b \<in> set (bookings d). bk_id b = py_bookingId p \<and>
               bk_status b = Pending_payment \<and> ev_grossAmountIdr event = py_amountIdr p \<and>
               ev_outcome event = Out_settlement)"
      by (auto simp: delivery_result_def pending_booking_def)
    ultimately show ?thesis using Some False by (simp add: deliver_eq [OF assms])
  qed
qed

section \<open>Many deliveries\<close>

text \<open>A delivery attempt: when, the id its log row would get, the provider, the event.\<close>

type_synonym delivery = "instant \<times> uuid \<times> string \<times> parsed_event"

fun delivery_step :: "delivery \<Rightarrow> db \<Rightarrow> db" where
  "delivery_step (now, i, provider, event) d =
     (case deliver now i provider event d of Inr (r, d') \<Rightarrow> d' | Inl e \<Rightarrow> d)"

fun delivery_notifies :: "delivery \<Rightarrow> db \<Rightarrow> uuid list" where
  "delivery_notifies (now, i, provider, event) d =
     (case deliver now i provider event d of Inr (r, d') \<Rightarrow> notified r | Inl e \<Rightarrow> [])"

fun delivery_known :: "delivery \<Rightarrow> db \<Rightarrow> bool" where
  "delivery_known (now, i, provider, event) d = (\<exists>p \<in> set (payments d). py_id p = ev_orderId event)"

fun delivery_seen :: "delivery \<Rightarrow> db \<Rightarrow> bool" where
  "delivery_seen (now, i, provider, event) d = event_logged provider (ev_providerEventId event) d"

fun delivery_key :: "delivery \<Rightarrow> string \<times> string" where
  "delivery_key (now, i, provider, event) = (provider, ev_providerEventId event)"

lemma payment_ids_delivered [simp]:
  "py_id ` set (payments (delivered_db now i pr ev p d)) = py_id ` set (payments d)"
proof -
  have "map py_id (payments (delivered_db now i pr ev p d)) = map py_id (payments d)"
    by (simp add: delivered_db_def Let_def map_update_where set_payment_status_def)
  then have "set (map py_id (payments (delivered_db now i pr ev p d))) = set (map py_id (payments d))"
    by (simp only:)
  then show ?thesis by simp
qed

lemma delivery_step_eq:
  assumes "booking_table_ok d"
  shows "delivery_step (now, i, pr, ev) d =
    (case select_one (\<lambda>p. py_id p = ev_orderId ev) (payments d) of
       None \<Rightarrow> d
     | Some p \<Rightarrow> if event_logged pr (ev_providerEventId ev) d then d
         else delivered_db now i pr ev p d)"
  by (cases "select_one (\<lambda>p. py_id p = ev_orderId ev) (payments d)")
    (simp_all add: deliver_eq [OF assms] del: select_one_None_iff)

lemma known_ids: "delivery_known (now, i, pr, ev) d \<longleftrightarrow> ev_orderId ev \<in> py_id ` set (payments d)"
  by force

lemma delivery_step_ids:
  assumes "booking_table_ok d"
  shows "py_id ` set (payments (delivery_step e d)) = py_id ` set (payments d)"
  by (cases e) (auto simp only: delivery_step_eq [OF assms] payment_ids_delivered split: option.split if_split)

lemma delivery_step_seen:
  assumes "booking_table_ok d" "delivery_seen e d"
  shows "delivery_seen e (delivery_step f d)"
proof -
  obtain now i pr ev where f: "f = (now, i, pr, ev)" by (cases f)
  have "set (payment_events d) \<subseteq> set (payment_events (delivery_step f d))"
    unfolding f delivery_step_eq [OF assms(1)] by (auto split: option.split)
  then show ?thesis using assms(2) by (cases e) (auto simp: event_logged_def)
qed

interpretation webhook: at_least_once booking_table_ok delivery_known delivery_seen delivery_step delivery_key
proof
  fix d and e f :: delivery
  assume ok: "booking_table_ok d"
  obtain now i pr ev where e: "e = (now, i, pr, ev)" by (cases e)
  note eq = delivery_step_eq [OF ok, of now i pr ev]
  show "booking_table_ok (delivery_step e d)"
    using ok delivered_ok [OF ok] unfolding e eq by (simp split: option.split)
  show "delivery_seen e d \<Longrightarrow> delivery_step e d = d"
    unfolding e eq by (simp split: option.split)
  show "\<not> delivery_known e d \<Longrightarrow> delivery_step e d = d"
    unfolding e eq by (auto split: option.split dest!: select_one_SomeD)
  show "delivery_known e d \<Longrightarrow> delivery_seen e (delivery_step e d)"
    unfolding e eq by (auto simp: event_logged_def event_row_def split: option.split)
  show "delivery_seen e d \<Longrightarrow> delivery_seen e (delivery_step f d)"
    by (rule delivery_step_seen [OF ok])
  show "delivery_known e (delivery_step f d) = delivery_known e d"
    unfolding e known_ids delivery_step_ids [OF ok] ..
next
  fix e f :: delivery and d
  show "delivery_key e = delivery_key f \<Longrightarrow> delivery_seen e d = delivery_seen f d"
    by (cases e; cases f) simp
qed

lemma notifies_eq:
  assumes "booking_table_ok d"
  shows "delivery_notifies (now, i, pr, ev) d =
    (case select_one (\<lambda>p. py_id p = ev_orderId ev) (payments d) of
       None \<Rightarrow> []
     | Some p \<Rightarrow> if event_logged pr (ev_providerEventId ev) d then []
         else notified (Some (delivery_result ev p d)))"
  by (cases "select_one (\<lambda>p. py_id p = ev_orderId ev) (payments d)")
    (simp_all add: deliver_eq [OF assms] del: select_one_None_iff)

lemma inert_notifies_nothing:
  assumes "booking_table_ok d" "delivery_seen e d \<or> \<not> delivery_known e d"
  shows "delivery_notifies e d = []"
  using assms(2)
  by (cases e) (auto simp: notifies_eq [OF assms(1)] simp del: delivery_notifies.simps
      split: option.split dest!: select_one_SomeD)

text \<open>Claim C10. Idempotence (boss fight 4): once an event has been delivered, any later delivery under
  the same provider event id - after any number of other deliveries, at any time, with the payload as
  it pleases - changes no row and notifies nobody.\<close>

theorem redelivery_is_inert:
  assumes "booking_table_ok d" "delivery_key e = delivery_key f" "delivery_known e d"
    and "d' = fold delivery_step es (delivery_step e d)"
  shows "delivery_step f d' = d' \<and> delivery_notifies f d' = []"
proof -
  have d': "d' = webhook.run es (delivery_step e d)" using assms(4) by (simp add: webhook.run_def)
  have ok: "booking_table_ok d'" unfolding d' by (intro webhook.run_ok webhook.ok_step assms(1))
  have "delivery_seen e d'"
    unfolding d' using webhook.recorded [OF assms(1,3)] by (intro webhook.run_seen webhook.ok_step assms(1))
  then have "delivery_seen f d'" using webhook.seen_key [OF assms(2)] by blast
  moreover have "delivery_step f d' = d'"
    unfolding d' using assms(3) by (intro webhook.redelivery assms(1,2)) blast
  ultimately show ?thesis using inert_notifies_nothing [OF ok] by blast
qed

text \<open>The notifications of a delivery history, in order.\<close>

fun delivery_log :: "delivery list \<Rightarrow> db \<Rightarrow> uuid list" where
  "delivery_log [] d = []"
| "delivery_log (e # es) d = delivery_notifies e d @ delivery_log es (delivery_step e d)"

definition pending_id :: "db \<Rightarrow> uuid \<Rightarrow> bool" where
  "pending_id d bid \<longleftrightarrow> (\<exists>b \<in> set (bookings d). pending_booking bid b)"

lemma notifies_pending:
  assumes "booking_table_ok d"
  shows "delivery_notifies e d = [] \<or>
    (\<exists>bid. delivery_notifies e d = [bid] \<and> pending_id d bid \<and> \<not> pending_id (delivery_step e d) bid)"
proof -
  obtain now i pr ev where e: "e = (now, i, pr, ev)" by (cases e)
  show ?thesis
  proof (cases "select_one (\<lambda>p. py_id p = ev_orderId ev) (payments d)")
    case None
    then show ?thesis unfolding e notifies_eq [OF assms] by (simp del: select_one_None_iff)
  next
    case (Some p)
    have gone: "\<not> pending_id (delivered_db now i pr ev p d) (py_bookingId p)"
      if "ev_grossAmountIdr ev = py_amountIdr p" "ev_outcome ev = Out_settlement"
      using that by (auto simp: pending_id_def delivered_bookings set_update_where pending_booking_def
          split: if_splits)
    from Some gone show ?thesis
      unfolding e notifies_eq [OF assms] delivery_step_eq [OF assms]
      by (auto simp: delivery_result_def pending_id_def)
  qed
qed

lemma pending_shrinks:
  assumes "booking_table_ok d" "pending_id (delivery_step e d) bid"
  shows "pending_id d bid"
  using assms(2)
  by (cases e) (auto simp: delivery_step_eq [OF assms(1)] pending_id_def delivered_bookings
      set_update_where pending_booking_def simp del: delivery_step.simps split: option.splits if_splits)

lemma delivery_log_pending:
  assumes "booking_table_ok d"
  shows "distinct (delivery_log es d) \<and> (\<forall>bid \<in> set (delivery_log es d). pending_id d bid)"
  using assms
proof (induction es arbitrary: d)
  case (Cons e es)
  have ok: "booking_table_ok (delivery_step e d)" by (rule webhook.ok_step [OF Cons.prems])
  note IH = Cons.IH [OF ok]
  from notifies_pending [OF Cons.prems, of e] show ?case
    using IH pending_shrinks [OF Cons.prems, of e]
    by (auto simp del: delivery_notifies.simps delivery_step.simps)
qed simp

text \<open>Claim C11. Over any history of webhook deliveries and reconciliations - duplicated, reordered,
  mixing events of any kind - each booking's confirmation is announced at most once, and only for a
  booking that was pending when the history began.\<close>

theorem confirmation_announced_once:
  assumes "booking_table_ok d"
  shows "distinct (delivery_log es d) \<and>
    (\<forall>bid. bid \<in> set (delivery_log es d) \<longrightarrow>
      (\<exists>b \<in> set (bookings d). bk_id b = bid \<and> bk_status b = Pending_payment))"
  using delivery_log_pending [OF assms] by (auto simp: pending_id_def pending_booking_def)

section \<open>Paying a hold\<close>

definition visitor_session :: "uuid \<Rightarrow> session" where
  "visitor_session tenantId = session_of (Visitor_principal tenantId)"

lemma visitor_session_simps [simp]:
  "s_tenantId (visitor_session t) = t" "s_scope (visitor_session t) = Scope_all"
  by (simp_all add: visitor_session_def)

lemma select_one_single:
  assumes "x \<in> set xs" "\<And>y. y \<in> set xs \<Longrightarrow> y = x"
  shows "select_one (\<lambda>_. True) xs = Some x"
proof -
  from list_all_same [OF assms] obtain ys where "xs = x # ys" by blast
  then show ?thesis by simp
qed

lemma booking_unit:
  assumes "db_ok d" "b \<in> set (bookings d)"
  obtains u where "u \<in> set (units d)" "u_id u = bk_unitId b" "u_tenantId u = bk_tenantId b"
    "owned_unit d (visitor_session (bk_tenantId b)) (bk_unitId b) u"
proof -
  from assms obtain u where u: "u \<in> set (units d)" "u_id u = bk_unitId b" "u_tenantId u = bk_tenantId b"
    unfolding db_ok_def booking_table_ok_def by blast
  with that [OF u] show ?thesis by (simp add: owned_unit_def rls_unit_def)
qed

lemma visitor_sees_booking:
  assumes "db_ok d" "b \<in> set (bookings d)"
  shows "rls_booking d (visitor_session (bk_tenantId b)) b"
  using assms by (subst rls_booking_all) auto

text \<open>The row the pay path loads: the booking with its one unit and its one property.\<close>

lemma booking_join_single:
  assumes "db_ok d" "b \<in> set (bookings d)"
  obtains u p where "u \<in> set (units d)" "p \<in> set (properties d)"
    "u_id u = bk_unitId b" "p_id p = u_propertyId u"
    "select_one (\<lambda>_. True) (booking_join d (visitor_session (bk_tenantId b)) (bk_id b)) = Some (b, u, p)"
proof -
  let ?s = "visitor_session (bk_tenantId b)"
  obtain u where u: "u \<in> set (units d)" "u_id u = bk_unitId b" "u_tenantId u = bk_tenantId b"
    "owned_unit d ?s (bk_unitId b) u" using booking_unit [OF assms] .
  obtain p where p: "p \<in> set (properties d)" "p_id p = u_propertyId u" "p_tenantId p = u_tenantId u"
    using unit_property [OF db_okD(1) [OF assms(1)] u(1)] .
  have "(b, u, p) \<in> set (booking_join d ?s (bk_id b))"
    using assms u p visitor_sees_booking [OF assms]
    by (simp add: booking_join_def rls_unit_def rls_property_def)
  moreover have "y = (b, u, p)" if y: "y \<in> set (booking_join d ?s (bk_id b))" for y
  proof -
    obtain b' u' p' where e: "y = (b', u', p')" by (cases y)
    with y have m: "b' \<in> set (bookings d)" "bk_id b' = bk_id b" "u' \<in> set (units d)" "u_id u' = bk_unitId b'"
      "p' \<in> set (properties d)" "p_id p' = u_propertyId u'"
      by (auto simp: booking_join_def)
    then have "b' = b" using booking_by_id [OF db_okD(2) [OF assms(1)]] assms(2) by blast
    moreover from this m u have "u' = u" using unit_by_id [OF db_okD(1) [OF assms(1)]] by metis
    moreover from this m p have "p' = p" using property_by_id [OF db_okD(1) [OF assms(1)]] by metis
    ultimately show ?thesis using e by simp
  qed
  ultimately have "select_one (\<lambda>_. True) (booking_join d ?s (bk_id b)) = Some (b, u, p)"
    by (rule select_one_single)
  with u p show ?thesis by (intro that)
qed

lemma enter_booking:
  assumes "db_ok d" "b \<in> set (bookings d)"
  shows "enterFromBookingId (bk_id b) d None = Inr (Some (Visitor_principal (bk_tenantId b)))"
proof -
  have "select_one (\<lambda>x. bk_id x = bk_id b) (bookings d) = Some b"
    using assms by (intro select_one_unique [where k = bk_id]) (auto simp: db_ok_def booking_table_ok_def)
  then show ?thesis by (simp add: enterFromBookingId_def context_set_def)
qed

definition status_after_sweep :: "instant \<Rightarrow> booking_row \<Rightarrow> booking_status" where
  "status_after_sweep now b = (if lapsed now b then Expired else bk_status b)"

lemma swept_status:
  assumes "db_ok d" "b \<in> set (bookings d)"
    and d1: "d1 = after_sweep (visitor_session (bk_tenantId b)) now (bk_unitId b) d"
  shows "readStatus d1 (visitor_session (bk_tenantId b)) (bk_id b) = Some (status_after_sweep now b)"
    "readStatusAndUnit d1 (visitor_session (bk_tenantId b)) (bk_id b) =
       Some (status_after_sweep now b, bk_unitId b)"
proof -
  let ?s = "visitor_session (bk_tenantId b)"
  let ?b1 = "if swept_by ?s now (bk_unitId b) d b then set_status Expired b else b"
  have ok1: "db_ok d1" unfolding d1 by (rule after_sweep_db_ok [OF assms(1)])
  have m: "?b1 \<in> set (bookings d1)" using assms(2) by (auto simp: d1 after_sweep_def set_update_where)
  have f: "bk_id ?b1 = bk_id b" "bk_tenantId ?b1 = bk_tenantId b" "bk_unitId ?b1 = bk_unitId b" by simp_all
  have "rls_booking d1 ?s ?b1" using visitor_sees_booking [OF ok1 m] f(2) by simp
  then have "select_one (\<lambda>x. rls_booking d1 ?s x \<and> bk_id x = bk_id b \<and> bk_tenantId x = s_tenantId ?s)
      (bookings d1) = Some ?b1"
    using ok1 m f by (intro select_one_unique [where k = bk_id]) (auto simp: db_ok_def booking_table_ok_def)
  moreover have "bk_status ?b1 = status_after_sweep now b"
    using visitor_sees_booking [OF assms(1,2)] by (simp add: status_after_sweep_def swept_by_def)
  ultimately show "readStatusAndUnit d1 ?s (bk_id b) = Some (status_after_sweep now b, bk_unitId b)"
    using f by (simp add: readStatusAndUnit_def)
  then show "readStatus d1 ?s (bk_id b) = Some (status_after_sweep now b)" by (simp add: readStatus_def)
qed

lemma rls_booking_same:
  "units d' = units d \<Longrightarrow> user_properties d' = user_properties d \<Longrightarrow> rls_booking d' = rls_booking d"
  by (rule visibility_cong)

lemma rls_payment_swept [simp]: "rls_payment (after_sweep s now uid d) s' p = rls_payment d s' p"
proof -
  have v: "rls_booking (after_sweep s now uid d) = rls_booking d" by (rule visibility_cong) simp_all
  have r: "rls_booking d s' (set_status st b) = rls_booking d s' b" for st b
    by (simp add: rls_booking_def)
  have b: "bookings (after_sweep s now uid d) =
      update_where (swept_by s now uid d) (set_status Expired) (bookings d)"
    by (simp add: after_sweep_def)
  show ?thesis
    unfolding rls_payment_def v b set_update_where bex_simps
    by (intro bex_cong refl) (simp add: r)
qed

lemma newest_pending_swept [simp]:
  "newest_pending (after_sweep s now uid d) s' bid = newest_pending d s' bid"
  by (simp add: newest_pending_def)

lemma after_sweep_credentials [simp]: "credentials (after_sweep s now uid d) = credentials d"
  by (simp add: after_sweep_def)

definition pay_price :: "db \<Rightarrow> booking_row \<Rightarrow> int \<Rightarrow> bool" where
  "pay_price d b amount \<longleftrightarrow>
     (\<exists>u \<in> set (units d). \<exists>p \<in> set (properties d). u_id u = bk_unitId b \<and> p_id p = u_propertyId u \<and>
        amount = depositAmountIdr (the (bk_totalPriceIdr b)) (p_depositPct p))"

text \<open>A successful pay, taken apart: the live hold, and the reused or the minted payment.\<close>

lemma pay_success:
  assumes "db_ok d" "pay env now pid bid d = Inr (r, d')"
  obtains b total where "b \<in> set (bookings d)" "bk_id b = bid" "bk_status b = Pending_payment"
    "\<not> lapsed now b" "bk_totalPriceIdr b = Some total"
    "(\<exists>row ses. newest_pending d (visitor_session (bk_tenantId b)) bid = Some row \<and> py_session row = Some ses \<and>
        d' = after_sweep (visitor_session (bk_tenantId b)) now (bk_unitId b) d \<and>
        pay_toResponse env (py_provider row) ses (py_amountIdr row) total = Inr r) \<or>
     (\<exists>amount ses. newest_pending d (visitor_session (bk_tenantId b)) bid = None \<and> pay_price d b amount \<and>
        d' = (after_sweep (visitor_session (bk_tenantId b)) now (bk_unitId b) d)\<lparr>payments := payments d @
          [payment_with_session pid bid (gw_provider (pv_gateway env)) amount ses now]\<rparr> \<and>
        pid \<notin> py_id ` set (payments d) \<and>
        pay_toResponse env (gw_provider (pv_gateway env)) ses amount total = Inr r)"
proof -
  from assms(2) have "\<exists>b \<in> set (bookings d). bk_id b = bid"
    by (auto simp: pay_def bind_res_Inr_iff enterFromBookingId_def split: option.splits dest: select_one_SomeD)
  then obtain b where b: "b \<in> set (bookings d)" "bk_id b = bid" by blast
  let ?s = "visitor_session (bk_tenantId b)" and ?tx = "\<lparr>tx_session = visitor_session (bk_tenantId b), tx_alive = True\<rparr>"
  obtain u p where up: "u \<in> set (units d)" "p \<in> set (properties d)" "u_id u = bk_unitId b"
    "p_id p = u_propertyId u" "select_one (\<lambda>_. True) (booking_join d ?s bid) = Some (b, u, p)"
    using booking_join_single [OF assms(1) b(1)] b(2) by metis
  define d1 where "d1 = after_sweep ?s now (bk_unitId b) d"
  have ent: "enterFromBookingId bid d None = Inr (Some (Visitor_principal (bk_tenantId b)))"
    using enter_booking [OF assms(1) b(1)] b(2) by simp
  from assms(2) obtain cred where tx: "pay_tx env cred now pid bid d ?tx = Inr (r, d')"
    by (auto simp: pay_def bind_res_Inr_iff ent context_tenantId_def visitor_session_def)
  have sw: "expireLapsedHolds ?tx now (bk_unitId b) d = Inr d1"
    using expireLapsedHolds_eq [OF db_okD(2) [OF assms(1)], of ?tx] by (simp add: d1_def)
  have st: "readStatus d1 ?s bid = Some (status_after_sweep now b)"
    using swept_status(1) [OF assms(1) b(1)] b(2) by (simp add: d1_def)
  have np: "newest_pending d1 ?s bid = newest_pending d ?s bid" by (simp add: d1_def)
  note unf = pay_tx_def Let_def lockAndLoad_def assertInTransaction_def up(5) sw st
  have pend: "status_after_sweep now b = Pending_payment"
    using tx by (rule contrapos_pp) (simp add: unf)
  then obtain total where total: "bk_totalPriceIdr b = Some total"
    using tx by (cases "bk_totalPriceIdr b") (simp_all add: unf)
  have live: "bk_status b = Pending_payment" "\<not> lapsed now b"
    using pend by (auto simp: status_after_sweep_def split: if_splits)
  have cases: "(\<exists>row ses. newest_pending d ?s bid = Some row \<and> py_session row = Some ses \<and>
        d' = d1 \<and> pay_toResponse env (py_provider row) ses (py_amountIdr row) total = Inr r) \<or>
     (\<exists>amount ses. newest_pending d ?s bid = None \<and> amount = depositAmountIdr total (p_depositPct p) \<and>
        insert_payment ?s (payment_with_session pid bid (gw_provider (pv_gateway env)) amount ses now) d1 = Inr d' \<and>
        pay_toResponse env (gw_provider (pv_gateway env)) ses amount total = Inr r)"
  proof (cases "newest_pending d ?s bid")
    case None
    then show ?thesis using tx pend total
      by (auto simp: unf findOpenSession_def np bind_res_Inr_iff)
  next
    case (Some row)
    then show ?thesis using tx pend total
      by (cases "py_session row") (auto simp: unf findOpenSession_def np bind_res_Inr_iff)
  qed
  show ?thesis
  proof (rule that [OF b live total])
    from cases up total show "(\<exists>row ses. newest_pending d ?s bid = Some row \<and> py_session row = Some ses \<and>
        d' = after_sweep ?s now (bk_unitId b) d \<and>
        pay_toResponse env (py_provider row) ses (py_amountIdr row) total = Inr r) \<or>
     (\<exists>amount ses. newest_pending d ?s bid = None \<and> pay_price d b amount \<and>
        d' = (after_sweep ?s now (bk_unitId b) d)\<lparr>payments := payments d @
          [payment_with_session pid bid (gw_provider (pv_gateway env)) amount ses now]\<rparr> \<and>
        pid \<notin> py_id ` set (payments d) \<and>
        pay_toResponse env (gw_provider (pv_gateway env)) ses amount total = Inr r)"
      by (auto simp: insert_payment_def d1_def pay_price_def payment_with_session_def
          split: if_splits option.splits)
  qed
qed

lemma pay_toResponse_Inr:
  "pay_toResponse env provider ses amount tot = Inr r \<longleftrightarrow>
     rupiahSchema amount \<and> paymentProviderSchema provider \<and> pv_isUrl env (ps_redirectUrl ses) \<and>
     r = \<lparr>pq_provider = provider, pq_token = ps_token ses, pq_redirectUrl = ps_redirectUrl ses,
          pq_amountIdr = amount, pq_deposit = (amount < tot)\<rparr>"
  by (auto simp: pay_toResponse_def bind_res_Inr_iff)

lemma pay_price_bounds:
  assumes "db_ok d" "b \<in> set (bookings d)" "bk_totalPriceIdr b = Some tot" "pay_price d b amount"
  shows "0 \<le> amount \<and> amount \<le> tot"
proof -
  have "booking_check b = None" using assms by (auto simp: db_ok_def booking_table_ok_def)
  then have "0 \<le> tot" using assms(3) by (auto simp: booking_check_def split: if_splits)
  moreover from assms(4) obtain p where "p \<in> set (properties d)"
    "amount = depositAmountIdr (the (bk_totalPriceIdr b)) (p_depositPct p)"
    by (auto simp: pay_price_def)
  moreover from this have "1 \<le> p_depositPct p \<and> p_depositPct p \<le> 100"
    using assms(1) by (auto simp: db_ok_def inventory_ok_def)
  ultimately show ?thesis using assms(3) deposit_bounds [of tot "p_depositPct p"] by simp
qed

lemma newest_pending_row:
  "newest_pending d s bid = Some row \<Longrightarrow>
   row \<in> set (payments d) \<and> py_bookingId row = bid \<and> py_status row = Pay_pending"
  by (auto simp: newest_pending_def dest!: select_one_SomeD)

text \<open>Claim C28. What a successful pay guarantees: the booking is a live hold with a price, the response is
  the session of one pending payment of that booking, and either that payment existed and no payment
  row changed, or none was open and exactly one was added - under the order id given to the provider,
  for the property's deposit share, which is between zero and the full price.\<close>

theorem pay_contract:
  assumes "db_ok d" "pay env now pid bid d = Inr (r, d')"
  shows "\<exists>b total row ses. b \<in> set (bookings d) \<and> bk_id b = bid \<and> bk_status b = Pending_payment \<and>
    \<not> lapsed now b \<and> bk_totalPriceIdr b = Some total \<and>
    row \<in> set (payments d') \<and> py_bookingId row = bid \<and> py_status row = Pay_pending \<and>
    py_session row = Some ses \<and> pq_token r = ps_token ses \<and> pq_redirectUrl r = ps_redirectUrl ses \<and>
    pq_amountIdr r = py_amountIdr row \<and> pq_deposit r = (py_amountIdr row < total) \<and>
    (payments d' = payments d \<or>
     payments d' = payments d @ [row] \<and> py_id row = pid \<and> py_providerRef row = Some pid \<and>
     pid \<notin> py_id ` set (payments d) \<and> pay_price d b (py_amountIdr row) \<and>
     0 \<le> py_amountIdr row \<and> py_amountIdr row \<le> total)"
proof -
  from assms obtain b total where b: "b \<in> set (bookings d)" "bk_id b = bid" "bk_status b = Pending_payment"
    "\<not> lapsed now b" "bk_totalPriceIdr b = Some total" and c:
    "(\<exists>row ses. newest_pending d (visitor_session (bk_tenantId b)) bid = Some row \<and> py_session row = Some ses \<and>
        d' = after_sweep (visitor_session (bk_tenantId b)) now (bk_unitId b) d \<and>
        pay_toResponse env (py_provider row) ses (py_amountIdr row) total = Inr r) \<or>
     (\<exists>amount ses. newest_pending d (visitor_session (bk_tenantId b)) bid = None \<and> pay_price d b amount \<and>
        d' = (after_sweep (visitor_session (bk_tenantId b)) now (bk_unitId b) d)\<lparr>payments := payments d @
          [payment_with_session pid bid (gw_provider (pv_gateway env)) amount ses now]\<rparr> \<and>
        pid \<notin> py_id ` set (payments d) \<and>
        pay_toResponse env (gw_provider (pv_gateway env)) ses amount total = Inr r)"
    by (rule pay_success)
  from c show ?thesis
  proof (elim disjE exE conjE)
    fix row ses
    assume x: "newest_pending d (visitor_session (bk_tenantId b)) bid = Some row" "py_session row = Some ses"
      "d' = after_sweep (visitor_session (bk_tenantId b)) now (bk_unitId b) d"
      "pay_toResponse env (py_provider row) ses (py_amountIdr row) total = Inr r"
    then show ?thesis
      using b newest_pending_row [OF x(1)]
      by (intro exI [of _ b] exI [of _ total] exI [of _ row] exI [of _ ses])
        (simp add: pay_toResponse_Inr)
  next
    fix amount ses
    assume x: "newest_pending d (visitor_session (bk_tenantId b)) bid = None" "pay_price d b amount"
      "d' = (after_sweep (visitor_session (bk_tenantId b)) now (bk_unitId b) d)\<lparr>payments := payments d @
          [payment_with_session pid bid (gw_provider (pv_gateway env)) amount ses now]\<rparr>"
      "pid \<notin> py_id ` set (payments d)"
      "pay_toResponse env (gw_provider (pv_gateway env)) ses amount total = Inr r"
    let ?row = "payment_with_session pid bid (gw_provider (pv_gateway env)) amount ses now"
    show ?thesis
      using b x pay_price_bounds [OF assms(1) b(1,5) x(2)]
      by (intro exI [of _ b] exI [of _ total] exI [of _ ?row] exI [of _ ses])
        (simp add: pay_toResponse_Inr payment_with_session_def)
  qed
qed

lemma pay_reuse:
  assumes "db_ok d" "b \<in> set (bookings d)" "bk_id b = bid" "bk_status b = Pending_payment"
    "\<not> lapsed now b" "bk_totalPriceIdr b = Some tot"
    and "newest_pending d (visitor_session (bk_tenantId b)) bid = Some row" "py_session row = Some ses"
    and "forGatewayOrThrow (pv_secrets env) (pv_gateway env) (bk_tenantId b) d = Inr cred"
    and "pay_toResponse env (py_provider row) ses (py_amountIdr row) tot = Inr r"
  shows "pay env now pid bid d =
    Inr (r, after_sweep (visitor_session (bk_tenantId b)) now (bk_unitId b) d)"
proof -
  let ?s = "visitor_session (bk_tenantId b)" and ?tx = "\<lparr>tx_session = visitor_session (bk_tenantId b), tx_alive = True\<rparr>"
  obtain u p where up: "select_one (\<lambda>_. True) (booking_join d ?s bid) = Some (b, u, p)"
    using booking_join_single [OF assms(1,2)] assms(3) by metis
  define d1 where "d1 = after_sweep ?s now (bk_unitId b) d"
  have ent: "enterFromBookingId bid d None = Inr (Some (Visitor_principal (bk_tenantId b)))"
    using enter_booking [OF assms(1,2)] assms(3) by simp
  have sw: "expireLapsedHolds ?tx now (bk_unitId b) d = Inr d1"
    using expireLapsedHolds_eq [OF db_okD(2) [OF assms(1)], of ?tx] by (simp add: d1_def)
  have st: "readStatus d1 ?s bid = Some Pending_payment"
    using swept_status(1) [OF assms(1,2)] assms(3-5) by (simp add: d1_def status_after_sweep_def)
  have np: "newest_pending d1 ?s bid = Some row" using assms(7) by (simp add: d1_def)
  have "pay_tx env cred now pid bid d ?tx = Inr (r, d1)"
    using assms(6,8,10)
    by (simp add: pay_tx_def Let_def lockAndLoad_def assertInTransaction_def up sw st findOpenSession_def np)
  then show ?thesis
    using assms(9) by (simp add: pay_def ent context_tenantId_def visitor_session_def d1_def)
qed

lemma db_ok_payments [simp]: "db_ok (d\<lparr>payments := x\<rparr>) = db_ok d"
  by (simp add: db_ok_def inventory_ok_def booking_table_ok_def override_table_ok_def dates_ok_def)

lemma forGateway_cong:
  "credentials d' = credentials d \<Longrightarrow> forGatewayOrThrow sx gw t d' = forGatewayOrThrow sx gw t d"
  by (simp add: forGatewayOrThrow_def resolveOrThrow_def maybeResolve_def)

lemma pay_credential:
  assumes "db_ok d" "b \<in> set (bookings d)" "pay env now pid (bk_id b) d = Inr (r, d')"
  obtains cred where "forGatewayOrThrow (pv_secrets env) (pv_gateway env) (bk_tenantId b) d = Inr cred"
  using assms(3) enter_booking [OF assms(1,2)]
  by (auto simp: pay_def bind_res_Inr_iff context_tenantId_def)

lemma newest_pending_appended:
  assumes "newest_pending d s bid = None" "py_bookingId row = bid" "py_status row = Pay_pending"
    and "rls_payment d s row"
  shows "newest_pending (d\<lparr>payments := payments d @ [row]\<rparr>) s bid = Some row"
proof -
  let ?P = "\<lambda>p. rls_payment d s p \<and> py_bookingId p = bid \<and> py_status p = Pay_pending"
  have v: "rls_payment (d\<lparr>payments := payments d @ [row]\<rparr>) = rls_payment d"
    by (simp add: fun_eq_iff rls_payment_def rls_booking_def unit_visible_def rls_unit_def
        app_property_visible_def)
  have "filter ?P (payments d) = []" using assms(1) by (auto simp: newest_pending_def filter_empty_conv)
  with assms(2-4) show ?thesis by (simp add: newest_pending_def v)
qed

text \<open>Claim C29. Retrying a pay is idempotent: as long as the hold is still live, a second pay - later, with
  another candidate order id - answers the same session and the same amounts, and touches no payment
  row.\<close>

theorem pay_retry_idempotent:
  assumes "db_ok d" "pay env now pid bid d = Inr (r, d')"
    and "\<forall>b \<in> set (bookings d). bk_id b = bid \<longrightarrow> \<not> lapsed now' b"
  shows "\<exists>d''. pay env now' pid' bid d' = Inr (r, d'') \<and> payments d'' = payments d'"
proof -
  from assms(1,2) obtain b total where b: "b \<in> set (bookings d)" "bk_id b = bid" "bk_status b = Pending_payment"
    "\<not> lapsed now b" "bk_totalPriceIdr b = Some total" and c:
    "(\<exists>row ses. newest_pending d (visitor_session (bk_tenantId b)) bid = Some row \<and> py_session row = Some ses \<and>
        d' = after_sweep (visitor_session (bk_tenantId b)) now (bk_unitId b) d \<and>
        pay_toResponse env (py_provider row) ses (py_amountIdr row) total = Inr r) \<or>
     (\<exists>amount ses. newest_pending d (visitor_session (bk_tenantId b)) bid = None \<and> pay_price d b amount \<and>
        d' = (after_sweep (visitor_session (bk_tenantId b)) now (bk_unitId b) d)\<lparr>payments := payments d @
          [payment_with_session pid bid (gw_provider (pv_gateway env)) amount ses now]\<rparr> \<and>
        pid \<notin> py_id ` set (payments d) \<and>
        pay_toResponse env (gw_provider (pv_gateway env)) ses amount total = Inr r)"
    by (rule pay_success)
  let ?s = "visitor_session (bk_tenantId b)"
  define d1 where "d1 = after_sweep ?s now (bk_unitId b) d"
  have ok1: "db_ok d1" unfolding d1_def by (rule after_sweep_db_ok [OF assms(1)])
  have b1: "b \<in> set (bookings d1)"
    using b(1,4) by (auto simp: d1_def after_sweep_def set_update_where swept_by_def image_iff intro!: bexI [of _ b])
  obtain cred where cred: "forGatewayOrThrow (pv_secrets env) (pv_gateway env) (bk_tenantId b) d = Inr cred"
    using pay_credential [OF assms(1) b(1)] assms(2) b(2) by metis
  have live: "\<not> lapsed now' b" using assms(3) b by blast
  have row: "\<exists>row ses. newest_pending d' ?s bid = Some row \<and> py_session row = Some ses \<and>
      pay_toResponse env (py_provider row) ses (py_amountIdr row) total = Inr r \<and>
      bookings d' = bookings d1 \<and> credentials d' = credentials d \<and> db_ok d' \<and> payments d' = payments d'"
    using c
  proof (elim disjE exE conjE)
    fix row ses
    assume "newest_pending d ?s bid = Some row" "py_session row = Some ses"
      "d' = after_sweep ?s now (bk_unitId b) d"
      "pay_toResponse env (py_provider row) ses (py_amountIdr row) total = Inr r"
    then show ?thesis using ok1 by (simp add: d1_def)
  next
    fix amount ses
    assume x: "newest_pending d ?s bid = None"
      "d' = (after_sweep ?s now (bk_unitId b) d)\<lparr>payments := payments d @
          [payment_with_session pid bid (gw_provider (pv_gateway env)) amount ses now]\<rparr>"
      "pay_toResponse env (gw_provider (pv_gateway env)) ses amount total = Inr r"
    let ?row = "payment_with_session pid bid (gw_provider (pv_gateway env)) amount ses now"
    have d': "d' = d1\<lparr>payments := payments d1 @ [?row]\<rparr>" by (simp add: x(2) d1_def)
    have "rls_payment d1 ?s ?row"
      using visitor_sees_booking [OF ok1 b1] b1 b(2)
      by (auto simp: rls_payment_def payment_with_session_def)
    then have "newest_pending d' ?s bid = Some ?row"
      unfolding d' using x(1) by (intro newest_pending_appended) (simp_all add: d1_def payment_with_session_def)
    then show ?thesis using x(3) ok1 by (simp add: d' d1_def payment_with_session_def)
  qed
  then obtain row ses where r: "newest_pending d' ?s bid = Some row" "py_session row = Some ses"
    "pay_toResponse env (py_provider row) ses (py_amountIdr row) total = Inr r"
    "bookings d' = bookings d1" "credentials d' = credentials d" "db_ok d'" by blast
  have "pay env now' pid' bid d' = Inr (r, after_sweep ?s now' (bk_unitId b) d')"
    using b b1 r live cred forGateway_cong [OF r(5)]
    by (intro pay_reuse) simp_all
  then show ?thesis by simp
qed

end
