(* ===== verification/Payment_Inbox.thy ===== *)
theory Payment_Inbox
  imports Payment_Rules "HOL-Library.Product_Lexorder"
begin

text \<open>
  What the money leaves visible: the owner's inbox of paid payments whose booking lapsed
  (\<^verbatim>\<open>payment-inbox.*\<close>) and the guest's confirmation page (\<^verbatim>\<open>confirmation.service.ts\<close>), which reconciles
  with the provider before it answers.
\<close>

section \<open>The inbox of paid but lapsed bookings\<close>

definition LAPSED_STATUSES :: "booking_status list" where
  "LAPSED_STATUSES = [Expired, Cancelled]"

record lapsed_payment =
  lp_paymentId :: uuid
  lp_bookingId :: uuid
  lp_bookingStatus :: booking_status
  lp_provider :: string
  lp_amountIdr :: int
  lp_guestName :: "string option"
  lp_guestPhone :: "string option"
  lp_guestEmail :: "string option"
  lp_checkIn :: date
  lp_checkOut :: date
  lp_propertyName :: string
  lp_unitName :: string
  lp_createdAt :: instant

definition inbox_join ::
  "db \<Rightarrow> session \<Rightarrow> (payment_row \<times> booking_row \<times> unit_row \<times> property_row) list" where
  "inbox_join d s =
     filter (\<lambda>(y, b, u, p). rls_payment d s y \<and> rls_booking d s b \<and> rls_unit d s u \<and> rls_property d s p \<and>
         bk_id b = py_bookingId y \<and> bk_tenantId b = s_tenantId s \<and>
         u_id u = bk_unitId b \<and> u_tenantId u = bk_tenantId b \<and>
         p_id p = u_propertyId u \<and> p_tenantId p = bk_tenantId b \<and>
         py_status y = Pay_paid \<and> py_handledAt y = None \<and> bk_status b \<in> set LAPSED_STATUSES)
       (List.product (payments d) (List.product (bookings d) (List.product (units d) (properties d))))"

definition inbox_rows :: "db \<Rightarrow> session \<Rightarrow> (payment_row \<times> booking_row \<times> unit_row \<times> property_row) list" where
  "inbox_rows d s = sort_key (\<lambda>(y, b, u, p). (- py_createdAt y, py_id y)) (inbox_join d s)"

definition inbox_toWire :: "payment_row \<times> booking_row \<times> unit_row \<times> property_row \<Rightarrow> app_error + lapsed_payment" where
  "inbox_toWire row =
     (case row of (y, b, u, p) \<Rightarrow>
        bind_res (toRupiah (py_amountIdr y)) (\<lambda>amount.
          if \<not> paymentProviderSchema (py_provider y) then Inl (JsError ''ZodError'')
          else Inr \<lparr>lp_paymentId = py_id y, lp_bookingId = bk_id b, lp_bookingStatus = bk_status b,
            lp_provider = py_provider y, lp_amountIdr = amount, lp_guestName = bk_guestName b,
            lp_guestPhone = bk_guestPhone b, lp_guestEmail = bk_guestEmail b,
            lp_checkIn = bk_checkIn b, lp_checkOut = bk_checkOut b, lp_propertyName = p_name p,
            lp_unitName = u_name u, lp_createdAt = py_createdAt y\<rparr>))"

definition listLapsed :: "tenant_context \<Rightarrow> db \<Rightarrow> app_error + lapsed_payment list" where
  "listLapsed ctx d = db_run ctx None (\<lambda>tx. map_res inbox_toWire (inbox_rows d (tx_session tx)))"

definition lapsed_paid :: "db \<Rightarrow> session \<Rightarrow> uuid \<Rightarrow> payment_row \<Rightarrow> bool" where
  "lapsed_paid d s pid y \<longleftrightarrow>
     rls_payment d s y \<and> py_id y = pid \<and> py_status y = Pay_paid \<and>
     (\<exists>b \<in> set (bookings d). rls_booking d s b \<and> bk_id b = py_bookingId y \<and>
        bk_tenantId b = s_tenantId s \<and> bk_status b \<in> set LAPSED_STATUSES)"

definition markHandled_repo ::
  "session \<Rightarrow> instant \<Rightarrow> uuid \<Rightarrow> db \<Rightarrow> instant option \<times> db" where
  "markHandled_repo s now pid d =
     (let hit = (\<lambda>y. lapsed_paid d s pid y \<and> py_handledAt y = None);
          d' = update_payments hit (\<lambda>y. y\<lparr>py_handledAt := Some now, py_updatedAt := now\<rparr>) d
      in if filter hit (payments d) \<noteq> [] then (Some now, d')
         else case select_one (lapsed_paid d s pid) (payments d) of
           None \<Rightarrow> (None, d')
         | Some y \<Rightarrow> (py_handledAt y, d'))"

definition markHandled :: "tenant_context \<Rightarrow> instant \<Rightarrow> uuid \<Rightarrow> db \<Rightarrow> app_error + (instant \<times> db)" where
  "markHandled ctx now pid d =
     intercept (db_run ctx None (\<lambda>tx.
       case markHandled_repo (tx_session tx) now pid d of
         (None, d') \<Rightarrow> Inl (NotFound ''No lapsed payment with that id'')
       | (Some t, d') \<Rightarrow> Inr (t, d')))"

section \<open>The confirmation page\<close>

record confirmation_view =
  cv_status :: booking_status
  cv_unitId :: uuid
  cv_checkIn :: date
  cv_checkOut :: date
  cv_propertyName :: string
  cv_unitName :: string
  cv_totalPriceIdr :: "int option"
  cv_amountPaidIdr :: int
  cv_guestName :: "string option"
  cv_guestPhone :: "string option"

definition amount_paid :: "db \<Rightarrow> session \<Rightarrow> uuid \<Rightarrow> int" where
  "amount_paid d s bid =
     sum_list (map py_amountIdr
       (filter (\<lambda>y. rls_payment d s y \<and> py_bookingId y = bid \<and> py_status y = Pay_paid) (payments d)))"

definition readConfirmationView :: "db \<Rightarrow> session \<Rightarrow> uuid \<Rightarrow> confirmation_view option" where
  "readConfirmationView d s bid =
     map_option (\<lambda>(b, u, p).
         \<lparr>cv_status = bk_status b, cv_unitId = bk_unitId b, cv_checkIn = bk_checkIn b,
          cv_checkOut = bk_checkOut b, cv_propertyName = p_name p, cv_unitName = u_name u,
          cv_totalPriceIdr = bk_totalPriceIdr b, cv_amountPaidIdr = amount_paid d s (bk_id b),
          cv_guestName = bk_guestName b, cv_guestPhone = bk_guestPhone b\<rparr>)
       (select_one (\<lambda>_. True) (booking_join d s bid))"

text \<open>Reconcile on read: an error of the provider, or of the sweep, is swallowed.\<close>

definition reconcileOnRead ::
  "pay_env \<Rightarrow> instant \<Rightarrow> uuid \<Rightarrow> session \<Rightarrow> uuid \<Rightarrow> db \<Rightarrow> uuid list \<times> db" where
  "reconcileOnRead env now newId s bid d =
     (case readStatusAndUnit d s bid of
        Some (Pending_payment, unitId) \<Rightarrow>
          let (sent, d1) = (case findPendingPaymentOrderId d s bid of
                None \<Rightarrow> ([], d)
              | Some orderId \<Rightarrow>
                  if orderId = [] then ([], d)
                  else (case reconcile env now newId orderId d of
                    Inl e \<Rightarrow> ([], d) | Inr (r, d') \<Rightarrow> (notified r, d')));
              d2 = (case expireLapsedHolds \<lparr>tx_session = s, tx_alive = True\<rparr> now unitId d1 of
                Inl e \<Rightarrow> d1 | Inr d' \<Rightarrow> d')
          in (sent, d2)
      | _ \<Rightarrow> ([], d))"

record confirmation_response =
  cn_status :: booking_status
  cn_checkIn :: date
  cn_checkOut :: date
  cn_propertyName :: string
  cn_unitName :: string
  cn_totalPriceIdr :: "int option"
  cn_amountPaidIdr :: int
  cn_balanceIdr :: "int option"
  cn_waLink :: "string option"

definition option_rupiah :: "int option \<Rightarrow> app_error + int option" where
  "option_rupiah v = (case v of None \<Rightarrow> Inr None | Some n \<Rightarrow> bind_res (toRupiah n) (\<lambda>m. Inr (Some m)))"

definition frame_confirmation :: "confirmation_view \<Rightarrow> app_error + confirmation_response" where
  "frame_confirmation v =
     bind_res (option_rupiah (cv_totalPriceIdr v)) (\<lambda>totalPrice.
     bind_res (toRupiah (cv_amountPaidIdr v)) (\<lambda>amountPaid.
     bind_res (option_rupiah (case cv_totalPriceIdr v of None \<Rightarrow> None
         | Some t \<Rightarrow> Some (if t > cv_amountPaidIdr v then t - cv_amountPaidIdr v else 0))) (\<lambda>balance.
       Inr \<lparr>cn_status = cv_status v, cn_checkIn = cv_checkIn v, cn_checkOut = cv_checkOut v,
         cn_propertyName = cv_propertyName v, cn_unitName = cv_unitName v,
         cn_totalPriceIdr = totalPrice, cn_amountPaidIdr = amountPaid, cn_balanceIdr = balance,
         cn_waLink = buildWaMeLink (cv_guestPhone v) (cv_guestName v) (cv_propertyName v) (cv_unitName v)
           (cv_checkIn v) (cv_checkOut v)\<rparr>)))"

definition getConfirmation ::
  "pay_env \<Rightarrow> instant \<Rightarrow> uuid \<Rightarrow> uuid \<Rightarrow> db \<Rightarrow> (app_error + confirmation_response) \<times> uuid list \<times> db" where
  "getConfirmation env now newId bid d =
     (case enterFromBookingId bid d None of
        Inl e \<Rightarrow> (Inl e, [], d)
      | Inr ctx \<Rightarrow>
          (case run_enter ctx None of
             Inl e \<Rightarrow> (Inl e, [], d)
           | Inr tx \<Rightarrow>
               let (sent, d') = reconcileOnRead env now newId (tx_session tx) bid d in
               (case readConfirmationView d' (tx_session tx) bid of
                  None \<Rightarrow> Inl (NotFound ''Booking not found'')
                | Some v \<Rightarrow> frame_confirmation v, sent, d')))"

section \<open>What is promised\<close>

lemma lapsed_paid_cong:
  assumes "bookings d' = bookings d" "units d' = units d" "user_properties d' = user_properties d"
  shows "lapsed_paid d' s pid y = lapsed_paid d s pid y"
  using assms rls_booking_same [of d' d]
  by (simp add: lapsed_paid_def rls_payment_def)

lemma lapsed_paid_handled [simp]:
  "lapsed_paid d s pid (y\<lparr>py_handledAt := h, py_updatedAt := t\<rparr>) = lapsed_paid d s pid y"
  by (simp add: lapsed_paid_def rls_payment_def)

text \<open>Handling an inbox item marks exactly the unhandled row, moves no status and no booking,
  and is idempotent: handling it again, at any later time, answers the first time and changes nothing.\<close>

theorem mark_handled_contract:
  assumes "distinct (map py_id (payments d))" "markHandled (Some p) now pid d = Inr (t, d')"
  shows "markHandled (Some p) now' pid d' = Inr (t, d') \<and>
    bookings d' = bookings d \<and> map py_status (payments d') = map py_status (payments d) \<and>
    map py_amountIdr (payments d') = map py_amountIdr (payments d) \<and>
    (\<forall>y \<in> set (payments d'). y \<in> set (payments d) \<or> py_id y = pid \<and> py_handledAt y = Some now)"
proof -
  let ?s = "session_of p"
  let ?hit = "\<lambda>y. lapsed_paid d ?s pid y \<and> py_handledAt y = None"
  let ?f = "\<lambda>y. y\<lparr>py_handledAt := Some now, py_updatedAt := now\<rparr>"
  have m: "markHandled_repo ?s now pid d = (Some t, d')"
    using assms(2) by (auto simp: markHandled_def split: option.splits prod.splits)
  then have d': "d' = update_payments ?hit ?f d"
    by (auto simp: markHandled_repo_def Let_def split: if_splits option.splits)
  have same: "lapsed_paid d' ?s pid y = lapsed_paid d ?s pid y" for y
    by (rule lapsed_paid_cong) (simp_all add: d' update_payments_def)
  have ids: "distinct (map py_id (payments d'))"
    using assms(1) by (simp add: d' update_payments_def map_update_where)
  obtain y where y: "y \<in> set (payments d')" "lapsed_paid d ?s pid y" "py_handledAt y = Some t"
  proof (cases "filter ?hit (payments d) = []")
    case True
    with m obtain y where "select_one (lapsed_paid d ?s pid) (payments d) = Some y" "py_handledAt y = Some t"
      by (auto simp: markHandled_repo_def Let_def split: option.splits)
    moreover from True have "payments d' = payments d"
      unfolding d' update_payments_def by (auto simp: filter_empty_conv intro!: update_where_none)
    ultimately show ?thesis using that by (auto dest: select_one_SomeD)
  next
    case False
    with m have t: "t = now" by (auto simp: markHandled_repo_def Let_def)
    from False obtain z where "z \<in> set (payments d)" "?hit z" by (auto simp: filter_empty_conv)
    then have "?f z \<in> set (payments d')" by (auto simp: d' update_payments_def set_update_where)
    with \<open>?hit z\<close> t show ?thesis by (intro that [of "?f z"]) simp_all
  qed
  have none: "\<not> (lapsed_paid d' ?s pid z \<and> py_handledAt z = None)" if "z \<in> set (payments d')" for z
    using that unfolding same by (auto simp: d' update_payments_def set_update_where split: if_splits)
  then have "update_payments (\<lambda>z. lapsed_paid d' ?s pid z \<and> py_handledAt z = None)
      (\<lambda>y. y\<lparr>py_handledAt := Some now', py_updatedAt := now'\<rparr>) d' = d'"
    by (simp add: update_payments_def update_where_none)
  moreover have "select_one (lapsed_paid d' ?s pid) (payments d') = Some y"
    using ids y unfolding same by (intro select_one_unique [where k = py_id]) (auto simp: same lapsed_paid_def)
  moreover have "filter (\<lambda>z. lapsed_paid d' ?s pid z \<and> py_handledAt z = None) (payments d') = []"
    using none by (auto simp: filter_empty_conv)
  ultimately have "markHandled (Some p) now' pid d' = Inr (t, d')"
    using y(3) by (simp add: markHandled_def markHandled_repo_def Let_def)
  then show ?thesis
    by (auto simp: d' update_payments_def map_update_where set_update_where lapsed_paid_def)
qed

definition payments_ok :: "db \<Rightarrow> bool" where
  "payments_ok d \<longleftrightarrow> distinct (map py_id (payments d)) \<and>
     (\<forall>y \<in> set (payments d). paymentProviderSchema (py_provider y) \<and> rupiahSchema (py_amountIdr y))"

lemma inbox_total:
  assumes "payments_ok d"
  shows "\<exists>items. listLapsed (Some p) d = Inr items \<and>
    list_all2 (\<lambda>row i. inbox_toWire row = Inr i) (inbox_rows d (session_of p)) items"
proof -
  have "\<exists>i. inbox_toWire row = Inr i" if "row \<in> set (inbox_rows d (session_of p))" for row
  proof -
    obtain y b u q where row: "row = (y, b, u, q)" by (cases row)
    with that have "y \<in> set (payments d)" by (auto simp: inbox_rows_def inbox_join_def)
    with assms show ?thesis
      by (auto simp: row inbox_toWire_def payments_ok_def toRupiah_ok)
  qed
  then obtain g where g: "inbox_toWire row = Inr (g row)" if "row \<in> set (inbox_rows d (session_of p))" for row
    by metis
  then have "listLapsed (Some p) d = Inr (map g (inbox_rows d (session_of p)))"
    using map_res_total [of "inbox_rows d (session_of p)" inbox_toWire g] by (simp add: listLapsed_def)
  moreover have "list_all2 (\<lambda>row i. inbox_toWire row = Inr i) (inbox_rows d (session_of p))
      (map g (inbox_rows d (session_of p)))"
    using g by (simp add: list.rel_map list.rel_refl_strong)
  ultimately show ?thesis by blast
qed

lemma list_all2_member: "list_all2 R xs ys \<Longrightarrow> x \<in> set xs \<Longrightarrow> \<exists>y \<in> set ys. R x y"
  by (induction xs ys rule: list_all2_induct) auto

lemma inbox_row:
  assumes "db_ok d" "y \<in> set (payments d)" "b \<in> set (bookings d)" "py_bookingId y = bk_id b"
    "py_status y = Pay_paid" "py_handledAt y = None" "bk_status b = Expired \<or> bk_status b = Cancelled"
    "rls_booking d s b"
  shows "\<exists>u p. (y, b, u, p) \<in> set (inbox_rows d s)"
proof -
  obtain u where u: "u \<in> set (units d)" "u_id u = bk_unitId b" "u_tenantId u = bk_tenantId b"
    using booking_unit [OF assms(1,3)] .
  obtain p where p: "p \<in> set (properties d)" "p_id p = u_propertyId u" "p_tenantId p = u_tenantId u"
    using unit_property [OF db_okD(1) [OF assms(1)] u(1)] .
  have t: "bk_tenantId b = s_tenantId s" using assms(8) by (simp add: rls_booking_def)
  from assms(8) obtain v where v: "v \<in> set (units d)" "u_id v = bk_unitId b" "rls_unit d s v"
    by (auto simp: rls_booking_def unit_visible_def)
  then have "v = u" using u(1,2) unit_by_id [OF db_okD(1) [OF assms(1)]] by metis
  with v have ru: "rls_unit d s u" by simp
  then have rp: "rls_property d s p" using p rls_unit_property by blast
  have "(y, b, u, p) \<in> set (inbox_join d s)"
    using assms u p t ru rp
    by (auto simp: inbox_join_def LAPSED_STATUSES_def rls_payment_def)
  then show ?thesis by (auto simp: inbox_rows_def)
qed

text \<open>Claim C36. Captured money is never silent: a settlement that arrives for a booking already expired or
  cancelled revives nothing, and the payment then stands in the inbox of every owner of the tenant,
  with its amount, until it is handled.\<close>

theorem late_settlement_reaches_inbox:
  assumes "db_ok d" "payments_ok d" "y \<in> set (payments d)" "b \<in> set (bookings d)"
    and "py_bookingId y = bk_id b" "py_status y = Pay_pending" "py_handledAt y = None"
    and "bk_status b = Expired \<or> bk_status b = Cancelled"
    and "ev_orderId event = py_id y" "ev_outcome event = Out_settlement" "ev_grossAmountIdr event = py_amountIdr y"
    and "\<not> event_logged provider (ev_providerEventId event) d"
  shows "\<exists>r d' items. deliver now newId provider event d = Inr (r, d') \<and> notified r = [] \<and>
    bookings d' = bookings d \<and>
    listLapsed (Some (User_principal owner (bk_tenantId b) Owner)) d' = Inr items \<and>
    (\<exists>i \<in> set items. lp_paymentId i = py_id y \<and> lp_bookingId i = bk_id b \<and> lp_amountIdr i = py_amountIdr y)"
proof -
  let ?d' = "delivered_db now newId provider event y d" and ?p = "User_principal owner (bk_tenantId b) Owner"
  let ?y = "set_payment_status Pay_paid now y"
  have sel: "select_one (\<lambda>p. py_id p = ev_orderId event) (payments d) = Some y"
    using assms(2,3,9) by (intro select_one_unique [where k = py_id]) (auto simp: payments_ok_def)
  have no: "\<not> pending_booking (bk_id b) x" if "x \<in> set (bookings d)" for x
    using that assms(1,4,8) booking_by_id [of d x b] by (auto simp: pending_booking_def)
  have del: "deliver now newId provider event d = Inr (Some (delivery_result event y d), ?d')"
    using deliver_eq [OF db_okD(2) [OF assms(1)]] sel assms(12) by simp
  have bk: "bookings ?d' = bookings d"
    using no assms(5,10,11) by (simp add: delivered_bookings update_where_none)
  have quiet: "notified (Some (delivery_result event y d)) = []"
    using no assms(5,10,11) by (auto simp: delivery_result_def)
  have py: "payments ?d' = update_where (pending_payment (py_id y)) (set_payment_status Pay_paid now) (payments d)"
    using assms(10,11) by (simp add: delivered_db_def Let_def)
  have yin: "?y \<in> set (payments ?d')"
    using assms(3,6) unfolding py by (auto simp: set_update_where pending_payment_def image_iff intro!: bexI [of _ y])
  have ok: "db_ok ?d'"
    using assms(1) delivered_ok [OF db_okD(2) [OF assms(1)]] bk
    by (simp add: db_ok_def inventory_ok_def override_table_ok_def dates_ok_def)
  have pok: "payments_ok ?d'"
    using assms(2) by (auto simp: payments_ok_def py map_update_where set_update_where set_payment_status_def)
  have up: "user_properties ?d' = user_properties d" by (simp add: delivered_db_def Let_def)
  have vis: "rls_booking ?d' (session_of ?p) b"
    using ok assms(4) bk by (subst rls_booking_all) auto
  obtain items where items: "listLapsed (Some ?p) ?d' = Inr items"
    "list_all2 (\<lambda>row i. inbox_toWire row = Inr i) (inbox_rows ?d' (session_of ?p)) items"
    using inbox_total [OF pok] by blast
  obtain u q where "(?y, b, u, q) \<in> set (inbox_rows ?d' (session_of ?p))"
    using inbox_row [OF ok yin _ _ _ _ assms(8) vis] assms(4,5,7) bk by (auto simp: set_payment_status_def)
  with items(2) obtain i where "i \<in> set items" "inbox_toWire (?y, b, u, q) = Inr i"
    by (meson list_all2_member)
  then have "\<exists>i \<in> set items. lp_paymentId i = py_id y \<and> lp_bookingId i = bk_id b \<and> lp_amountIdr i = py_amountIdr y"
    by (auto simp: inbox_toWire_def bind_res_Inr_iff set_payment_status_def split: if_splits intro!: bexI [of _ i])
  with del quiet bk items(1) show ?thesis by blast
qed

text \<open>Claim C37. A settlement that follows a failure of the same order confirms the booking but leaves the
  payment failed: the two guards look at different rows. The booking then counts as unpaid - the
  cancellation announces no refund - although the provider took the money.\<close>

theorem settlement_after_failure:
  assumes "db_ok d" "payments_ok d" "y \<in> set (payments d)" "b \<in> set (bookings d)"
    and "py_bookingId y = bk_id b" "py_status y = Pay_failed" "\<not> paid d (bk_id b)"
    and "bk_status b = Pending_payment"
    and "ev_orderId event = py_id y" "ev_outcome event = Out_settlement" "ev_grossAmountIdr event = py_amountIdr y"
    and "\<not> event_logged provider (ev_providerEventId event) d"
  shows "\<exists>d'. deliver now newId provider event d = Inr (Some (Settled (bk_id b) True), d') \<and>
    b\<lparr>bk_status := Confirmed\<rparr> \<in> set (bookings d') \<and> payments d' = payments d \<and> \<not> paid d' (bk_id b) \<and>
    cancel_booking (Some (User_principal owner (bk_tenantId b) Owner)) (bk_id b) d' =
      Inr (Refund_none, cancelled_db d' (bk_id b))"
proof -
  let ?d' = "delivered_db now newId provider event y d" and ?p = "User_principal owner (bk_tenantId b) Owner"
  let ?b = "set_status Confirmed b"
  have sel: "select_one (\<lambda>p. py_id p = ev_orderId event) (payments d) = Some y"
    using assms(2,3,9) by (intro select_one_unique [where k = py_id]) (auto simp: payments_ok_def)
  have res: "delivery_result event y d = Settled (bk_id b) True"
    using assms(4,5,8,10,11) by (auto simp: delivery_result_def pending_booking_def)
  have only: "q = y" if "q \<in> set (payments d)" "py_id q = py_id y" for q
    using that assms(2,3) by (auto simp: payments_ok_def distinct_map inj_on_def)
  have "\<not> pending_payment (py_id y) q" if "q \<in> set (payments d)" for q
  proof
    assume p: "pending_payment (py_id y) q"
    then have "q = y" using only [OF that] by (simp add: pending_payment_def)
    with p assms(6) show False by (simp add: pending_payment_def)
  qed
  then have py: "payments ?d' = payments d"
    using assms(10,11) by (simp add: delivered_db_def Let_def update_where_none)
  have bk: "bookings ?d' = update_where (pending_booking (bk_id b)) (set_status Confirmed) (bookings d)"
    using assms(5,10,11) by (simp add: delivered_bookings)
  have bin: "?b \<in> set (bookings ?d')"
    using assms(4,8) unfolding bk by (auto simp: set_update_where pending_booking_def image_iff intro!: bexI [of _ b])
  have ok: "booking_table_ok ?d'" by (rule delivered_ok [OF db_okD(2) [OF assms(1)]])
  have vis: "rls_booking ?d' (session_of ?p) ?b"
    using ok bin by (subst rls_booking_all) auto
  have "List.find (seen_booking ?d' (session_of ?p) (bk_id b)) (bookings ?d') = Some ?b"
  proof (subst find_price)
    show "x = z" if "x \<in> set (bookings ?d')" "z \<in> set (bookings ?d')"
      "seen_booking ?d' (session_of ?p) (bk_id b) x" "seen_booking ?d' (session_of ?p) (bk_id b) z" for x z
      using that booking_by_id [OF ok that(1,2)] by (simp add: seen_booking_def)
    show "?b \<in> set (bookings ?d') \<and> seen_booking ?d' (session_of ?p) (bk_id b) ?b"
      using bin vis by (simp add: seen_booking_def)
  qed
  moreover have np: "\<not> paid ?d' (bk_id b)" using assms(7) by (simp add: paid_def py)
  ultimately have "cancel_booking (Some ?p) (bk_id b) ?d' = Inr (Refund_none, cancelled_db ?d' (bk_id b))"
    using cancel_booking_eq [OF ok, of ?p "bk_id b"] by simp
  then show ?thesis
    using deliver_eq [OF db_okD(2) [OF assms(1)]] sel assms(12) res bin py np
    by (intro exI [of _ ?d']) (simp add: set_status_def)
qed

end
