(* ===== verification/Witnesses.thy ===== *)
theory Witnesses
  imports Sample Payment_Inbox
begin

text \<open>
  The theorems of the development, instantiated on the sample ledger: every hypothesis is discharged on
  concrete rows.
\<close>

section \<open>Bookings and inventory\<close>

abbreviation owner_p :: principal where "owner_p \<equiv> User_principal ''own'' ''t1'' Owner"

lemma sample_owned: "owned_unit sample_db (session_of owner_p) ''u1'' sample_unit"
  by (simp add: owned_unit_def rls_unit_def sample_unit_def)

lemma sample_unit_in: "sample_unit \<in> set (units sample_db)"
  by (simp add: sample_rows)

lemma window_dates:
  "is_iso_date ''2026-08-09'' \<and> is_iso_date ''2026-08-11'' \<and> day_of ''2026-08-11'' = day_of ''2026-08-09'' + 2 \<and>
   is_iso_date ''2026-08-20'' \<and> is_iso_date ''2026-08-23'' \<and> day_of ''2026-08-23'' = day_of ''2026-08-20'' + 3"
  by code_simp

lemma sample_window: "stay_window_ok ''2026-08-09'' ''2026-08-11''" "stay_window_ok ''2026-08-20'' ''2026-08-23''"
  using window_dates by (simp_all add: stay_window_iff window_ok_def MAX_AVAILABILITY_NIGHTS_def)

definition sample_guest :: create_booking_request where
  "sample_guest = \<lparr>cb_unitId = ''u1'', cb_checkIn = ''2026-08-20'', cb_checkOut = ''2026-08-23'',
     cb_guestName = ''Budi'', cb_guestPhone = ''+6281234567890'', cb_guestEmail = None, cb_guestCount = 2\<rparr>"

lemma sample_guest_ok: "createBookingRequestSchema sample_guest"
  using sample_window(2) by (simp add: createBookingRequestSchema_def sample_guest_def)

lemma public_quote_witness:
  "case getPublicQuote sample_db (u_id sample_unit) ''2026-08-09'' ''2026-08-11'' of
      Inl e \<Rightarrow> False | Inr r \<Rightarrow> ar_nights r = 2"
  using public_quote_contract [OF sample_ok sample_unit_in sample_window(1)] window_dates
  by (auto simp: effective_archived_def sample_rows sample_unit_def sample_property_def split: sum.splits)

lemma guest_booking_witness:
  "\<exists>r d'. createPublicBooking False 5000 ''b9'' sample_guest sample_db = Inr (r, d') \<and>
     cr_holdExpiresAt r = 905000 \<and> cr_nights r = 3"
proof -
  have f: "List.find (\<lambda>u. u_id u = cb_unitId sample_guest) (units sample_db) = Some sample_unit"
    by (simp add: sample_rows sample_guest_def sample_unit_def)
  have n: "\<not> effective_archived sample_db sample_unit"
    by (simp add: effective_archived_def sample_rows sample_unit_def sample_property_def)
  have g: "guest_refusals sample_db 5000 sample_unit sample_guest = []"
    using window_dates
    by (simp add: guest_refusals_def live_refusals_def live_taken_def sample_rows sample_booking_def
        sample_guest_def sample_unit_def occupies_iff lapsed_def range_overlaps_def)
  have i: "''b9'' \<notin> bk_id ` set (bookings sample_db)" by (simp add: sample_rows sample_booking_def)
  show ?thesis
    using guest_booking_contract [OF sample_ok sample_guest_ok i, of False 5000] f n g window_dates
    by (simp add: Let_def sample_guest_def)
qed

lemma race_loser_witness:
  "intercept (insertHold \<lparr>tx_session = session_of owner_p, tx_alive = True\<rparr> 5 ''b9''
     (hold_input_of sample_guest 1500000) sample_db) = Inl (Conflict (Dates_unavailable [Overlap]))"
proof -
  have t: "nights_taken sample_db ''u1'' ''2026-08-20'' ''2026-08-23''"
    by (simp add: nights_taken_def sample_rows sample_booking_def occupies_iff range_overlaps_def)
  have i: "''b9'' \<notin> bk_id ` set (bookings sample_db)" by (simp add: sample_rows sample_booking_def)
  have u: "u_id sample_unit = ''u1''" by (simp add: sample_unit_def)
  show ?thesis
    using race_loser_same_answer [OF sample_ok sample_unit_in, of "\<lparr>tx_session = session_of owner_p, tx_alive = True\<rparr>"
        sample_guest 1500000 "''b9''" 5] sample_owned sample_guest_ok t i
    by (simp add: u) (simp add: sample_guest_def)
qed

definition sample_walkin :: create_owner_request where
  "sample_walkin = \<lparr>co_unitId = ''u1'', co_checkIn = ''2026-08-20'', co_checkOut = ''2026-08-23'',
     co_body = Walk_in_body \<lparr>wi_guestName = ''Citra'', wi_guestPhone = None, wi_guestEmail = None,
       wi_guestCount = Some 5, wi_totalPriceIdr = Some 900000\<rparr>\<rparr>"


lemma cancel_witness:
  "cancel_booking (Some owner_p) ''b1'' sample_db = Inr (Refund_manual, cancelled_db sample_db ''b1'')"
proof -
  let ?b = "sample_booking ''b1'' Confirmed ''2026-08-01'' ''2026-08-05'' None"
  have v: "rls_booking sample_db (session_of owner_p) ?b"
    using sample_bookings by (subst rls_booking_all) (auto simp: sample_rows sample_booking_def)
  have "List.find (seen_booking sample_db (session_of owner_p) ''b1'') (bookings sample_db) = Some ?b"
    using v by (simp add: sample_rows(5) seen_booking_def) (simp add: sample_booking_def)
  moreover have "paid sample_db ''b1''" by (simp add: paid_def sample_rows sample_payment_def)
  ultimately show ?thesis
    using cancel_contract [OF sample_bookings, of owner_p "''b1''"] by (simp add: sample_booking_def)
qed

lemma sweep_witness:
  "\<exists>d'. sweepExpiredHolds 5000 sample_db = Inr (1, d') \<and> sweepExpiredHolds 5000 d' = Inr (0, d')"
proof -
  have "length (filter (lapsed 5000) (bookings sample_db)) = 1"
    by (simp add: sample_rows sample_booking_def lapsed_def)
  then show ?thesis using sweep_contract [OF sample_bookings, of 5000 "''u1''" "''a''" "''b''"] by auto
qed

definition sample_price :: create_override_request where
  "sample_price = \<lparr>cp_from = ''2026-08-11'', cp_to = ''2026-08-20'', cp_nightlyPriceIdr = 700000\<rparr>"

lemma create_override_witness:
  "create_override (Some owner_p) 5 ''o9'' ''u1'' sample_price sample_db = Inl (Conflict Price_override_overlap)"
proof -
  have s: "createPriceOverrideRequestSchema sample_price"
    using window_dates by (simp add: createPriceOverrideRequestSchema_def sample_price_def rupiahSchema_def
        MAX_SAFE_INTEGER_def MAX_NIGHTLY_RATE_IDR_def)
  have i: "''o9'' \<notin> po_id ` set (price_overrides sample_db)" by (simp add: sample_rows sample_override_def)
  have o: "\<exists>u \<in> set (units sample_db). owned_unit sample_db (session_of owner_p) ''u1'' u"
    using sample_owned sample_unit_in by blast
  have c: "override_clash sample_db ''u1'' (cp_from sample_price) (cp_to sample_price)"
    by (simp add: override_clash_def sample_rows sample_override_def sample_price_def range_overlaps_def)
  show ?thesis
    using create_override_contract [OF sample_inventory sample_overrides s i, of owner_p 5 "''u1''"] o c
    by (auto simp: Let_def)
qed

lemma remove_unit_witness:
  "case remove_unit (Some owner_p) ''u2'' sample_db of Inl e \<Rightarrow> False | Inr d' \<Rightarrow> units d' = [sample_unit]"
proof -
  have o: "owned_unit sample_db (session_of owner_p) ''u2'' spare_unit"
    by (simp add: owned_unit_def rls_unit_def spare_unit_def)
  have b: "\<forall>b \<in> set (bookings sample_db). bk_unitId b \<noteq> ''u2''" by (simp add: sample_rows sample_booking_def)
  have f: "filter (\<lambda>u. u_id u \<noteq> ''u2'') (units sample_db) = [sample_unit]"
    by (simp add: sample_rows sample_unit_def spare_unit_def)
  have "spare_unit \<in> set (units sample_db)" by (simp add: sample_rows)
  with o b f show ?thesis
    using remove_unit_contract [OF sample_inventory sample_bookings, of owner_p "''u2''"]
    by (auto split: sum.splits)
qed

lemma archive_witness:
  "\<exists>r d1. setArchived_unit (Some owner_p) 10 ''u1'' True sample_db = Inr (r, d1) \<and>
     setArchived_unit (Some owner_p) 20 ''u1'' True d1 = Inr (r, d1) \<and> ur_archivedAt r \<noteq> None"
proof -
  have "\<exists>r d1. setArchived_unit (Some owner_p) 10 ''u1'' True sample_db = Inr (r, d1)"
    using setArchived_unit_eq [OF sample_inventory sample_unit_in sample_owned refl, of 10 True]
    by (simp add: answer_unit_def unit_toResponse_def toRupiah_def MAX_SAFE_INTEGER_def sample_unit_def)
  then show ?thesis using archive_idempotent [OF sample_inventory] by blast
qed

section \<open>Payments\<close>

definition pay_row :: "uuid \<Rightarrow> uuid \<Rightarrow> payment_status \<Rightarrow> payment_row" where
  "pay_row i b st = \<lparr>py_id = i, py_bookingId = b, py_provider = ''midtrans'', py_providerRef = Some i,
     py_amountIdr = 1000000, py_status = st, py_handledAt = None,
     py_session = Some \<lparr>ps_token = ''tok'', ps_redirectUrl = ''https://pay''\<rparr>, py_createdAt = 1, py_updatedAt = 1\<rparr>"

definition money_db :: db where
  "money_db = sample_db\<lparr>payments := [pay_row ''y1'' ''b1'' Pay_paid, pay_row ''y2'' ''b2'' Pay_pending,
     pay_row ''y3'' ''b3'' Pay_pending, pay_row ''y4'' ''b3'' Pay_paid]\<rparr>"

definition failed_db :: db where
  "failed_db = sample_db\<lparr>payments := [pay_row ''y2'' ''b2'' Pay_failed]\<rparr>"

lemma money_ok: "db_ok money_db" "db_ok failed_db" "booking_table_ok money_db" "booking_table_ok failed_db"
  using sample_ok by (simp_all add: money_db_def failed_db_def db_okD(2))

lemma money_payments_ok: "payments_ok money_db" "payments_ok failed_db"
  by (simp_all add: payments_ok_def money_db_def failed_db_def pay_row_def paymentProviderSchema_def
      rupiahSchema_def MAX_SAFE_INTEGER_def)

definition settle_event :: "string \<Rightarrow> parsed_event" where
  "settle_event oid = \<lparr>ev_providerEventId = oid @ '':settlement'', ev_orderId = oid,
     ev_outcome = Out_settlement, ev_grossAmountIdr = 1000000, ev_raw = J_null\<rparr>"

lemma fresh_log: "\<not> event_logged pr e money_db" "\<not> event_logged pr e failed_db"
  by (simp_all add: event_logged_def money_db_def failed_db_def sample_db_def empty_db_def)

lemma verified_event_witness:
  "\<exists>body ev n. midtrans_verifyAndParse (\<lambda>s. take 3 s) body FAKE_CREDENTIAL = Inr ev \<and>
     midtransNotificationSchema body = Some n \<and> ev_orderId ev = mn_order_id n"
proof -
  let ?body = "J_obj [(''order_id'', J_str ''y2''), (''status_code'', J_str ''200''),
    (''gross_amount'', J_str ''1000000.00''), (''signature_key'', J_str ''y22''),
    (''transaction_status'', J_str ''settlement''), (''transaction_id'', J_str ''tx1'')]"
  have "\<exists>ev. midtrans_verifyAndParse (\<lambda>s. take 3 s) ?body FAKE_CREDENTIAL = Inr ev"
    by (simp add: midtrans_verifyAndParse_def midtransNotificationSchema_def required_field_def
        string_field_def json_field_def parseGrossAmountIdr_def Let_def is_digit_def less_eq_char_def)
  then show ?thesis using verified_event_is_signed by blast
qed

lemma delivery_witness:
  "\<exists>d'. deliver 5 ''e1'' ''midtrans'' (settle_event ''y2'') money_db = Inr (Some (Settled ''b2'' True), d')"
proof -
  have sel: "select_one (\<lambda>p. py_id p = ev_orderId (settle_event ''y2'')) (payments money_db) =
      Some (pay_row ''y2'' ''b2'' Pay_pending)"
    by (simp add: money_db_def pay_row_def settle_event_def)
  have "\<exists>b \<in> set (bookings money_db). bk_id b = ''b2'' \<and> bk_status b = Pending_payment"
    by (simp add: money_db_def sample_rows sample_booking_def)
  then obtain r d' where "deliver 5 ''e1'' ''midtrans'' (settle_event ''y2'') money_db = Inr (r, d')"
    "notified r = [''b2'']"
    using delivery_contract [OF money_ok(3), of 5 "''e1''" "''midtrans''" "settle_event ''y2''"] sel fresh_log
    by (auto simp: settle_event_def pay_row_def)
  then show ?thesis by (cases r rule: notified.cases) auto
qed

lemma redelivery_witness:
  "delivery_notifies (99, ''e2'', ''midtrans'', settle_event ''y2'')
     (delivery_step (5, ''e1'', ''midtrans'', settle_event ''y2'') money_db) = []"
proof -
  have k: "delivery_known (5, ''e1'', ''midtrans'', settle_event ''y2'') money_db"
    by (simp add: money_db_def pay_row_def settle_event_def)
  show ?thesis
    using redelivery_is_inert [OF money_ok(3) _ k,
        of "(99, ''e2'', ''midtrans'', settle_event ''y2'')" _ "[]"] by simp
qed

lemma announced_witness:
  "distinct (delivery_log [(5, ''e1'', ''midtrans'', settle_event ''y2''), (6, ''e2'', ''midtrans'', settle_event ''y2'')] money_db)"
  using confirmation_announced_once [OF money_ok(3)] by blast

lemma mark_handled_witness:
  "\<exists>d'. markHandled (Some owner_p) 50 ''y4'' money_db = Inr (50, d') \<and> markHandled (Some owner_p) 90 ''y4'' d' = Inr (50, d')"
proof -
  let ?b = "sample_booking ''b3'' Cancelled ''2026-08-01'' ''2026-08-03'' None"
  have ids: "distinct (map py_id (payments money_db))" by (simp add: money_db_def pay_row_def)
  have b: "?b \<in> set (bookings money_db)" by (simp add: money_db_def sample_rows)
  have v: "rls_booking money_db (session_of owner_p) ?b"
    using money_ok(3) b by (subst rls_booking_all) (auto simp: sample_booking_def)
  have hit: "lapsed_paid money_db (session_of owner_p) ''y4'' (pay_row ''y4'' ''b3'' Pay_paid)"
    using b v by (auto simp: lapsed_paid_def rls_payment_def pay_row_def LAPSED_STATUSES_def
        sample_booking_def intro!: bexI [of _ ?b])
  have "\<exists>d'. markHandled (Some owner_p) 50 ''y4'' money_db = Inr (50, d')"
  proof -
    have "pay_row ''y4'' ''b3'' Pay_paid \<in> set (filter (\<lambda>y. lapsed_paid money_db (session_of owner_p) ''y4'' y \<and>
        py_handledAt y = None) (payments money_db))"
      using hit by (simp add: money_db_def pay_row_def)
    then have "filter (\<lambda>y. lapsed_paid money_db (session_of owner_p) ''y4'' y \<and>
        py_handledAt y = None) (payments money_db) \<noteq> []" by force
    then show ?thesis by (simp add: markHandled_def markHandled_repo_def Let_def)
  qed
  then show ?thesis using mark_handled_contract [OF ids] by blast
qed

lemma late_settlement_witness:
  "\<exists>r d'. deliver 5 ''e1'' ''midtrans'' (settle_event ''y3'') money_db = Inr (r, d') \<and> notified r = [] \<and>
     bookings d' = bookings money_db"
  using late_settlement_reaches_inbox [OF money_ok(1) money_payments_ok(1),
      of "pay_row ''y3'' ''b3'' Pay_pending" "sample_booking ''b3'' Cancelled ''2026-08-01'' ''2026-08-03'' None"
        "settle_event ''y3''" "''midtrans''" 5 "''e1''" "''own''"]
    fresh_log(1) by (auto simp: money_db_def sample_rows pay_row_def settle_event_def sample_booking_def)

lemma settlement_after_failure_witness:
  "\<exists>d'. deliver 5 ''e1'' ''midtrans'' (settle_event ''y2'') failed_db = Inr (Some (Settled ''b2'' True), d') \<and>
     \<not> paid d' ''b2''"
  using settlement_after_failure [OF money_ok(2) money_payments_ok(2),
      of "pay_row ''y2'' ''b2'' Pay_failed" "sample_booking ''b2'' Pending_payment ''2026-08-20'' ''2026-08-25'' (Some 1000)"
        "settle_event ''y2''" "''midtrans''" 5 "''e1''" "''own''"]
    fresh_log(2) by (auto simp: failed_db_def sample_rows pay_row_def settle_event_def sample_booking_def paid_def)

section \<open>Credentials and paying\<close>

definition plain_aead :: aead where
  "plain_aead = \<lparr>aead_seal = (\<lambda>k n p. (p, replicate 16 CHR ''t'')),
     aead_open = (\<lambda>k n b t. if t = replicate 16 CHR ''t'' then Some b else None)\<rparr>"

lemma plain_lawful: "aead_lawful plain_aead"
  by (simp add: aead_lawful_def plain_aead_def)

definition plain_secrets :: secrets where
  "plain_secrets = \<lparr>sx_aead = plain_aead, sx_b64 = (\<lambda>s. replicate 32 CHR ''k''), sx_key = Some ''secret'',
     sx_keyVersion = Some 2\<rparr>"

abbreviation fake_gw :: gateway where "fake_gw \<equiv> fakeGateway (\<lambda>_. None) Verify_ok"

lemma save_credential_witness:
  "\<exists>r d'. save_credential plain_secrets fake_gw (Some owner_p) 5 ''c1'' (replicate 12 CHR ''n'') ''midtrans''
       ''Mid-server-1'' ''sandbox'' sample_db = Inr (r, d') \<and>
     maybeResolve plain_secrets ''t1'' ''midtrans'' d' =
       Inr (Some \<lparr>gc_serverKey = ''Mid-server-1'', gc_environment = ''sandbox''\<rparr>)"
proof -
  have tr: "js_trim ''secret'' = ''secret''" by code_simp
  have "\<exists>r d'. save_credential plain_secrets fake_gw (Some owner_p) 5 ''c1'' (replicate 12 CHR ''n'') ''midtrans''
       ''Mid-server-1'' ''sandbox'' sample_db = Inr (r, d')"
    by (simp add: save_credential_def plain_secrets_def paymentProviderSchema_def decodeEncryptionKey_def tr
        KEY_BYTES_def encryptCredential_def plain_aead_def fakeGateway_def upsert_credential_def
        credential_check_def currentKeyVersion_def verify_status_def sample_rows statusList_def
        rls_credential_def credential_toResponse_def paymentEnvironmentSchema_def)
  then obtain r d' where s: "save_credential plain_secrets fake_gw (Some owner_p) 5 ''c1'' (replicate 12 CHR ''n'')
       ''midtrans'' ''Mid-server-1'' ''sandbox'' sample_db = Inr (r, d')" by blast
  have "aead_lawful (sx_aead plain_secrets)" using plain_lawful by (simp add: plain_secrets_def)
  from saved_credential_resolves [OF this _ s] s show ?thesis by simp
qed

definition old_credential :: credential_row where
  "old_credential = \<lparr>tc_id = ''c1'', tc_tenantId = ''t1'', tc_provider = ''midtrans'',
     tc_environment = ''sandbox'', tc_ciphertext = ''Mid-1'' @ replicate 16 CHR ''t'',
     tc_nonce = replicate 12 CHR ''n'', tc_keyVersion = 1, tc_lastVerifyStatus = ''ok'',
     tc_lastVerifyAt = None, tc_createdAt = 0, tc_updatedAt = 0\<rparr>"

lemma rotation_witness:
  "ro_rotated (fst (rotateCredentials plain_aead ''old'' ''new'' 1 9 (\<lambda>_. replicate 12 CHR ''m'')
     (snd (rotateCredentials plain_aead ''old'' ''new'' 1 5 (\<lambda>_. replicate 12 CHR ''n'')
       (sample_db\<lparr>credentials := [old_credential]\<rparr>))))) = 0"
proof -
  obtain res d' where r: "rotateCredentials plain_aead ''old'' ''new'' 1 5 (\<lambda>_. replicate 12 CHR ''n'')
       (sample_db\<lparr>credentials := [old_credential]\<rparr>) = (res, d')" by force
  show ?thesis using rotation_contract [OF plain_lawful r] by (simp add: r)
qed

definition fake_env :: pay_env where
  "fake_env = \<lparr>pv_gateway = fake_gw, pv_secrets = plain_secrets, pv_webBase = None, pv_isUrl = (\<lambda>_. True)\<rparr>"

lemma sample_pay:
  "\<exists>r d'. pay fake_env 500 ''y9'' ''b2'' money_db = Inr (r, d')"
proof -
  let ?b = "sample_booking ''b2'' Pending_payment ''2026-08-20'' ''2026-08-25'' (Some 1000)"
  let ?row = "pay_row ''y2'' ''b2'' Pay_pending"
  have b: "?b \<in> set (bookings money_db)" by (simp add: money_db_def sample_rows)
  have v: "rls_booking money_db (visitor_session ''t1'') ?b"
    using visitor_sees_booking [OF money_ok(1) b] by (simp add: sample_booking_def)
  then have "rls_payment money_db (visitor_session ''t1'') ?row"
    using b by (auto simp: rls_payment_def pay_row_def sample_booking_def intro!: bexI [of _ ?b])
  then have np: "newest_pending money_db (visitor_session (bk_tenantId ?b)) ''b2'' = Some ?row"
    by (simp add: newest_pending_def money_db_def pay_row_def sample_booking_def)
  have "pay_toResponse fake_env (py_provider ?row) \<lparr>ps_token = ''tok'', ps_redirectUrl = ''https://pay''\<rparr>
      (py_amountIdr ?row) 2000000 = Inr \<lparr>pq_provider = ''midtrans'', pq_token = ''tok'',
        pq_redirectUrl = ''https://pay'', pq_amountIdr = 1000000, pq_deposit = True\<rparr>"
    by (simp add: pay_toResponse_Inr fake_env_def pay_row_def rupiahSchema_def MAX_SAFE_INTEGER_def
        paymentProviderSchema_def)
  then show ?thesis
    using pay_reuse [OF money_ok(1) b _ _ _ _ np, of 500 2000000 _ fake_env FAKE_CREDENTIAL]
    by (auto simp: sample_booking_def lapsed_def pay_row_def forGatewayOrThrow_def fake_env_def fakeGateway_def)
qed

lemma pay_contract_witness:
  "\<exists>r d' b. pay fake_env 500 ''y9'' ''b2'' money_db = Inr (r, d') \<and> b \<in> set (bookings money_db) \<and>
     bk_id b = ''b2'' \<and> \<not> lapsed 500 b"
  using sample_pay pay_contract [OF money_ok(1)] by fast

lemma pay_retry_witness:
  "\<exists>r d' d''. pay fake_env 500 ''y9'' ''b2'' money_db = Inr (r, d') \<and> pay fake_env 900 ''y10'' ''b2'' d' = Inr (r, d'')"
proof -
  obtain r d' where p: "pay fake_env 500 ''y9'' ''b2'' money_db = Inr (r, d')" using sample_pay by blast
  have "\<forall>b \<in> set (bookings money_db). bk_id b = ''b2'' \<longrightarrow> \<not> lapsed 900 b"
    by (simp add: money_db_def sample_rows sample_booking_def lapsed_def)
  from pay_retry_idempotent [OF money_ok(1) p this] p show ?thesis by blast
qed

end
