(* ===== verification/Ical.thy ===== *)
theory Ical
  imports Iso_Date Errors
begin

text \<open>
  The calendar serializer, \<^verbatim>\<open>apps/api/src/channel-sync/ical.ts\<close>: escaping, folding at 75 octets, and
  the document. The lemmas say that folding keeps every physical line within the limit and loses
  nothing, and that no line but the structural ones can be forged by a product id or a UID.
\<close>

definition CR :: char where "CR = CHR 0x0D"
definition LF :: char where "LF = CHR 0x0A"
definition CRLF :: string where "CRLF = [CR, LF]"

lemma CR_LF [simp]: "CR \<noteq> LF" "LF \<noteq> CR"
  by (simp_all add: CR_def LF_def)

record calendar_event =
  ce_uid :: string
  ce_start :: date
  ce_end :: date

record build_calendar_input =
  bc_prodId :: string
  bc_events :: "calendar_event list"
  bc_dtstamp :: instant

definition EVENT_SUMMARY :: string where
  "EVENT_SUMMARY = ''Unavailable (Sambung)''"

section \<open>Text, dates and time stamps\<close>

text \<open>\<^verbatim>\<open>replace(/\r\n|\r|\n/g, '\\n')\<close>.\<close>

fun escape_breaks :: "string \<Rightarrow> string" where
  "escape_breaks [] = []"
| "escape_breaks [c] = (if c = CR \<or> c = LF then [CHR 0x5C, CHR ''n''] else [c])"
| "escape_breaks (c # x # s) =
     (if c = CR \<and> x = LF then [CHR 0x5C, CHR ''n''] @ escape_breaks s
      else if c = CR \<or> c = LF then [CHR 0x5C, CHR ''n''] @ escape_breaks (x # s)
      else c # escape_breaks (x # s))"

definition escapeText :: "string \<Rightarrow> string" where
  "escapeText value =
     escape_breaks (replace_char CHR '','' [CHR 0x5C, CHR '','']
       (replace_char CHR '';'' [CHR 0x5C, CHR '';'']
         (replace_char (CHR 0x5C) [CHR 0x5C, CHR 0x5C] value)))"

text \<open>\<^verbatim>\<open>/^\d{4}-\d{2}-\d{2}$/\<close>.\<close>

definition date_shape :: "string \<Rightarrow> bool" where
  "date_shape s \<longleftrightarrow> length s = 10 \<and>
     list_all is_digit (take 4 s @ take 2 (drop 5 s) @ take 2 (drop 8 s)) \<and>
     take 1 (drop 4 s) = ''-'' \<and> take 1 (drop 7 s) = ''-''"

definition formatDate :: "string \<Rightarrow> app_error + string" where
  "formatDate isoDate =
     (if date_shape isoDate
      then Inr (take 4 isoDate @ take 2 (drop 5 isoDate) @ take 2 (drop 8 isoDate))
      else Inl (JsError ''buildCalendar: not a YYYY-MM-DD date''))"

text \<open>\<^verbatim>\<open>Date.prototype.toISOString\<close>, and the compact stamp made of it.\<close>

definition toISOString :: "instant \<Rightarrow> string" where
  "toISOString t =
     (let (y, m, d) = civil_of_days (t div MS_PER_NIGHT);
          ms = nat (t mod MS_PER_NIGHT);
          hour = ms div 3600000; minute = (ms div 60000) mod 60; second = (ms div 1000) mod 60
      in iso_year_str y @ ''-'' @ pad 2 m @ ''-'' @ pad 2 d @ ''T'' @
         pad 2 hour @ '':'' @ pad 2 minute @ '':'' @ pad 2 second @ ''.'' @ pad 3 (ms mod 1000) @ ''Z'')"

text \<open>\<^verbatim>\<open>.replace(/[-:]/g, '').replace(/\.\d{3}Z$/, 'Z')\<close>: the string always ends in a dot, three digits
  and \<^verbatim>\<open>Z\<close>.\<close>

definition formatDateTimeUtc :: "instant \<Rightarrow> string" where
  "formatDateTimeUtc t =
     (let s = filter (\<lambda>c. c \<notin> {CHR ''-'', CHR '':''}) (toISOString t)
      in take (length s - 5) s @ ''Z'')"

section \<open>Folding\<close>

text \<open>\<^verbatim>\<open>for (const ch of line)\<close> walks characters; one is a lead octet and its continuation octets.\<close>

definition continuation :: "char \<Rightarrow> bool" where
  "continuation c \<longleftrightarrow> (let k = (of_char c :: nat) in 128 \<le> k \<and> k < 192)"

function (sequential) code_points :: "string \<Rightarrow> string list" where
  "code_points [] = []"
| "code_points (c # cs) =
     (c # takeWhile continuation cs) # code_points (dropWhile continuation cs)"
  by pat_completeness auto
termination
  by (relation "measure length") (simp_all add: length_dropWhile_le le_imp_less_Suc)

fun fold_loop :: "string list \<Rightarrow> string \<Rightarrow> string \<Rightarrow> nat \<Rightarrow> bool \<Rightarrow> string" where
  "fold_loop [] out cur bytes first = out @ (if first then [] else '' '') @ cur"
| "fold_loop (ch # chs) out cur bytes first =
     (let limit = if first then 75 else 74 in
      if bytes + length ch > limit
      then fold_loop chs (out @ (if first then [] else '' '') @ cur @ CRLF) ch (length ch) False
      else fold_loop chs out (cur @ ch) (bytes + length ch) first)"

definition foldLine :: "string \<Rightarrow> string" where
  "foldLine line =
     (if length line \<le> 75 then line else fold_loop (code_points line) [] [] 0 True)"

section \<open>The document\<close>

definition event_lines :: "string \<Rightarrow> calendar_event \<Rightarrow> app_error + string list" where
  "event_lines stamp event =
     bind_res (formatDate (ce_start event)) (\<lambda>from.
     bind_res (formatDate (ce_end event)) (\<lambda>to.
       Inr [''BEGIN:VEVENT'',
            ''UID:'' @ escapeText (ce_uid event),
            ''DTSTAMP:'' @ stamp,
            ''DTSTART;VALUE=DATE:'' @ from,
            ''DTEND;VALUE=DATE:'' @ to,
            ''SUMMARY:'' @ escapeText EVENT_SUMMARY,
            ''TRANSP:OPAQUE'',
            ''END:VEVENT'']))"

definition calendar_lines :: "build_calendar_input \<Rightarrow> app_error + string list" where
  "calendar_lines input =
     bind_res (map_res (event_lines (formatDateTimeUtc (bc_dtstamp input))) (bc_events input)) (\<lambda>evs.
       Inr ([''BEGIN:VCALENDAR'', ''VERSION:2.0'', ''PRODID:'' @ escapeText (bc_prodId input),
             ''CALSCALE:GREGORIAN'', ''METHOD:PUBLISH''] @ concat evs @ [''END:VCALENDAR'']))"

definition buildCalendar :: "build_calendar_input \<Rightarrow> app_error + string" where
  "buildCalendar input =
     bind_res (calendar_lines input) (\<lambda>lines. Inr (join CRLF (map foldLine lines) @ CRLF))"

section \<open>Folding loses nothing and keeps the limit\<close>

lemma concat_code_points [simp]: "concat (code_points s) = s"
  by (induction s rule: code_points.induct) (simp_all add: takeWhile_dropWhile_id)

lemma code_points_nonempty: "ch \<in> set (code_points s) \<Longrightarrow> ch \<noteq> []"
  by (induction s rule: code_points.induct) auto

text \<open>The physical lines of the loop, without their leading space.\<close>

fun fold_pieces :: "string list \<Rightarrow> string \<Rightarrow> nat \<Rightarrow> bool \<Rightarrow> string list" where
  "fold_pieces [] cur bytes first = [cur]"
| "fold_pieces (ch # chs) cur bytes first =
     (if bytes + length ch > (if first then 75 else 74)
      then cur # fold_pieces chs ch (length ch) False
      else fold_pieces chs (cur @ ch) (bytes + length ch) first)"

lemma fold_pieces_nonempty [simp]: "fold_pieces chs cur bytes first \<noteq> []"
  by (induction chs cur bytes first rule: fold_pieces.induct) simp_all

lemma concat_fold_pieces: "concat (fold_pieces chs cur bytes first) = cur @ concat chs"
  by (induction chs cur bytes first rule: fold_pieces.induct) simp_all

lemma fold_loop_pieces:
  "fold_loop chs out cur bytes first =
     out @ (if first then [] else '' '') @ join (CRLF @ '' '') (fold_pieces chs cur bytes first)"
  by (induction chs out cur bytes first rule: fold_loop.induct) (simp_all add: Let_def join_Cons)

lemma fold_pieces_lengths:
  assumes "bytes = length cur" "bytes \<le> (if first then 75 else 74)"
    and "\<forall>ch \<in> set chs. length ch \<le> 74"
  shows "length (hd (fold_pieces chs cur bytes first)) \<le> (if first then 75 else 74) \<and>
    (\<forall>p \<in> set (tl (fold_pieces chs cur bytes first)). length p \<le> 74)"
  using assms
proof (induction chs cur bytes first rule: fold_pieces.induct)
  case (1 cur bytes first)
  then show ?case by simp
next
  case (2 ch chs cur bytes first)
  let ?limit = "if first then 75 else 74 :: nat"
  have chs: "\<forall>c \<in> set chs. length c \<le> 74" and ch: "length ch \<le> 74" using "2.prems"(3) by simp_all
  show ?case
  proof (cases "bytes + length ch > ?limit")
    case True
    have "length (hd (fold_pieces chs ch (length ch) False)) \<le> 74 \<and>
        (\<forall>p \<in> set (tl (fold_pieces chs ch (length ch) False)). length p \<le> 74)"
      using "2.IH"(1) [OF True refl _ chs] ch by simp
    then have "\<forall>p \<in> set (fold_pieces chs ch (length ch) False). length p \<le> 74"
      by (cases "fold_pieces chs ch (length ch) False") simp_all
    moreover have "length cur \<le> ?limit" using "2.prems"(1,2) by metis
    ultimately show ?thesis using True by simp
  next
    case False
    have "bytes + length ch = length (cur @ ch)" using "2.prems"(1) by simp
    from "2.IH"(2) [OF False this _ chs] False show ?thesis by simp
  qed
qed

text \<open>The pieces of a line: what the line is folded into.\<close>

definition line_pieces :: "string \<Rightarrow> string list" where
  "line_pieces line =
     (if length line \<le> 75 then [line] else fold_pieces (code_points line) [] 0 True)"

lemma foldLine_pieces: "foldLine line = join (CRLF @ '' '') (line_pieces line)"
  by (simp add: foldLine_def line_pieces_def fold_loop_pieces)

lemma line_pieces_nonempty [simp]: "line_pieces line \<noteq> []"
  by (simp add: line_pieces_def)

lemma concat_line_pieces [simp]: "concat (line_pieces line) = line"
  by (simp add: line_pieces_def concat_fold_pieces)

lemma set_line_pieces: "p \<in> set (line_pieces line) \<Longrightarrow> set p \<subseteq> set line"
  using concat_line_pieces [of line] set_concat [of "line_pieces line"] by auto

text \<open>No content line of the serializer holds a line break.\<close>

definition breakless :: "string \<Rightarrow> bool" where
  "breakless s \<longleftrightarrow> CR \<notin> set s \<and> LF \<notin> set s"

lemma breakless_append [simp]: "breakless (a @ b) \<longleftrightarrow> breakless a \<and> breakless b"
  by (auto simp: breakless_def)

lemma breakless_Nil [simp]: "breakless []"
  by (simp add: breakless_def)

lemma breakless_Cons: "breakless (c # s) \<longleftrightarrow> c \<noteq> CR \<and> c \<noteq> LF \<and> breakless s"
  by (auto simp: breakless_def)

lemma breakless_escape_breaks: "breakless (escape_breaks s)"
  by (induction s rule: escape_breaks.induct) (auto simp: breakless_def CR_def LF_def)

lemma breakless_escapeText [simp]: "breakless (escapeText s)"
  by (simp add: escapeText_def breakless_escape_breaks)

end
