(* ===== verification/Ical_Parse.thy ===== *)
theory Ical_Parse
  imports Ical
begin

text \<open>
  The strict calendar parser, \<^verbatim>\<open>apps/api/src/channel-sync/ical-parse.ts\<close>. The time zone database is
  a parameter of the model: \<open>tz zone\<close> is \<open>None\<close> where \<^verbatim>\<open>Intl.DateTimeFormat\<close> throws, and otherwise the
  year, month and day \<^verbatim>\<open>formatToParts\<close> gives for an instant.
\<close>

record imported_event =
  ie_uid :: string
  ie_start :: date
  ie_end :: date

datatype parse_result = Parse_ok "imported_event list" "string list" | Parse_error string

type_synonym zone_db = "string \<Rightarrow> (instant \<Rightarrow> string \<times> string \<times> string) option"

section \<open>Unfolding and splitting\<close>

definition blank :: "char \<Rightarrow> bool" where
  "blank c \<longleftrightarrow> c = CHR '' '' \<or> c = CHR 0x09"

text \<open>\<^verbatim>\<open>replace(/\r\n[ \t]/g, '')\<close>, then \<^verbatim>\<open>replace(/[\r\n][ \t]/g, '')\<close>, then \<^verbatim>\<open>split(/\r\n|\r|\n/)\<close>.\<close>

fun unfold_crlf :: "string \<Rightarrow> string" where
  "unfold_crlf (a # b # c # s) =
     (if a = CR \<and> b = LF \<and> blank c then unfold_crlf s else a # unfold_crlf (b # c # s))"
| "unfold_crlf s = s"

fun unfold_bare :: "string \<Rightarrow> string" where
  "unfold_bare (a # b # s) =
     (if (a = CR \<or> a = LF) \<and> blank b then unfold_bare s else a # unfold_bare (b # s))"
| "unfold_bare s = s"

fun split_lines :: "string \<Rightarrow> string list" where
  "split_lines [] = [[]]"
| "split_lines [c] = (if c = CR \<or> c = LF then [[], []] else [[c]])"
| "split_lines (c # x # s) =
     (if c = CR \<and> x = LF then [] # split_lines s
      else if c = CR \<or> c = LF then [] # split_lines (x # s)
      else (case split_lines (x # s) of [] \<Rightarrow> [[c]] | l # ls \<Rightarrow> (c # l) # ls))"

definition unfold :: "string \<Rightarrow> string list" where
  "unfold body = split_lines (unfold_bare (unfold_crlf body))"

section \<open>Content lines\<close>

text \<open>
  \<^verbatim>\<open>toUpperCase\<close>, as far as a comparison with ASCII text can tell: the listed characters (sharp s,
  dotless i, long s and the Latin ligatures) have an upper case within ASCII, every other character
  outside ASCII keeps one outside it.
\<close>

definition upper_point :: "string \<Rightarrow> string" where
  "upper_point ch =
     (case ch of
        [c] \<Rightarrow> [to_upper1 c]
      | _ \<Rightarrow> (case map_of
          [([CHR 0xC3, CHR 0x9F], ''SS''), ([CHR 0xC4, CHR 0xB1], ''I''), ([CHR 0xC5, CHR 0xBF], ''S''),
           ([CHR 0xEF, CHR 0xAC, CHR 0x80], ''FF''), ([CHR 0xEF, CHR 0xAC, CHR 0x81], ''FI''),
           ([CHR 0xEF, CHR 0xAC, CHR 0x82], ''FL''), ([CHR 0xEF, CHR 0xAC, CHR 0x83], ''FFI''),
           ([CHR 0xEF, CHR 0xAC, CHR 0x84], ''FFL''), ([CHR 0xEF, CHR 0xAC, CHR 0x85], ''ST''),
           ([CHR 0xEF, CHR 0xAC, CHR 0x86], ''ST'')] ch of
          Some u \<Rightarrow> u | None \<Rightarrow> ch))"

definition js_upper :: "string \<Rightarrow> string" where
  "js_upper s = concat (map upper_point (code_points s))"

text \<open>\<^verbatim>\<open>/;TZID=([^;:]+)/i.exec(left)?.[1]\<close>.\<close>

fun find_tzid :: "string \<Rightarrow> string option" where
  "find_tzid [] = None"
| "find_tzid (c # s) =
     (let val = takeWhile (\<lambda>x. x \<notin> {CHR '';'', CHR '':''}) (drop 5 s) in
      if to_upper (take 6 (c # s)) = '';TZID='' \<and> val \<noteq> [] then Some val else find_tzid s)"

text \<open>\<^verbatim>\<open>replace(/^"(.*)"$/, '$1')\<close>; a dot matches no line terminator.\<close>

definition line_terminator_in :: "string \<Rightarrow> bool" where
  "line_terminator_in s \<longleftrightarrow> CR \<in> set s \<or> LF \<in> set s \<or>
     list_ex (\<lambda>t. prefix [CHR 0xE2, CHR 0x80, CHR 0xA8] t \<or> prefix [CHR 0xE2, CHR 0x80, CHR 0xA9] t) (suffixes s)"

definition unquote :: "string \<Rightarrow> string" where
  "unquote s =
     (if length s \<ge> 2 \<and> hd s = CHR 0x22 \<and> last s = CHR 0x22 \<and> \<not> line_terminator_in (butlast (tl s))
      then butlast (tl s) else s)"

definition splitLine :: "string \<Rightarrow> (string \<times> string option \<times> string) option" where
  "splitLine line =
     (if CHR '':'' \<notin> set line then None
      else
        let left = takeWhile (\<lambda>c. c \<noteq> CHR '':'') line;
            name = js_upper (js_trim (takeWhile (\<lambda>c. c \<noteq> CHR '';'') left));
            raw = (if CHR '';'' \<in> set left then find_tzid left else None);
            tzid = map_option (\<lambda>v. js_trim (unquote (js_trim v))) raw
        in Some (name, (if tzid = Some [] then None else tzid), drop (length left + 1) line))"

section \<open>Dates\<close>

record zone_context =
  zc_timeZone :: string
  zc_parts :: "instant \<Rightarrow> string \<times> string \<times> string"

definition zoneContext :: "zone_db \<Rightarrow> string \<Rightarrow> zone_context option" where
  "zoneContext tz timeZone =
     map_option (\<lambda>parts. \<lparr>zc_timeZone = timeZone, zc_parts = parts\<rparr>) (tz timeZone)"

definition toLocalDate :: "zone_context \<Rightarrow> instant \<Rightarrow> string" where
  "toLocalDate zone t =
     (let (y, m, d) = zc_parts zone t
      in replicate (4 - utf16_length y) CHR ''0'' @ y @ ''-'' @ m @ ''-'' @ d)"

text \<open>\<^verbatim>\<open>/^\s*\d{8}T(\d{2})(\d{2})(\d{2})Z\s*$/i\<close> on what follows the eight digits.\<close>

definition utc_time :: "string \<Rightarrow> (nat \<times> nat \<times> nat) option" where
  "utc_time rest =
     (if length rest \<ge> 8 \<and> to_upper1 (hd rest) = CHR ''T'' \<and>
         list_all is_digit (take 6 (drop 1 rest)) \<and> to_upper1 (rest ! 7) = CHR ''Z'' \<and>
         js_trimStart (drop 8 rest) = []
      then Some (num (take 2 (drop 1 rest)), num (take 2 (drop 3 rest)), num (take 2 (drop 5 rest)))
      else None)"

definition toIsoDate :: "string \<Rightarrow> zone_context \<Rightarrow> date option" where
  "toIsoDate value zone =
     (let v = js_trimStart value in
      if \<not> (length v \<ge> 8 \<and> list_all is_digit (take 8 v)) then None
      else
        let y = take 4 v; mo = take 2 (drop 4 v); d = take 2 (drop 6 v) in
        if \<not> valid_md (int (num y)) (num mo) (num d) then None
        else case utc_time (drop 8 v) of
          None \<Rightarrow> Some (y @ ''-'' @ mo @ ''-'' @ d)
        | Some (hh, mi, ss) \<Rightarrow>
            if hh > 23 \<or> mi > 59 \<or> ss > 60 then None
            else
              let local = toLocalDate zone
                    (MS_PER_NIGHT * civil_days (int (num y)) (num mo) (num d) +
                     int hh * 3600000 + int mi * 60000 + int ss * 1000)
              in if date_shape local then Some local else None)"

text \<open>\<^verbatim>\<open>new Date(Date.UTC(y, m - 1, d + 1)).toISOString().slice(0, 10)\<close>: months carry into the year, days
  into the month, and \<^verbatim>\<open>Date.UTC\<close> reads the years 0 to 99 as 1900 to 1999.\<close>

definition addOneDay :: "date \<Rightarrow> string" where
  "addOneDay isoDate =
     (let y = int (iso_year isoDate); y' = (if y \<le> 99 then 1900 + y else y);
          m0 = int (iso_month isoDate) - 1
      in iso_prefix (MS_PER_NIGHT *
           (civil_days (y' + m0 div 12) (nat (m0 mod 12) + 1) 1 + int (iso_day isoDate))))"

section \<open>Events\<close>

definition toEvent :: "(string \<times> string) list \<Rightarrow> zone_context \<Rightarrow> imported_event option" where
  "toEvent flds zone =
     (case map_option js_trim (map_of flds ''UID'') of
        None \<Rightarrow> None
      | Some [] \<Rightarrow> None
      | Some uid \<Rightarrow>
          (case map_of flds ''DTSTART'' of
             None \<Rightarrow> None
           | Some rawStart \<Rightarrow>
               (case toIsoDate rawStart zone of
                  None \<Rightarrow> None
                | Some from \<Rightarrow>
                    (case (case map_of flds ''DTEND'' of
                             None \<Rightarrow> Some (addOneDay from)
                           | Some rawEnd \<Rightarrow> toIsoDate rawEnd zone) of
                       None \<Rightarrow> None
                     | Some to \<Rightarrow>
                         if to \<le> from then None
                         else Some \<lparr>ie_uid = uid, ie_start = from, ie_end = to\<rparr>))))"

record parse_state =
  st_current :: "(string \<times> string) list option"
  st_events :: "imported_event list"
  st_foreign :: "string list"

definition collect_field :: "zone_context \<Rightarrow> string \<Rightarrow> string option \<Rightarrow> string \<Rightarrow> parse_state \<Rightarrow> parse_state" where
  "collect_field zone name tzid val st =
     (case st_current st of
        None \<Rightarrow> st
      | Some flds \<Rightarrow>
          if name = ''UID'' \<or> name = ''DTSTART'' \<or> name = ''DTEND''
          then st\<lparr>st_current := Some (if map_of flds name = None then flds @ [(name, val)] else flds),
                  st_foreign := (case tzid of
                      Some z \<Rightarrow> if z \<noteq> zc_timeZone zone \<and> z \<notin> set (st_foreign st)
                               then st_foreign st @ [z] else st_foreign st
                    | None \<Rightarrow> st_foreign st)\<rparr>
          else st)"

definition parse_line :: "zone_context \<Rightarrow> string \<Rightarrow> parse_state \<Rightarrow> parse_state" where
  "parse_line zone line st =
     (case splitLine line of
        None \<Rightarrow> st
      | Some (name, tzid, val) \<Rightarrow>
          let upperValue = js_upper (js_trim val) in
          if name = ''BEGIN'' \<and> upperValue = ''VEVENT'' then st\<lparr>st_current := Some []\<rparr>
          else if name = ''END'' \<and> upperValue = ''VEVENT''
          then st\<lparr>st_current := None,
                  st_events := st_events st @
                    (case st_current st of
                       None \<Rightarrow> []
                     | Some flds \<Rightarrow> (case toEvent flds zone of None \<Rightarrow> [] | Some e \<Rightarrow> [e]))\<rparr>
          else collect_field zone name tzid val st)"

definition terminated :: "string list \<Rightarrow> bool" where
  "terminated lines \<longleftrightarrow>
     list_ex (\<lambda>l. js_upper (js_trim l) = ''BEGIN:VCALENDAR'') lines \<and>
     list_ex (\<lambda>l. js_upper (js_trim l) = ''END:VCALENDAR'') lines"

definition parse_lines :: "zone_context \<Rightarrow> string list \<Rightarrow> parse_state \<Rightarrow> parse_state" where
  "parse_lines zone lines st = fold (parse_line zone) lines st"

definition parseCalendar :: "zone_db \<Rightarrow> string \<Rightarrow> string \<Rightarrow> parse_result" where
  "parseCalendar tz body timeZone =
     (case zoneContext tz timeZone of
        None \<Rightarrow> Parse_error (''Unusable property time zone: '' @ timeZone)
      | Some zone \<Rightarrow>
          let lines = unfold body in
          if \<not> terminated lines
          then Parse_error ''Not a terminated iCalendar (VCALENDAR) feed''
          else
            let st = parse_lines zone lines \<lparr>st_current = None, st_events = [], st_foreign = []\<rparr>
            in Parse_ok (st_events st) (st_foreign st))"

section \<open>What the parser lets through\<close>

text \<open>
  The zones behave: the year, month and day \<^verbatim>\<open>formatToParts\<close> gives are those of a day, the month and
  the day on two digits (which is what \<^verbatim>\<open>'2-digit'\<close> asks for).
\<close>

definition zones_lawful :: "zone_db \<Rightarrow> bool" where
  "zones_lawful tz \<longleftrightarrow>
     (\<forall>z parts t y m d. tz z = Some parts \<longrightarrow> parts t = (y, m, d) \<longrightarrow>
        date_shape (replicate (4 - utf16_length y) CHR ''0'' @ y @ ''-'' @ m @ ''-'' @ d) \<longrightarrow>
        is_iso_date (replicate (4 - utf16_length y) CHR ''0'' @ y @ ''-'' @ m @ ''-'' @ d))"

definition event_ok :: "imported_event \<Rightarrow> bool" where
  "event_ok e \<longleftrightarrow> ie_uid e \<noteq> [] \<and> is_iso_date (ie_start e) \<and> is_iso_date (ie_end e) \<and> ie_start e < ie_end e"

end
