(* ===== verification/Ical_Rules.thy ===== *)
theory Ical_Rules
  imports Ical_Parse
begin

text \<open>
  The serializer and the parser against each other: what is exported is read back as it was, and a
  feed cut short is never taken for a whole one.
\<close>

section \<open>Unfolding inverts folding\<close>

lemma not_blank_breaks [simp]: "\<not> blank CR" "\<not> blank LF"
  by (simp_all add: blank_def CR_def LF_def)

lemma unfold_crlf_Cons: "a \<noteq> CR \<Longrightarrow> unfold_crlf (a # s) = a # unfold_crlf s"
  by (cases s rule: unfold_crlf.cases) (auto split: list.splits elim: unfold_crlf.elims)

lemma unfold_crlf_append: "breakless p \<Longrightarrow> unfold_crlf (p @ s) = p @ unfold_crlf s"
  by (induction p) (simp_all add: breakless_Cons unfold_crlf_Cons)

text \<open>Where the next content line starts: at the end of the body or at a printable character.\<close>

definition line_start :: "string \<Rightarrow> bool" where
  "line_start s \<longleftrightarrow> s = [] \<or> graphic (hd s)"

lemma graphic_not: "graphic c \<Longrightarrow> \<not> blank c \<and> c \<noteq> CR \<and> c \<noteq> LF"
  by (auto simp: graphic_def blank_def CR_def LF_def less_eq_char_def)

lemma unfold_crlf_break: "line_start s \<Longrightarrow> unfold_crlf (CR # LF # s) = CR # LF # unfold_crlf s"
  by (cases s) (auto simp: line_start_def unfold_crlf_Cons dest: graphic_not)

lemma line_start_unfold: "line_start s \<Longrightarrow> line_start (unfold_crlf s)"
proof (cases s)
  case (Cons c t)
  moreover assume "line_start s"
  ultimately have "graphic c" by (simp add: line_start_def)
  then have "unfold_crlf s = c # unfold_crlf t"
    using graphic_not by (simp add: Cons unfold_crlf_Cons)
  with \<open>graphic c\<close> show ?thesis by (simp add: line_start_def)
qed (simp add: line_start_def)

lemma unfold_crlf_pieces:
  assumes "ps \<noteq> []" "\<forall>p \<in> set ps. breakless p"
  shows "unfold_crlf (join (CRLF @ '' '') ps @ s) = concat ps @ unfold_crlf s"
  using assms
proof (induction ps)
  case (Cons p ps)
  show ?case
  proof (cases "ps = []")
    case True
    with Cons show ?thesis by (simp add: unfold_crlf_append)
  next
    case False
    then have "unfold_crlf (join (CRLF @ '' '') (p # ps) @ s) =
        p @ unfold_crlf (CR # LF # CHR '' '' # join (CRLF @ '' '') ps @ s)"
      using Cons.prems by (simp add: join_Cons unfold_crlf_append CRLF_def)
    also have "\<dots> = p @ concat ps @ unfold_crlf s"
      using Cons False by (simp add: blank_def)
    finally show ?thesis by simp
  qed
qed simp

lemma breakless_pieces: "breakless l \<Longrightarrow> p \<in> set (line_pieces l) \<Longrightarrow> breakless p"
  using set_line_pieces [of p l] by (auto simp: breakless_def)

lemma unfold_crlf_foldLine: "breakless l \<Longrightarrow> unfold_crlf (foldLine l @ s) = l @ unfold_crlf s"
  by (simp add: foldLine_pieces unfold_crlf_pieces breakless_pieces)

lemma unfold_bare_Cons: "a \<noteq> CR \<and> a \<noteq> LF \<or> s = [] \<or> \<not> blank (hd s) \<Longrightarrow> unfold_bare (a # s) = a # unfold_bare s"
  by (cases s) auto

lemma unfold_bare_append: "breakless p \<Longrightarrow> unfold_bare (p @ s) = p @ unfold_bare s"
  by (induction p) (simp_all add: breakless_Cons unfold_bare_Cons)

lemma unfold_bare_break: "line_start s \<Longrightarrow> unfold_bare (CR # LF # s) = CR # LF # unfold_bare s"
  by (auto simp: unfold_bare_Cons line_start_def dest: graphic_not)

lemma split_lines_append: "breakless p \<Longrightarrow> split_lines (p @ CR # LF # s) = p # split_lines s"
proof (induction p)
  case (Cons c p)
  then have "split_lines (c # p @ CR # LF # s) = (case split_lines (p @ CR # LF # s) of [] \<Rightarrow> [[c]] | l # ls \<Rightarrow> (c # l) # ls)"
    by (cases "p @ CR # LF # s") (auto simp: breakless_Cons)
  with Cons show ?case by (simp add: breakless_Cons)
qed simp

lemma unfold_line:
  assumes "breakless l" "line_start s"
  shows "unfold (foldLine l @ CRLF @ s) = l # unfold s"
  using assms line_start_unfold [OF assms(2)]
  by (simp add: unfold_def CRLF_def unfold_crlf_foldLine unfold_crlf_break unfold_bare_append
      unfold_bare_break split_lines_append del: unfold_bare.simps)

text \<open>A content line of the serializer: no line break, and two printable characters to begin with.\<close>

definition content_line :: "string \<Rightarrow> bool" where
  "content_line l \<longleftrightarrow> breakless l \<and> (\<exists>c d t. l = c # d # t \<and> graphic c \<and> graphic d)"

lemma fold_loop_first: "\<exists>t. fold_loop chs [] (c # cur) bytes True = c # t"
  unfolding fold_loop_pieces
proof (induction chs arbitrary: cur bytes)
  case (Cons ch chs)
  then show ?case by (auto simp: join_Cons)
qed simp

lemma graphic_not_continuation: "graphic c \<Longrightarrow> \<not> continuation c"
  by (auto simp: graphic_def continuation_def less_eq_char_def Let_def)

lemma line_start_foldLine:
  assumes "content_line l"
  shows "line_start (foldLine l @ s)"
proof -
  obtain c d t where l: "l = c # d # t" "graphic c" "graphic d"
    using assms by (auto simp: content_line_def)
  have cp: "code_points l = [c] # code_points (d # t)"
    using graphic_not_continuation [OF l(3)] by (simp add: l(1))
  show ?thesis
  proof (cases "length l \<le> 75")
    case True
    with l show ?thesis by (simp add: foldLine_def line_start_def)
  next
    case False
    then have "foldLine l = fold_loop (code_points (d # t)) [] (c # []) 1 True"
      by (simp add: foldLine_def cp del: code_points.simps)
    then obtain u where "foldLine l = c # u" using fold_loop_first by metis
    with l show ?thesis by (simp add: line_start_def)
  qed
qed

lemma unfold_lines:
  assumes "\<forall>l \<in> set ls. content_line l" "line_start s"
  shows "unfold (concat (map (\<lambda>l. foldLine l @ CRLF) ls) @ s) = ls @ unfold s"
    "line_start (concat (map (\<lambda>l. foldLine l @ CRLF) ls) @ s)"
  using assms(1)
proof (induction ls)
  case (Cons l ls)
  {
    case 1
    with Cons have "breakless l" "line_start (concat (map (\<lambda>l. foldLine l @ CRLF) ls) @ s)"
      by (simp_all add: content_line_def)
    from unfold_line [OF this] Cons 1 show ?case by simp
  next
    case 2
    then show ?case by (simp add: line_start_foldLine)
  }
qed (simp_all add: assms(2))

section \<open>The serialised document\<close>

lemma digit_graphic: "is_digit c \<Longrightarrow> graphic c"
  by (auto simp: is_digit_def graphic_def less_eq_char_def)

lemma graphic_breakless: "list_all graphic s \<Longrightarrow> breakless s"
  by (induction s) (auto simp: breakless_Cons dest: graphic_not)

lemma digits_graphic: "list_all is_digit s \<Longrightarrow> list_all graphic s"
  by (auto simp: list_all_iff digit_graphic)

lemma formatDate_Inr_iff:
  "formatDate s = Inr t \<longleftrightarrow> date_shape s \<and> t = take 4 s @ take 2 (drop 5 s) @ take 2 (drop 8 s)"
  by (auto simp: formatDate_def)

lemma formatDate_digits: "formatDate s = Inr t \<Longrightarrow> list_all is_digit t"
  by (auto simp: formatDate_Inr_iff date_shape_def)

lemma pad_graphic [simp]: "list_all graphic (pad w n)"
  by (simp add: digits_graphic pad_digits)

lemma toISOString_graphic: "list_all graphic (toISOString t)"
  by (simp add: toISOString_def Let_def iso_year_str_def graphic_def less_eq_char_def split: prod.split)

lemma stamp_breakless [simp]: "breakless (formatDateTimeUtc t)"
proof -
  have "list_all graphic (filter (\<lambda>c. c \<notin> {CHR ''-'', CHR '':''}) (toISOString t))"
    using toISOString_graphic [of t] by (auto simp: list_all_iff)
  then have "breakless (filter (\<lambda>c. c \<notin> {CHR ''-'', CHR '':''}) (toISOString t))"
    by (rule graphic_breakless)
  then have "breakless (take n (filter (\<lambda>c. c \<notin> {CHR ''-'', CHR '':''}) (toISOString t)))" for n
    by (auto simp: breakless_def dest: in_set_takeD)
  then show ?thesis
    by (simp add: formatDateTimeUtc_def Let_def breakless_Cons CR_def LF_def)
qed

lemma content_lineI: "breakless t \<Longrightarrow> list_all graphic [c, d] \<Longrightarrow> content_line (c # d # t)"
  by (auto simp: content_line_def breakless_Cons dest: graphic_not)

lemma summary_text [simp]: "escapeText EVENT_SUMMARY = EVENT_SUMMARY"
  by code_simp

lemma event_lines_content:
  assumes "event_lines stamp e = Inr ls" "breakless stamp" "l \<in> set ls"
  shows "content_line l"
proof -
  obtain a b where ab: "formatDate (ce_start e) = Inr a" "formatDate (ce_end e) = Inr b"
    and ls: "ls = [''BEGIN:VEVENT'', ''UID:'' @ escapeText (ce_uid e), ''DTSTAMP:'' @ stamp,
      ''DTSTART;VALUE=DATE:'' @ a, ''DTEND;VALUE=DATE:'' @ b, ''SUMMARY:'' @ escapeText EVENT_SUMMARY,
      ''TRANSP:OPAQUE'', ''END:VEVENT'']"
    using assms(1) by (auto simp: event_lines_def bind_res_Inr_iff)
  have "breakless a" "breakless b"
    using ab by (auto intro: graphic_breakless digits_graphic formatDate_digits)
  then show ?thesis
    using assms(2,3) unfolding ls
    by (auto intro!: content_lineI simp: breakless_Cons CR_def LF_def graphic_def less_eq_char_def EVENT_SUMMARY_def)
qed

text \<open>The lines of the document: all but the last, which closes the calendar.\<close>

definition open_lines :: "build_calendar_input \<Rightarrow> string list list \<Rightarrow> string list" where
  "open_lines input evs =
     [''BEGIN:VCALENDAR'', ''VERSION:2.0'', ''PRODID:'' @ escapeText (bc_prodId input),
      ''CALSCALE:GREGORIAN'', ''METHOD:PUBLISH''] @ concat evs"

lemma buildCalendar_body:
  assumes "buildCalendar input = Inr body"
  obtains evs where
    "list_all2 (\<lambda>e ls. event_lines (formatDateTimeUtc (bc_dtstamp input)) e = Inr ls) (bc_events input) evs"
    "body = concat (map (\<lambda>l. foldLine l @ CRLF) (open_lines input evs)) @ ''END:VCALENDAR'' @ CRLF"
    "\<forall>l \<in> set (open_lines input evs). content_line l"
proof -
  obtain evs where e: "map_res (event_lines (formatDateTimeUtc (bc_dtstamp input))) (bc_events input) = Inr evs"
    and b: "body = join CRLF (map foldLine (open_lines input evs @ [''END:VCALENDAR''])) @ CRLF"
    using assms by (auto simp: buildCalendar_def calendar_lines_def bind_res_Inr_iff open_lines_def)
  have l2: "list_all2 (\<lambda>e ls. event_lines (formatDateTimeUtc (bc_dtstamp input)) e = Inr ls) (bc_events input) evs"
    using e by (simp add: map_res_Inr_iff)
  have "content_line l" if l: "l \<in> set (concat evs)" for l
  proof -
    obtain ls where "ls \<in> set evs" "l \<in> set ls" using l by auto
    then obtain e where "event_lines (formatDateTimeUtc (bc_dtstamp input)) e = Inr ls"
      using l2 by (auto simp: list_all2_conv_all_nth in_set_conv_nth)
    then show ?thesis using stamp_breakless \<open>l \<in> set ls\<close> by (rule event_lines_content)
  qed
  moreover have "content_line (''PRODID:'' @ escapeText (bc_prodId input))"
    by (auto intro!: content_lineI simp: breakless_Cons CR_def LF_def graphic_def less_eq_char_def)
  ultimately have c: "\<forall>l \<in> set (open_lines input evs). content_line l"
    by (auto intro!: content_lineI simp: open_lines_def breakless_Cons CR_def LF_def graphic_def less_eq_char_def)
  have "body = concat (map (\<lambda>l. foldLine l @ CRLF) (open_lines input evs)) @ ''END:VCALENDAR'' @ CRLF"
    unfolding b by (subst join_snoc_sep) (simp_all add: o_def foldLine_def)
  then show ?thesis using l2 c by (intro that) simp_all
qed

lemma unfold_buildCalendar:
  assumes "\<forall>l \<in> set ls. content_line l"
  shows "unfold (concat (map (\<lambda>l. foldLine l @ CRLF) ls) @ ''END:VCALENDAR'' @ CRLF) = ls @ [''END:VCALENDAR'', []]"
proof -
  have "unfold (''END:VCALENDAR'' @ CRLF) = [''END:VCALENDAR'', []]" by code_simp
  then show ?thesis using unfold_lines(1) [OF assms, of "''END:VCALENDAR'' @ CRLF"]
    by (simp add: line_start_def graphic_def less_eq_char_def)
qed

section \<open>Reading a serialised calendar\<close>

lemma splitLine_app:
  "CHR '':'' \<in> set left \<Longrightarrow> splitLine (left @ v) = map_option (\<lambda>(n, z, w). (n, z, w @ v)) (splitLine left)"
proof -
  assume a: "CHR '':'' \<in> set left"
  then have t: "takeWhile (\<lambda>c. c \<noteq> CHR '':'') (left @ v) = takeWhile (\<lambda>c. c \<noteq> CHR '':'') left"
    by (intro takeWhile_append1) auto
  have "length (takeWhile (\<lambda>c. c \<noteq> CHR '':'') left) < length left"
    using a by (metis (mono_tags, lifting) le_neq_implies_less length_takeWhile_le set_takeWhileD takeWhile_eq_take take_all_iff order_refl)
  with a t show ?thesis by (simp add: splitLine_def Let_def)
qed

definition plain_uid :: "string \<Rightarrow> bool" where
  "plain_uid s \<longleftrightarrow> s \<noteq> [] \<and> list_all (\<lambda>c. graphic c \<and> c \<notin> {CHR '';'', CHR '','', CHR 0x5C}) s"

lemma replace_char_absent: "c \<notin> set s \<Longrightarrow> replace_char c t s = s"
  by (induction s) (auto simp: replace_char_def)

lemma escape_breaks_breakless: "breakless s \<Longrightarrow> escape_breaks s = s"
  by (induction s rule: escape_breaks.induct) (auto simp: breakless_Cons)

lemma plain_uidD: "plain_uid s \<Longrightarrow> s \<noteq> [] \<and> list_all graphic s \<and> escapeText s = s"
proof -
  assume p: "plain_uid s"
  then have g: "list_all graphic s" "s \<noteq> []" by (auto simp: plain_uid_def list_all_iff)
  have "CHR '';'' \<notin> set s" "CHR '','' \<notin> set s" "CHR 0x5C \<notin> set s"
    using p by (auto simp: plain_uid_def list_all_iff)
  then have "escapeText s = s"
    using graphic_breakless [OF g(1)] by (simp add: escapeText_def replace_char_absent escape_breaks_breakless)
  with g show ?thesis by simp
qed

lemma compact_date:
  assumes "is_iso_date s"
  obtains t where "formatDate s = Inr t" "toIsoDate t zone = Some s" "list_all is_digit t"
proof -
  have f: "date_shape s" "valid_md (int (iso_year s)) (iso_month s) (iso_day s)" "length s = 10"
    using assms unfolding is_iso_date_def date_shape_def by blast+
  let ?t = "take 4 s @ take 2 (drop 5 s) @ take 2 (drop 8 s)"
  have t: "formatDate s = Inr ?t" using f by (simp add: formatDate_def)
  have d: "list_all is_digit ?t" using t by (rule formatDate_digits)
  have whole: "take 4 s @ ''-'' @ take 2 (drop 5 s) @ ''-'' @ take 2 (drop 8 s) = s"
    using assms by (elim iso_dateE) (simp add: fmt_date_def)
  have "?t = [] \<or> graphic (hd ?t)"
    using d by (cases ?t) (auto simp: digit_graphic)
  then have tr: "js_trimStart ?t = ?t" by (rule js_trimStart_graphic)
  have len: "length (take 4 s) = 4" "length (take 2 (drop 5 s)) = 2" "length (take 2 (drop 8 s)) = 2"
    using f(3) by simp_all
  have "toIsoDate ?t zone = Some s"
    using f(2) d whole len unfolding toIsoDate_def tr
    by (simp add: Let_def utc_time_def iso_year_def iso_month_def iso_day_def)
  from t this d show ?thesis by (rule that)
qed

lemma split_prefixes:
  "splitLine ''BEGIN:VCALENDAR'' = Some (''BEGIN'', None, ''VCALENDAR'')"
  "splitLine ''VERSION:2.0'' = Some (''VERSION'', None, ''2.0'')"
  "splitLine ''PRODID:'' = Some (''PRODID'', None, [])"
  "splitLine ''CALSCALE:GREGORIAN'' = Some (''CALSCALE'', None, ''GREGORIAN'')"
  "splitLine ''METHOD:PUBLISH'' = Some (''METHOD'', None, ''PUBLISH'')"
  "splitLine ''BEGIN:VEVENT'' = Some (''BEGIN'', None, ''VEVENT'')"
  "splitLine ''UID:'' = Some (''UID'', None, [])"
  "splitLine ''DTSTAMP:'' = Some (''DTSTAMP'', None, [])"
  "splitLine ''DTSTART;VALUE=DATE:'' = Some (''DTSTART'', None, [])"
  "splitLine ''DTEND;VALUE=DATE:'' = Some (''DTEND'', None, [])"
  "splitLine ''SUMMARY:'' = Some (''SUMMARY'', None, [])"
  "splitLine ''TRANSP:OPAQUE'' = Some (''TRANSP'', None, ''OPAQUE'')"
  "splitLine ''END:VEVENT'' = Some (''END'', None, ''VEVENT'')"
  "splitLine ''END:VCALENDAR'' = Some (''END'', None, ''VCALENDAR'')"
  "splitLine [] = None"
  by code_simp+

lemma upper_values:
  "js_upper (js_trim ''VEVENT'') = ''VEVENT''"
  "js_upper (js_trim ''VCALENDAR'') = ''VCALENDAR''"
  by code_simp+

lemma split_values:
  "splitLine (''PRODID:'' @ v) = Some (''PRODID'', None, v)"
  "splitLine (''UID:'' @ v) = Some (''UID'', None, v)"
  "splitLine (''DTSTAMP:'' @ v) = Some (''DTSTAMP'', None, v)"
  "splitLine (''DTSTART;VALUE=DATE:'' @ v) = Some (''DTSTART'', None, v)"
  "splitLine (''DTEND;VALUE=DATE:'' @ v) = Some (''DTEND'', None, v)"
  "splitLine (''SUMMARY:'' @ v) = Some (''SUMMARY'', None, v)"
  by (subst splitLine_app, simp, simp only: split_prefixes option.map prod.case append_Nil)+

lemma parse_structure [simp]:
  "parse_line zone ''BEGIN:VCALENDAR'' st = st" if "st_current st = None"
  using that by (simp add: parse_line_def split_prefixes upper_values collect_field_def)

lemma parse_ignored:
  "parse_line zone ''VERSION:2.0'' st = st" "parse_line zone (''PRODID:'' @ v) st = st"
  "parse_line zone ''CALSCALE:GREGORIAN'' st = st" "parse_line zone ''METHOD:PUBLISH'' st = st"
  "parse_line zone (''DTSTAMP:'' @ v) st = st" "parse_line zone (''SUMMARY:'' @ v) st = st"
  "parse_line zone ''TRANSP:OPAQUE'' st = st" "parse_line zone [] st = st"
  unfolding parse_line_def split_values split_prefixes
  by (simp_all add: collect_field_def Let_def split: option.split)

lemma parse_closing: "parse_line zone ''END:VCALENDAR'' st = st"
  unfolding parse_line_def split_prefixes
  by (simp add: collect_field_def Let_def upper_values split: option.split)

lemma parse_begin: "parse_line zone ''BEGIN:VEVENT'' st = st\<lparr>st_current := Some []\<rparr>"
  unfolding parse_line_def split_prefixes by (simp add: Let_def upper_values)

lemma parse_end: "parse_line zone ''END:VEVENT'' st =
    st\<lparr>st_current := None, st_events := st_events st @
      (case st_current st of None \<Rightarrow> []
       | Some flds \<Rightarrow> (case toEvent flds zone of None \<Rightarrow> [] | Some e \<Rightarrow> [e]))\<rparr>"
  unfolding parse_line_def split_prefixes by (simp add: Let_def upper_values)

lemma parse_field:
  "parse_line zone (''UID:'' @ v) st = collect_field zone ''UID'' None v st"
  "parse_line zone (''DTSTART;VALUE=DATE:'' @ v) st = collect_field zone ''DTSTART'' None v st"
  "parse_line zone (''DTEND;VALUE=DATE:'' @ v) st = collect_field zone ''DTEND'' None v st"
  unfolding parse_line_def split_values by (simp_all add: Let_def)

definition event_back :: "calendar_event \<Rightarrow> imported_event" where
  "event_back e = \<lparr>ie_uid = ce_uid e, ie_start = ce_start e, ie_end = ce_end e\<rparr>"

definition exportable :: "calendar_event \<Rightarrow> bool" where
  "exportable e \<longleftrightarrow> plain_uid (ce_uid e) \<and> is_iso_date (ce_start e) \<and> is_iso_date (ce_end e) \<and>
     ce_start e < ce_end e"

lemma toEvent_exported:
  assumes "exportable e" "toIsoDate a zone = Some (ce_start e)" "toIsoDate b zone = Some (ce_end e)"
  shows "toEvent [(''UID'', ce_uid e), (''DTSTART'', a), (''DTEND'', b)] zone = Some (event_back e)"
proof -
  have "js_trim (ce_uid e) = ce_uid e" "ce_uid e \<noteq> []" "\<not> ce_end e \<le> ce_start e"
    using assms(1) plain_uidD [of "ce_uid e"] by (auto simp: exportable_def js_trim_graphic)
  with assms(2,3) show ?thesis
    by (auto simp: toEvent_def event_back_def split: list.split)
qed

lemma parse_event_lines:
  assumes "exportable e" "event_lines stamp e = Inr ls"
  shows "parse_lines zone ls st = st\<lparr>st_current := None, st_events := st_events st @ [event_back e]\<rparr>"
proof -
  obtain a b where a: "formatDate (ce_start e) = Inr a" "toIsoDate a zone = Some (ce_start e)"
    and b: "formatDate (ce_end e) = Inr b" "toIsoDate b zone = Some (ce_end e)"
    using assms(1) compact_date [of "ce_start e" zone] compact_date [of "ce_end e" zone]
    unfolding exportable_def by metis
  have u: "escapeText (ce_uid e) = ce_uid e"
    using assms(1) plain_uidD by (simp add: exportable_def)
  have ls: "ls = [''BEGIN:VEVENT'', ''UID:'' @ ce_uid e, ''DTSTAMP:'' @ stamp,
      ''DTSTART;VALUE=DATE:'' @ a, ''DTEND;VALUE=DATE:'' @ b, ''SUMMARY:'' @ EVENT_SUMMARY,
      ''TRANSP:OPAQUE'', ''END:VEVENT'']"
    using assms(2) a(1) b(1) u by (simp add: event_lines_def)
  show ?thesis
    unfolding ls parse_lines_def fold.simps o_apply id_apply parse_begin parse_field parse_ignored parse_end
    using toEvent_exported [OF assms(1) a(2) b(2)]
    by (simp add: collect_field_def)
qed

lemma parse_events:
  assumes "list_all2 (\<lambda>e ls. event_lines stamp e = Inr ls) es evs" "\<forall>e \<in> set es. exportable e"
    and "st_current st = None"
  shows "parse_lines zone (concat evs) st = st\<lparr>st_events := st_events st @ map event_back es\<rparr>"
  using assms
proof (induction es evs arbitrary: st rule: list_all2_induct)
  case Nil
  then show ?case by (simp add: parse_lines_def)
next
  case (Cons e es ls evs)
  have "parse_lines zone (concat (ls # evs)) st = parse_lines zone (concat evs) (parse_lines zone ls st)"
    by (simp add: parse_lines_def)
  also have "\<dots> = parse_lines zone (concat evs)
      (st\<lparr>st_current := None, st_events := st_events st @ [event_back e]\<rparr>)"
    using Cons by (subst parse_event_lines) simp_all
  finally show ?case using Cons by simp
qed

lemma closing_seen: "js_upper (js_trim ''BEGIN:VCALENDAR'') = ''BEGIN:VCALENDAR''"
  "js_upper (js_trim ''END:VCALENDAR'') = ''END:VCALENDAR''"
  by code_simp+

lemma event_lines_total: "exportable e \<Longrightarrow> \<exists>ls. event_lines stamp e = Inr ls"
proof -
  assume "exportable e"
  then have "date_shape (ce_start e)" "date_shape (ce_end e)"
    by (auto simp: exportable_def is_iso_date_def date_shape_def)
  then show ?thesis by (simp add: event_lines_def formatDate_def)
qed

lemma buildCalendar_total:
  assumes "\<forall>e \<in> set (bc_events input). exportable e"
  shows "\<exists>body. buildCalendar input = Inr body"
proof -
  have "\<exists>evs. map_res (event_lines stamp) es = Inr evs" if "\<forall>e \<in> set es. exportable e" for stamp es
    using that
  proof (induction es)
    case (Cons e es)
    with event_lines_total [of e stamp] show ?case by auto
  qed simp
  from this [OF assms, of "formatDateTimeUtc (bc_dtstamp input)"] show ?thesis
    by (auto simp: buildCalendar_def calendar_lines_def)
qed

lemma parse_built:
  assumes "\<forall>e \<in> set (bc_events input). exportable e" "buildCalendar input = Inr body" "tz timeZone = Some parts"
  shows "parseCalendar tz body timeZone = Parse_ok (map event_back (bc_events input)) []"
proof -
  from assms(2) obtain evs where evs:
    "list_all2 (\<lambda>e ls. event_lines (formatDateTimeUtc (bc_dtstamp input)) e = Inr ls) (bc_events input) evs"
    "body = concat (map (\<lambda>l. foldLine l @ CRLF) (open_lines input evs)) @ ''END:VCALENDAR'' @ CRLF"
    "\<forall>l \<in> set (open_lines input evs). content_line l"
    by (rule buildCalendar_body)
  let ?zone = "\<lparr>zc_timeZone = timeZone, zc_parts = parts\<rparr>"
  have lines: "unfold body = open_lines input evs @ [''END:VCALENDAR'', []]"
    unfolding evs(2) by (rule unfold_buildCalendar [OF evs(3)])
  have t: "terminated (unfold body)"
    unfolding lines terminated_def by (simp add: open_lines_def closing_seen)
  have "parse_lines ?zone (unfold body) \<lparr>st_current = None, st_events = [], st_foreign = []\<rparr> =
      \<lparr>st_current = None, st_events = map event_back (bc_events input), st_foreign = []\<rparr>"
    using parse_events [OF evs(1) assms(1), of "\<lparr>st_current = None, st_events = [], st_foreign = []\<rparr>" ?zone]
    unfolding lines open_lines_def
    by (simp add: parse_lines_def parse_ignored [simplified] parse_closing)
  with t assms(3) show ?thesis by (simp add: parseCalendar_def zoneContext_def Let_def)
qed

section \<open>A feed cut short\<close>

text \<open>The lines a cut part of a folded line unfolds into: a part of the line, then nothing.\<close>

definition part_lines :: "string \<Rightarrow> string list \<Rightarrow> bool" where
  "part_lines l ls \<longleftrightarrow> (\<exists>q. prefix q l \<and> (ls = [q] \<or> ls = [q, []]))"

lemma split_part: "breakless q \<Longrightarrow> t \<in> {[], [CR], CRLF} \<Longrightarrow> split_lines (unfold_bare (q @ t)) \<in> {[q], [q, []]}"
proof -
  assume q: "breakless q" and t: "t \<in> {[], [CR], CRLF}"
  have nil: "split_lines q = [q]"
    using q
  proof (induction q)
    case (Cons c q)
    then show ?case by (cases q) (auto simp: breakless_Cons)
  qed simp
  have cr: "split_lines (q @ [CR]) = [q, []]"
    using q
  proof (induction q)
    case (Cons c q)
    then show ?case by (cases q) (auto simp: breakless_Cons)
  qed simp
  have "unfold_bare t = t" using t by (auto simp: CRLF_def)
  then have "unfold_bare (q @ t) = q @ t" using q by (simp add: unfold_bare_append)
  moreover have "split_lines (q @ CRLF) = [q, []]"
    using split_lines_append [OF q, of "[]"] by (simp add: CRLF_def)
  ultimately show ?thesis using t nil cr by auto
qed

lemma prefix_append_cases: "prefix p (a @ b) \<Longrightarrow> (prefix p a \<Longrightarrow> P) \<Longrightarrow> (\<And>q. p = a @ q \<Longrightarrow> prefix q b \<Longrightarrow> P) \<Longrightarrow> P"
  by (auto simp: prefix_append)

lemma breakless_prefix: "breakless l \<Longrightarrow> prefix q l \<Longrightarrow> breakless q"
  by (auto simp: breakless_def dest: set_mono_prefix)

lemma cut_pieces:
  assumes "prefix p (join (CRLF @ '' '') ps @ CRLF)" "ps \<noteq> []" "\<forall>q \<in> set ps. breakless q"
  shows "\<exists>q t. unfold_crlf p = q @ t \<and> prefix q (concat ps) \<and> t \<in> {[], [CR], CRLF}"
  using assms
proof (induction ps arbitrary: p)
  case (Cons x xs)
  let ?rest = "if xs = [] then CRLF else CRLF @ '' '' @ join (CRLF @ '' '') xs @ CRLF"
  have "join (CRLF @ '' '') (x # xs) @ CRLF = x @ ?rest"
    by (simp add: join_Cons)
  with Cons.prems(1) have "prefix p (x @ ?rest)" by simp
  then show ?case
  proof (rule prefix_append_cases)
    assume "prefix p x"
    moreover have "unfold_crlf p = p"
      using unfold_crlf_append [of p "[]"] breakless_prefix [OF _ \<open>prefix p x\<close>] Cons.prems(3) by simp
    ultimately have "unfold_crlf p = p @ [] \<and> prefix p (concat (x # xs)) \<and> [] \<in> {[], [CR], CRLF}"
      by (simp add: prefix_prefix)
    then show ?thesis by blast
  next
    fix r assume p: "p = x @ r" and r: "prefix r ?rest"
    have ux: "unfold_crlf p = x @ unfold_crlf r"
      using p Cons.prems(3) by (simp add: unfold_crlf_append)
    consider "r \<in> {[], [CR], CRLF}" | r' where "xs \<noteq> []" "r = CR # LF # CHR '' '' # r'" "prefix r' (join (CRLF @ '' '') xs @ CRLF)"
      using r by (cases "xs = []") (auto simp: CRLF_def prefix_Cons)
    then show ?thesis
    proof cases
      case 1
      then have "unfold_crlf r = r" by (auto simp: CRLF_def)
      with ux have "unfold_crlf p = x @ r \<and> prefix x (concat (x # xs)) \<and> r \<in> {[], [CR], CRLF}"
        using 1 by simp
      then show ?thesis by blast
    next
      case 2
      have "\<forall>q \<in> set xs. breakless q" using Cons.prems(3) by simp
      from Cons.IH [OF 2(3,1) this] obtain q t where "unfold_crlf r' = q @ t" "prefix q (concat xs)" "t \<in> {[], [CR], CRLF}"
        by blast
      then have "unfold_crlf p = (x @ q) @ t \<and> prefix (x @ q) (concat (x # xs)) \<and> t \<in> {[], [CR], CRLF}"
        using ux 2(2) by (simp add: blank_def)
      then show ?thesis by blast
    qed
  qed
qed simp

lemma cut_line:
  assumes "prefix p (foldLine l @ CRLF)" "breakless l"
  shows "part_lines l (unfold p)"
proof -
  obtain q t where q: "unfold_crlf p = q @ t" "prefix q l" "t \<in> {[], [CR], CRLF}"
    using cut_pieces [of p "line_pieces l"] assms breakless_pieces [OF assms(2)]
    by (auto simp: foldLine_pieces)
  then have "unfold p \<in> {[q], [q, []]}"
    unfolding unfold_def q(1) using assms(2) breakless_prefix by (intro split_part) blast+
  with q(2) show ?thesis by (auto simp: part_lines_def)
qed

lemma line_start_prefix: "line_start s \<Longrightarrow> prefix r s \<Longrightarrow> line_start r"
  by (cases r; cases s) (simp_all add: line_start_def)

lemma cut_lines:
  assumes "prefix p (concat (map (\<lambda>l. foldLine l @ CRLF) ls))" "\<forall>l \<in> set ls. content_line l"
    and "q \<in> set (unfold p)"
  shows "q = [] \<or> (\<exists>l \<in> set ls. prefix q l)"
  using assms
proof (induction ls arbitrary: p)
  case Nil
  then show ?case by (simp add: unfold_def)
next
  case (Cons l ls)
  have l: "breakless l" using Cons.prems(2) by (simp add: content_line_def)
  have "prefix p ((foldLine l @ CRLF) @ concat (map (\<lambda>l. foldLine l @ CRLF) ls))"
    using Cons.prems(1) by simp
  then show ?case
  proof (rule prefix_append_cases)
    assume "prefix p (foldLine l @ CRLF)"
    from cut_line [OF this l] Cons.prems(3) show ?thesis by (auto simp: part_lines_def)
  next
    fix r assume r: "p = (foldLine l @ CRLF) @ r" "prefix r (concat (map (\<lambda>l. foldLine l @ CRLF) ls))"
    have "line_start (concat (map (\<lambda>l. foldLine l @ CRLF) ls))"
      using unfold_lines(2) [of ls "[]"] Cons.prems(2) by (simp add: line_start_def)
    then have "line_start r" using r(2) by (rule line_start_prefix)
    with l have "unfold p = l # unfold r" by (simp add: r(1) unfold_line)
    with Cons.IH [OF r(2)] Cons.prems(2,3) show ?thesis by auto
  qed
qed

lemma list_all_prefix: "list_all P l \<Longrightarrow> prefix q l \<Longrightarrow> list_all P q"
  by (auto simp: prefix_def)

lemma code_points_graphic: "t = [] \<or> graphic (hd t) \<Longrightarrow> code_points (c # t) = [c] # code_points t"
  by (cases t) (auto dest: graphic_not_continuation)

lemma js_upper_graphic: "list_all graphic s \<Longrightarrow> js_upper s = to_upper s"
proof (induction s)
  case (Cons c s)
  then have "code_points (c # s) = [c] # code_points s"
    by (intro code_points_graphic) (cases s; simp)
  with Cons show ?case by (simp add: js_upper_def to_upper_def upper_point_def del: code_points.simps)
qed (simp add: js_upper_def to_upper_def)

definition closes :: "string \<Rightarrow> bool" where
  "closes l \<longleftrightarrow> js_upper (js_trim l) = ''END:VCALENDAR''"

lemma other_letter_not_closes:
  assumes "prefix q (c # d # u)" "graphic c" "graphic d" "to_upper1 c \<noteq> CHR ''E''"
  shows "\<not> closes q"
proof (cases q)
  case Nil
  then show ?thesis by (simp add: closes_def js_trim_def js_trimStart_def js_trimEnd_def js_upper_def)
next
  case (Cons a t)
  with assms(1) have q: "q = c # t" "prefix t (d # u)" by simp_all
  obtain t' where t': "js_trim q = c # t'" "prefix t' t"
    using js_trim_hd [OF assms(2)] q(1) by blast
  have "t' = [] \<or> graphic (hd t')"
    using t'(2) q(2) assms(3) by (cases t') (auto dest: prefix_order.trans)
  then have "js_upper (js_trim q) = to_upper1 c # js_upper t'"
    unfolding t'(1) js_upper_def by (simp add: code_points_graphic upper_point_def del: code_points.simps)
  with assms(4) show ?thesis by (simp add: closes_def)
qed

lemma short_not_closes:
  assumes "list_all graphic q" "length q \<noteq> 13"
  shows "\<not> closes q"
  using assms by (auto simp: closes_def js_trim_graphic js_upper_graphic to_upper_def dest: arg_cong [where f = length])

text \<open>Every line of the document but the closing ones starts with another letter.\<close>

definition letter_line :: "string \<Rightarrow> bool" where
  "letter_line l \<longleftrightarrow> (\<exists>c d u. l = c # d # u \<and> graphic c \<and> graphic d \<and> to_upper1 c \<noteq> CHR ''E'')"

lemma letter_lines [simp]:
  "letter_line ''BEGIN:VCALENDAR''" "letter_line ''VERSION:2.0''" "letter_line (''PRODID:'' @ v)"
  "letter_line ''CALSCALE:GREGORIAN''" "letter_line ''METHOD:PUBLISH''" "letter_line ''BEGIN:VEVENT''"
  "letter_line (''UID:'' @ v)" "letter_line (''DTSTAMP:'' @ v)" "letter_line (''DTSTART;VALUE=DATE:'' @ v)"
  "letter_line (''DTEND;VALUE=DATE:'' @ v)" "letter_line (''SUMMARY:'' @ v)" "letter_line ''TRANSP:OPAQUE''"
  by (simp_all add: letter_line_def graphic_def to_upper1_def less_eq_char_def)

lemma letter_line_not_closes: "letter_line l \<Longrightarrow> prefix q l \<Longrightarrow> \<not> closes q"
  unfolding letter_line_def by (elim exE conjE) (hypsubst, erule (3) other_letter_not_closes)

lemma prefix_not_closes:
  assumes "list_all2 (\<lambda>e ls. event_lines stamp e = Inr ls) es evs" "l \<in> set (open_lines input evs)" "prefix q l"
  shows "\<not> closes q"
proof -
  consider "letter_line l" | ls where "ls \<in> set evs" "l \<in> set ls"
    using assms(2) by (auto simp: open_lines_def simp del: append_Cons append_Nil)
  then show ?thesis
  proof cases
    case 1
    then show ?thesis using assms(3) by (rule letter_line_not_closes)
  next
    case 2
    then obtain e where "event_lines stamp e = Inr ls"
      using assms(1) by (auto simp: list_all2_conv_all_nth in_set_conv_nth)
    then obtain a b where ls: "ls = [''BEGIN:VEVENT'', ''UID:'' @ escapeText (ce_uid e), ''DTSTAMP:'' @ stamp,
      ''DTSTART;VALUE=DATE:'' @ a, ''DTEND;VALUE=DATE:'' @ b, ''SUMMARY:'' @ escapeText EVENT_SUMMARY,
      ''TRANSP:OPAQUE'', ''END:VEVENT'']"
      by (auto simp: event_lines_def bind_res_Inr_iff)
    consider "letter_line l" | "l = ''END:VEVENT''"
      using 2(2) letter_lines unfolding ls list.set by (elim insertE emptyE) metis+
    then show ?thesis
    proof cases
      case 1
      then show ?thesis using assms(3) by (rule letter_line_not_closes)
    next
      case 2
      then have "list_all graphic l" by (simp add: graphic_def less_eq_char_def)
      then have "list_all graphic q" using assms(3) by (rule list_all_prefix)
      moreover have "length q \<le> 10" using prefix_length_le [OF assms(3)] 2 by simp
      ultimately show ?thesis by (intro short_not_closes) simp_all
    qed
  qed
qed

lemma cut_feed_rejected:
  assumes "buildCalendar input = Inr body" "prefix p body" "length p < length body - 2"
  shows "\<not> terminated (unfold p)"
proof -
  from assms(1) obtain evs where evs:
    "list_all2 (\<lambda>e ls. event_lines (formatDateTimeUtc (bc_dtstamp input)) e = Inr ls) (bc_events input) evs"
    "body = concat (map (\<lambda>l. foldLine l @ CRLF) (open_lines input evs)) @ ''END:VCALENDAR'' @ CRLF"
    "\<forall>l \<in> set (open_lines input evs). content_line l"
    by (rule buildCalendar_body)
  let ?render = "concat (map (\<lambda>l. foldLine l @ CRLF) (open_lines input evs))"
  have unclosed: "\<not> closes q" if "q = [] \<or> (\<exists>l \<in> set (open_lines input evs). prefix q l)" for q
    using that prefix_not_closes [OF evs(1)] short_not_closes [of "[]"] by auto
  have "\<not> closes q" if q: "q \<in> set (unfold p)" for q
    using assms(2) unfolding evs(2)
  proof (rule prefix_append_cases)
    assume "prefix p ?render"
    from cut_lines [OF this evs(3) q] show ?thesis by (rule unclosed)
  next
    fix r assume r: "p = ?render @ r" "prefix r (''END:VCALENDAR'' @ CRLF)"
    then have len: "length r < 13" using assms(3) by (simp add: evs(2) CRLF_def)
    have e: "prefix r ''END:VCALENDAR''"
      using r(2) by (rule prefix_append_cases) (use len in auto)
    have g: "list_all graphic ''END:VCALENDAR''" by (simp add: graphic_def less_eq_char_def)
    then have gr: "list_all graphic r" using e by (rule list_all_prefix)
    then have "line_start r" by (cases r) (simp_all add: line_start_def)
    then have "unfold p = open_lines input evs @ unfold r"
      unfolding r(1) by (rule unfold_lines(1) [OF evs(3)])
    moreover have "unfold r \<in> {[r], [r, []]}"
      using split_part [OF graphic_breakless [OF gr], of "[]"] unfold_crlf_append [OF graphic_breakless [OF gr], of "[]"]
      by (simp add: unfold_def)
    ultimately consider "q \<in> set (open_lines input evs)" | "q = []" | "q = r" using q by auto
    then show ?thesis
      using unclosed [of q] short_not_closes [OF gr] len by cases auto
  qed
  then show ?thesis by (auto simp: terminated_def list_ex_iff closes_def)
qed

section \<open>What the parser lets through\<close>

lemma plus_year_first: "\<exists>u. iso_prefix (MS_PER_NIGHT * (last_day + 1)) = CHR ''+'' # u"
proof -
  have v: "valid_md 10000 1 1" by (simp add: valid_md_def month_defs)
  have "civil_days 10000 1 1 = last_day + 1"
    by (simp add: civil_days_def days_before_def day_from_year_def last_day_def)
  then have "civil_of_days (last_day + 1) = (10000, 1, 1)" using civil_of_civil_days [OF v] by simp
  moreover have "MS_PER_NIGHT * (last_day + 1) div MS_PER_NIGHT = last_day + 1"
    by (simp add: MS_PER_NIGHT_def)
  ultimately show ?thesis by (simp add: iso_prefix_def iso_year_str_def)
qed

lemma addOneDay_iso:
  assumes "is_iso_date s" "s < addOneDay s"
  shows "is_iso_date (addOneDay s)"
proof -
  obtain y m d where s: "y < 10000" "valid_md (int y) m d" "s = fmt_date y m d"
    "day_of s = civil_days (int y) m d"
    using assms(1) by (rule iso_dateE)
  have md: "1 \<le> m" "m \<le> 12" "1 \<le> d" "d \<le> 31"
    using s(2) valid_md_less [OF s(2)]
    by (auto simp: valid_md_def days_in_month_def month_days_def feb_days_def nth_Cons' split: if_splits)
  have flds: "iso_year s = y" "iso_month s = m" "iso_day s = d"
    using s(1,3) valid_md_less [OF s(2)] by (simp_all add: iso_fields)
  define y' where "y' = (if int y \<le> 99 then 1900 + int y else int y)"
  define n where "n = civil_days y' m 1 + int d"
  have nm: "Suc (nat ((int m - 1) mod 12)) = m" "(int m - 1) div 12 = 0" using md by auto
  have a: "addOneDay s = iso_prefix (MS_PER_NIGHT * n)"
    by (simp add: addOneDay_def Let_def flds n_def y'_def nm)
  have n: "n = day_from_year y' + days_before y' m + int d" by (simp add: n_def civil_days_def)
  have y': "0 \<le> y'" "int y \<le> 99 \<Longrightarrow> y' \<le> 2000" by (simp_all add: y'_def)
  have "day_from_year 0 = first_day" "day_from_year 2000 + 366 \<le> last_day"
    by (simp_all add: day_from_year_def first_day_def last_day_def)
  then have lo: "first_day \<le> n" and small: "int y \<le> 99 \<Longrightarrow> n \<le> last_day"
    using n md(3,4) days_before_bounds [OF md(1,2), of y'] day_from_year_mono [OF y'(1)]
      day_from_year_mono [OF y'(2)] by linarith+
  have big: "n = day_of s + 1" if "\<not> int y \<le> 99"
    using that s(4) by (simp add: n y'_def civil_days_def)
  have "n \<noteq> last_day + 1"
  proof
    assume e: "n = last_day + 1"
    then have "\<not> int y \<le> 99" using small by auto
    obtain v where "addOneDay s = CHR ''+'' # v" using a e plus_year_first by metis
    moreover obtain c u where c: "s = c # u" "is_digit c"
      using assms(1) by (cases s) (auto simp: is_iso_date_def)
    ultimately have "c \<le> CHR ''+''" using assms(2) by auto
    with c(2) show False by (auto simp: is_digit_def less_eq_char_def)
  qed
  then have "n \<le> last_day" using small big day_of_range [OF assms(1)] by linarith
  with lo show ?thesis unfolding a by (rule date_of_day(1))
qed

lemma toIsoDate_iso:
  assumes "zones_lawful tz" "zoneContext tz timeZone = Some zone" "toIsoDate value zone = Some s"
  shows "is_iso_date s"
proof -
  define v where "v = js_trimStart value"
  define y mo d where "y = take 4 v" "mo = take 2 (drop 4 v)" "d = take 2 (drop 6 v)"
  have v: "length v \<ge> 8" "list_all is_digit (take 8 v)" "valid_md (int (num y)) (num mo) (num d)"
    using assms(3) by (auto simp: toIsoDate_def v_def y_mo_d_def Let_def split: if_splits)
  have len: "length y = 4" "length mo = 2" "length d = 2" using v(1) by (simp_all add: y_mo_d_def)
  have "take 8 v = y @ mo @ d"
    using take_add [of 4 4 v] take_add [of 2 2 "drop 4 v"] by (simp add: y_mo_d_def)
  then have dig: "list_all is_digit y" "list_all is_digit mo" "list_all is_digit d" using v(2) by simp_all
  consider "s = y @ ''-'' @ mo @ ''-'' @ d" | t where "s = toLocalDate zone t" "date_shape s"
    using assms(3) unfolding toIsoDate_def v_def [symmetric] Let_def y_mo_d_def [symmetric]
    by (auto split: if_splits option.splits)
  then show ?thesis
  proof cases
    case 1
    then show ?thesis
      using v(3) dig len by (simp add: is_iso_date_def iso_year_def iso_month_def iso_day_def)
  next
    case 2
    obtain a b c where p: "zc_parts zone t = (a, b, c)" by (cases "zc_parts zone t")
    have "tz timeZone = Some (zc_parts zone)" using assms(2) by (auto simp: zoneContext_def)
    with assms(1) p 2 show ?thesis by (auto simp: zones_lawful_def toLocalDate_def)
  qed
qed

lemma toEvent_ok:
  assumes "zones_lawful tz" "zoneContext tz timeZone = Some zone" "toEvent flds zone = Some e"
  shows "event_ok e"
proof -
  have st: "\<exists>rawStart. toIsoDate rawStart zone = Some (ie_start e)"
    and en: "ie_end e = addOneDay (ie_start e) \<or> (\<exists>rawEnd. toIsoDate rawEnd zone = Some (ie_end e))"
    and rest: "ie_uid e \<noteq> []" "ie_start e < ie_end e"
    using assms(3) by (auto simp: toEvent_def not_le split: option.splits list.splits if_splits)
  have f: "is_iso_date (ie_start e)" using st toIsoDate_iso [OF assms(1,2)] by blast
  moreover have "is_iso_date (ie_end e)"
    using en
  proof
    assume "ie_end e = addOneDay (ie_start e)"
    with addOneDay_iso [OF f] rest(2) show ?thesis by simp
  qed (auto intro: toIsoDate_iso [OF assms(1,2)])
  ultimately show ?thesis using rest by (simp add: event_ok_def)
qed

lemma parse_line_events:
  "st_events (parse_line zone l st) = st_events st \<or>
   (\<exists>flds e. toEvent flds zone = Some e \<and> st_events (parse_line zone l st) = st_events st @ [e])"
  by (auto simp: parse_line_def collect_field_def Let_def split: option.split)

lemma parse_line_ok:
  assumes "\<forall>e \<in> set (st_events st). event_ok e" "\<And>flds e. toEvent flds zone = Some e \<Longrightarrow> event_ok e"
  shows "\<forall>e \<in> set (st_events (parse_line zone l st)). event_ok e"
  using parse_line_events [of zone l st] assms by (elim disjE exE conjE) simp_all

lemma parse_lines_ok:
  assumes "zones_lawful tz" "zoneContext tz timeZone = Some zone" "\<forall>e \<in> set (st_events st). event_ok e"
  shows "\<forall>e \<in> set (st_events (parse_lines zone ls st)). event_ok e"
  using assms(3)
proof (induction ls arbitrary: st)
  case (Cons l ls)
  have "\<forall>e \<in> set (st_events (parse_line zone l st)). event_ok e"
    using Cons.prems toEvent_ok [OF assms(1,2)] by (rule parse_line_ok)
  from Cons.IH [OF this] show ?case by (simp add: parse_lines_def)
qed (simp add: parse_lines_def)

lemma parsed_events_ok:
  assumes "zones_lawful tz" "parseCalendar tz body timeZone = Parse_ok es foreign"
  shows "\<forall>e \<in> set es. event_ok e"
proof -
  obtain zone where z: "zoneContext tz timeZone = Some zone"
    and es: "es = st_events (parse_lines zone (unfold body) \<lparr>st_current = None, st_events = [], st_foreign = []\<rparr>)"
    using assms(2) by (auto simp: parseCalendar_def Let_def split: option.splits if_splits)
  show ?thesis unfolding es by (rule parse_lines_ok [OF assms(1) z]) simp
qed

end
