(* ===== verification/Ical_Import.thy ===== *)
theory Ical_Import
  imports Ical_Rules Bookings
begin

text \<open>
  The import pipeline, \<^verbatim>\<open>apps/api/src/channel-sync/ical-import.service.ts\<close>, on the owner connection:
  one connection's feed is fetched, parsed in the property's zone, and reconciled in one transaction
  with a savepoint per event. The environment of one sync supplies the fetcher's answer, the time zone
  database, the process clock (\<^verbatim>\<open>new Date()\<close>), the database clock and the fresh ids.
\<close>

section \<open>The conflict table\<close>

definition conflict_violation :: "db \<Rightarrow> conflict_row list \<Rightarrow> conflict_row \<Rightarrow> string option" where
  "conflict_violation d rows r =
     (if \<not> sc_checkOut r > sc_checkIn r then Some ''sync_conflict_stay_nonempty''
      else if \<exists>q \<in> set rows. sc_id q \<noteq> sc_id r \<and> sc_externalUid q = sc_externalUid r \<and>
                sc_channelConnectionId q = sc_channelConnectionId r
      then Some ''sync_conflict_connection_uid_uniq''
      else if \<not> (\<exists>c \<in> set (channels d). ch_id c = sc_channelConnectionId r)
      then Some ''sync_conflict_channel_connection_id_channel_connection_id_fk''
      else if \<not> (\<exists>u \<in> set (units d). u_id u = sc_unitId r \<and> u_tenantId u = sc_tenantId r)
      then Some ''sync_conflict_unit_tenant_fk''
      else None)"

definition insert_conflict :: "conflict_row \<Rightarrow> db \<Rightarrow> app_error + db" where
  "insert_conflict r d =
     (let rows = sync_conflicts d @ [r] in
      if \<exists>q \<in> set (sync_conflicts d). sc_id q = sc_id r then Inl (DbError ''sync_conflict_pkey'')
      else case conflict_violation d rows r of
        Some c \<Rightarrow> Inl (DbError c)
      | None \<Rightarrow> Inr (d\<lparr>sync_conflicts := rows\<rparr>))"

definition update_conflicts ::
  "(conflict_row \<Rightarrow> bool) \<Rightarrow> (conflict_row \<Rightarrow> conflict_row) \<Rightarrow> db \<Rightarrow> app_error + db" where
  "update_conflicts P f d =
     (let rows = update_where P f (sync_conflicts d) in
      case first_violation (conflict_violation d rows) (map f (filter P (sync_conflicts d))) of
        Some c \<Rightarrow> Inl (DbError c)
      | None \<Rightarrow> Inr (d\<lparr>sync_conflicts := rows\<rparr>))"

section \<open>What a sync is given and answers\<close>

record fetch_result =
  fr_ok :: bool
  fr_body :: "string option"
  fr_error :: "string option"

record sync_env =
  se_fetchFeed :: "string \<Rightarrow> fetch_result"
  se_tz :: zone_db
  se_now :: instant
  se_dbNow :: instant
  se_bookingId :: "nat \<Rightarrow> uuid"
  se_conflictId :: "nat \<Rightarrow> uuid"

record sync_outcome =
  so_status :: sync_status
  so_lastSyncedAt :: "instant option"
  so_lastError :: "string option"
  so_imported :: nat
  so_cancelled :: nat
  so_conflicts :: nat

definition OVERLAP_CONSTRAINT :: string where
  "OVERLAP_CONSTRAINT = ''booking_no_overlap''"

section \<open>One event\<close>

definition from_feed :: "channel_row \<Rightarrow> string \<Rightarrow> booking_row \<Rightarrow> bool" where
  "from_feed conn uid b \<longleftrightarrow> bk_channelConnectionId b = Some (ch_id conn) \<and> bk_externalUid b = Some uid"

definition imported_row :: "channel_row \<Rightarrow> instant \<Rightarrow> uuid \<Rightarrow> imported_event \<Rightarrow> booking_row" where
  "imported_row conn now newId e =
     \<lparr>bk_id = newId, bk_tenantId = ch_tenantId conn, bk_unitId = ch_unitId conn,
      bk_source = ch_channel conn, bk_status = Confirmed, bk_checkIn = ie_start e, bk_checkOut = ie_end e,
      bk_guestName = None, bk_guestPhone = None, bk_guestEmail = None, bk_guestCount = None,
      bk_totalPriceIdr = None, bk_externalUid = Some (ie_uid e),
      bk_channelConnectionId = Some (ch_id conn), bk_holdExpiresAt = None, bk_createdAt = now\<rparr>"

definition restay :: "imported_event \<Rightarrow> booking_row \<Rightarrow> booking_row" where
  "restay e b = b\<lparr>bk_checkIn := ie_start e, bk_checkOut := ie_end e, bk_status := Confirmed\<rparr>"

text \<open>
  \<^verbatim>\<open>INSERT ... ON CONFLICT (channel_connection_id, external_uid) DO UPDATE\<close>: the proposed row is checked
  first, then the arbiter index decides between the update and the insert.
\<close>

definition upsertEvent :: "channel_row \<Rightarrow> instant \<Rightarrow> uuid \<Rightarrow> imported_event \<Rightarrow> db \<Rightarrow> app_error + db" where
  "upsertEvent conn now newId e d =
     (case booking_check (imported_row conn now newId e) of
        Some c \<Rightarrow> Inl (DbError c)
      | None \<Rightarrow>
          if \<exists>b \<in> set (bookings d). from_feed conn (ie_uid e) b
          then update_booking (from_feed conn (ie_uid e)) (restay e) d
          else bind_res (insert_booking (imported_row conn now newId e) d) (\<lambda>d'.
            if \<exists>c \<in> set (channels d). ch_id c = ch_id conn then Inr d'
            else Inl (DbError ''booking_channel_connection_id_channel_connection_id_fk'')))"

definition conflict_of :: "channel_row \<Rightarrow> string \<Rightarrow> conflict_row \<Rightarrow> bool" where
  "conflict_of conn uid c \<longleftrightarrow> sc_channelConnectionId c = ch_id conn \<and> sc_externalUid c = uid"

definition conflict_entry :: "channel_row \<Rightarrow> instant \<Rightarrow> uuid \<Rightarrow> imported_event \<Rightarrow> conflict_row" where
  "conflict_entry conn now newId e =
     \<lparr>sc_id = newId, sc_tenantId = ch_tenantId conn, sc_channelConnectionId = ch_id conn,
      sc_unitId = ch_unitId conn, sc_externalUid = ie_uid e, sc_checkIn = ie_start e,
      sc_checkOut = ie_end e, sc_status = Conf_open, sc_firstDetectedAt = now, sc_lastSeenAt = now,
      sc_closedAt = None\<rparr>"

definition redetected :: "instant \<Rightarrow> imported_event \<Rightarrow> conflict_row \<Rightarrow> conflict_row" where
  "redetected now e c =
     c\<lparr>sc_checkIn := ie_start e, sc_checkOut := ie_end e, sc_lastSeenAt := now,
       sc_status := (if sc_status c = Conf_resolved then Conf_open else sc_status c),
       sc_closedAt := (if sc_status c = Conf_resolved then None else sc_closedAt c)\<rparr>"

text \<open>\<^verbatim>\<open>recordConflict\<close>: a savepoint of its own; a failure to file is logged and swallowed.\<close>

definition recordConflict :: "channel_row \<Rightarrow> instant \<Rightarrow> uuid \<Rightarrow> imported_event \<Rightarrow> db \<Rightarrow> db" where
  "recordConflict conn now newId e d =
     (let r = conflict_entry conn now newId e in
      case (if \<not> sc_checkOut r > sc_checkIn r then Inl (DbError ''sync_conflict_stay_nonempty'')
            else if \<exists>c \<in> set (sync_conflicts d). conflict_of conn (ie_uid e) c
            then update_conflicts (conflict_of conn (ie_uid e)) (redetected now e) d
            else insert_conflict r d) of
        Inl err \<Rightarrow> d
      | Inr d' \<Rightarrow> d')"

section \<open>One connection\<close>

record sync_state =
  sy_db :: db
  sy_index :: nat
  sy_imported :: nat
  sy_conflicts :: nat
  sy_notImported :: "string list"

definition sync_event :: "sync_env \<Rightarrow> channel_row \<Rightarrow> imported_event \<Rightarrow> sync_state \<Rightarrow> sync_state" where
  "sync_event env conn e s =
     (let k = sy_index s in
      case upsertEvent conn (se_dbNow env) (se_bookingId env k) e (sy_db s) of
        Inr d' \<Rightarrow> s\<lparr>sy_db := d', sy_index := Suc k, sy_imported := Suc (sy_imported s)\<rparr>
      | Inl err \<Rightarrow>
          let s' = s\<lparr>sy_index := Suc k, sy_notImported := sy_notImported s @ [ie_uid e]\<rparr> in
          if err = DbError OVERLAP_CONSTRAINT
          then s'\<lparr>sy_db := recordConflict conn (se_now env) (se_conflictId env k) e (sy_db s),
                  sy_conflicts := Suc (sy_conflicts s)\<rparr>
          else s')"

definition absent :: "channel_row \<Rightarrow> imported_event list \<Rightarrow> booking_row \<Rightarrow> bool" where
  "absent conn events b \<longleftrightarrow>
     bk_channelConnectionId b = Some (ch_id conn) \<and> bk_tenantId b = ch_tenantId conn \<and>
     bk_status b = Confirmed \<and>
     (case bk_externalUid b of None \<Rightarrow> False | Some uid \<Rightarrow> uid \<notin> set (map ie_uid events))"

definition cancelAbsent :: "channel_row \<Rightarrow> imported_event list \<Rightarrow> db \<Rightarrow> app_error + (nat \<times> db)" where
  "cancelAbsent conn events d =
     (if events = [] then Inr (0, d)
      else bind_res (update_booking (absent conn events) (set_status Cancelled) d)
        (\<lambda>d'. Inr (length (filter (absent conn events) (bookings d)), d')))"

definition healed :: "channel_row \<Rightarrow> string list \<Rightarrow> conflict_row \<Rightarrow> bool" where
  "healed conn notImported c \<longleftrightarrow>
     sc_channelConnectionId c = ch_id conn \<and> sc_tenantId c = ch_tenantId conn \<and>
     sc_status c = Conf_open \<and> (notImported \<noteq> [] \<longrightarrow> sc_externalUid c \<notin> set notImported)"

definition closeHealed ::
  "channel_row \<Rightarrow> imported_event list \<Rightarrow> string list \<Rightarrow> instant \<Rightarrow> db \<Rightarrow> app_error + db" where
  "closeHealed conn events notImported now d =
     (if events = [] then Inr d
      else update_conflicts (healed conn notImported)
        (\<lambda>c. c\<lparr>sc_status := Conf_resolved, sc_closedAt := Some now\<rparr>) d)"

definition update_channels :: "(channel_row \<Rightarrow> bool) \<Rightarrow> (channel_row \<Rightarrow> channel_row) \<Rightarrow> db \<Rightarrow> db" where
  "update_channels P f d = d\<lparr>channels := update_where P f (channels d)\<rparr>"

definition this_connection :: "channel_row \<Rightarrow> channel_row \<Rightarrow> bool" where
  "this_connection conn c \<longleftrightarrow> ch_id c = ch_id conn \<and> ch_tenantId c = ch_tenantId conn"

definition markError :: "channel_row \<Rightarrow> string \<Rightarrow> db \<Rightarrow> sync_outcome \<times> db" where
  "markError conn err d =
     (\<lparr>so_status = Sync_error, so_lastSyncedAt = ch_lastSyncedAt conn, so_lastError = Some err,
       so_imported = 0, so_cancelled = 0, so_conflicts = 0\<rparr>,
      update_channels (this_connection conn)
        (\<lambda>c. c\<lparr>ch_lastStatus := Sync_error, ch_lastError := Some err\<rparr>) d)"

definition resolveTimeZone :: "channel_row \<Rightarrow> db \<Rightarrow> string option" where
  "resolveTimeZone conn d =
     map_option (\<lambda>(u, p). p_timeZone p)
       (select_one (\<lambda>(u, p). u_propertyId u = p_id p \<and> u_id u = ch_unitId conn \<and>
            u_tenantId u = ch_tenantId conn \<and> p_tenantId p = ch_tenantId conn)
          (List.product (units d) (properties d)))"

text \<open>The healthy branch, one transaction.\<close>

definition reconcile_feed ::
  "sync_env \<Rightarrow> channel_row \<Rightarrow> imported_event list \<Rightarrow> db \<Rightarrow> app_error + (sync_outcome \<times> db)" where
  "reconcile_feed env conn events d =
     (let s = fold (sync_event env conn) events
            \<lparr>sy_db = d, sy_index = 0, sy_imported = 0, sy_conflicts = 0, sy_notImported = []\<rparr> in
      bind_res (cancelAbsent conn events (sy_db s)) (\<lambda>(cancelled, d1).
      bind_res (closeHealed conn events (sy_notImported s) (se_now env) d1) (\<lambda>d2.
        Inr (\<lparr>so_status = Sync_ok, so_lastSyncedAt = Some (se_now env), so_lastError = None,
              so_imported = sy_imported s, so_cancelled = cancelled, so_conflicts = sy_conflicts s\<rparr>,
             update_channels (this_connection conn)
               (\<lambda>c. c\<lparr>ch_lastStatus := Sync_ok, ch_lastSyncedAt := Some (se_now env), ch_lastError := None\<rparr>) d2))))"

definition syncConnection :: "sync_env \<Rightarrow> channel_row \<Rightarrow> db \<Rightarrow> app_error + (sync_outcome \<times> db)" where
  "syncConnection env conn d =
     (let fetched = se_fetchFeed env (ch_importIcalUrl conn);
          failed = (\<lambda>err. Inr (markError conn err d)) in
      if \<not> fr_ok fetched then failed (case fr_error fetched of Some m \<Rightarrow> m | None \<Rightarrow> ''Feed is unreachable'')
      else case fr_body fetched of
        None \<Rightarrow> failed (case fr_error fetched of Some m \<Rightarrow> m | None \<Rightarrow> ''Feed is unreachable'')
      | Some body \<Rightarrow>
          (case resolveTimeZone conn d of
             None \<Rightarrow> failed ''Unit or property no longer exists''
           | Some timeZone \<Rightarrow>
               (case parseCalendar (se_tz env) body timeZone of
                  Parse_error err \<Rightarrow> failed err
                | Parse_ok events foreign \<Rightarrow> reconcile_feed env conn events d)))"

text \<open>The cron: every connection of the snapshot, a crash of one isolated from the rest.\<close>

definition syncAllConnections :: "(uuid \<Rightarrow> sync_env) \<Rightarrow> db \<Rightarrow> db" where
  "syncAllConnections envs d =
     fold (\<lambda>conn d. case syncConnection (envs (ch_id conn)) conn d of
             Inl err \<Rightarrow> d | Inr (outcome, d') \<Rightarrow> d') (channels d) d"

text \<open>\<^verbatim>\<open>IcalImportSweeperService.sweep\<close>: a tick that finds the last sweep still running is skipped.\<close>

definition import_sweep :: "bool \<Rightarrow> (uuid \<Rightarrow> sync_env) \<Rightarrow> db \<Rightarrow> db" where
  "import_sweep running envs d = (if running then d else syncAllConnections envs d)"

end
