(* ===== verification/Channels.thy ===== *)
theory Channels
  imports Ical_Import Units
begin

text \<open>
  The owner's side of calendar sync: \<^verbatim>\<open>channels.repository.ts\<close>, \<^verbatim>\<open>channels.service.ts\<close>,
  \<^verbatim>\<open>sync-freshness.ts\<close> and the public \<^verbatim>\<open>ical-export.service.ts\<close>. A connection is made (with one
  smoke fetch), listed with its health, pulled now, and disconnected; a unit's confirmed stays are
  published as a calendar.
\<close>

section \<open>Freshness\<close>

definition IMPORT_SWEEP_INTERVAL_MINUTES :: int where
  "IMPORT_SWEEP_INTERVAL_MINUTES = 30"

definition SYNC_STALE_AFTER_MINUTES :: int where
  "SYNC_STALE_AFTER_MINUTES = 3 * IMPORT_SWEEP_INTERVAL_MINUTES"

definition staleCutoff :: "instant \<Rightarrow> instant" where
  "staleCutoff now = now - SYNC_STALE_AFTER_MINUTES * 60000"

definition isStale :: "instant option \<Rightarrow> instant \<Rightarrow> bool" where
  "isStale lastSyncedAt now =
     (case lastSyncedAt of None \<Rightarrow> False | Some t \<Rightarrow> t < staleCutoff now)"

section \<open>The repository\<close>

definition unitExists :: "db \<Rightarrow> session \<Rightarrow> uuid \<Rightarrow> bool" where
  "unitExists d s unitId \<longleftrightarrow>
     select_one (\<lambda>u. rls_unit d s u \<and> u_id u = unitId \<and> u_tenantId u = s_tenantId s) (units d) \<noteq> None"

definition findByUnitAndChannel :: "db \<Rightarrow> session \<Rightarrow> uuid \<Rightarrow> booking_source \<Rightarrow> channel_row option" where
  "findByUnitAndChannel d s unitId channel =
     select_one (\<lambda>c. rls_channel d s c \<and> ch_unitId c = unitId \<and> ch_channel c = channel \<and>
       ch_tenantId c = s_tenantId s) (channels d)"

definition channel_violation :: "db \<Rightarrow> channel_row list \<Rightarrow> channel_row \<Rightarrow> string option" where
  "channel_violation d rows r =
     (if \<exists>q \<in> set rows. ch_id q \<noteq> ch_id r \<and> ch_unitId q = ch_unitId r \<and> ch_channel q = ch_channel r
      then Some ''channel_connection_unit_channel_uniq''
      else if \<not> (\<exists>u \<in> set (units d). u_id u = ch_unitId r \<and> u_tenantId u = ch_tenantId r)
      then Some ''channel_connection_unit_tenant_fk''
      else None)"

definition insert_channel :: "session \<Rightarrow> channel_row \<Rightarrow> db \<Rightarrow> app_error + db" where
  "insert_channel s r d =
     (if \<not> rls_channel d s r then Inl (DbError ''row-level security'')
      else if \<exists>q \<in> set (channels d). ch_id q = ch_id r then Inl (DbError ''channel_connection_pkey'')
      else case channel_violation d (channels d @ [r]) r of
        Some c \<Rightarrow> Inl (DbError c)
      | None \<Rightarrow> Inr (d\<lparr>channels := channels d @ [r]\<rparr>))"

definition findConnectionsByUnit :: "db \<Rightarrow> session \<Rightarrow> uuid \<Rightarrow> channel_row list" where
  "findConnectionsByUnit d s unitId =
     sort_key (\<lambda>c. (ch_createdAt c, ch_id c))
       (filter (\<lambda>c. rls_channel d s c \<and> ch_unitId c = unitId \<and> ch_tenantId c = s_tenantId s) (channels d))"

definition findAllVisible :: "db \<Rightarrow> session \<Rightarrow> channel_row list" where
  "findAllVisible d s =
     sort_key (\<lambda>c. (ch_createdAt c, ch_id c))
       (filter (\<lambda>c. rls_channel d s c \<and> ch_tenantId c = s_tenantId s) (channels d))"

record sync_health_row =
  sh_feeds :: nat
  sh_erroring :: nat
  sh_stale :: nat
  sh_neverSynced :: nat
  sh_oldestSyncedAt :: "instant option"

fun sql_min :: "instant option list \<Rightarrow> instant option" where
  "sql_min [] = None"
| "sql_min (None # xs) = sql_min xs"
| "sql_min (Some t # xs) = (case sql_min xs of None \<Rightarrow> Some t | Some u \<Rightarrow> Some (min t u))"

definition syncHealth_row :: "db \<Rightarrow> session \<Rightarrow> instant \<Rightarrow> sync_health_row" where
  "syncHealth_row d s staleBefore =
     (let rows = filter (\<lambda>c. rls_channel d s c \<and> ch_tenantId c = s_tenantId s) (channels d) in
      \<lparr>sh_feeds = length rows,
       sh_erroring = length (filter (\<lambda>c. ch_lastStatus c = Sync_error) rows),
       sh_stale = length (filter (\<lambda>c. case ch_lastSyncedAt c of None \<Rightarrow> False | Some t \<Rightarrow> t < staleBefore) rows),
       sh_neverSynced = length (filter (\<lambda>c. ch_lastSyncedAt c = None) rows),
       sh_oldestSyncedAt = sql_min (map ch_lastSyncedAt rows)\<rparr>)"

definition findConnectionById :: "db \<Rightarrow> session \<Rightarrow> uuid \<Rightarrow> channel_row option" where
  "findConnectionById d s cid =
     select_one (\<lambda>c. rls_channel d s c \<and> ch_id c = cid \<and> ch_tenantId c = s_tenantId s) (channels d)"

definition countImportedBookings :: "db \<Rightarrow> session \<Rightarrow> uuid \<Rightarrow> nat" where
  "countImportedBookings d s cid =
     length (filter (\<lambda>b. rls_booking d s b \<and> bk_channelConnectionId b = Some cid \<and>
       bk_tenantId b = s_tenantId s) (bookings d))"

text \<open>The grouped count, as the function the service looks up in.\<close>

definition countOpenConflictsByUnit :: "db \<Rightarrow> session \<Rightarrow> uuid \<Rightarrow> uuid \<Rightarrow> nat" where
  "countOpenConflictsByUnit d s unitId cid =
     length (filter (\<lambda>c. rls_conflict d s c \<and> sc_unitId c = unitId \<and> sc_tenantId c = s_tenantId s \<and>
       sc_status c = Conf_open \<and> sc_channelConnectionId c = cid) (sync_conflicts d))"

definition delete_connection :: "db \<Rightarrow> session \<Rightarrow> uuid \<Rightarrow> db" where
  "delete_connection d s cid =
     delete_channels (\<lambda>c. rls_channel d s c \<and> ch_id c = cid \<and> ch_tenantId c = s_tenantId s) d"

definition findConfirmedBookingsForExport :: "db \<Rightarrow> session \<Rightarrow> date \<Rightarrow> uuid \<Rightarrow> booking_row list" where
  "findConfirmedBookingsForExport d s currentDate unitId =
     sort_key (\<lambda>b. (bk_checkIn b, bk_id b))
       (filter (\<lambda>b. rls_booking d s b \<and> bk_unitId b = unitId \<and> bk_tenantId b = s_tenantId s \<and>
          bk_status b = Confirmed \<and> bk_checkOut b \<ge> currentDate) (bookings d))"

section \<open>The service\<close>

record channel_response =
  cc_id :: uuid
  cc_unitId :: uuid
  cc_channel :: booking_source
  cc_importIcalUrl :: string
  cc_lastSyncedAt :: "instant option"
  cc_lastStatus :: sync_status
  cc_lastError :: "string option"
  cc_stale :: bool
  cc_openConflicts :: nat
  cc_createdAt :: instant

definition channelSchema :: "booking_source \<Rightarrow> bool" where
  "channelSchema c \<longleftrightarrow> c \<in> {Airbnb, Booking_com, Vrbo}"

definition channel_toResponse :: "channel_row \<Rightarrow> nat \<Rightarrow> instant \<Rightarrow> app_error + channel_response" where
  "channel_toResponse row openConflicts now =
     (if \<not> channelSchema (ch_channel row) then Inl (JsError ''Invalid enum value'')
      else Inr \<lparr>cc_id = ch_id row, cc_unitId = ch_unitId row, cc_channel = ch_channel row,
        cc_importIcalUrl = ch_importIcalUrl row, cc_lastSyncedAt = ch_lastSyncedAt row,
        cc_lastStatus = ch_lastStatus row, cc_lastError = ch_lastError row,
        cc_stale = isStale (ch_lastSyncedAt row) now, cc_openConflicts = openConflicts,
        cc_createdAt = ch_createdAt row\<rparr>)"

record create_channel_request =
  cq_channel :: booking_source
  cq_importIcalUrl :: string

record probe_result =
  pb_ok :: bool
  pb_error :: "string option"

definition connection_row ::
  "uuid \<Rightarrow> uuid \<Rightarrow> instant \<Rightarrow> uuid \<Rightarrow> create_channel_request \<Rightarrow> probe_result \<Rightarrow> channel_row" where
  "connection_row newId tenantId now unitId dto probe =
     \<lparr>ch_id = newId, ch_unitId = unitId, ch_tenantId = tenantId, ch_channel = cq_channel dto,
      ch_importIcalUrl = cq_importIcalUrl dto,
      ch_lastSyncedAt = (if pb_ok probe then Some now else None),
      ch_lastStatus = (if pb_ok probe then Sync_ok else Sync_error), ch_lastError = pb_error probe,
      ch_createdAt = now\<rparr>"

definition connect ::
  "tenant_context \<Rightarrow> (string \<Rightarrow> probe_result) \<Rightarrow> instant \<Rightarrow> uuid \<Rightarrow> uuid \<Rightarrow> create_channel_request \<Rightarrow> db \<Rightarrow>
     app_error + (channel_response \<times> db)" where
  "connect ctx probe now newId unitId dto d =
     intercept
       (bind_res (db_run ctx None (\<lambda>tx. Inr (unitExists d (tx_session tx) unitId))) (\<lambda>known.
        if \<not> known then Inl (NotFound ''Unit not found'')
        else bind_res (db_run ctx None (\<lambda>tx.
               Inr (findByUnitAndChannel d (tx_session tx) unitId (cq_channel dto)))) (\<lambda>existing.
        if existing \<noteq> None then Inl (Conflict Channel_already_connected)
        else bind_res (db_run ctx None (\<lambda>tx.
               let row = connection_row newId (s_tenantId (tx_session tx)) now unitId dto (probe (cq_importIcalUrl dto))
               in bind_res (insert_channel (tx_session tx) row d) (\<lambda>d'. Inr (row, d')))) (\<lambda>(row, d').
        bind_res (channel_toResponse row 0 now) (\<lambda>r. Inr (r, d'))))))"

definition list_connections :: "tenant_context \<Rightarrow> instant \<Rightarrow> uuid \<Rightarrow> db \<Rightarrow> app_error + channel_response list" where
  "list_connections ctx now unitId d =
     db_run ctx None (\<lambda>tx.
       let s = tx_session tx in
       if \<not> unitExists d s unitId then Inl (NotFound ''Unit not found'')
       else map_res (\<lambda>row. channel_toResponse row (countOpenConflictsByUnit d s unitId (ch_id row)) now)
              (findConnectionsByUnit d s unitId))"

definition disconnect :: "tenant_context \<Rightarrow> uuid \<Rightarrow> db \<Rightarrow> app_error + (nat \<times> db)" where
  "disconnect ctx cid d =
     db_run ctx None (\<lambda>tx.
       let s = tx_session tx in
       if findConnectionById d s cid = None then Inl (NotFound ''Channel connection not found'')
       else Inr (countImportedBookings d s cid, delete_connection d s cid))"

definition syncNow :: "tenant_context \<Rightarrow> sync_env \<Rightarrow> uuid \<Rightarrow> db \<Rightarrow> app_error + (sync_outcome \<times> db)" where
  "syncNow ctx env cid d =
     bind_res (db_run ctx None (\<lambda>tx. Inr (findConnectionById d (tx_session tx) cid))) (\<lambda>found.
       case found of
         None \<Rightarrow> Inl (NotFound ''Channel connection not found'')
       | Some conn \<Rightarrow> syncConnection env conn d)"

record sync_all_total =
  sa_feeds :: nat
  sa_errored :: nat
  sa_imported :: nat
  sa_cancelled :: nat
  sa_conflicts :: nat

definition sync_next :: "(uuid \<Rightarrow> sync_env) \<Rightarrow> channel_row \<Rightarrow> sync_all_total \<times> db \<Rightarrow> sync_all_total \<times> db" where
  "sync_next envs conn acc =
     (let (total_so_far, d) = acc in
      case syncConnection (envs (ch_id conn)) conn d of
        Inl err \<Rightarrow> (total_so_far\<lparr>sa_errored := sa_errored total_so_far + 1\<rparr>, d)
      | Inr (out, d') \<Rightarrow>
          (total_so_far\<lparr>
             sa_errored := sa_errored total_so_far + (if so_status out = Sync_error then 1 else 0),
             sa_imported := sa_imported total_so_far + so_imported out,
             sa_cancelled := sa_cancelled total_so_far + so_cancelled out,
             sa_conflicts := sa_conflicts total_so_far + so_conflicts out\<rparr>, d'))"

definition syncAll :: "tenant_context \<Rightarrow> (uuid \<Rightarrow> sync_env) \<Rightarrow> db \<Rightarrow> app_error + (sync_all_total \<times> db)" where
  "syncAll ctx envs d =
     bind_res (db_run ctx None (\<lambda>tx. Inr (findAllVisible d (tx_session tx)))) (\<lambda>connections.
       Inr (fold (sync_next envs) connections
         (\<lparr>sa_feeds = length connections, sa_errored = 0, sa_imported = 0, sa_cancelled = 0,
           sa_conflicts = 0\<rparr>, d)))"

definition syncHealth :: "tenant_context \<Rightarrow> instant \<Rightarrow> db \<Rightarrow> app_error + sync_health_row" where
  "syncHealth ctx now d =
     db_run ctx None (\<lambda>tx.
       let health = syncHealth_row d (tx_session tx) (staleCutoff now) in
       Inr (health\<lparr>sh_oldestSyncedAt :=
              (if sh_neverSynced health > 0 then None else sh_oldestSyncedAt health)\<rparr>))"

section \<open>The public export\<close>

definition PROD_ID :: string where
  "PROD_ID = ''-//Sambung//Availability Export//EN''"

definition export_event :: "booking_row \<Rightarrow> calendar_event" where
  "export_event b = \<lparr>ce_uid = bk_id b, ce_start = bk_checkIn b, ce_end = bk_checkOut b\<rparr>"

definition exportCalendar :: "instant \<Rightarrow> date \<Rightarrow> uuid \<Rightarrow> db \<Rightarrow> app_error + string" where
  "exportCalendar now currentDate unitId d =
     bind_res (enterFromUnitId unitId d None) (\<lambda>ctx.
       db_run ctx None (\<lambda>tx.
         buildCalendar \<lparr>bc_prodId = PROD_ID,
           bc_events = map export_event (findConfirmedBookingsForExport d (tx_session tx) currentDate unitId),
           bc_dtstamp = now\<rparr>))"

end
