(* ===== verification/Import_Rules.thy ===== *)
theory Import_Rules
  imports Ical_Import Booking_Rules
begin

text \<open>
  What a calendar import promises: it keeps every table invariant and never fails, it touches only the
  rows of its own connection, and a doubtful feed changes nothing but the connection's status.
\<close>

section \<open>The invariant of the channel tables\<close>

definition same_channel :: "channel_row \<Rightarrow> channel_row \<Rightarrow> bool" where
  "same_channel a b \<longleftrightarrow> ch_unitId a = ch_unitId b \<and> ch_channel a = ch_channel b"

definition channels_ok :: "db \<Rightarrow> bool" where
  "channels_ok d \<longleftrightarrow>
     distinct (map ch_id (channels d)) \<and>
     (\<forall>a \<in> set (channels d). \<forall>b \<in> set (channels d). ch_id a \<noteq> ch_id b \<longrightarrow> \<not> same_channel a b) \<and>
     (\<forall>c \<in> set (channels d). \<exists>u \<in> set (units d). u_id u = ch_unitId c \<and> u_tenantId u = ch_tenantId c)"

definition conflicts_ok :: "db \<Rightarrow> bool" where
  "conflicts_ok d \<longleftrightarrow>
     distinct (map sc_id (sync_conflicts d)) \<and>
     (\<forall>x \<in> set (sync_conflicts d). conflict_violation d (sync_conflicts d) x = None)"

text \<open>An imported booking, and a conflict, lie on their connection's unit.\<close>

definition on_connection :: "channel_row list \<Rightarrow> uuid \<Rightarrow> uuid \<Rightarrow> uuid \<Rightarrow> bool" where
  "on_connection cs k unitId tenantId \<longleftrightarrow>
     (\<exists>c \<in> set cs. ch_id c = k \<and> ch_unitId c = unitId \<and> ch_tenantId c = tenantId)"

definition imports_ok :: "db \<Rightarrow> bool" where
  "imports_ok d \<longleftrightarrow>
     (\<forall>b \<in> set (bookings d). \<forall>k. bk_channelConnectionId b = Some k \<longrightarrow>
        on_connection (channels d) k (bk_unitId b) (bk_tenantId b)) \<and>
     (\<forall>x \<in> set (sync_conflicts d).
        on_connection (channels d) (sc_channelConnectionId x) (sc_unitId x) (sc_tenantId x))"

definition sync_ok :: "db \<Rightarrow> bool" where
  "sync_ok d \<longleftrightarrow> db_ok d \<and> channels_ok d \<and> conflicts_ok d \<and> imports_ok d"

lemma sync_okD [dest]:
  "sync_ok d \<Longrightarrow> db_ok d" "sync_ok d \<Longrightarrow> channels_ok d" "sync_ok d \<Longrightarrow> conflicts_ok d"
  "sync_ok d \<Longrightarrow> imports_ok d"
  by (simp_all add: sync_ok_def)

lemma conflict_violation_None:
  "conflict_violation d rows r = None \<longleftrightarrow>
     sc_checkIn r < sc_checkOut r \<and>
     \<not> (\<exists>q \<in> set rows. sc_id q \<noteq> sc_id r \<and> sc_externalUid q = sc_externalUid r \<and>
           sc_channelConnectionId q = sc_channelConnectionId r) \<and>
     (\<exists>c \<in> set (channels d). ch_id c = sc_channelConnectionId r) \<and>
     (\<exists>u \<in> set (units d). u_id u = sc_unitId r \<and> u_tenantId u = sc_tenantId r)"
  by (auto simp: conflict_violation_def)

lemma channel_by_id:
  "channels_ok d \<Longrightarrow> a \<in> set (channels d) \<Longrightarrow> b \<in> set (channels d) \<Longrightarrow> ch_id a = ch_id b \<Longrightarrow> a = b"
  by (auto simp: channels_ok_def distinct_map inj_on_def)

text \<open>What a write of the import leaves alone.\<close>

definition same_frame :: "db \<Rightarrow> db \<Rightarrow> bool" where
  "same_frame d d' \<longleftrightarrow>
     d' = d\<lparr>bookings := bookings d', sync_conflicts := sync_conflicts d', channels := channels d'\<rparr>"

lemma same_frame_refl [simp]: "same_frame d d"
  by (simp add: same_frame_def)

lemma same_frame_iff:
  "same_frame d d' \<longleftrightarrow> (\<exists>x y z. d' = d\<lparr>bookings := x, sync_conflicts := y, channels := z\<rparr>)"
proof
  assume "\<exists>x y z. d' = d\<lparr>bookings := x, sync_conflicts := y, channels := z\<rparr>"
  then show "same_frame d d'" unfolding same_frame_def by auto
qed (auto simp: same_frame_def)

lemma same_frame_trans: "same_frame a b \<Longrightarrow> same_frame b c \<Longrightarrow> same_frame a c"
  unfolding same_frame_iff by (elim exE) (simp, blast)

lemma same_frame_writes [simp]:
  "same_frame d (d\<lparr>bookings := x\<rparr>)" "same_frame d (d\<lparr>sync_conflicts := y\<rparr>)"
  "same_frame d (d\<lparr>channels := z\<rparr>)"
  by (simp_all add: same_frame_def)

section \<open>One event\<close>

lemma imported_row_simps [row_simps, simp]:
  "bk_id (imported_row conn now i e) = i" "bk_unitId (imported_row conn now i e) = ch_unitId conn"
  "bk_tenantId (imported_row conn now i e) = ch_tenantId conn"
  "bk_status (imported_row conn now i e) = Confirmed"
  "bk_checkIn (imported_row conn now i e) = ie_start e"
  "bk_checkOut (imported_row conn now i e) = ie_end e"
  "bk_channelConnectionId (imported_row conn now i e) = Some (ch_id conn)"
  "bk_externalUid (imported_row conn now i e) = Some (ie_uid e)"
  "bk_guestCount (imported_row conn now i e) = None"
  "bk_totalPriceIdr (imported_row conn now i e) = None"
  by (simp_all add: imported_row_def)

lemma restay_simps [row_simps, simp]:
  "bk_id (restay e b) = bk_id b" "bk_unitId (restay e b) = bk_unitId b"
  "bk_tenantId (restay e b) = bk_tenantId b" "bk_status (restay e b) = Confirmed"
  "bk_checkIn (restay e b) = ie_start e" "bk_checkOut (restay e b) = ie_end e"
  "bk_channelConnectionId (restay e b) = bk_channelConnectionId b"
  "bk_externalUid (restay e b) = bk_externalUid b"
  by (simp_all add: restay_def)

lemma imported_check: "booking_check (imported_row conn now i e) = None \<longleftrightarrow> ie_start e < ie_end e"
  by (simp add: booking_check_def)

lemma upsertEvent_cases:
  assumes "upsertEvent conn now i e d = Inr d'"
  obtains (update) "\<exists>b \<in> set (bookings d). from_feed conn (ie_uid e) b"
      "update_booking (from_feed conn (ie_uid e)) (restay e) d = Inr d'"
      "d' = d\<lparr>bookings := update_where (from_feed conn (ie_uid e)) (restay e) (bookings d)\<rparr>"
    | (insert) "\<not> (\<exists>b \<in> set (bookings d). from_feed conn (ie_uid e) b)"
      "insert_booking (imported_row conn now i e) d = Inr d'"
      "d' = d\<lparr>bookings := bookings d @ [imported_row conn now i e]\<rparr>"
      "\<exists>c \<in> set (channels d). ch_id c = ch_id conn"
proof (cases "\<exists>b \<in> set (bookings d). from_feed conn (ie_uid e) b")
  case True
  with assms have u: "update_booking (from_feed conn (ie_uid e)) (restay e) d = Inr d'"
    by (simp add: upsertEvent_def split: option.splits)
  from True u update_booking_cases(1) [OF u] show ?thesis by (rule update)
next
  case False
  with assms obtain d1 where i: "insert_booking (imported_row conn now i e) d = Inr d1"
    "(if \<exists>c \<in> set (channels d). ch_id c = ch_id conn then Inr d1
      else Inl (DbError ''booking_channel_connection_id_channel_connection_id_fk'')) = (Inr d' :: app_error + db)"
    by (auto simp: upsertEvent_def bind_res_Inr_iff split: option.splits)
  then have "d1 = d'" "\<exists>c \<in> set (channels d). ch_id c = ch_id conn" by (auto split: if_splits)
  with False i(1) insert_booking_cases(1) [OF i(1)] show ?thesis by (intro insert) simp_all
qed

lemma sync_ok_bookings:
  assumes "sync_ok d" "booking_table_ok (d\<lparr>bookings := x\<rparr>)"
    and "\<And>b. b \<in> set x \<Longrightarrow> is_iso_date (bk_checkIn b) \<and> is_iso_date (bk_checkOut b)"
    and "\<And>b k. b \<in> set x \<Longrightarrow> bk_channelConnectionId b = Some k \<Longrightarrow>
        on_connection (channels d) k (bk_unitId b) (bk_tenantId b)"
  shows "sync_ok (d\<lparr>bookings := x\<rparr>)"
proof -
  have "db_ok d" "channels_ok d" "conflicts_ok d" using assms(1) by (auto simp: sync_ok_def)
  then have "inventory_ok (d\<lparr>bookings := x\<rparr>)" "override_table_ok (d\<lparr>bookings := x\<rparr>)"
    "channels_ok (d\<lparr>bookings := x\<rparr>)" "conflicts_ok (d\<lparr>bookings := x\<rparr>)"
    by (simp_all add: db_ok_def inventory_ok_def override_table_ok_def channels_ok_def
        conflicts_ok_def conflict_violation_None)
  moreover have "dates_ok (d\<lparr>bookings := x\<rparr>)"
    using \<open>db_ok d\<close> assms(3) by (simp add: db_ok_def dates_ok_def)
  moreover have "imports_ok (d\<lparr>bookings := x\<rparr>)"
    using assms(4) sync_okD(4) [OF assms(1)] by (simp add: imports_ok_def)
  ultimately show ?thesis using assms(2) by (simp add: sync_ok_def db_ok_def)
qed

lemma booking_dates: "db_ok d \<Longrightarrow> b \<in> set (bookings d) \<Longrightarrow> is_iso_date (bk_checkIn b) \<and> is_iso_date (bk_checkOut b)"
  by (simp add: db_ok_def dates_ok_def)

lemma booking_import:
  "imports_ok d \<Longrightarrow> b \<in> set (bookings d) \<Longrightarrow> bk_channelConnectionId b = Some k \<Longrightarrow>
     on_connection (channels d) k (bk_unitId b) (bk_tenantId b)"
  by (simp add: imports_ok_def)

text \<open>The connection a sync works on is a row of the table, or one that was deleted meanwhile.\<close>

definition known_connection :: "channel_row \<Rightarrow> db \<Rightarrow> bool" where
  "known_connection conn d \<longleftrightarrow>
     (\<forall>c \<in> set (channels d). ch_id c = ch_id conn \<longrightarrow>
        ch_unitId c = ch_unitId conn \<and> ch_tenantId c = ch_tenantId conn)"

lemma known_member: "channels_ok d \<Longrightarrow> conn \<in> set (channels d) \<Longrightarrow> known_connection conn d"
  using channel_by_id unfolding known_connection_def by blast

lemma upsert_ok:
  assumes ok: "sync_ok d" and known: "known_connection conn d" and e: "event_ok e"
    and up: "upsertEvent conn now i e d = Inr d'"
  shows "sync_ok d'"
  using up
proof (cases rule: upsertEvent_cases)
  case update
  have "booking_table_ok d'"
    using update_booking_ok [OF db_okD(2) [OF sync_okD(1) [OF ok]] update(2)] by simp
  then show ?thesis
    unfolding update(3)
  proof (intro sync_ok_bookings [OF ok])
    fix b
    assume "b \<in> set (update_where (from_feed conn (ie_uid e)) (restay e) (bookings d))"
    then obtain b0 where b0: "b0 \<in> set (bookings d)" "b = restay e b0 \<or> b = b0"
      by (auto simp: set_update_where)
    then show "is_iso_date (bk_checkIn b) \<and> is_iso_date (bk_checkOut b)"
      using booking_dates [OF sync_okD(1) [OF ok] b0(1)] e unfolding event_ok_def by (elim disjE) simp_all
    fix k
    assume "bk_channelConnectionId b = Some k"
    with b0 show "on_connection (channels d) k (bk_unitId b) (bk_tenantId b)"
      using booking_import [OF sync_okD(4) [OF ok] b0(1), of k] by auto
  qed simp
next
  case insert
  have "booking_table_ok d'" by (rule insert_booking_ok [OF db_okD(2) [OF sync_okD(1) [OF ok]] insert(2)])
  then show ?thesis
    unfolding insert(3)
  proof (intro sync_ok_bookings [OF ok])
    fix b
    assume "b \<in> set (bookings d @ [imported_row conn now i e])"
    then have b: "b \<in> set (bookings d) \<or> b = imported_row conn now i e" by auto
    then show "is_iso_date (bk_checkIn b) \<and> is_iso_date (bk_checkOut b)"
      using booking_dates [OF sync_okD(1) [OF ok], of b] e unfolding event_ok_def by (elim disjE) simp_all
    fix k
    assume "bk_channelConnectionId b = Some k"
    with b insert(4) known show "on_connection (channels d) k (bk_unitId b) (bk_tenantId b)"
      using booking_import [OF sync_okD(4) [OF ok], of b k] by (auto simp: known_connection_def on_connection_def)
  qed simp
qed

section \<open>The conflict inbox\<close>

lemma db_ok_conflicts [simp]: "db_ok (d\<lparr>sync_conflicts := y\<rparr>) \<longleftrightarrow> db_ok d"
  by (simp add: db_ok_def inventory_ok_def override_table_ok_def dates_ok_def booking_table_ok_def)

lemma sync_ok_conflicts:
  "sync_ok d \<Longrightarrow> conflicts_ok (d\<lparr>sync_conflicts := y\<rparr>) \<Longrightarrow>
   (\<And>x. x \<in> set y \<Longrightarrow> on_connection (channels d) (sc_channelConnectionId x) (sc_unitId x) (sc_tenantId x)) \<Longrightarrow>
   sync_ok (d\<lparr>sync_conflicts := y\<rparr>)"
  by (simp add: sync_ok_def channels_ok_def imports_ok_def)

lemma sync_ok_conflict_update:
  assumes "sync_ok d" "conflicts_ok (d\<lparr>sync_conflicts := update_where P f (sync_conflicts d)\<rparr>)"
    "\<And>x. sc_channelConnectionId (f x) = sc_channelConnectionId x \<and> sc_unitId (f x) = sc_unitId x \<and>
       sc_tenantId (f x) = sc_tenantId x"
  shows "sync_ok (d\<lparr>sync_conflicts := update_where P f (sync_conflicts d)\<rparr>)"
  using assms(1,2)
proof (rule sync_ok_conflicts)
  fix x
  assume "x \<in> set (update_where P f (sync_conflicts d))"
  then obtain y where "y \<in> set (sync_conflicts d)" "x = (if P y then f y else y)"
    by (auto simp: set_update_where)
  then show "on_connection (channels d) (sc_channelConnectionId x) (sc_unitId x) (sc_tenantId x)"
    using sync_okD(4) [OF assms(1)] assms(3) by (simp add: imports_ok_def)
qed

lemma conflict_violation_cong [simp]:
  "conflict_violation (d\<lparr>sync_conflicts := y\<rparr>) = conflict_violation d"
  "conflict_violation (d\<lparr>bookings := x\<rparr>) = conflict_violation d"
  by (intro ext; simp add: conflict_violation_def cong: if_cong)+

lemma insert_conflict_cases:
  assumes "insert_conflict r d = Inr d'"
  shows "d' = d\<lparr>sync_conflicts := sync_conflicts d @ [r]\<rparr>" "sc_id r \<notin> sc_id ` set (sync_conflicts d)"
    "conflict_violation d (sync_conflicts d @ [r]) r = None"
  using assms by (auto simp: insert_conflict_def Let_def split: if_splits option.splits)

lemma insert_conflict_ok:
  assumes "conflicts_ok d" "insert_conflict r d = Inr d'"
  shows "conflicts_ok d'"
proof -
  note c = insert_conflict_cases [OF assms(2)]
  have "conflict_violation d (sync_conflicts d @ [r]) x = None" if "x \<in> set (sync_conflicts d)" for x
    using assms(1) c(3) that by (auto simp: conflicts_ok_def conflict_violation_None)
  then show ?thesis using assms(1) c(2,3) unfolding c(1) conflicts_ok_def by auto
qed

lemma update_conflicts_cases:
  assumes "update_conflicts P f d = Inr d'"
  shows "d' = d\<lparr>sync_conflicts := update_where P f (sync_conflicts d)\<rparr>"
    "\<forall>r \<in> set (sync_conflicts d). P r \<longrightarrow>
       conflict_violation d (update_where P f (sync_conflicts d)) (f r) = None"
  using assms by (auto simp: update_conflicts_def Let_def split: option.splits)

text \<open>An UPDATE that keeps the key and the stay's order is never refused.\<close>

lemma update_conflicts_admitted:
  assumes "conflicts_ok d"
    and "\<And>r. sc_id (f r) = sc_id r \<and> sc_externalUid (f r) = sc_externalUid r \<and>
      sc_channelConnectionId (f r) = sc_channelConnectionId r \<and> sc_unitId (f r) = sc_unitId r \<and>
      sc_tenantId (f r) = sc_tenantId r"
    and "\<And>r. r \<in> set (sync_conflicts d) \<Longrightarrow> P r \<Longrightarrow> sc_checkIn (f r) < sc_checkOut (f r)"
  shows "update_conflicts P f d = Inr (d\<lparr>sync_conflicts := update_where P f (sync_conflicts d)\<rparr>)"
    "conflicts_ok (d\<lparr>sync_conflicts := update_where P f (sync_conflicts d)\<rparr>)"
proof -
  let ?new = "update_where P f (sync_conflicts d)"
  have key: "\<exists>r \<in> set (sync_conflicts d). sc_id q = sc_id r \<and> sc_externalUid q = sc_externalUid r \<and>
      sc_channelConnectionId q = sc_channelConnectionId r" if "q \<in> set ?new" for q
    using that assms(2) by (auto simp: set_update_where)
  have v: "conflict_violation d ?new (if P r then f r else r) = None" if r: "r \<in> set (sync_conflicts d)" for r
  proof -
    have o: "conflict_violation d (sync_conflicts d) r = None" using assms(1) r by (simp add: conflicts_ok_def)
    have "\<not> (\<exists>q \<in> set ?new. sc_id q \<noteq> sc_id r \<and> sc_externalUid q = sc_externalUid r \<and>
           sc_channelConnectionId q = sc_channelConnectionId r)"
      using key o unfolding conflict_violation_None by metis
    then show ?thesis using o assms(2,3) r unfolding conflict_violation_None by simp
  qed
  then have "first_violation (conflict_violation d ?new) (map f (filter P (sync_conflicts d))) = None"
    unfolding first_violation_None by fastforce
  then show "update_conflicts P f d = Inr (d\<lparr>sync_conflicts := ?new\<rparr>)"
    by (simp add: update_conflicts_def Let_def del: first_violation_None)
  have "map sc_id ?new = map sc_id (sync_conflicts d)"
    using assms(2) by (intro map_update_where) simp
  moreover have "\<forall>x \<in> set ?new. conflict_violation d ?new x = None"
    unfolding set_update_where by (intro ballI, elim imageE) (simp only: v)
  ultimately show "conflicts_ok (d\<lparr>sync_conflicts := ?new\<rparr>)"
    using assms(1) by (simp add: conflicts_ok_def)
qed

lemma redetected_simps [row_simps, simp]:
  "sc_id (redetected now e c) = sc_id c" "sc_externalUid (redetected now e c) = sc_externalUid c"
  "sc_channelConnectionId (redetected now e c) = sc_channelConnectionId c"
  "sc_unitId (redetected now e c) = sc_unitId c" "sc_tenantId (redetected now e c) = sc_tenantId c"
  "sc_checkIn (redetected now e c) = ie_start e" "sc_checkOut (redetected now e c) = ie_end e"
  "sc_status (redetected now e c) = (if sc_status c = Conf_resolved then Conf_open else sc_status c)"
  by (simp_all add: redetected_def)

lemma conflict_entry_simps [row_simps, simp]:
  "sc_id (conflict_entry conn now i e) = i" "sc_externalUid (conflict_entry conn now i e) = ie_uid e"
  "sc_channelConnectionId (conflict_entry conn now i e) = ch_id conn"
  "sc_unitId (conflict_entry conn now i e) = ch_unitId conn"
  "sc_tenantId (conflict_entry conn now i e) = ch_tenantId conn"
  "sc_checkIn (conflict_entry conn now i e) = ie_start e"
  "sc_checkOut (conflict_entry conn now i e) = ie_end e"
  "sc_status (conflict_entry conn now i e) = Conf_open"
  by (simp_all add: conflict_entry_def)

text \<open>Filing a refused event: an update of its row, a new row, or (a failure) nothing.\<close>

lemma recordConflict_cases:
  assumes "conflicts_ok d" "event_ok e"
  obtains (known) "\<exists>c \<in> set (sync_conflicts d). conflict_of conn (ie_uid e) c"
      "recordConflict conn now i e d =
         d\<lparr>sync_conflicts := update_where (conflict_of conn (ie_uid e)) (redetected now e) (sync_conflicts d)\<rparr>"
    | (filed) "\<not> (\<exists>c \<in> set (sync_conflicts d). conflict_of conn (ie_uid e) c)"
      "insert_conflict (conflict_entry conn now i e) d = Inr (recordConflict conn now i e d)"
    | (failed) "\<not> (\<exists>c \<in> set (sync_conflicts d). conflict_of conn (ie_uid e) c)"
      "\<exists>err. insert_conflict (conflict_entry conn now i e) d = Inl err" "recordConflict conn now i e d = d"
proof -
  have lt: "ie_start e < ie_end e" using assms(2) by (simp add: event_ok_def)
  show ?thesis
  proof (cases "\<exists>c \<in> set (sync_conflicts d). conflict_of conn (ie_uid e) c")
    case True
    have "update_conflicts (conflict_of conn (ie_uid e)) (redetected now e) d =
        Inr (d\<lparr>sync_conflicts := update_where (conflict_of conn (ie_uid e)) (redetected now e) (sync_conflicts d)\<rparr>)"
      using lt by (intro update_conflicts_admitted [OF assms(1)]) simp_all
    then show ?thesis using True lt by (intro known) (simp_all add: recordConflict_def Let_def)
  next
    case False
    show ?thesis
    proof (cases "insert_conflict (conflict_entry conn now i e) d")
      case (Inl err)
      with False lt show ?thesis by (intro failed) (simp_all add: recordConflict_def Let_def)
    next
      case (Inr d')
      with False lt show ?thesis by (intro filed) (simp_all add: recordConflict_def Let_def)
    qed
  qed
qed

lemma recordConflict_ok:
  assumes "sync_ok d" "event_ok e" "known_connection conn d"
  shows "sync_ok (recordConflict conn now i e d)"
  using sync_okD(3) [OF assms(1)] assms(2)
proof (cases rule: recordConflict_cases [where conn = conn and now = now and i = i])
  case known
  have "conflicts_ok (recordConflict conn now i e d)"
    unfolding known(2) using assms(2)
    by (intro update_conflicts_admitted [OF sync_okD(3) [OF assms(1)]]) (simp_all add: event_ok_def)
  then show ?thesis unfolding known(2) by (intro sync_ok_conflict_update [OF assms(1)]) simp_all
next
  case filed
  have "conflicts_ok (recordConflict conn now i e d)"
    by (rule insert_conflict_ok [OF sync_okD(3) [OF assms(1)] filed(2)])
  moreover have "on_connection (channels d) (ch_id conn) (ch_unitId conn) (ch_tenantId conn)"
    using insert_conflict_cases(3) [OF filed(2)] assms(3)
    by (auto simp: conflict_violation_None on_connection_def known_connection_def)
  ultimately show ?thesis
    using assms(1) sync_okD(4) [OF assms(1)] unfolding insert_conflict_cases(1) [OF filed(2)]
    by (intro sync_ok_conflicts) (auto simp: imports_ok_def)
next
  case failed
  then show ?thesis using assms(1) by simp
qed

section \<open>The whole connection\<close>

lemma sync_event_cases:
  obtains (landed) d' where "upsertEvent conn (se_dbNow env) (se_bookingId env (sy_index s)) e (sy_db s) = Inr d'"
      "sync_event env conn e s =
         s\<lparr>sy_db := d', sy_index := Suc (sy_index s), sy_imported := Suc (sy_imported s)\<rparr>"
    | (clash) "upsertEvent conn (se_dbNow env) (se_bookingId env (sy_index s)) e (sy_db s) =
          Inl (DbError ''booking_no_overlap'')"
      "sync_event env conn e s =
         s\<lparr>sy_db := recordConflict conn (se_now env) (se_conflictId env (sy_index s)) e (sy_db s),
           sy_index := Suc (sy_index s), sy_conflicts := Suc (sy_conflicts s),
           sy_notImported := sy_notImported s @ [ie_uid e]\<rparr>"
    | (skipped) err where
      "upsertEvent conn (se_dbNow env) (se_bookingId env (sy_index s)) e (sy_db s) = Inl err"
      "err \<noteq> DbError ''booking_no_overlap''"
      "sync_event env conn e s =
         s\<lparr>sy_index := Suc (sy_index s), sy_notImported := sy_notImported s @ [ie_uid e]\<rparr>"
proof (cases "upsertEvent conn (se_dbNow env) (se_bookingId env (sy_index s)) e (sy_db s)")
  case (Inr d')
  then show ?thesis by (intro landed) (simp_all add: sync_event_def Let_def)
next
  case (Inl err)
  show ?thesis
  proof (cases "err = DbError ''booking_no_overlap''")
    case True
    with Inl show ?thesis by (intro clash) (simp_all add: sync_event_def Let_def OVERLAP_CONSTRAINT_def)
  next
    case False
    with Inl show ?thesis
      by (intro skipped) (simp_all add: sync_event_def Let_def OVERLAP_CONSTRAINT_def)
  qed
qed

text \<open>What every event of a sync leaves of the tables, whatever its fate.\<close>

lemma upsert_frame:
  assumes "upsertEvent conn now i e d = Inr d'"
  shows "same_frame d d'" "sync_conflicts d' = sync_conflicts d" "channels d' = channels d"
  using assms by (cases rule: upsertEvent_cases; simp)+

lemma recordConflict_frame:
  "same_frame d (recordConflict conn now i e d)"
  "bookings (recordConflict conn now i e d) = bookings d"
  "channels (recordConflict conn now i e d) = channels d"
  by (auto simp: recordConflict_def Let_def same_frame_def insert_conflict_def update_conflicts_def
      split: sum.splits option.splits if_splits)

lemma sync_event_ok:
  assumes "sync_ok (sy_db s)" "known_connection conn (sy_db s)" "event_ok e"
  shows "sync_ok (sy_db (sync_event env conn e s)) \<and> same_frame (sy_db s) (sy_db (sync_event env conn e s)) \<and>
    channels (sy_db (sync_event env conn e s)) = channels (sy_db s)"
proof (cases rule: sync_event_cases [where env = env and conn = conn and e = e and s = s])
  case (landed d')
  with upsert_ok [OF assms landed(1)] upsert_frame [OF landed(1)] show ?thesis by simp
next
  case clash
  with recordConflict_ok [OF assms(1,3,2)] recordConflict_frame show ?thesis by simp
next
  case (skipped err)
  with assms(1) show ?thesis by simp
qed

lemma sync_events_ok:
  assumes "sync_ok (sy_db s)" "known_connection conn (sy_db s)" "\<forall>e \<in> set events. event_ok e"
  shows "sync_ok (sy_db (fold (sync_event env conn) events s)) \<and>
    same_frame (sy_db s) (sy_db (fold (sync_event env conn) events s)) \<and>
    channels (sy_db (fold (sync_event env conn) events s)) = channels (sy_db s)"
  using assms
proof (induction events arbitrary: s)
  case (Cons e events)
  have e: "sync_ok (sy_db (sync_event env conn e s))" "same_frame (sy_db s) (sy_db (sync_event env conn e s))"
    "channels (sy_db (sync_event env conn e s)) = channels (sy_db s)"
    using sync_event_ok [OF Cons.prems(1,2)] Cons.prems(3) by simp_all
  have "known_connection conn (sy_db (sync_event env conn e s))"
    using Cons.prems(2) e(3) by (simp add: known_connection_def)
  from Cons.IH [OF e(1) this] Cons.prems(3) e show ?case
    by (auto intro: same_frame_trans)
qed simp

lemma cancelAbsent_eq:
  assumes "booking_table_ok d"
  shows "cancelAbsent conn events d =
    (if events = [] then Inr (0, d)
     else Inr (length (filter (absent conn events) (bookings d)),
       d\<lparr>bookings := update_where (absent conn events) (set_status Cancelled) (bookings d)\<rparr>))"
  using release_update [OF assms] by (simp add: cancelAbsent_def)

lemma sync_ok_release:
  assumes "sync_ok d" "st = Expired \<or> st = Cancelled"
  shows "sync_ok (d\<lparr>bookings := update_where P (set_status st) (bookings d)\<rparr>)"
proof (rule sync_ok_bookings [OF assms(1)])
  show "booking_table_ok (d\<lparr>bookings := update_where P (set_status st) (bookings d)\<rparr>)"
    using release_update [OF db_okD(2) [OF sync_okD(1) [OF assms(1)]] assms(2)]
    by (rule update_booking_ok [OF db_okD(2) [OF sync_okD(1) [OF assms(1)]]]) simp
next
  fix b
  assume "b \<in> set (update_where P (set_status st) (bookings d))"
  then obtain b0 where b0: "b0 \<in> set (bookings d)" "b = set_status st b0 \<or> b = b0"
    by (auto simp: set_update_where)
  then show "is_iso_date (bk_checkIn b) \<and> is_iso_date (bk_checkOut b)"
    using booking_dates [OF sync_okD(1) [OF assms(1)] b0(1)] by (elim disjE) simp_all
  fix k
  assume "bk_channelConnectionId b = Some k"
  then show "on_connection (channels d) k (bk_unitId b) (bk_tenantId b)"
    using booking_import [OF sync_okD(4) [OF assms(1)] b0(1), of k] b0(2) by auto
qed

definition close_conflict :: "instant \<Rightarrow> conflict_row \<Rightarrow> conflict_row" where
  "close_conflict now c = c\<lparr>sc_status := Conf_resolved, sc_closedAt := Some now\<rparr>"

lemma close_conflict_fun: "(\<lambda>c. c\<lparr>sc_status := Conf_resolved, sc_closedAt := Some now\<rparr>) = close_conflict now"
  by (simp add: fun_eq_iff close_conflict_def)

lemma close_conflict_simps [row_simps, simp]:
  "sc_id (close_conflict now c) = sc_id c" "sc_externalUid (close_conflict now c) = sc_externalUid c"
  "sc_channelConnectionId (close_conflict now c) = sc_channelConnectionId c"
  "sc_unitId (close_conflict now c) = sc_unitId c" "sc_tenantId (close_conflict now c) = sc_tenantId c"
  "sc_checkIn (close_conflict now c) = sc_checkIn c" "sc_checkOut (close_conflict now c) = sc_checkOut c"
  "sc_status (close_conflict now c) = Conf_resolved"
  by (simp_all add: close_conflict_def)

lemma closeHealed_eq:
  assumes "conflicts_ok d"
  shows "closeHealed conn events ni now d =
      (if events = [] then Inr d
       else Inr (d\<lparr>sync_conflicts := update_where (healed conn ni) (close_conflict now) (sync_conflicts d)\<rparr>))"
    "conflicts_ok (d\<lparr>sync_conflicts := update_where (healed conn ni) (close_conflict now) (sync_conflicts d)\<rparr>)"
proof -
  have lt: "sc_checkIn r < sc_checkOut r" if "r \<in> set (sync_conflicts d)" for r
    using assms that by (auto simp: conflicts_ok_def conflict_violation_None)
  note u = update_conflicts_admitted [OF assms, of "close_conflict now" "healed conn ni"]
  show "closeHealed conn events ni now d =
      (if events = [] then Inr d
       else Inr (d\<lparr>sync_conflicts := update_where (healed conn ni) (close_conflict now) (sync_conflicts d)\<rparr>))"
    using u(1) lt by (simp add: closeHealed_def close_conflict_fun)
  show "conflicts_ok (d\<lparr>sync_conflicts := update_where (healed conn ni) (close_conflict now) (sync_conflicts d)\<rparr>)"
    using lt by (intro u(2)) simp_all
qed

lemma sync_ok_stamp:
  assumes "sync_ok d" "\<And>c. ch_id (f c) = ch_id c \<and> ch_unitId (f c) = ch_unitId c \<and>
      ch_tenantId (f c) = ch_tenantId c \<and> ch_channel (f c) = ch_channel c"
  shows "sync_ok (update_channels P f d)"
proof -
  let ?cs = "update_where P f (channels d)"
  have ids: "map ch_id ?cs = map ch_id (channels d)" using assms(2) by (intro map_update_where) simp
  have old: "\<exists>c0 \<in> set (channels d). ch_id c = ch_id c0 \<and> ch_unitId c = ch_unitId c0 \<and>
      ch_tenantId c = ch_tenantId c0 \<and> ch_channel c = ch_channel c0" if "c \<in> set ?cs" for c
    using that assms(2) by (auto simp: set_update_where)
  have new: "\<exists>c \<in> set ?cs. ch_id c = ch_id c0 \<and> ch_unitId c = ch_unitId c0 \<and> ch_tenantId c = ch_tenantId c0"
    if "c0 \<in> set (channels d)" for c0
    unfolding set_update_where by (rule bexI [OF _ imageI [OF that]]) (simp add: assms(2))
  have "channels_ok (update_channels P f d)"
    using sync_okD(2) [OF assms(1)] ids old
    unfolding channels_ok_def update_channels_def same_channel_def by simp metis
  moreover have "conflicts_ok (update_channels P f d)"
    using sync_okD(3) [OF assms(1)] new
    unfolding conflicts_ok_def update_channels_def conflict_violation_None by simp metis
  moreover have "imports_ok (update_channels P f d)"
    using sync_okD(4) [OF assms(1)] new unfolding imports_ok_def update_channels_def on_connection_def
    by simp metis
  moreover have "db_ok (update_channels P f d)"
    using sync_okD(1) [OF assms(1)]
    by (simp add: update_channels_def db_ok_def inventory_ok_def override_table_ok_def dates_ok_def
        booking_table_ok_def)
  ultimately show ?thesis by (simp add: sync_ok_def)
qed

text \<open>The healthy branch written out: what the events made of the tables, then the two closing updates
  and the stamp.\<close>

definition sync_start :: "db \<Rightarrow> sync_state" where
  "sync_start d = \<lparr>sy_db = d, sy_index = 0, sy_imported = 0, sy_conflicts = 0, sy_notImported = []\<rparr>"

definition stamp_ok :: "instant \<Rightarrow> channel_row \<Rightarrow> channel_row" where
  "stamp_ok now c = c\<lparr>ch_lastStatus := Sync_ok, ch_lastSyncedAt := Some now, ch_lastError := None\<rparr>"

definition settled :: "sync_env \<Rightarrow> channel_row \<Rightarrow> imported_event list \<Rightarrow> sync_state \<Rightarrow> db" where
  "settled env conn events s =
     update_channels (this_connection conn) (stamp_ok (se_now env))
       (if events = [] then sy_db s
        else sy_db s\<lparr>
          bookings := update_where (absent conn events) (set_status Cancelled) (bookings (sy_db s)),
          sync_conflicts := update_where (healed conn (sy_notImported s)) (close_conflict (se_now env))
            (sync_conflicts (sy_db s))\<rparr>)"

definition sync_report :: "sync_env \<Rightarrow> channel_row \<Rightarrow> imported_event list \<Rightarrow> sync_state \<Rightarrow> sync_outcome" where
  "sync_report env conn events s =
     \<lparr>so_status = Sync_ok, so_lastSyncedAt = Some (se_now env), so_lastError = None,
      so_imported = sy_imported s,
      so_cancelled = (if events = [] then 0 else length (filter (absent conn events) (bookings (sy_db s)))),
      so_conflicts = sy_conflicts s\<rparr>"

lemma reconcile_feed_eq:
  assumes "sync_ok d" "known_connection conn d" "\<forall>e \<in> set events. event_ok e"
    and "s = fold (sync_event env conn) events (sync_start d)"
  shows "reconcile_feed env conn events d = Inr (sync_report env conn events s, settled env conn events s)"
    "sync_ok (settled env conn events s)" "same_frame d (settled env conn events s)"
proof -
  have s: "sync_ok (sy_db s)" "same_frame d (sy_db s)"
    using sync_events_ok [of "sync_start d" conn events env] assms by (simp_all add: sync_start_def)
  let ?d1 = "if events = [] then sy_db s
    else sy_db s\<lparr>bookings := update_where (absent conn events) (set_status Cancelled) (bookings (sy_db s))\<rparr>"
  have d1: "sync_ok ?d1" using s(1) sync_ok_release by simp
  have c: "cancelAbsent conn events (sy_db s) = Inr (so_cancelled (sync_report env conn events s), ?d1)"
    using cancelAbsent_eq [OF db_okD(2) [OF sync_okD(1) [OF s(1)]]] by (simp add: sync_report_def)
  let ?d2 = "if events = [] then ?d1
    else ?d1\<lparr>sync_conflicts := update_where (healed conn (sy_notImported s)) (close_conflict (se_now env)) (sync_conflicts ?d1)\<rparr>"
  have h: "closeHealed conn events (sy_notImported s) (se_now env) ?d1 = Inr ?d2"
    using closeHealed_eq(1) [OF sync_okD(3) [OF d1]] by (simp cong: if_cong)
  have d2: "sync_ok ?d2"
    using d1 sync_ok_conflict_update [OF d1 closeHealed_eq(2) [OF sync_okD(3) [OF d1]]]
    by (cases "events = []") simp_all
  have set: "settled env conn events s = update_channels (this_connection conn) (stamp_ok (se_now env)) ?d2"
    by (simp add: settled_def)
  show "reconcile_feed env conn events d = Inr (sync_report env conn events s, settled env conn events s)"
    unfolding reconcile_feed_def Let_def sync_start_def [symmetric] assms(4) [symmetric] c bind_res_simps
      prod.case h set
    by (simp add: sync_report_def stamp_ok_def [abs_def])
  show "sync_ok (settled env conn events s)"
    unfolding set by (rule sync_ok_stamp [OF d2]) (simp add: stamp_ok_def)
  show "same_frame d (settled env conn events s)"
    using s(2) by (auto simp: settled_def update_channels_def same_frame_iff; blast)
qed

lemma resolveTimeZone_Some:
  assumes "sync_ok d" "conn \<in> set (channels d)"
  shows "resolveTimeZone conn d \<noteq> None"
proof -
  obtain u where u: "u \<in> set (units d)" "u_id u = ch_unitId conn" "u_tenantId u = ch_tenantId conn"
    using assms sync_okD(2) [OF assms(1)] unfolding channels_ok_def by blast
  obtain p where p: "p \<in> set (properties d)" "p_id p = u_propertyId u" "p_tenantId p = u_tenantId u"
    using unit_property [OF db_okD(1) [OF sync_okD(1) [OF assms(1)]] u(1)] .
  show ?thesis
  proof
    assume "resolveTimeZone conn d = None"
    then have "\<forall>v \<in> set (units d). \<forall>q \<in> set (properties d). \<not> (u_propertyId v = p_id q \<and>
        u_id v = ch_unitId conn \<and> u_tenantId v = ch_tenantId conn \<and> p_tenantId q = ch_tenantId conn)"
      by (auto simp: resolveTimeZone_def)
    with u p show False by metis
  qed
qed

lemma syncConnection_cases:
  assumes "sync_ok d" "known_connection conn d" "zones_lawful (se_tz env)"
  obtains (doubtful) err where "syncConnection env conn d = Inr (markError conn err d)"
    | (healthy) body tzone events foreign s where
      "fr_ok (se_fetchFeed env (ch_importIcalUrl conn))"
      "fr_body (se_fetchFeed env (ch_importIcalUrl conn)) = Some body"
      "resolveTimeZone conn d = Some tzone"
      "parseCalendar (se_tz env) body tzone = Parse_ok events foreign" "\<forall>e \<in> set events. event_ok e"
      "s = fold (sync_event env conn) events (sync_start d)"
      "syncConnection env conn d = Inr (sync_report env conn events s, settled env conn events s)"
proof -
  let ?f = "se_fetchFeed env (ch_importIcalUrl conn)"
  show ?thesis
  proof (cases "\<exists>body tzone events foreign. fr_ok ?f \<and> fr_body ?f = Some body \<and>
      resolveTimeZone conn d = Some tzone \<and> parseCalendar (se_tz env) body tzone = Parse_ok events foreign")
    case True
    then obtain body tzone events foreign where h: "fr_ok ?f" "fr_body ?f = Some body"
      "resolveTimeZone conn d = Some tzone" "parseCalendar (se_tz env) body tzone = Parse_ok events foreign"
      by blast
    have ev: "\<forall>e \<in> set events. event_ok e" by (rule parsed_events_ok [OF assms(3) h(4)])
    from h have "syncConnection env conn d = reconcile_feed env conn events d"
      by (simp add: syncConnection_def Let_def)
    with reconcile_feed_eq(1) [OF assms(1,2) ev refl] h ev show ?thesis by (intro healthy) simp_all
  next
    case False
    then have "\<exists>err. syncConnection env conn d = Inr (markError conn err d)"
      by (auto simp: syncConnection_def Let_def split: option.splits parse_result.splits)
    then show ?thesis using doubtful by blast
  qed
qed

lemma markError_ok:
  assumes "sync_ok d"
  shows "sync_ok (snd (markError conn err d))" "same_frame d (snd (markError conn err d))"
  using sync_ok_stamp [OF assms] by (simp_all add: markError_def update_channels_def)

section \<open>What a sync may touch\<close>

definition own_booking :: "channel_row \<Rightarrow> booking_row \<Rightarrow> bool" where
  "own_booking conn b \<longleftrightarrow> bk_channelConnectionId b = Some (ch_id conn)"

definition own_conflict :: "channel_row \<Rightarrow> conflict_row \<Rightarrow> bool" where
  "own_conflict conn c \<longleftrightarrow> sc_channelConnectionId c = ch_id conn"

text \<open>An old booking keeps everything but its stay and status, an old conflict its identity and its first
  detection, and a dismissal stands.\<close>

definition moved_stay :: "booking_row \<Rightarrow> booking_row \<Rightarrow> bool" where
  "moved_stay b b' \<longleftrightarrow> b' = b\<lparr>bk_checkIn := bk_checkIn b', bk_checkOut := bk_checkOut b', bk_status := bk_status b'\<rparr>"

definition same_conflict :: "conflict_row \<Rightarrow> conflict_row \<Rightarrow> bool" where
  "same_conflict c c' \<longleftrightarrow>
     c' = c\<lparr>sc_checkIn := sc_checkIn c', sc_checkOut := sc_checkOut c', sc_lastSeenAt := sc_lastSeenAt c',
            sc_status := sc_status c', sc_closedAt := sc_closedAt c'\<rparr> \<and>
     (sc_status c = Conf_dismissed \<longrightarrow> sc_status c' = Conf_dismissed \<and> sc_closedAt c' = sc_closedAt c)"

definition touches_only :: "channel_row \<Rightarrow> db \<Rightarrow> db \<Rightarrow> bool" where
  "touches_only conn d d' \<longleftrightarrow>
     same_frame d d' \<and>
     filter (\<lambda>b. \<not> own_booking conn b) (bookings d') = filter (\<lambda>b. \<not> own_booking conn b) (bookings d) \<and>
     filter (\<lambda>c. \<not> own_conflict conn c) (sync_conflicts d') = filter (\<lambda>c. \<not> own_conflict conn c) (sync_conflicts d) \<and>
     grows moved_stay (bookings d) (bookings d') \<and> grows same_conflict (sync_conflicts d) (sync_conflicts d')"

lemma moved_stay_refl [simp]: "moved_stay b b"
  by (simp add: moved_stay_def)

lemma moved_stay_iff: "moved_stay b b' \<longleftrightarrow> (\<exists>i k s. b' = b\<lparr>bk_checkIn := i, bk_checkOut := k, bk_status := s\<rparr>)"
proof
  assume "\<exists>i k s. b' = b\<lparr>bk_checkIn := i, bk_checkOut := k, bk_status := s\<rparr>"
  then show "moved_stay b b'" unfolding moved_stay_def by auto
qed (auto simp: moved_stay_def)

lemma moved_stay_trans: "moved_stay a b \<Longrightarrow> moved_stay b c \<Longrightarrow> moved_stay a c"
  unfolding moved_stay_iff by (elim exE) (simp, blast)

lemma same_conflict_refl [simp]: "same_conflict c c"
  by (simp add: same_conflict_def)

lemma same_conflict_iff:
  "same_conflict c c' \<longleftrightarrow>
     (\<exists>i k t s cl. c' = c\<lparr>sc_checkIn := i, sc_checkOut := k, sc_lastSeenAt := t, sc_status := s, sc_closedAt := cl\<rparr> \<and>
        (sc_status c = Conf_dismissed \<longrightarrow> s = Conf_dismissed \<and> cl = sc_closedAt c))"
  (is "_ \<longleftrightarrow> ?ex")
proof
  assume ?ex
  then show "same_conflict c c'" unfolding same_conflict_def by auto
next
  assume "same_conflict c c'"
  then show ?ex unfolding same_conflict_def by blast
qed

lemma same_conflict_trans: "same_conflict a b \<Longrightarrow> same_conflict b c \<Longrightarrow> same_conflict a c"
  unfolding same_conflict_iff by (elim exE conjE) (simp, blast)

lemma restay_moved: "moved_stay b (restay e b)"
  unfolding moved_stay_iff restay_def by blast

lemma set_status_moved: "moved_stay b (set_status st b)"
  by (simp add: moved_stay_def set_status_def)

lemma redetected_same: "same_conflict c (redetected now e c)"
  by (simp add: same_conflict_def redetected_def)

lemma close_same: "sc_status c = Conf_open \<Longrightarrow> same_conflict c (close_conflict now c)"
  by (simp add: same_conflict_def close_conflict_def)

lemma touches_refl [simp]: "touches_only conn d d"
  by (simp add: touches_only_def grows_refl)

lemma touches_trans: "touches_only conn a b \<Longrightarrow> touches_only conn b c \<Longrightarrow> touches_only conn a c"
  unfolding touches_only_def
  using grows_trans [of moved_stay] grows_trans [of same_conflict] moved_stay_trans same_conflict_trans
    same_frame_trans by (elim conjE) (intro conjI; metis)

lemma touches_bookings:
  assumes "filter (\<lambda>b. \<not> own_booking conn b) x = filter (\<lambda>b. \<not> own_booking conn b) (bookings d)"
    "grows moved_stay (bookings d) x"
  shows "touches_only conn d (d\<lparr>bookings := x\<rparr>)"
  using assms by (simp add: touches_only_def grows_refl)

lemma touches_conflicts:
  assumes "filter (\<lambda>c. \<not> own_conflict conn c) y = filter (\<lambda>c. \<not> own_conflict conn c) (sync_conflicts d)"
    "grows same_conflict (sync_conflicts d) y"
  shows "touches_only conn d (d\<lparr>sync_conflicts := y\<rparr>)"
  using assms by (simp add: touches_only_def grows_refl)

lemma upsert_touches:
  assumes "upsertEvent conn now i e d = Inr d'"
  shows "touches_only conn d d'"
  using assms
proof (cases rule: upsertEvent_cases)
  case update
  show ?thesis
    unfolding update(3)
    by (intro touches_bookings filter_update_where grows_update_where)
      (simp_all add: from_feed_def own_booking_def restay_moved)
next
  case insert
  show ?thesis
    unfolding insert(3) by (intro touches_bookings grows_append) (simp_all add: own_booking_def)
qed

lemma recordConflict_touches:
  assumes "conflicts_ok d" "event_ok e"
  shows "touches_only conn d (recordConflict conn now i e d)"
  using assms
proof (cases rule: recordConflict_cases [where conn = conn and now = now and i = i])
  case known
  show ?thesis
    unfolding known(2)
    by (intro touches_conflicts filter_update_where grows_update_where)
      (simp_all add: conflict_of_def own_conflict_def redetected_same)
next
  case filed
  show ?thesis
    unfolding insert_conflict_cases(1) [OF filed(2)]
    by (intro touches_conflicts grows_append) (simp_all add: own_conflict_def)
next
  case failed
  then show ?thesis by simp
qed

lemma sync_event_touches:
  assumes "conflicts_ok (sy_db s)" "event_ok e"
  shows "touches_only conn (sy_db s) (sy_db (sync_event env conn e s))"
proof (cases rule: sync_event_cases [where env = env and conn = conn and e = e and s = s])
  case (landed d')
  with upsert_touches [OF landed(1)] show ?thesis by simp
next
  case clash
  with recordConflict_touches [OF assms] show ?thesis by simp
next
  case (skipped err)
  then show ?thesis by simp
qed

lemma sync_events_touch:
  assumes "sync_ok (sy_db s)" "known_connection conn (sy_db s)" "\<forall>e \<in> set events. event_ok e"
  shows "touches_only conn (sy_db s) (sy_db (fold (sync_event env conn) events s))"
  using assms
proof (induction events arbitrary: s)
  case (Cons e events)
  note e = sync_event_ok [OF Cons.prems(1,2), of e env]
  have k: "known_connection conn (sy_db (sync_event env conn e s))"
    using Cons.prems(2,3) e by (simp add: known_connection_def)
  have "touches_only conn (sy_db s) (sy_db (sync_event env conn e s))"
    using Cons.prems by (intro sync_event_touches) auto
  with Cons.IH [OF _ k] e Cons.prems(3) show ?case
    by (simp add: touches_trans)
qed simp

lemma settled_touches: "touches_only conn (sy_db s) (settled env conn events s)"
proof -
  have s: "touches_only conn d (update_channels P f d)" for d P f
    by (simp add: touches_only_def update_channels_def grows_refl)
  let ?b = "update_where (absent conn events) (set_status Cancelled) (bookings (sy_db s))"
  let ?c = "update_where (healed conn (sy_notImported s)) (close_conflict (se_now env)) (sync_conflicts (sy_db s))"
  have 1: "touches_only conn (sy_db s) (sy_db s\<lparr>bookings := ?b\<rparr>)"
    by (intro touches_bookings filter_update_where grows_update_where)
      (simp_all add: absent_def own_booking_def set_status_moved)
  have 2: "touches_only conn (sy_db s\<lparr>bookings := ?b\<rparr>) (sy_db s\<lparr>bookings := ?b, sync_conflicts := ?c\<rparr>)"
  proof (rule touches_conflicts)
    have "filter (\<lambda>c. \<not> own_conflict conn c) ?c = filter (\<lambda>c. \<not> own_conflict conn c) (sync_conflicts (sy_db s))"
      by (intro filter_update_where) (simp add: healed_def own_conflict_def)
    then show "filter (\<lambda>c. \<not> own_conflict conn c) ?c =
        filter (\<lambda>c. \<not> own_conflict conn c) (sync_conflicts (sy_db s\<lparr>bookings := ?b\<rparr>))" by simp
    have "grows same_conflict (sync_conflicts (sy_db s)) ?c"
      by (intro grows_update_where) (simp_all add: healed_def close_same)
    then show "grows same_conflict (sync_conflicts (sy_db s\<lparr>bookings := ?b\<rparr>)) ?c" by simp
  qed
  show ?thesis
    unfolding settled_def using s touches_trans [OF touches_trans [OF 1 2] s] by simp
qed

definition channel_key :: "channel_row \<Rightarrow> uuid \<times> uuid \<times> uuid \<times> booking_source" where
  "channel_key c = (ch_id c, ch_unitId c, ch_tenantId c, ch_channel c)"

text \<open>One sync as a step on the database: the facts both the single and the fan-out pulls rest on.\<close>

definition sync_step :: "channel_row \<Rightarrow> db \<Rightarrow> db \<Rightarrow> bool" where
  "sync_step conn d d' \<longleftrightarrow> sync_ok d' \<and> touches_only conn d d' \<and>
     map channel_key (channels d') = map channel_key (channels d) \<and>
     filter (\<lambda>c. ch_id c \<noteq> ch_id conn) (channels d') = filter (\<lambda>c. ch_id c \<noteq> ch_id conn) (channels d)"

lemma syncConnection_step:
  assumes "sync_ok d" "known_connection conn d" "zones_lawful (se_tz env)"
  shows "\<exists>out d'. syncConnection env conn d = Inr (out, d') \<and> sync_step conn d d'"
  using assms
proof (cases rule: syncConnection_cases)
  case (doubtful err)
  have "sync_step conn d (snd (markError conn err d))"
    using markError_ok [OF assms(1), of conn err]
    by (auto simp: sync_step_def markError_def update_channels_def touches_only_def grows_refl
        this_connection_def channel_key_def intro!: filter_update_where map_update_where)
  with doubtful show ?thesis by (cases "markError conn err d") simp
next
  case (healthy body tzone events foreign s)
  have e: "touches_only conn d (sy_db s)" "channels (sy_db s) = channels d"
    using sync_events_touch [of "sync_start d" conn events env] sync_events_ok [of "sync_start d" conn events env]
      assms(1,2) healthy(5,6) by (simp_all add: sync_start_def)
  have "channels (settled env conn events s) = update_where (this_connection conn) (stamp_ok (se_now env)) (channels d)"
    using e(2) by (simp add: settled_def update_channels_def)
  then have "map channel_key (channels (settled env conn events s)) = map channel_key (channels d)"
    "filter (\<lambda>c. ch_id c \<noteq> ch_id conn) (channels (settled env conn events s)) =
      filter (\<lambda>c. ch_id c \<noteq> ch_id conn) (channels d)"
    by (auto simp: this_connection_def stamp_ok_def channel_key_def intro!: filter_update_where map_update_where)
  with touches_trans [OF e(1) settled_touches] reconcile_feed_eq(2) [OF assms(1,2) healthy(5,6)] healthy(7)
  show ?thesis by (simp add: sync_step_def)
qed

lemma known_step:
  assumes "sync_step conn d d'" "known_connection k d"
  shows "known_connection k d'"
proof -
  have "channel_key ` set (channels d') = channel_key ` set (channels d)"
    using assms(1) unfolding sync_step_def by (metis set_map)
  then have "\<exists>c0 \<in> set (channels d). channel_key c0 = channel_key c" if "c \<in> set (channels d')" for c
    using that by (metis imageE imageI)
  then show ?thesis using assms(2) unfolding known_connection_def channel_key_def by (metis prod.inject)
qed


text \<open>Claim C8. A sync of one connection is confined to it: bookings and conflicts of every other
  connection, guests' and owners' own bookings, and the other connections' rows are exactly as before;
  no row is ever deleted; an imported booking keeps everything but its stay and status; a conflict keeps
  its first detection, and what the owner dismissed stays dismissed.\<close>

theorem import_confined:
  assumes "sync_ok d" "conn \<in> set (channels d)" "zones_lawful (se_tz env)"
    "syncConnection env conn d = Inr (out, d')"
  shows "touches_only conn d d' \<and> map ch_id (channels d') = map ch_id (channels d) \<and>
    filter (\<lambda>c. ch_id c \<noteq> ch_id conn) (channels d') = filter (\<lambda>c. ch_id c \<noteq> ch_id conn) (channels d)"
proof -
  from syncConnection_step [OF assms(1) known_member [OF sync_okD(2) [OF assms(1)] assms(2)] assms(3)]
  have "sync_step conn d d'" using assms(4) by auto
  moreover from this have "map fst (map channel_key (channels d')) = map fst (map channel_key (channels d))"
    by (simp add: sync_step_def)
  then have "map ch_id (channels d') = map ch_id (channels d)" by (simp add: comp_def channel_key_def)
  ultimately show ?thesis by (simp add: sync_step_def)
qed

section \<open>A doubtful feed\<close>

lemma reconcile_status: "reconcile_feed env conn events d = Inr (out, d') \<Longrightarrow> so_status out = Sync_ok"
  by (auto simp: reconcile_feed_def Let_def bind_res_Inr_iff)

text \<open>A doubtful pull - unreachable, not a terminated calendar, or in an unusable zone -
  changes no booking and no conflict: it marks this one connection unhealthy with the reason, keeps its
  last good sync date, and reports nothing imported, cancelled or conflicting.\<close>

theorem doubtful_pull_changes_nothing:
  assumes "syncConnection env conn d = Inr (out, d')" "so_status out \<noteq> Sync_ok"
  shows "(\<exists>err. d' = update_channels (this_connection conn)
        (\<lambda>c. c\<lparr>ch_lastStatus := Sync_error, ch_lastError := Some err\<rparr>) d \<and> so_lastError out = Some err) \<and>
    bookings d' = bookings d \<and> sync_conflicts d' = sync_conflicts d \<and>
    map ch_lastSyncedAt (channels d') = map ch_lastSyncedAt (channels d) \<and>
    so_status out = Sync_error \<and> so_lastSyncedAt out = ch_lastSyncedAt conn \<and>
    so_imported out = 0 \<and> so_cancelled out = 0 \<and> so_conflicts out = 0"
proof -
  have "\<exists>err. markError conn err d = (out, d')"
    using assms reconcile_status
    by (auto simp: syncConnection_def Let_def split: option.splits parse_result.splits if_splits)
  then obtain err where "markError conn err d = (out, d')" ..
  then show ?thesis by (auto simp: markError_def update_channels_def intro!: map_update_where)
qed

text \<open>A body the pull must not take for a cancellation: a proper cut of a calendar the exporter produced
  (short of its last line break), or a whole calendar without a single stay.\<close>

definition cut_feed :: "string \<Rightarrow> bool" where
  "cut_feed p \<longleftrightarrow> (\<exists>input body. buildCalendar input = Inr body \<and> prefix p body \<and> length p < length body - 2)"

definition empty_feed :: "zone_db \<Rightarrow> string option \<Rightarrow> string \<Rightarrow> bool" where
  "empty_feed tz zone p \<longleftrightarrow> (\<exists>z fo. zone = Some z \<and> parseCalendar tz p z = Parse_ok [] fo)"

lemma reconcile_empty:
  "\<exists>out d'. reconcile_feed env conn [] d = Inr (out, d') \<and> bookings d' = bookings d \<and>
     sync_conflicts d' = sync_conflicts d \<and> so_imported out = 0 \<and> so_cancelled out = 0 \<and> so_conflicts out = 0"
  by (simp add: reconcile_feed_def cancelAbsent_def closeHealed_def update_channels_def)

lemma cut_feed_unparsed:
  assumes "cut_feed p" shows "parseCalendar tz p z \<noteq> Parse_ok es fo"
proof -
  have "\<not> terminated (unfold p)" using assms cut_feed_rejected unfolding cut_feed_def by blast
  then show ?thesis by (auto simp: parseCalendar_def Let_def split: option.splits)
qed


end
