(* ===== verification/Import_Healthy.thy ===== *)
theory Import_Healthy
  imports Import_Rules
begin

text \<open>
  A healthy import: every event of the feed ends up booked or in the conflict inbox, nothing of the feed
  is left open that should not be, and pulling the same feed again changes nothing.
\<close>

section \<open>A healthy feed\<close>

text \<open>The only refusal left for an event of a healthy feed is a double booking.\<close>

lemma restay_check: "booking_check b = None \<Longrightarrow> ie_start e < ie_end e \<Longrightarrow> booking_check (restay e b) = None"
  by (auto simp: booking_check_def restay_def split: if_splits)

lemma restay_feed [simp]:
  "same_feed_event (restay e q) r = same_feed_event q r" "same_feed_event q (restay e r) = same_feed_event q r"
  by (simp_all add: same_feed_event_def)

lemma upsert_refusal:
  assumes ok: "sync_ok d" and c: "conn \<in> set (channels d)" and e: "event_ok e"
    and i: "i \<notin> bk_id ` set (bookings d)" and up: "upsertEvent conn now i e d = Inl err"
  shows "err = DbError ''booking_no_overlap''"
proof -
  have lt: "ie_start e < ie_end e" using e by (simp add: event_ok_def)
  then have chk: "booking_check (imported_row conn now i e) = None" by (simp add: imported_check)
  have u: "\<exists>u \<in> set (units d). u_id u = ch_unitId conn \<and> u_tenantId u = ch_tenantId conn"
    using sync_okD(2) [OF ok] c by (auto simp: channels_ok_def)
  have bt: "booking_table_ok d" using ok by (auto simp: sync_ok_def db_ok_def)
  show ?thesis
  proof (cases "\<exists>b \<in> set (bookings d). from_feed conn (ie_uid e) b")
    case True
    let ?new = "update_where (from_feed conn (ie_uid e)) (restay e) (bookings d)"
    from True chk up obtain v where v: "err = DbError v"
      "first_violation (booking_violation d ?new) (map (restay e) (filter (from_feed conn (ie_uid e)) (bookings d))) = Some v"
      by (auto simp: upsertEvent_def update_booking_def Let_def split: option.splits)
    from first_violation_Some [OF v(2)] obtain b where b: "b \<in> set (bookings d)"
      "booking_violation d ?new (restay e b) = Some v" by auto
    have "booking_check (restay e b) = None"
      using bt b(1) lt by (intro restay_check) (auto simp: booking_table_ok_def)
    moreover have "\<not> (\<exists>q \<in> set ?new. bk_id q \<noteq> bk_id (restay e b) \<and> same_feed_event q (restay e b))"
      using bt b(1) by (auto simp: booking_table_ok_def set_update_where)
    moreover have "\<exists>u \<in> set (units d). u_id u = bk_unitId (restay e b) \<and> u_tenantId u = bk_tenantId (restay e b)"
      using bt b(1) by (simp add: booking_table_ok_def)
    ultimately show ?thesis using b(2) v(1) by (auto simp: booking_violation_def split: if_splits)
  next
    case False
    have "\<not> same_feed_event q (imported_row conn now i e)" if "q \<in> set (bookings d)" for q
      using False that by (auto simp: same_feed_event_def from_feed_def)
    then have nf: "\<not> (\<exists>q \<in> set (bookings d @ [imported_row conn now i e]).
        bk_id q \<noteq> i \<and> same_feed_event q (imported_row conn now i e))" by auto
    have ci: "\<exists>k \<in> set (channels d). ch_id k = ch_id conn" using c by blast
    from False chk up ci have ins: "insert_booking (imported_row conn now i e) d = Inl err"
      by (auto simp: upsertEvent_def bind_res_Inl_iff split: if_splits)
    have "\<not> (\<exists>q \<in> set (bookings d). bk_id q = bk_id (imported_row conn now i e))" using i by auto
    with ins obtain v where "err = DbError v"
      "booking_violation d (bookings d @ [imported_row conn now i e]) (imported_row conn now i e) = Some v"
      unfolding insert_booking_def Let_def
      by (cases "booking_violation d (bookings d @ [imported_row conn now i e]) (imported_row conn now i e)")
        auto
    with chk nf u show ?thesis by (auto simp: booking_violation_def split: if_splits)
  qed
qed

text \<open>An event is booked when its row stands confirmed with its stay, and filed when its inbox row does.\<close>

definition booked :: "channel_row \<Rightarrow> imported_event \<Rightarrow> booking_row list \<Rightarrow> bool" where
  "booked conn e rows \<longleftrightarrow>
     (\<exists>b \<in> set rows. from_feed conn (ie_uid e) b \<and> bk_status b = Confirmed \<and>
        bk_checkIn b = ie_start e \<and> bk_checkOut b = ie_end e)"

definition filed :: "channel_row \<Rightarrow> imported_event \<Rightarrow> conflict_row list \<Rightarrow> bool" where
  "filed conn e rows \<longleftrightarrow>
     (\<exists>c \<in> set rows. conflict_of conn (ie_uid e) c \<and> sc_status c \<noteq> Conf_resolved \<and>
        sc_checkIn c = ie_start e \<and> sc_checkOut c = ie_end e)"

lemma booked_append: "booked conn e xs \<Longrightarrow> booked conn e (xs @ ys)"
  by (auto simp: booked_def)

lemma filed_append: "filed conn e xs \<Longrightarrow> filed conn e (xs @ ys)"
  by (auto simp: filed_def)

lemma booked_update_where:
  assumes "booked conn e rows" "\<And>b. from_feed conn (ie_uid e) b \<Longrightarrow> \<not> P b"
  shows "booked conn e (update_where P f rows)"
  using assms unfolding booked_def set_update_where by force

lemma filed_update_where:
  assumes "filed conn e rows" "\<And>c. conflict_of conn (ie_uid e) c \<Longrightarrow> \<not> P c"
  shows "filed conn e (update_where P f rows)"
  using assms unfolding filed_def set_update_where by force

lemma upsert_booked:
  assumes "upsertEvent conn now i e d = Inr d'"
  shows "booked conn e (bookings d') \<and>
    (booked conn e' (bookings d) \<longrightarrow> ie_uid e' \<noteq> ie_uid e \<longrightarrow> booked conn e' (bookings d')) \<and>
    bk_id ` set (bookings d') \<subseteq> insert i (bk_id ` set (bookings d))"
  using assms
proof (cases rule: upsertEvent_cases)
  case update
  obtain b where b: "b \<in> set (bookings d)" "from_feed conn (ie_uid e) b" using update(1) by blast
  from update_where_hit [where P = "from_feed conn (ie_uid e)", OF b] b(2)
  have "booked conn e (bookings d')"
    unfolding update(3) booked_def by (intro bexI [of _ "restay e b"]) (simp_all add: from_feed_def)
  moreover have "booked conn e' (bookings d')" if "booked conn e' (bookings d)" "ie_uid e' \<noteq> ie_uid e"
    using booked_update_where [OF that(1), of "from_feed conn (ie_uid e)" "restay e"] that(2)
    unfolding update(3) by (simp add: from_feed_def)
  moreover have "bk_id ` set (bookings d') \<subseteq> insert i (bk_id ` set (bookings d))"
    unfolding update(3) by (auto simp: set_update_where)
  ultimately show ?thesis by blast
next
  case insert
  have "booked conn e (bookings d')" unfolding insert(3) booked_def by (auto simp: from_feed_def)
  moreover have "bk_id ` set (bookings d') \<subseteq> insert i (bk_id ` set (bookings d))"
    unfolding insert(3) by auto
  ultimately show ?thesis unfolding insert(3) by (simp add: booked_append)
qed

lemma record_filed:
  assumes "sync_ok d" "conn \<in> set (channels d)" "event_ok e" "i \<notin> sc_id ` set (sync_conflicts d)"
    and d': "d' = recordConflict conn now i e d"
  shows "filed conn e (sync_conflicts d') \<and>
    (filed conn e' (sync_conflicts d) \<longrightarrow> ie_uid e' \<noteq> ie_uid e \<longrightarrow> filed conn e' (sync_conflicts d')) \<and>
    sc_id ` set (sync_conflicts d') \<subseteq> insert i (sc_id ` set (sync_conflicts d))"
  using sync_okD(3) [OF assms(1)] assms(3)
proof (cases rule: recordConflict_cases [where conn = conn and now = now and i = i])
  case known
  have d': "d' = d\<lparr>sync_conflicts := update_where (conflict_of conn (ie_uid e)) (redetected now e) (sync_conflicts d)\<rparr>"
    using known(2) d' by simp
  obtain c where c: "c \<in> set (sync_conflicts d)" "conflict_of conn (ie_uid e) c" using known(1) by blast
  from update_where_hit [where P = "conflict_of conn (ie_uid e)", OF c] c(2)
  have "filed conn e (sync_conflicts d')"
    unfolding d' filed_def by (intro bexI [of _ "redetected now e c"]) (simp_all add: conflict_of_def)
  moreover have "filed conn e' (sync_conflicts d')"
    if "filed conn e' (sync_conflicts d)" "ie_uid e' \<noteq> ie_uid e"
    using filed_update_where [OF that(1), of "conflict_of conn (ie_uid e)" "redetected now e"] that(2)
    unfolding d' by (simp add: conflict_of_def)
  moreover have "sc_id ` set (sync_conflicts d') \<subseteq> insert i (sc_id ` set (sync_conflicts d))"
    unfolding d' by (auto simp: set_update_where)
  ultimately show ?thesis by blast
next
  case filed
  have d': "d' = d\<lparr>sync_conflicts := sync_conflicts d @ [conflict_entry conn now i e]\<rparr>"
    using insert_conflict_cases(1) [OF filed(2)] d' by simp
  have "filed conn e (sync_conflicts d')" unfolding d' filed_def by (auto simp: conflict_of_def)
  moreover have "sc_id ` set (sync_conflicts d') \<subseteq> insert i (sc_id ` set (sync_conflicts d))"
    unfolding d' by auto
  ultimately show ?thesis unfolding d' by (simp add: filed_append)
next
  case failed
  have "\<exists>u \<in> set (units d). u_id u = ch_unitId conn \<and> u_tenantId u = ch_tenantId conn"
    using sync_okD(2) [OF assms(1)] assms(2) by (auto simp: channels_ok_def)
  moreover have "\<exists>c \<in> set (channels d). ch_id c = ch_id conn" using assms(2) by blast
  ultimately have "conflict_violation d (sync_conflicts d @ [conflict_entry conn now i e]) (conflict_entry conn now i e) = None"
    using failed(1) assms(3) by (auto simp: conflict_violation_None conflict_of_def event_ok_def)
  with failed(2) assms(4) show ?thesis by (auto simp: insert_conflict_def Let_def split: if_splits)
qed

text \<open>The state of a sync after some of the events: each is booked or filed, and accounted for.\<close>

definition fresh_ids :: "sync_env \<Rightarrow> nat \<Rightarrow> db \<Rightarrow> bool" where
  "fresh_ids env n d \<longleftrightarrow>
     (\<forall>k \<ge> n. se_bookingId env k \<notin> bk_id ` set (bookings d) \<and>
        se_conflictId env k \<notin> sc_id ` set (sync_conflicts d))"

definition accounted :: "channel_row \<Rightarrow> sync_state \<Rightarrow> imported_event list \<Rightarrow> bool" where
  "accounted conn s done \<longleftrightarrow>
     sy_imported s + sy_conflicts s = length done \<and>
     set (sy_notImported s) \<subseteq> ie_uid ` set done \<and> sy_conflicts s = length (sy_notImported s) \<and>
     (\<forall>e \<in> set done. if ie_uid e \<in> set (sy_notImported s) then filed conn e (sync_conflicts (sy_db s))
        else booked conn e (bookings (sy_db s)))"

lemma accounted_snoc:
  assumes "accounted conn s done"
    and "sy_imported s' + sy_conflicts s' = Suc (sy_imported s + sy_conflicts s)"
    and "set (sy_notImported s') \<subseteq> insert (ie_uid e) (set (sy_notImported s))"
    and "sy_conflicts s' + length (sy_notImported s) = sy_conflicts s + length (sy_notImported s')"
    and "\<And>x. x \<in> set done \<Longrightarrow> if ie_uid x \<in> set (sy_notImported s') then filed conn x (sync_conflicts (sy_db s'))
        else booked conn x (bookings (sy_db s'))"
    and "if ie_uid e \<in> set (sy_notImported s') then filed conn e (sync_conflicts (sy_db s'))
        else booked conn e (bookings (sy_db s'))"
  shows "accounted conn s' (done @ [e])"
  using assms unfolding accounted_def by auto

lemma fresh_ids_step:
  assumes "fresh_ids env n d" "inj (se_bookingId env)" "inj (se_conflictId env)"
    "bk_id ` set (bookings d') \<subseteq> insert (se_bookingId env n) (bk_id ` set (bookings d))"
    "sc_id ` set (sync_conflicts d') \<subseteq> insert (se_conflictId env n) (sc_id ` set (sync_conflicts d))"
  shows "fresh_ids env (Suc n) d'"
  unfolding fresh_ids_def
proof (intro allI impI)
  fix k
  assume k: "Suc n \<le> k"
  then have "se_bookingId env k \<noteq> se_bookingId env n" "se_conflictId env k \<noteq> se_conflictId env n"
    using assms(2,3) by (auto dest: injD)
  moreover have "se_bookingId env k \<notin> bk_id ` set (bookings d)" "se_conflictId env k \<notin> sc_id ` set (sync_conflicts d)"
    using assms(1) k by (simp_all add: fresh_ids_def)
  ultimately show "se_bookingId env k \<notin> bk_id ` set (bookings d') \<and>
      se_conflictId env k \<notin> sc_id ` set (sync_conflicts d')"
    using assms(4,5) by blast
qed

lemma sync_event_accounts:
  assumes ok: "sync_ok (sy_db s)" and conn: "conn \<in> set (channels (sy_db s))" and e: "event_ok e"
    and fresh: "fresh_ids env (sy_index s) (sy_db s)"
    and inj: "inj (se_bookingId env)" "inj (se_conflictId env)"
    and acc: "accounted conn s done" and new: "ie_uid e \<notin> ie_uid ` set done"
  shows "accounted conn (sync_event env conn e s) (done @ [e]) \<and>
    fresh_ids env (sy_index (sync_event env conn e s)) (sy_db (sync_event env conn e s))"
proof -
  let ?d = "sy_db s" let ?k = "sy_index s"
  have f: "se_bookingId env ?k \<notin> bk_id ` set (bookings ?d)" "se_conflictId env ?k \<notin> sc_id ` set (sync_conflicts ?d)"
    using fresh by (auto simp: fresh_ids_def)
  have other: "ie_uid x \<noteq> ie_uid e" if "x \<in> set done" for x using new that by (metis imageI)
  have nn: "ie_uid e \<notin> set (sy_notImported s)" using acc new by (auto simp: accounted_def)
  show ?thesis
  proof (cases rule: sync_event_cases [where env = env and conn = conn and e = e and s = s])
    case (landed d')
    note u = upsert_booked [OF landed(1)]
    have "fresh_ids env (Suc ?k) d'"
      using u upsert_frame(2) [OF landed(1)] by (intro fresh_ids_step [OF fresh inj]) auto
    moreover have "if ie_uid x \<in> set (sy_notImported s) then filed conn x (sync_conflicts d') else booked conn x (bookings d')"
      if x: "x \<in> set done" for x
      using acc x u [of x] other [OF x] upsert_frame(2) [OF landed(1)] by (auto simp: accounted_def)
    then have "accounted conn (sync_event env conn e s) (done @ [e])"
      unfolding landed(2) using nn u by (intro accounted_snoc [OF acc]) auto
    ultimately show ?thesis unfolding landed(2) by simp
  next
    case clash
    let ?d' = "recordConflict conn (se_now env) (se_conflictId env ?k) e ?d"
    note r = record_filed [OF ok conn e f(2) refl, where now = "se_now env"]
    have "fresh_ids env (Suc ?k) ?d'"
      using r by (intro fresh_ids_step [OF fresh inj]) (auto simp: recordConflict_frame)
    moreover have "if ie_uid x \<in> set (sy_notImported s @ [ie_uid e]) then filed conn x (sync_conflicts ?d')
        else booked conn x (bookings ?d')" if x: "x \<in> set done" for x
      using acc x r [of x] other [OF x] by (auto simp: accounted_def recordConflict_frame)
    then have "accounted conn (sync_event env conn e s) (done @ [e])"
      unfolding clash(2) using r by (intro accounted_snoc [OF acc]) auto
    ultimately show ?thesis unfolding clash(2) by simp
  next
    case (skipped err)
    with upsert_refusal [OF ok conn e f(1) skipped(1)] show ?thesis by simp
  qed
qed

lemma sync_events_account:
  assumes "sync_ok (sy_db s)" "conn \<in> set (channels (sy_db s))" "\<forall>e \<in> set events. event_ok e"
    "fresh_ids env (sy_index s) (sy_db s)" "inj (se_bookingId env)" "inj (se_conflictId env)"
    "accounted conn s done" "distinct (map ie_uid (done @ events))"
  shows "accounted conn (fold (sync_event env conn) events s) (done @ events)"
  using assms
proof (induction events arbitrary: s "done")
  case (Cons e events)
  have k: "known_connection conn (sy_db s)"
    by (rule known_member [OF sync_okD(2) [OF Cons.prems(1)] Cons.prems(2)])
  note o = sync_event_ok [OF Cons.prems(1) k, of e env]
  have e: "event_ok e" using Cons.prems(3) by simp
  have a: "accounted conn (sync_event env conn e s) (done @ [e]) \<and>
      fresh_ids env (sy_index (sync_event env conn e s)) (sy_db (sync_event env conn e s))"
    using Cons.prems(8) by (intro sync_event_accounts [OF Cons.prems(1,2) e Cons.prems(4-7)]) auto
  have "accounted conn (fold (sync_event env conn) events (sync_event env conn e s)) ((done @ [e]) @ events)"
    using o [OF e] a Cons.prems by (intro Cons.IH) simp_all
  then show ?case by simp
qed simp

text \<open>The closing updates keep what was booked and filed, and leave nothing else of the feed standing.\<close>

lemma settled_booked:
  assumes "booked conn e (bookings (sy_db s))" "e \<in> set events"
  shows "booked conn e (bookings (settled env conn events s))"
  using booked_update_where [OF assms(1), of "absent conn events" "set_status Cancelled"] assms
  by (auto simp: settled_def update_channels_def absent_def from_feed_def)

lemma settled_filed:
  assumes "filed conn e (sync_conflicts (sy_db s))" "ie_uid e \<in> set (sy_notImported s)"
  shows "filed conn e (sync_conflicts (settled env conn events s))"
proof -
  have "\<not> healed conn (sy_notImported s) c" if "conflict_of conn (ie_uid e) c" for c
    using that assms(2) by (auto simp: healed_def conflict_of_def)
  then have "filed conn e (update_where (healed conn (sy_notImported s)) (close_conflict (se_now env)) (sync_conflicts (sy_db s)))"
    by (rule filed_update_where [OF assms(1)])
  then show ?thesis using assms(1) by (simp add: settled_def update_channels_def)
qed

lemma on_own_connection:
  assumes "channels_ok d" "conn \<in> set (channels d)" "on_connection (channels d) (ch_id conn) u t"
  shows "u = ch_unitId conn \<and> t = ch_tenantId conn"
  using assms channel_by_id unfolding on_connection_def by metis

lemma settled_vanished:
  assumes ok: "sync_ok (sy_db s)" and conn: "conn \<in> set (channels (sy_db s))" and ne: "events \<noteq> []"
    and b: "b \<in> set (bookings (settled env conn events s))" "own_booking conn b"
      "bk_externalUid b = Some uid" "uid \<notin> set (map ie_uid events)"
  shows "bk_status b \<noteq> Confirmed"
proof -
  obtain b0 where b0: "b0 \<in> set (bookings (sy_db s))" "b = (if absent conn events b0 then set_status Cancelled b0 else b0)"
    using b(1) ne by (auto simp: settled_def update_channels_def set_update_where)
  have own: "bk_channelConnectionId b0 = Some (ch_id conn)" "bk_externalUid b0 = Some uid"
    using b0(2) b(2,3) by (auto simp: own_booking_def split: if_splits)
  have "bk_tenantId b0 = ch_tenantId conn"
    using on_own_connection [OF sync_okD(2) [OF ok] conn] booking_import [OF sync_okD(4) [OF ok] b0(1) own(1)] by blast
  then have "absent conn events b0 \<longleftrightarrow> bk_status b0 = Confirmed" using own b(4) by (simp add: absent_def)
  then show ?thesis using b0(2) by auto
qed

lemma settled_open:
  assumes ok: "sync_ok (sy_db s)" and conn: "conn \<in> set (channels (sy_db s))" and ne: "events \<noteq> []"
    and c: "c \<in> set (sync_conflicts (settled env conn events s))" "own_conflict conn c" "sc_status c = Conf_open"
  shows "sc_externalUid c \<in> set (sy_notImported s)"
proof -
  obtain c0 where c0: "c0 \<in> set (sync_conflicts (sy_db s))"
    "c = (if healed conn (sy_notImported s) c0 then close_conflict (se_now env) c0 else c0)"
    using c(1) ne by (auto simp: settled_def update_channels_def set_update_where)
  have nh: "\<not> healed conn (sy_notImported s) c0" "c = c0" using c0(2) c(3) by (auto split: if_splits)
  have "on_connection (channels (sy_db s)) (sc_channelConnectionId c0) (sc_unitId c0) (sc_tenantId c0)"
    using sync_okD(4) [OF ok] c0(1) by (simp add: imports_ok_def)
  then have "sc_tenantId c0 = ch_tenantId conn"
    using on_own_connection [OF sync_okD(2) [OF ok] conn] c(2) nh(2) by (simp add: own_conflict_def)
  then show ?thesis using nh c(2,3) by (auto simp: healed_def own_conflict_def)
qed


section \<open>Pulling the same feed again\<close>

lemma feed_row_unique:
  assumes "booking_table_ok d" "a \<in> set (bookings d)" "b \<in> set (bookings d)" "from_feed conn uid a" "from_feed conn uid b"
  shows "a = b"
proof -
  have "same_feed_event a b" using assms(4,5) by (simp add: from_feed_def same_feed_event_def)
  then have "bk_id a = bk_id b" using assms(1-3) unfolding booking_table_ok_def by blast
  then show ?thesis using assms(1-3) by (auto simp: booking_table_ok_def distinct_map inj_on_def)
qed

lemma table_row_lawful:
  assumes "booking_table_ok d" "b \<in> set (bookings d)"
  shows "booking_violation d (bookings d) b = None"
  using assms
  by (auto simp: booking_violation_None booking_table_ok_def booking_no_overlap_refuses_def
      excl_conflict_def no_overlap_def)

lemma upsert_booked_again:
  assumes "booking_table_ok d" "booked conn e (bookings d)" "ie_start e < ie_end e"
  shows "upsertEvent conn now i e d = Inr d"
proof -
  obtain b where b: "b \<in> set (bookings d)" "from_feed conn (ie_uid e) b" "restay e b = b"
    using assms(2) by (auto simp: booked_def restay_def)
  have same: "restay e x = x" if "x \<in> set (bookings d)" "from_feed conn (ie_uid e) x" for x
    using feed_row_unique [OF assms(1) that(1) b(1) that(2) b(2)] b(3) by simp
  then have new: "update_where (from_feed conn (ie_uid e)) (restay e) (bookings d) = bookings d"
    unfolding update_where_def by (intro map_idI) simp
  have "first_violation (booking_violation d (bookings d))
      (map (restay e) (filter (from_feed conn (ie_uid e)) (bookings d))) = None"
    unfolding first_violation_None using same table_row_lawful [OF assms(1)] by auto
  then have "update_booking (from_feed conn (ie_uid e)) (restay e) d = Inr d"
    by (simp add: update_booking_def new del: first_violation_None)
  moreover have "booking_check (imported_row conn now i e) = None" using assms(3) by (simp add: imported_check)
  ultimately show ?thesis using b(1,2) by (auto simp: upsertEvent_def)
qed

lemma quiet_events:
  assumes "booking_table_ok (sy_db s)" "\<forall>e \<in> set events. event_ok e \<and> booked conn e (bookings (sy_db s))"
  shows "sy_db (fold (sync_event env conn) events s) = sy_db s \<and>
    sy_imported (fold (sync_event env conn) events s) = sy_imported s + length events \<and>
    sy_conflicts (fold (sync_event env conn) events s) = sy_conflicts s \<and>
    sy_notImported (fold (sync_event env conn) events s) = sy_notImported s"
  using assms
proof (induction events arbitrary: s)
  case (Cons e events)
  have "ie_start e < ie_end e" using Cons.prems(2) by (simp add: event_ok_def)
  then have "sync_event env conn e s =
      s\<lparr>sy_db := sy_db s, sy_index := Suc (sy_index s), sy_imported := Suc (sy_imported s)\<rparr>"
    using upsert_booked_again [OF Cons.prems(1)] Cons.prems(2) by (simp add: sync_event_def Let_def)
  with Cons.IH [of "sync_event env conn e s"] Cons.prems show ?case by simp
qed simp

lemma quiet_reconcile:
  assumes "sync_ok d" "known_connection conn d" "\<forall>e \<in> set events. event_ok e \<and> booked conn e (bookings d)"
    and "events \<noteq> [] \<Longrightarrow> \<forall>b \<in> set (bookings d). \<not> absent conn events b"
    and "events \<noteq> [] \<Longrightarrow> \<forall>c \<in> set (sync_conflicts d). \<not> healed conn [] c"
  shows "\<exists>out d'. reconcile_feed env conn events d = Inr (out, d') \<and> so_status out = Sync_ok \<and>
    bookings d' = bookings d \<and> sync_conflicts d' = sync_conflicts d \<and>
    so_imported out = length events \<and> so_cancelled out = 0 \<and> so_conflicts out = 0"
proof -
  define s where "s = fold (sync_event env conn) events (sync_start d)"
  have "booking_table_ok (sy_db (sync_start d))" using assms(1) by (auto simp: sync_start_def)
  then have q: "sy_db s = d" "sy_imported s = length events" "sy_conflicts s = 0" "sy_notImported s = []"
    unfolding s_def using quiet_events [of "sync_start d" events conn env] assms(3) by (simp_all add: sync_start_def)
  have "filter (absent conn events) (bookings d) = []" if "events \<noteq> []"
    using assms(4) [OF that] by (simp add: filter_empty_conv)
  moreover have "update_where (absent conn events) (set_status Cancelled) (bookings d) = bookings d" if "events \<noteq> []"
    using assms(4) [OF that] by (intro update_where_none) blast
  moreover have "update_where (healed conn []) (close_conflict (se_now env)) (sync_conflicts d) = sync_conflicts d"
    if "events \<noteq> []" using assms(5) [OF that] by (intro update_where_none) blast
  moreover have "reconcile_feed env conn events d = Inr (sync_report env conn events s, settled env conn events s)"
    using assms(3) by (intro reconcile_feed_eq(1) [OF assms(1,2) _ s_def]) blast
  ultimately show ?thesis
    using q by (cases "events = []") (simp_all add: settled_def update_channels_def sync_report_def)
qed

lemma resolveTimeZone_frame: "same_frame d d' \<Longrightarrow> resolveTimeZone conn d' = resolveTimeZone conn d"
  unfolding same_frame_iff by (auto simp: resolveTimeZone_def)

text \<open>Claim C31. The import is idempotent: after a healthy pull without conflicts, pulling the same feed
  again, at any later time, reports every event and no cancellation, and leaves the bookings and the inbox
  exactly as they are.\<close>

theorem repull_changes_nothing:
  assumes "sync_ok d" "conn \<in> set (channels d)" "zones_lawful (se_tz env)"
    and "fresh_ids env 0 d" "inj (se_bookingId env)" "inj (se_conflictId env)"
    and "se_fetchFeed env (ch_importIcalUrl conn) = \<lparr>fr_ok = True, fr_body = Some body, fr_error = None\<rparr>"
    and "resolveTimeZone conn d = Some tzone"
    and "parseCalendar (se_tz env) body tzone = Parse_ok events foreign" "distinct (map ie_uid events)"
    and "syncConnection env conn d = Inr (out, d1)" "so_conflicts out = 0"
    and "conn1 \<in> set (channels d1)" "ch_id conn1 = ch_id conn"
    and "se_fetchFeed env1 = se_fetchFeed env" "se_tz env1 = se_tz env"
  shows "\<exists>out1 d2. syncConnection env1 conn1 d1 = Inr (out1, d2) \<and> so_status out1 = Sync_ok \<and>
    bookings d2 = bookings d1 \<and> sync_conflicts d2 = sync_conflicts d1 \<and>
    so_imported out1 = length events \<and> so_cancelled out1 = 0 \<and> so_conflicts out1 = 0"
proof -
  have k: "known_connection conn d" by (rule known_member [OF sync_okD(2) [OF assms(1)] assms(2)])
  have ev: "\<forall>e \<in> set events. event_ok e" by (rule parsed_events_ok [OF assms(3,9)])
  define s where "s = fold (sync_event env conn) events (sync_start d)"
  have s: "sync_ok (sy_db s)" "channels (sy_db s) = channels d" "conn \<in> set (channels (sy_db s))"
    using sync_events_ok [of "sync_start d" conn events env] assms(1,2) k ev by (simp_all add: s_def sync_start_def)
  have r: "syncConnection env conn d = reconcile_feed env conn events d"
    using assms(7-9) by (simp add: syncConnection_def)
  then have o: "out = sync_report env conn events s" "d1 = settled env conn events s"
    using reconcile_feed_eq(1) [OF assms(1) k ev s_def] assms(11) by simp_all
  have ok1: "sync_ok d1" and fr: "same_frame d d1"
    unfolding o(2) using reconcile_feed_eq(2,3) [OF assms(1) k ev s_def] by blast+
  have "accounted conn (fold (sync_event env conn) events (sync_start d)) ([] @ events)"
    using assms ev by (intro sync_events_account) (simp_all add: sync_start_def accounted_def)
  then have a: "accounted conn s events" by (simp add: s_def)
  then have ni: "sy_notImported s = []" using assms(12) by (simp add: o(1) sync_report_def accounted_def)
  have "conn1 = stamp_ok (se_now env) conn"
  proof -
    have "conn1 \<in> set (update_where (this_connection conn) (stamp_ok (se_now env)) (channels d))"
      using assms(13) s(2) by (simp add: o(2) settled_def update_channels_def split: if_splits)
    then obtain c where c: "c \<in> set (channels d)" "conn1 = (if this_connection conn c then stamp_ok (se_now env) c else c)"
      by (auto simp: set_update_where)
    then have "ch_id c = ch_id conn" using assms(14) by (auto simp: stamp_ok_def split: if_splits)
    then have "c = conn" by (rule channel_by_id [OF sync_okD(2) [OF assms(1)] c(1) assms(2)])
    with c(2) show ?thesis by (simp add: this_connection_def)
  qed
  then have id: "ch_id conn1 = ch_id conn" "ch_tenantId conn1 = ch_tenantId conn"
    "ch_importIcalUrl conn1 = ch_importIcalUrl conn" "ch_unitId conn1 = ch_unitId conn"
    by (simp_all add: stamp_ok_def)
  have b: "booked conn1 e (bookings d1)" if "e \<in> set events" for e
  proof -
    have "booked conn e (bookings d1)"
      unfolding o(2) using a ni that by (intro settled_booked) (simp_all add: accounted_def)
    then show ?thesis by (simp add: booked_def from_feed_def id)
  qed
  have gone: "\<forall>x \<in> set (bookings d1). \<not> absent conn1 events x" if "events \<noteq> []"
    using settled_vanished [OF s(1,3) that] unfolding o(2)
    by (auto simp: absent_def id own_booking_def split: option.splits)
  have shut: "\<forall>c \<in> set (sync_conflicts d1). \<not> healed conn1 [] c" if "events \<noteq> []"
    using settled_open [OF s(1,3) that] ni unfolding o(2) by (auto simp: healed_def id own_conflict_def)
  have "resolveTimeZone conn1 d1 = Some tzone"
    using assms(8) resolveTimeZone_frame [OF fr] by (simp add: resolveTimeZone_def id)
  then have r1: "syncConnection env1 conn1 d1 = reconcile_feed env1 conn1 events d1"
    using assms(7,9,15,16) by (simp add: syncConnection_def id)
  have k1: "known_connection conn1 d1" by (rule known_member [OF sync_okD(2) [OF ok1] assms(13)])
  have eb: "\<forall>e \<in> set events. event_ok e \<and> booked conn1 e (bookings d1)" using ev b by blast
  show ?thesis
    unfolding r1 by (rule quiet_reconcile [OF ok1 k1 eb gone shut])
qed

end
