(* ===== verification/Channel_Rules.thy ===== *)
theory Channel_Rules
  imports Channels Import_Healthy
begin

text \<open>
  What the channel service promises: the published calendar carries exactly the unit's confirmed stays
  and nothing about the guests, a connection is unique per unit and channel, disconnecting keeps every
  booking, and a fan-out sync stays inside the caller's scope.
\<close>

section \<open>The published calendar\<close>

definition published :: "db \<Rightarrow> date \<Rightarrow> uuid \<Rightarrow> booking_row list" where
  "published d today uid =
     sort_key (\<lambda>b. (bk_checkIn b, bk_id b))
       (filter (\<lambda>b. bk_unitId b = uid \<and> bk_status b = Confirmed \<and> bk_checkOut b \<ge> today) (bookings d))"

lemma exportCalendar_eq:
  assumes "inventory_ok d" "booking_table_ok d" "u \<in> set (units d)"
  shows "exportCalendar now today (u_id u) d =
    buildCalendar \<lparr>bc_prodId = PROD_ID, bc_events = map export_event (published d today (u_id u)), bc_dtstamp = now\<rparr>"
proof -
  let ?s = "session_of (Visitor_principal (u_tenantId u))"
  have "rls_booking d ?s b \<and> bk_tenantId b = u_tenantId u" if "b \<in> set (bookings d)" "bk_unitId b = u_id u" for b
    using booking_seen [OF assms visitor_owns [OF assms(3)] that] by simp
  then have "filter (\<lambda>b. rls_booking d ?s b \<and> bk_unitId b = u_id u \<and> bk_tenantId b = s_tenantId ?s \<and>
          bk_status b = Confirmed \<and> bk_checkOut b \<ge> today) (bookings d) =
      filter (\<lambda>b. bk_unitId b = u_id u \<and> bk_status b = Confirmed \<and> bk_checkOut b \<ge> today) (bookings d)"
    by (intro filter_cong) auto
  then have "findConfirmedBookingsForExport d ?s today (u_id u) = published d today (u_id u)"
    by (simp add: findConfirmedBookingsForExport_def published_def)
  then show ?thesis by (simp add: exportCalendar_def enter_unit [OF assms(1,3)])
qed

text \<open>Claim C32. The export is faithful: the calendar published for a unit parses back - in any zone, with
  the importer's own parser - to exactly the unit's confirmed stays that have not ended, one event per
  booking under its id, with the very check-in and check-out dates, in check-in order; no two of them
  share a night.\<close>

theorem export_roundtrip:
  assumes "db_ok d" "u \<in> set (units d)" "\<forall>b \<in> set (bookings d). plain_uid (bk_id b)" "tz zone = Some parts"
  shows "\<exists>body events. exportCalendar now today (u_id u) d = Inr body \<and>
    parseCalendar tz body zone = Parse_ok events [] \<and>
    set events = {\<lparr>ie_uid = bk_id b, ie_start = bk_checkIn b, ie_end = bk_checkOut b\<rparr> | b.
       b \<in> set (bookings d) \<and> bk_unitId b = u_id u \<and> bk_status b = Confirmed \<and> today \<le> bk_checkOut b} \<and>
    distinct (map ie_uid events) \<and> sorted (map ie_start events) \<and>
    (\<forall>e \<in> set events. \<forall>f \<in> set events. e \<noteq> f \<longrightarrow> \<not> range_overlaps (ie_start e) (ie_end e) (ie_start f) (ie_end f))"
proof -
  note ok = db_okD [OF assms(1)]
  define bs where "bs = published d today (u_id u)"
  define input where "input = \<lparr>bc_prodId = PROD_ID, bc_events = map export_event bs, bc_dtstamp = now\<rparr>"
  have mem: "b \<in> set bs \<longleftrightarrow> b \<in> set (bookings d) \<and> bk_unitId b = u_id u \<and> bk_status b = Confirmed \<and>
      today \<le> bk_checkOut b" for b
    by (simp add: bs_def published_def)
  have "booking_check b = None" if "b \<in> set (bookings d)" for b
    using ok(2) that by (simp add: booking_table_ok_def)
  then have ex: "\<forall>e \<in> set (bc_events input). exportable e"
    using mem assms(3) booking_dates [OF assms(1)] booking_check_stay
    by (auto simp: input_def exportable_def export_event_def)
  then obtain body where body: "buildCalendar input = Inr body" using buildCalendar_total by blast
  let ?ev = "map event_back (map export_event bs)"
  have parsed: "parseCalendar tz body zone = Parse_ok ?ev []"
    using parse_built [where tz = tz, OF ex body assms(4)] by (simp add: input_def)
  have ev: "?ev = map (\<lambda>b. \<lparr>ie_uid = bk_id b, ie_start = bk_checkIn b, ie_end = bk_checkOut b\<rparr>) bs"
    by (simp add: event_back_def export_event_def)
  have "distinct (map bk_id (filter P (bookings d)))" for P
    using ok(2) by (auto simp: booking_table_ok_def distinct_map intro: inj_on_subset)
  then have "distinct (map bk_id bs)"
    by (auto simp: bs_def published_def distinct_map)
  then have dist: "distinct (map ie_uid ?ev)" unfolding ev by (simp add: comp_def)
  have "sorted (map (\<lambda>b. (bk_checkIn b, bk_id b)) bs)" unfolding bs_def published_def by (rule sorted_sort_key)
  then have "sorted_wrt (\<lambda>a b. bk_checkIn a \<le> bk_checkIn b) bs"
    unfolding sorted_map by (rule sorted_wrt_mono_rel [rotated]) (auto simp: less_eq_prod_def)
  then have srt: "sorted (map ie_start ?ev)" unfolding ev by (simp add: sorted_map comp_def)
  have "\<not> range_overlaps (bk_checkIn a) (bk_checkOut a) (bk_checkIn b) (bk_checkOut b)"
    if "a \<in> set bs" "b \<in> set bs" "a \<noteq> b" for a b
  proof -
    have "bk_id b \<noteq> bk_id a"
      using ok(2) that mem by (auto simp: booking_table_ok_def distinct_map inj_on_def)
    moreover have "occupies a" "occupies b" using that mem by (simp_all add: occupies_iff)
    ultimately show ?thesis
      using ok(2) that mem range_overlaps_sym unfolding booking_table_ok_def no_overlap_def by metis
  qed
  then have apart: "\<forall>e \<in> set ?ev. \<forall>f \<in> set ?ev. e \<noteq> f \<longrightarrow> \<not> range_overlaps (ie_start e) (ie_end e) (ie_start f) (ie_end f)"
    unfolding ev by auto
  have "set ?ev = {\<lparr>ie_uid = bk_id b, ie_start = bk_checkIn b, ie_end = bk_checkOut b\<rparr> | b.
       b \<in> set (bookings d) \<and> bk_unitId b = u_id u \<and> bk_status b = Confirmed \<and> today \<le> bk_checkOut b}"
    unfolding ev using mem by auto
  moreover have "exportCalendar now today (u_id u) d = Inr body"
    using exportCalendar_eq [OF ok(1,2) assms(2)] body by (simp add: input_def bs_def)
  ultimately show ?thesis using parsed dist srt apart by blast
qed

text \<open>Claim C33. The public feed leaks nothing about guests: two ledgers whose bookings differ only in
  guest names, phones, e-mails, head counts, prices, sources, hold times or feed identities publish the
  same calendar, octet for octet.\<close>

theorem export_leaks_no_guest:
  assumes "\<And>b. bk_id (f b) = bk_id b \<and> bk_unitId (f b) = bk_unitId b \<and> bk_tenantId (f b) = bk_tenantId b \<and>
    bk_status (f b) = bk_status b \<and> bk_checkIn (f b) = bk_checkIn b \<and> bk_checkOut (f b) = bk_checkOut b"
  shows "exportCalendar now today uid (d\<lparr>bookings := map f (bookings d)\<rparr>) = exportCalendar now today uid d"
proof -
  let ?d = "d\<lparr>bookings := map f (bookings d)\<rparr>"
  have vis: "rls_booking ?d s (f b) = rls_booking d s b" for s b
    using visibility_cong [of ?d d] assms by (simp add: rls_booking_def)
  have "map export_event (findConfirmedBookingsForExport ?d s today uid) =
      map export_event (findConfirmedBookingsForExport d s today uid)" for s
    by (simp add: findConfirmedBookingsForExport_def filter_map comp_def vis assms sort_key_map export_event_def)
  then show ?thesis by (simp add: exportCalendar_def enterFromUnitId_def)
qed

section \<open>Connecting\<close>

lemma unitExists_iff: "unitExists d s uid \<longleftrightarrow> (\<exists>u \<in> set (units d). owned_unit d s uid u)"
  by (auto simp: unitExists_def owned_unit_def)

lemma channel_seen:
  assumes "inventory_ok d" "channels_ok d" "u \<in> set (units d)" "owned_unit d s uid u" "c \<in> set (channels d)"
    "ch_unitId c = uid"
  shows "rls_channel d s c" "ch_tenantId c = s_tenantId s"
proof -
  obtain v where "v \<in> set (units d)" "u_id v = ch_unitId c" "u_tenantId v = ch_tenantId c"
    using assms(2,5) by (auto simp: channels_ok_def)
  then show t: "ch_tenantId c = s_tenantId s"
    using unit_by_id [OF assms(1)] assms(3,4,6) by (metis owned_unit_def)
  show "rls_channel d s c"
    using t unit_visible_owned [OF assms(3,4)] assms(6) by (simp add: rls_channel_def)
qed

definition connected :: "db \<Rightarrow> uuid \<Rightarrow> booking_source \<Rightarrow> bool" where
  "connected d uid channel \<longleftrightarrow> (\<exists>c \<in> set (channels d). ch_unitId c = uid \<and> ch_channel c = channel)"

lemma findByUnitAndChannel_iff:
  assumes "inventory_ok d" "channels_ok d" "u \<in> set (units d)" "owned_unit d s uid u"
  shows "findByUnitAndChannel d s uid channel \<noteq> None \<longleftrightarrow> connected d uid channel"
  using channel_seen [OF assms] by (auto simp: findByUnitAndChannel_def connected_def)

lemma connection_row_simps [row_simps, simp]:
  "ch_id (connection_row i t now uid dto pr) = i" "ch_unitId (connection_row i t now uid dto pr) = uid"
  "ch_tenantId (connection_row i t now uid dto pr) = t"
  "ch_channel (connection_row i t now uid dto pr) = cq_channel dto"
  "ch_lastSyncedAt (connection_row i t now uid dto pr) = (if pb_ok pr then Some now else None)"
  "ch_lastStatus (connection_row i t now uid dto pr) = (if pb_ok pr then Sync_ok else Sync_error)"
  by (simp_all add: connection_row_def)

lemma sync_ok_new_channel:
  assumes "sync_ok d" "ch_id r \<notin> ch_id ` set (channels d)" "\<not> connected d (ch_unitId r) (ch_channel r)"
    "\<exists>u \<in> set (units d). u_id u = ch_unitId r \<and> u_tenantId u = ch_tenantId r"
  shows "sync_ok (d\<lparr>channels := channels d @ [r]\<rparr>)"
proof -
  have "channels_ok (d\<lparr>channels := channels d @ [r]\<rparr>)"
    using sync_okD(2) [OF assms(1)] assms(2-4) unfolding channels_ok_def same_channel_def connected_def
    by auto
  moreover have "conflicts_ok (d\<lparr>channels := channels d @ [r]\<rparr>)"
    using sync_okD(3) [OF assms(1)] by (auto simp: conflicts_ok_def conflict_violation_None)
  moreover have "imports_ok (d\<lparr>channels := channels d @ [r]\<rparr>)"
    using sync_okD(4) [OF assms(1)] unfolding imports_ok_def on_connection_def by auto
  moreover have "db_ok (d\<lparr>channels := channels d @ [r]\<rparr>)"
    using sync_okD(1) [OF assms(1)]
    by (simp add: db_ok_def inventory_ok_def override_table_ok_def dates_ok_def booking_table_ok_def)
  ultimately show ?thesis by (simp add: sync_ok_def)
qed

text \<open>Connecting a channel: 404 for a unit outside the caller's scope, the typed 409 exactly
  when the unit already has a feed of this channel, and otherwise one new connection, whose status and
  sync date say what the smoke fetch found - a failing feed connects too. The database keeps its
  invariant, so no unit ever has two feeds of one channel.\<close>

theorem connect_contract:
  assumes "sync_ok d" "channelSchema (cq_channel dto)" "newId \<notin> ch_id ` set (channels d)"
  shows "case connect (Some p) probe now newId uid dto d of
      Inl e \<Rightarrow>
        ((\<forall>u \<in> set (units d). \<not> owned_unit d (session_of p) uid u) \<and> e = NotFound ''Unit not found'') \<or>
        ((\<exists>u \<in> set (units d). owned_unit d (session_of p) uid u) \<and> connected d uid (cq_channel dto) \<and>
           e = Conflict Channel_already_connected)
    | Inr (r, d') \<Rightarrow>
        (\<exists>u \<in> set (units d). owned_unit d (session_of p) uid u) \<and> \<not> connected d uid (cq_channel dto) \<and>
        d' = d\<lparr>channels := channels d @ [connection_row newId (principal_tenant p) now uid dto (probe (cq_importIcalUrl dto))]\<rparr> \<and>
        sync_ok d' \<and> cc_id r = newId \<and> cc_openConflicts r = 0 \<and> \<not> cc_stale r \<and>
        (cc_lastStatus r = Sync_ok \<longleftrightarrow> pb_ok (probe (cq_importIcalUrl dto))) \<and>
        (cc_lastSyncedAt r = None \<longleftrightarrow> cc_lastStatus r = Sync_error)"
proof (cases "\<exists>u \<in> set (units d). owned_unit d (session_of p) uid u")
  case False
  then show ?thesis by (simp add: connect_def unitExists_iff intercept_def)
next
  case True
  then obtain u where u: "u \<in> set (units d)" "owned_unit d (session_of p) uid u" by blast
  let ?pr = "probe (cq_importIcalUrl dto)"
  let ?row = "connection_row newId (principal_tenant p) now uid dto ?pr"
  note ok = db_okD(1) [OF sync_okD(1) [OF assms(1)]] sync_okD(2) [OF assms(1)]
  show ?thesis
  proof (cases "connected d uid (cq_channel dto)")
    case dup: True
    then have "findByUnitAndChannel d (session_of p) uid (cq_channel dto) \<noteq> None"
      using findByUnitAndChannel_iff [OF ok u] by simp
    then have "connect (Some p) probe now newId uid dto d = Inl (Conflict Channel_already_connected)"
      using True by (simp add: connect_def unitExists_iff intercept_def)
    with True dup show ?thesis by simp
  next
    case fresh: False
    then have none: "findByUnitAndChannel d (session_of p) uid (cq_channel dto) = None"
      using findByUnitAndChannel_iff [OF ok u] by blast
    have t: "u_id u = uid" "u_tenantId u = principal_tenant p" using u(2) by (simp_all add: owned_unit_def)
    have rls: "rls_channel d (session_of p) ?row"
      using unit_visible_owned [OF u] by (simp add: rls_channel_def)
    have "channel_violation d (channels d @ [?row]) ?row = None"
      using fresh u(1) t by (auto simp: channel_violation_def connected_def)
    then have "insert_channel (session_of p) ?row d = Inr (d\<lparr>channels := channels d @ [?row]\<rparr>)"
      using rls assms(3) by (auto simp: insert_channel_def)
    moreover obtain r where r: "channel_toResponse ?row 0 now = Inr r" "cc_id r = newId"
      "cc_openConflicts r = 0" "cc_stale r = isStale (ch_lastSyncedAt ?row) now"
      "cc_lastStatus r = ch_lastStatus ?row" "cc_lastSyncedAt r = ch_lastSyncedAt ?row"
      using assms(2) by (simp add: channel_toResponse_def)
    ultimately have "connect (Some p) probe now newId uid dto d = Inr (r, d\<lparr>channels := channels d @ [?row]\<rparr>)"
      using True none by (simp add: connect_def unitExists_iff intercept_def Let_def)
    moreover have "sync_ok (d\<lparr>channels := channels d @ [?row]\<rparr>)"
      using assms(3) fresh u(1) t by (intro sync_ok_new_channel [OF assms(1)]) auto
    moreover have "\<not> cc_stale r"
      using r(4) by (simp add: isStale_def staleCutoff_def SYNC_STALE_AFTER_MINUTES_def IMPORT_SWEEP_INTERVAL_MINUTES_def)
    ultimately show ?thesis using True fresh r by simp
  qed
qed

section \<open>Disconnecting\<close>

definition unlinked :: "uuid \<Rightarrow> booking_row \<Rightarrow> booking_row" where
  "unlinked cid b = (if bk_channelConnectionId b = Some cid then b\<lparr>bk_channelConnectionId := None\<rparr> else b)"

lemma unlinked_simps [simp]:
  "bk_id (unlinked cid b) = bk_id b" "bk_unitId (unlinked cid b) = bk_unitId b"
  "bk_tenantId (unlinked cid b) = bk_tenantId b" "bk_status (unlinked cid b) = bk_status b"
  "bk_checkIn (unlinked cid b) = bk_checkIn b" "bk_checkOut (unlinked cid b) = bk_checkOut b"
  "booking_check (unlinked cid b) = booking_check b" "occupies (unlinked cid b) = occupies b"
  by (simp_all add: unlinked_def booking_check_def occupies_def)

lemma unlinked_feed: "same_feed_event (unlinked k a) (unlinked k b) \<Longrightarrow> same_feed_event a b"
  by (auto simp: same_feed_event_def unlinked_def split: if_splits)

definition disconnected_db :: "db \<Rightarrow> uuid \<Rightarrow> db" where
  "disconnected_db d cid = d\<lparr>channels := filter (\<lambda>k. ch_id k \<noteq> cid) (channels d),
      sync_conflicts := filter (\<lambda>x. sc_channelConnectionId x \<noteq> cid) (sync_conflicts d),
      bookings := map (unlinked cid) (bookings d)\<rparr>"

lemma delete_channel_ok:
  assumes "sync_ok d" "c \<in> set (channels d)" "\<And>k. k \<in> set (channels d) \<Longrightarrow> P k \<longleftrightarrow> k = c"
  shows "delete_channels P d = disconnected_db d (ch_id c)" "sync_ok (disconnected_db d (ch_id c))"
proof -
  let ?d' = "disconnected_db d (ch_id c)"
  have id: "k = c" if "k \<in> set (channels d)" "ch_id k = ch_id c" for k
    by (rule channel_by_id [OF sync_okD(2) [OF assms(1)] that(1) assms(2) that(2)])
  have "filter (\<lambda>k. \<not> P k) (channels d) = filter (\<lambda>k. ch_id k \<noteq> ch_id c) (channels d)"
    using id assms(3) by (intro filter_cong) auto
  moreover have "(\<exists>k \<in> set (channels d). P k \<and> q = ch_id k) \<longleftrightarrow> q = ch_id c" for q
    using assms(2,3) by auto
  moreover have "forget_channel P d b = unlinked (ch_id c) b" for b
    using assms(2,3) by (auto simp: forget_channel_def unlinked_def)
  ultimately show "delete_channels P d = ?d'" by (simp add: delete_channels_def disconnected_db_def)
  have "booking_table_ok ?d'"
    using db_okD(2) [OF sync_okD(1) [OF assms(1)]]
    by (auto simp: disconnected_db_def booking_table_ok_def no_overlap_def comp_def dest: unlinked_feed)
  moreover have "inventory_ok ?d'" "override_table_ok ?d'" "dates_ok ?d'"
    using sync_okD(1) [OF assms(1)]
    by (auto simp: disconnected_db_def db_ok_def inventory_ok_def override_table_ok_def dates_ok_def)
  moreover have "channels_ok ?d'"
    using sync_okD(2) [OF assms(1)] by (auto simp: disconnected_db_def channels_ok_def distinct_map intro: inj_on_subset)
  moreover have "conflicts_ok ?d'"
    unfolding conflicts_ok_def
  proof (intro conjI ballI)
    show "distinct (map sc_id (sync_conflicts ?d'))"
      using sync_okD(3) [OF assms(1)]
      by (auto simp: disconnected_db_def conflicts_ok_def distinct_map intro: inj_on_subset)
    fix x
    assume x: "x \<in> set (sync_conflicts ?d')"
    then have v: "conflict_violation d (sync_conflicts d) x = None" "sc_channelConnectionId x \<noteq> ch_id c"
      using sync_okD(3) [OF assms(1)] by (simp_all add: disconnected_db_def conflicts_ok_def)
    then obtain k where "k \<in> set (channels d)" "ch_id k = sc_channelConnectionId x"
      by (auto simp: conflict_violation_None)
    then have "\<exists>k \<in> set (channels ?d'). ch_id k = sc_channelConnectionId x"
      using v(2) by (auto simp: disconnected_db_def)
    then show "conflict_violation ?d' (sync_conflicts ?d') x = None"
      using v(1) by (auto simp: disconnected_db_def conflict_violation_None)
  qed
  moreover have "imports_ok ?d'"
  proof -
    have on: "on_connection (channels ?d') q x t" if "on_connection (channels d) q x t" "q \<noteq> ch_id c" for q x t
      using that by (auto simp: on_connection_def disconnected_db_def)
    show ?thesis
      unfolding imports_ok_def
    proof (intro conjI ballI allI impI)
      fix b k
      assume "b \<in> set (bookings ?d')" "bk_channelConnectionId b = Some k"
      then obtain b0 where "b0 \<in> set (bookings d)" "b = b0" "bk_channelConnectionId b0 = Some k" "k \<noteq> ch_id c"
        by (auto simp: disconnected_db_def unlinked_def split: if_splits)
      then show "on_connection (channels ?d') k (bk_unitId b) (bk_tenantId b)"
        using on booking_import [OF sync_okD(4) [OF assms(1)]] by blast
    next
      fix x
      assume "x \<in> set (sync_conflicts ?d')"
      then show "on_connection (channels ?d') (sc_channelConnectionId x) (sc_unitId x) (sc_tenantId x)"
        using on sync_okD(4) [OF assms(1)] by (simp add: disconnected_db_def imports_ok_def)
    qed
  qed
  ultimately show "sync_ok ?d'" by (simp add: sync_ok_def db_ok_def)
qed

text \<open>Disconnecting keeps every booking: the answer counts the bookings imported through the
  connection, all of them stay with their status, dates and guests - merely unlinked, so that no later
  sync can touch them - and only the connection and its own conflicts are gone. An id outside the
  caller's scope is 404.\<close>

theorem disconnect_contract:
  assumes "sync_ok d"
  shows "case disconnect (Some p) cid d of
      Inl e \<Rightarrow> e = NotFound ''Channel connection not found'' \<and>
        (\<forall>c \<in> set (channels d). ch_id c = cid \<longrightarrow> \<not> rls_channel d (session_of p) c)
    | Inr (n, d') \<Rightarrow>
        (\<exists>c \<in> set (channels d). ch_id c = cid \<and> rls_channel d (session_of p) c) \<and>
        n = length (filter (\<lambda>b. bk_channelConnectionId b = Some cid) (bookings d)) \<and>
        bookings d' = map (unlinked cid) (bookings d) \<and>
        channels d' = filter (\<lambda>c. ch_id c \<noteq> cid) (channels d) \<and>
        sync_conflicts d' = filter (\<lambda>x. sc_channelConnectionId x \<noteq> cid) (sync_conflicts d) \<and> sync_ok d'"
proof -
  let ?P = "\<lambda>c. rls_channel d (session_of p) c \<and> ch_id c = cid \<and> ch_tenantId c = principal_tenant p"
  show ?thesis
  proof (cases "\<exists>c \<in> set (channels d). ?P c")
    case False
    then have "findConnectionById d (session_of p) cid = None" by (simp add: findConnectionById_def)
    with False show ?thesis using visible_same_tenant(4) by (fastforce simp: disconnect_def)
  next
    case True
    then obtain c where c: "c \<in> set (channels d)" "?P c" by blast
    have P: "?P k \<longleftrightarrow> k = c" if "k \<in> set (channels d)" for k
      using channel_by_id [OF sync_okD(2) [OF assms] that c(1)] c(2) by auto
    have found: "findConnectionById d (session_of p) cid \<noteq> None" using c by (auto simp: findConnectionById_def)
    have "rls_booking d (session_of p) b \<and> bk_tenantId b = principal_tenant p"
      if b: "b \<in> set (bookings d)" "bk_channelConnectionId b = Some cid" for b
    proof -
      have "on_connection (channels d) (ch_id c) (bk_unitId b) (bk_tenantId b)"
        using booking_import [OF sync_okD(4) [OF assms] b] c(2) by simp
      then have "bk_unitId b = ch_unitId c" "bk_tenantId b = ch_tenantId c"
        using on_own_connection [OF sync_okD(2) [OF assms] c(1)] by blast+
      then show ?thesis using c(2) by (simp add: rls_booking_def rls_channel_def)
    qed
    then have n: "countImportedBookings d (session_of p) cid =
        length (filter (\<lambda>b. bk_channelConnectionId b = Some cid) (bookings d))"
      unfolding countImportedBookings_def by (intro arg_cong [where f = length] filter_cong) auto
    have del: "delete_connection d (session_of p) cid = delete_channels ?P d"
      by (simp add: delete_connection_def)
    have "ch_id c = cid" using c(2) by blast
    then show ?thesis
      using found n del delete_channel_ok [OF assms c(1), of ?P, OF P] c
      by (auto simp: disconnect_def disconnected_db_def)
  qed
qed

section \<open>The fan-out pulls\<close>

definition within :: "channel_row list \<Rightarrow> db \<Rightarrow> db \<Rightarrow> bool" where
  "within cs d d' \<longleftrightarrow> same_frame d d' \<and>
     filter (\<lambda>b. \<forall>c \<in> set cs. \<not> own_booking c b) (bookings d') = filter (\<lambda>b. \<forall>c \<in> set cs. \<not> own_booking c b) (bookings d) \<and>
     filter (\<lambda>x. \<forall>c \<in> set cs. \<not> own_conflict c x) (sync_conflicts d') = filter (\<lambda>x. \<forall>c \<in> set cs. \<not> own_conflict c x) (sync_conflicts d) \<and>
     filter (\<lambda>k. ch_id k \<notin> ch_id ` set cs) (channels d') = filter (\<lambda>k. ch_id k \<notin> ch_id ` set cs) (channels d) \<and>
     grows moved_stay (bookings d) (bookings d') \<and> grows same_conflict (sync_conflicts d) (sync_conflicts d')"

lemma filter_weaker:
  assumes "filter Q xs = filter Q ys" "\<And>x. P x \<Longrightarrow> Q x"
  shows "filter P xs = filter P ys"
proof -
  have sub: "filter P (filter Q zs) = filter P zs" for zs
    unfolding filter_filter using assms(2) by (intro filter_cong) auto
  have "filter P (filter Q xs) = filter P (filter Q ys)" by (simp only: assms(1))
  then show ?thesis by (simp only: sub)
qed

lemma step_within:
  assumes "sync_step conn d d'" "conn \<in> set cs"
  shows "within cs d d'"
proof -
  have t: "same_frame d d'" "grows moved_stay (bookings d) (bookings d')"
    "grows same_conflict (sync_conflicts d) (sync_conflicts d')"
    "filter (\<lambda>b. \<not> own_booking conn b) (bookings d') = filter (\<lambda>b. \<not> own_booking conn b) (bookings d)"
    "filter (\<lambda>x. \<not> own_conflict conn x) (sync_conflicts d') = filter (\<lambda>x. \<not> own_conflict conn x) (sync_conflicts d)"
    "filter (\<lambda>c. ch_id c \<noteq> ch_id conn) (channels d') = filter (\<lambda>c. ch_id c \<noteq> ch_id conn) (channels d)"
    using assms(1) unfolding sync_step_def touches_only_def by blast+
  have "ch_id conn \<in> ch_id ` set cs" using assms(2) by (rule imageI)
  then have k: "ch_id k \<notin> ch_id ` set cs \<Longrightarrow> ch_id k \<noteq> ch_id conn" for k by metis
  have b: "\<forall>c \<in> set cs. \<not> own_booking c b \<Longrightarrow> \<not> own_booking conn b" for b using assms(2) by blast
  have x: "\<forall>c \<in> set cs. \<not> own_conflict c x \<Longrightarrow> \<not> own_conflict conn x" for x using assms(2) by blast
  show ?thesis
    unfolding within_def
    using t(1) filter_weaker [OF t(4) b] filter_weaker [OF t(5) x] filter_weaker [OF t(6) k] t(2,3)
    by (intro conjI)
qed

lemma within_refl: "within cs d d"
  by (simp add: within_def grows_refl)

lemma within_trans: "within cs a b \<Longrightarrow> within cs b c \<Longrightarrow> within cs a c"
  unfolding within_def
  using grows_trans [of moved_stay] grows_trans [of same_conflict] moved_stay_trans same_conflict_trans
    same_frame_trans by (elim conjE) (intro conjI; metis)

lemma sync_next_fold:
  assumes "sync_ok (snd acc)" "\<forall>c \<in> set cs. known_connection c (snd acc)" "\<And>k. zones_lawful (se_tz (envs k))"
    "set cs \<subseteq> set all_cs"
  shows "sync_ok (snd (fold (sync_next envs) cs acc)) \<and> within all_cs (snd acc) (snd (fold (sync_next envs) cs acc)) \<and>
    sa_feeds (fst (fold (sync_next envs) cs acc)) = sa_feeds (fst acc) \<and>
    sa_errored (fst (fold (sync_next envs) cs acc)) \<le> sa_errored (fst acc) + length cs"
  using assms(1,2,4)
proof (induction cs arbitrary: acc)
  case (Cons c cs)
  obtain out d' where o: "syncConnection (envs (ch_id c)) c (snd acc) = Inr (out, d')" "sync_step c (snd acc) d'"
    using syncConnection_step [OF Cons.prems(1) _ assms(3), of c "ch_id c"] Cons.prems(2) by auto
  let ?acc = "sync_next envs c acc"
  have d': "snd ?acc = d'" "sa_feeds (fst ?acc) = sa_feeds (fst acc)" "sa_errored (fst ?acc) \<le> Suc (sa_errored (fst acc))"
    using o(1) by (simp_all add: sync_next_def Let_def case_prod_beta)
  have "\<forall>k \<in> set cs. known_connection k (snd ?acc)"
    using Cons.prems(2) known_step [OF o(2)] d'(1) by simp
  moreover have "sync_ok (snd ?acc)" using o(2) d'(1) by (simp add: sync_step_def)
  ultimately have "sync_ok (snd (fold (sync_next envs) cs ?acc)) \<and>
      within all_cs (snd ?acc) (snd (fold (sync_next envs) cs ?acc)) \<and>
      sa_feeds (fst (fold (sync_next envs) cs ?acc)) = sa_feeds (fst ?acc) \<and>
      sa_errored (fst (fold (sync_next envs) cs ?acc)) \<le> sa_errored (fst ?acc) + length cs"
    using Cons.prems(3) by (intro Cons.IH) auto
  moreover have "within all_cs (snd acc) (snd ?acc)"
    using step_within [OF o(2)] Cons.prems(3) d'(1) by simp
  ultimately show ?case using d'(2,3) within_trans by fastforce
qed (simp add: within_refl)

text \<open>"Sync now" over everything never fails and stays inside the caller's scope: it pulls
  exactly the connections row-level security shows the caller - for staff, those of assigned properties -
  keeps every invariant, and leaves the bookings, conflicts and connections of all others as they are; a
  dead feed is one of the errors counted, never the loss of the rest.\<close>

theorem sync_all_in_scope:
  assumes "sync_ok d" "\<And>k. zones_lawful (se_tz (envs k))"
  shows "\<exists>t d' cs. syncAll (Some p) envs d = Inr (t, d') \<and>
    set cs = {c \<in> set (channels d). rls_channel d (session_of p) c} \<and> distinct cs \<and>
    sa_feeds t = length cs \<and> sa_errored t \<le> length cs \<and> sync_ok d' \<and> within cs d d'"
proof -
  let ?cs = "findAllVisible d (session_of p)"
  let ?acc = "(\<lparr>sa_feeds = length ?cs, sa_errored = 0, sa_imported = 0, sa_cancelled = 0, sa_conflicts = 0\<rparr>, d)"
  have "set ?cs = {c \<in> set (channels d). rls_channel d (session_of p) c}"
    by (auto simp: findAllVisible_def rls_channel_def)
  moreover have "distinct ?cs"
    using sync_okD(2) [OF assms(1)] by (simp add: findAllVisible_def channels_ok_def distinct_map)
  moreover have "\<forall>c \<in> set ?cs. known_connection c d"
    using known_member [OF sync_okD(2) [OF assms(1)]] by (simp add: findAllVisible_def)
  with sync_next_fold [of ?acc ?cs envs ?cs] assms
  have "sync_ok (snd (fold (sync_next envs) ?cs ?acc)) \<and> within ?cs d (snd (fold (sync_next envs) ?cs ?acc)) \<and>
      sa_feeds (fst (fold (sync_next envs) ?cs ?acc)) = length ?cs \<and>
      sa_errored (fst (fold (sync_next envs) ?cs ?acc)) \<le> length ?cs" by simp
  moreover have "syncAll (Some p) envs d = Inr (fold (sync_next envs) ?cs ?acc)"
    by (simp add: syncAll_def)
  ultimately show ?thesis
    by (intro exI [of _ "fst (fold (sync_next envs) ?cs ?acc)"] exI [of _ "snd (fold (sync_next envs) ?cs ?acc)"]
        exI [of _ ?cs]) simp
qed

end
