(* ===== verification/Sync_Conflicts.thy ===== *)
theory Sync_Conflicts
  imports Channels
begin

text \<open>
  The sync-conflict inbox, \<^verbatim>\<open>sync-conflicts.repository.ts\<close> and \<^verbatim>\<open>sync-conflicts.service.ts\<close>: the
  list with the bookings that block each conflict, derived on every read, and the dismissal.
\<close>

section \<open>The repository\<close>

record conflict_view =
  cv_id :: uuid
  cv_propertyId :: uuid
  cv_propertyName :: string
  cv_unitId :: uuid
  cv_unitName :: string
  cv_channel :: booking_source
  cv_externalUid :: string
  cv_checkIn :: date
  cv_checkOut :: date
  cv_status :: conflict_status
  cv_firstDetectedAt :: instant
  cv_lastSeenAt :: instant
  cv_closedAt :: "instant option"

record blocking_row =
  br_conflictId :: uuid
  br_booking :: booking_row

record list_conflicts_query =
  lc_status :: conflict_status
  lc_propertyId :: "uuid option"

definition conflict_joined ::
  "db \<Rightarrow> session \<Rightarrow> list_conflicts_query \<Rightarrow> conflict_row \<Rightarrow> unit_row \<Rightarrow> property_row \<Rightarrow> channel_row \<Rightarrow> bool" where
  "conflict_joined d s query c u p k \<longleftrightarrow>
     rls_conflict d s c \<and> rls_unit d s u \<and> rls_property d s p \<and> rls_channel d s k \<and>
     u_id u = sc_unitId c \<and> u_tenantId u = sc_tenantId c \<and>
     p_id p = u_propertyId u \<and> p_tenantId p = u_tenantId u \<and>
     ch_id k = sc_channelConnectionId c \<and> ch_tenantId k = sc_tenantId c \<and>
     sc_tenantId c = s_tenantId s \<and> sc_status c = lc_status query \<and>
     (case lc_propertyId query of None \<Rightarrow> True | Some pid \<Rightarrow> p_id p = pid)"

definition conflict_columns :: "conflict_row \<Rightarrow> unit_row \<Rightarrow> property_row \<Rightarrow> channel_row \<Rightarrow> conflict_view" where
  "conflict_columns c u p k =
     \<lparr>cv_id = sc_id c, cv_propertyId = p_id p, cv_propertyName = p_name p, cv_unitId = u_id u,
      cv_unitName = u_name u, cv_channel = ch_channel k, cv_externalUid = sc_externalUid c,
      cv_checkIn = sc_checkIn c, cv_checkOut = sc_checkOut c, cv_status = sc_status c,
      cv_firstDetectedAt = sc_firstDetectedAt c, cv_lastSeenAt = sc_lastSeenAt c,
      cv_closedAt = sc_closedAt c\<rparr>"

definition conflict_rows :: "db \<Rightarrow> session \<Rightarrow> list_conflicts_query \<Rightarrow> conflict_view list" where
  "conflict_rows d s query =
     sort_key (\<lambda>v. (- cv_lastSeenAt v, cv_id v))
       [conflict_columns c u p k. c \<leftarrow> sync_conflicts d, u \<leftarrow> units d, p \<leftarrow> properties d, k \<leftarrow> channels d,
          conflict_joined d s query c u p k]"

definition blocks :: "db \<Rightarrow> session \<Rightarrow> uuid list \<Rightarrow> conflict_row \<Rightarrow> booking_row \<Rightarrow> bool" where
  "blocks d s conflictIds c b \<longleftrightarrow>
     rls_conflict d s c \<and> rls_booking d s b \<and> bk_unitId b = sc_unitId c \<and> bk_tenantId b = sc_tenantId c \<and>
     bk_status b \<in> set OCCUPYING_STATUSES \<and>
     range_overlaps (bk_checkIn b) (bk_checkOut b) (sc_checkIn c) (sc_checkOut c) \<and>
     sc_tenantId c = s_tenantId s \<and> sc_id c \<in> set conflictIds"

definition findBlockingBookings :: "db \<Rightarrow> session \<Rightarrow> uuid list \<Rightarrow> blocking_row list" where
  "findBlockingBookings d s conflictIds =
     (if conflictIds = [] then []
      else sort_key (\<lambda>r. (bk_checkIn (br_booking r), bk_id (br_booking r)))
        [\<lparr>br_conflictId = sc_id c, br_booking = b\<rparr>. c \<leftarrow> sync_conflicts d, b \<leftarrow> bookings d,
           blocks d s conflictIds c b])"

datatype dismiss_outcome = Dismiss_not_found | Dismiss_closed conflict_status "instant option"

definition dismissed_row :: "instant \<Rightarrow> conflict_row \<Rightarrow> conflict_row" where
  "dismissed_row now c = c\<lparr>sc_status := Conf_dismissed, sc_closedAt := Some now\<rparr>"

definition owned_conflict :: "db \<Rightarrow> session \<Rightarrow> uuid \<Rightarrow> conflict_row \<Rightarrow> bool" where
  "owned_conflict d s cid c \<longleftrightarrow> rls_conflict d s c \<and> sc_id c = cid \<and> sc_tenantId c = s_tenantId s"

definition dismiss_repo :: "session \<Rightarrow> instant \<Rightarrow> uuid \<Rightarrow> db \<Rightarrow> app_error + (dismiss_outcome \<times> db)" where
  "dismiss_repo s now cid d =
     (let hit = (\<lambda>c. owned_conflict d s cid c \<and> sc_status c = Conf_open) in
      bind_res (update_conflicts hit (dismissed_row now) d) (\<lambda>d'.
        case select_one hit (sync_conflicts d) of
          Some c \<Rightarrow> Inr (Dismiss_closed (sc_status (dismissed_row now c)) (sc_closedAt (dismissed_row now c)), d')
        | None \<Rightarrow>
            (case select_one (owned_conflict d' s cid) (sync_conflicts d') of
               Some c \<Rightarrow> Inr (Dismiss_closed (sc_status c) (sc_closedAt c), d')
             | None \<Rightarrow> Inr (Dismiss_not_found, d'))))"

section \<open>The service\<close>

record blocking_booking =
  bb_id :: uuid
  bb_source :: booking_source
  bb_status :: booking_status
  bb_checkIn :: date
  bb_checkOut :: date
  bb_guestName :: "string option"

record sync_conflict_wire =
  sw_row :: conflict_view
  sw_stay_from :: date
  sw_stay_to :: date
  sw_blockingBookings :: "blocking_booking list"

definition blocking_toWire :: "booking_row \<Rightarrow> blocking_booking" where
  "blocking_toWire b =
     \<lparr>bb_id = bk_id b, bb_source = bk_source b, bb_status = bk_status b, bb_checkIn = bk_checkIn b,
      bb_checkOut = bk_checkOut b, bb_guestName = bk_guestName b\<rparr>"

definition conflict_toWire :: "conflict_view \<Rightarrow> blocking_row list \<Rightarrow> app_error + sync_conflict_wire" where
  "conflict_toWire row blocking =
     (if \<not> channelSchema (cv_channel row) then Inl (JsError ''Invalid enum value'')
      else Inr \<lparr>sw_row = row, sw_stay_from = cv_checkIn row, sw_stay_to = cv_checkOut row,
        sw_blockingBookings = map (\<lambda>r. blocking_toWire (br_booking r)) blocking\<rparr>)"

text \<open>\<^verbatim>\<open>byConflict\<close>: the blocking rows of one conflict, in the order of the query.\<close>

definition by_conflict :: "blocking_row list \<Rightarrow> uuid \<Rightarrow> blocking_row list" where
  "by_conflict blocking cid = filter (\<lambda>r. br_conflictId r = cid) blocking"

definition list_conflicts ::
  "tenant_context \<Rightarrow> list_conflicts_query \<Rightarrow> db \<Rightarrow> app_error + sync_conflict_wire list" where
  "list_conflicts ctx query d =
     db_run ctx None (\<lambda>tx.
       let rows = conflict_rows d (tx_session tx) query in
       if rows = [] then Inr []
       else let blocking = findBlockingBookings d (tx_session tx) (map cv_id rows)
            in map_res (\<lambda>row. conflict_toWire row (by_conflict blocking (cv_id row))) rows)"

record dismiss_response =
  dr_id :: uuid
  dr_status :: conflict_status
  dr_closedAt :: "instant option"

definition dismiss :: "tenant_context \<Rightarrow> instant \<Rightarrow> uuid \<Rightarrow> db \<Rightarrow> app_error + (dismiss_response \<times> db)" where
  "dismiss ctx now cid d =
     intercept (db_run ctx None (\<lambda>tx.
       bind_res (dismiss_repo (tx_session tx) now cid d) (\<lambda>(outcome, d').
         case outcome of
           Dismiss_not_found \<Rightarrow> Inl (NotFound ''No sync conflict with that id'')
         | Dismiss_closed st at \<Rightarrow> Inr (\<lparr>dr_id = cid, dr_status = st, dr_closedAt = at\<rparr>, d'))))"

end
