(* ===== verification/Conflict_Rules.thy ===== *)
theory Conflict_Rules
  imports Sync_Conflicts Import_Healthy
begin

text \<open>
  What the conflict inbox promises: an import is refused exactly when another booking holds one of its
  nights, the blocking list of the conflict covers those bookings, cancelling them lets the event in, and
  a dismissal is idempotent.
\<close>

section \<open>Why an event is refused\<close>

definition refuser :: "channel_row \<Rightarrow> imported_event \<Rightarrow> booking_row \<Rightarrow> bool" where
  "refuser conn e q \<longleftrightarrow> \<not> from_feed conn (ie_uid e) q \<and> occupies q \<and> bk_unitId q = ch_unitId conn \<and>
     range_overlaps (bk_checkIn q) (bk_checkOut q) (ie_start e) (ie_end e)"

lemma own_row_unit:
  assumes "sync_ok d" "conn \<in> set (channels d)" "b \<in> set (bookings d)" "from_feed conn uid b"
  shows "bk_unitId b = ch_unitId conn"
proof -
  have "on_connection (channels d) (ch_id conn) (bk_unitId b) (bk_tenantId b)"
    using booking_import [OF sync_okD(4) [OF assms(1)] assms(3)] assms(4) by (simp add: from_feed_def)
  then show ?thesis using on_own_connection [OF sync_okD(2) [OF assms(1)] assms(2)] by blast
qed

lemma upsert_update_refused:
  assumes ok: "sync_ok d" and c: "conn \<in> set (channels d)" and b: "b \<in> set (bookings d)" "from_feed conn (ie_uid e) b"
  shows "booking_no_overlap_refuses (update_where (from_feed conn (ie_uid e)) (restay e) (bookings d)) (restay e b) \<longleftrightarrow>
    (\<exists>q \<in> set (bookings d). refuser conn e q)"
proof
  let ?new = "update_where (from_feed conn (ie_uid e)) (restay e) (bookings d)"
  note bt = db_okD(2) [OF sync_okD(1) [OF ok]]
  assume "booking_no_overlap_refuses ?new (restay e b)"
  then obtain q where q: "q \<in> set ?new" "bk_id q \<noteq> bk_id b" "occupies q" "bk_unitId q = bk_unitId b"
    "range_overlaps (bk_checkIn q) (bk_checkOut q) (ie_start e) (ie_end e)"
    by (auto simp: booking_no_overlap_refuses_def excl_conflict_def)
  then obtain q0 where q0: "q0 \<in> set (bookings d)" "q = (if from_feed conn (ie_uid e) q0 then restay e q0 else q0)"
    by (auto simp: set_update_where)
  have "\<not> from_feed conn (ie_uid e) q0"
    using q(2) q0 feed_row_unique [OF bt q0(1) b(1) _ b(2)] by auto
  with q q0 own_row_unit [OF ok c b] show "\<exists>q \<in> set (bookings d). refuser conn e q"
    by (auto simp: refuser_def)
next
  let ?new = "update_where (from_feed conn (ie_uid e)) (restay e) (bookings d)"
  note bt = db_okD(2) [OF sync_okD(1) [OF ok]]
  assume "\<exists>q \<in> set (bookings d). refuser conn e q"
  then obtain q where q: "q \<in> set (bookings d)" "refuser conn e q" by blast
  have "q \<noteq> b" using q(2) b(2) by (auto simp: refuser_def)
  then have "bk_id q \<noteq> bk_id b" using bt q(1) b(1) by (auto simp: booking_table_ok_def distinct_map inj_on_def)
  moreover have "q \<in> set ?new" using q unfolding set_update_where refuser_def by force
  moreover have "occupies (restay e b)" by (simp add: occupies_iff)
  ultimately show "booking_no_overlap_refuses ?new (restay e b)"
    using q(2) own_row_unit [OF ok c b] by (auto simp: booking_no_overlap_refuses_def excl_conflict_def refuser_def)
qed

lemma upsert_refused_iff:
  assumes ok: "sync_ok d" and c: "conn \<in> set (channels d)" and e: "event_ok e"
    and i: "i \<notin> bk_id ` set (bookings d)"
  shows "(\<exists>err. upsertEvent conn now i e d = Inl err) \<longleftrightarrow> (\<exists>q \<in> set (bookings d). refuser conn e q)"
proof -
  have lt: "ie_start e < ie_end e" using e by (simp add: event_ok_def)
  then have chk: "booking_check (imported_row conn now i e) = None" by (simp add: imported_check)
  note bt = db_okD(2) [OF sync_okD(1) [OF ok]]
  show ?thesis
  proof (cases "\<exists>b \<in> set (bookings d). from_feed conn (ie_uid e) b")
    case True
    then obtain b where b: "b \<in> set (bookings d)" "from_feed conn (ie_uid e) b" by blast
    let ?new = "update_where (from_feed conn (ie_uid e)) (restay e) (bookings d)"
    have up: "upsertEvent conn now i e d = update_booking (from_feed conn (ie_uid e)) (restay e) d"
      using True chk by (simp add: upsertEvent_def)
    show ?thesis
    proof
      assume "\<exists>err. upsertEvent conn now i e d = Inl err"
      then have "upsertEvent conn now i e d = Inl (DbError ''booking_no_overlap'')"
        using upsert_refusal [OF ok c e i] by blast
      then obtain x where x: "x \<in> set (bookings d)" "from_feed conn (ie_uid e) x"
        "booking_violation d ?new (restay e x) = Some ''booking_no_overlap''"
        unfolding up by (auto simp: update_booking_def Let_def dest!: first_violation_Some split: option.splits)
      then have "booking_no_overlap_refuses ?new (restay e x)"
        by (auto simp: booking_violation_def booking_check_def split: option.splits if_splits)
      then show "\<exists>q \<in> set (bookings d). refuser conn e q" using upsert_update_refused [OF ok c x(1,2)] by blast
    next
      assume "\<exists>q \<in> set (bookings d). refuser conn e q"
      then have "booking_no_overlap_refuses ?new (restay e b)" using upsert_update_refused [OF ok c b] by blast
      then have "booking_violation d ?new (restay e b) \<noteq> None" by (simp add: booking_violation_None)
      then have "first_violation (booking_violation d ?new) (map (restay e) (filter (from_feed conn (ie_uid e)) (bookings d))) \<noteq> None"
        unfolding first_violation_None using b by auto
      then show "\<exists>err. upsertEvent conn now i e d = Inl err"
        unfolding up by (auto simp: update_booking_def Let_def simp del: first_violation_None split: option.splits)
    qed
  next
    case False
    let ?r = "imported_row conn now i e"
    have occ: "occupies ?r" by (simp add: occupies_iff)
    have ref: "booking_no_overlap_refuses (bookings d @ [?r]) ?r \<longleftrightarrow> (\<exists>q \<in> set (bookings d). refuser conn e q)"
      using False i occ by (auto simp: booking_no_overlap_refuses_def excl_conflict_def refuser_def)
    show ?thesis
    proof
      assume "\<exists>err. upsertEvent conn now i e d = Inl err"
      then have "upsertEvent conn now i e d = Inl (DbError ''booking_no_overlap'')"
        using upsert_refusal [OF ok c e i] by blast
      then have "insert_booking ?r d = Inl (DbError ''booking_no_overlap'')"
        using False chk by (auto simp: upsertEvent_def bind_res_Inl_iff split: if_splits)
      then have "booking_violation d (bookings d @ [?r]) ?r = Some ''booking_no_overlap''"
        by (auto simp: insert_booking_def Let_def split: if_splits option.splits)
      then have "booking_no_overlap_refuses (bookings d @ [?r]) ?r"
        by (auto simp: booking_violation_def chk split: if_splits)
      with ref show "\<exists>q \<in> set (bookings d). refuser conn e q" by blast
    next
      assume "\<exists>q \<in> set (bookings d). refuser conn e q"
      with ref have "booking_violation d (bookings d @ [?r]) ?r \<noteq> None" by (simp add: booking_violation_None)
      then have "\<exists>err. insert_booking ?r d = Inl err"
        by (auto simp: insert_booking_def Let_def split: option.splits)
      with False chk show "\<exists>err. upsertEvent conn now i e d = Inl err" by (auto simp: upsertEvent_def)
    qed
  qed
qed

section \<open>The blocking list\<close>

definition blockers :: "db \<Rightarrow> conflict_row \<Rightarrow> booking_row set" where
  "blockers d c = {b \<in> set (bookings d). bk_unitId b = sc_unitId c \<and> occupies b \<and>
     range_overlaps (bk_checkIn b) (bk_checkOut b) (sc_checkIn c) (sc_checkOut c)}"

lemma conflict_by_id:
  "conflicts_ok d \<Longrightarrow> a \<in> set (sync_conflicts d) \<Longrightarrow> b \<in> set (sync_conflicts d) \<Longrightarrow> sc_id a = sc_id b \<Longrightarrow> a = b"
  by (auto simp: conflicts_ok_def distinct_map inj_on_def)

lemma conflict_seen:
  assumes "sync_ok d" "c \<in> set (sync_conflicts d)" "u \<in> set (units d)" "owned_unit d s (sc_unitId c) u"
  shows "rls_conflict d s c" "sc_tenantId c = s_tenantId s"
proof -
  obtain v where "v \<in> set (units d)" "u_id v = sc_unitId c" "u_tenantId v = sc_tenantId c"
    using sync_okD(3) [OF assms(1)] assms(2) by (auto simp: conflicts_ok_def conflict_violation_None)
  then show t: "sc_tenantId c = s_tenantId s"
    using unit_by_id [OF db_okD(1) [OF sync_okD(1) [OF assms(1)]]] assms(3,4) by (metis owned_unit_def)
  show "rls_conflict d s c" using t unit_visible_owned [OF assms(3,4)] by (simp add: rls_conflict_def)
qed

lemma blocking_set:
  assumes ok: "sync_ok d" and c: "c \<in> set (sync_conflicts d)" and u: "u \<in> set (units d)" "owned_unit d s (sc_unitId c) u"
  shows "br_booking ` set (findBlockingBookings d s [sc_id c]) = blockers d c"
proof -
  have b: "blocks d s [sc_id c] x b \<longleftrightarrow> x = c \<and> b \<in> blockers d c"
    if "x \<in> set (sync_conflicts d)" "b \<in> set (bookings d)" for x b
  proof (cases "x = c")
    case True
    have "rls_booking d s b \<and> bk_tenantId b = sc_tenantId c" if "bk_unitId b = sc_unitId c"
      using booking_seen [OF db_okD(1) [OF sync_okD(1) [OF ok]] db_okD(2) [OF sync_okD(1) [OF ok]] u \<open>b \<in> set (bookings d)\<close> that]
        conflict_seen(2) [OF ok c u] by simp
    then show ?thesis
      using True that conflict_seen [OF ok c u] by (auto simp: blocks_def blockers_def occupies_def)
  next
    case False
    then have "sc_id x \<noteq> sc_id c" using conflict_by_id [OF sync_okD(3) [OF ok] that(1) c] by blast
    with False show ?thesis by (simp add: blocks_def)
  qed
  have "set (findBlockingBookings d s [sc_id c]) =
      {\<lparr>br_conflictId = sc_id x, br_booking = b\<rparr> | x b.
        x \<in> set (sync_conflicts d) \<and> b \<in> set (bookings d) \<and> blocks d s [sc_id c] x b}"
    by (auto simp: findBlockingBookings_def)
  also have "\<dots> = {\<lparr>br_conflictId = sc_id c, br_booking = b\<rparr> | b. b \<in> blockers d c}"
    using b c by (auto simp: blockers_def)
  finally have "set (findBlockingBookings d s [sc_id c]) = (\<lambda>b. \<lparr>br_conflictId = sc_id c, br_booking = b\<rparr>) ` blockers d c"
    by blast
  then show ?thesis by (simp add: image_image)
qed

text \<open>Claim C35. The inbox shows what stands in the way. For an event the import refused, the blocking
  bookings listed with its conflict are exactly the occupying bookings of the unit on its nights; they
  include every booking that caused the refusal, and at least one; the only other row that can appear is
  the feed's own earlier booking of this event. Cancelling the blocking bookings that are not the event's
  own lets the next pull book it.\<close>

theorem blocking_list_resolves:
  assumes "sync_ok d" "conn \<in> set (channels d)" "event_ok e" "i \<notin> bk_id ` set (bookings d)"
    "upsertEvent conn now i e d = Inl err"
    "c \<in> set (sync_conflicts d)" "conflict_of conn (ie_uid e) c" "sc_checkIn c = ie_start e" "sc_checkOut c = ie_end e"
    "u \<in> set (units d)" "owned_unit d s (sc_unitId c) u"
  shows "br_booking ` set (findBlockingBookings d s [sc_id c]) = blockers d c \<and>
    {q \<in> set (bookings d). refuser conn e q} = {q \<in> blockers d c. \<not> from_feed conn (ie_uid e) q} \<and>
    {q \<in> set (bookings d). refuser conn e q} \<noteq> {} \<and>
    (\<exists>d'. upsertEvent conn now i e
       (d\<lparr>bookings := update_where (\<lambda>b. b \<in> blockers d c \<and> \<not> from_feed conn (ie_uid e) b) (set_status Cancelled) (bookings d)\<rparr>) = Inr d')"
proof -
  have "on_connection (channels d) (ch_id conn) (sc_unitId c) (sc_tenantId c)"
    using sync_okD(4) [OF assms(1)] assms(6,7) by (auto simp: imports_ok_def conflict_of_def)
  then have cu: "sc_unitId c = ch_unitId conn"
    using on_own_connection [OF sync_okD(2) [OF assms(1)] assms(2)] by blast
  have ref: "{q \<in> set (bookings d). refuser conn e q} = {q \<in> blockers d c. \<not> from_feed conn (ie_uid e) q}"
    using assms(8,9) cu by (auto simp: refuser_def blockers_def)
  have ne: "\<exists>q \<in> set (bookings d). refuser conn e q"
    using upsert_refused_iff [OF assms(1-4)] assms(5) by blast
  let ?P = "\<lambda>b. b \<in> blockers d c \<and> \<not> from_feed conn (ie_uid e) b"
  let ?d = "d\<lparr>bookings := update_where ?P (set_status Cancelled) (bookings d)\<rparr>"
  have ok: "sync_ok ?d" using assms(1) by (intro sync_ok_release) simp_all
  have "\<not> refuser conn e q" if "q \<in> set (bookings ?d)" for q
  proof
    assume r: "refuser conn e q"
    have "q \<in> set (update_where ?P (set_status Cancelled) (bookings d))" using that by simp
    then obtain b where b: "b \<in> set (bookings d)" "q = (if ?P b then set_status Cancelled b else b)"
      unfolding set_update_where by (elim imageE)
    have "\<not> ?P b"
    proof
      assume "?P b"
      with b(2) have "q = set_status Cancelled b" by simp
      with r show False by (simp add: refuser_def)
    qed
    with b r have "b \<in> {q \<in> set (bookings d). refuser conn e q}" by simp
    with ref \<open>\<not> ?P b\<close> show False by blast
  qed
  then have "\<not> (\<exists>err. upsertEvent conn now i e ?d = Inl err)"
    using assms(2,4) by (subst upsert_refused_iff [OF ok]) (auto simp: assms(3) set_update_where)
  then have "\<exists>d'. upsertEvent conn now i e ?d = Inr d'" by (cases "upsertEvent conn now i e ?d") auto
  then show ?thesis using blocking_set [OF assms(1,6,10,11)] ref ne by blast
qed

section \<open>Dismissing\<close>

lemma owned_conflict_unique:
  "conflicts_ok d \<Longrightarrow> c \<in> set (sync_conflicts d) \<Longrightarrow> owned_conflict d s cid c \<Longrightarrow>
   select_one (owned_conflict d s cid) (sync_conflicts d) = Some c"
  by (rule select_one_unique [where k = sc_id]) (auto simp: conflicts_ok_def owned_conflict_def)

lemma dismissed_row_simps [row_simps, simp]:
  "sc_id (dismissed_row now c) = sc_id c" "sc_unitId (dismissed_row now c) = sc_unitId c"
  "sc_tenantId (dismissed_row now c) = sc_tenantId c" "sc_status (dismissed_row now c) = Conf_dismissed"
  "sc_closedAt (dismissed_row now c) = Some now" "sc_externalUid (dismissed_row now c) = sc_externalUid c"
  "sc_channelConnectionId (dismissed_row now c) = sc_channelConnectionId c"
  "sc_checkIn (dismissed_row now c) = sc_checkIn c" "sc_checkOut (dismissed_row now c) = sc_checkOut c"
  by (simp_all add: dismissed_row_def)

lemma owned_conflict_frame [simp]:
  "owned_conflict (d\<lparr>sync_conflicts := y\<rparr>) s cid c = owned_conflict d s cid c"
  using visibility_cong [of "d\<lparr>sync_conflicts := y\<rparr>" d] by (simp add: owned_conflict_def rls_conflict_def)

lemma owned_conflict_dismissed [simp]:
  "owned_conflict d s cid (dismissed_row now c) = owned_conflict d s cid c"
  by (simp add: owned_conflict_def rls_conflict_def)

definition dismiss_hit :: "db \<Rightarrow> session \<Rightarrow> uuid \<Rightarrow> conflict_row \<Rightarrow> bool" where
  "dismiss_hit d s cid c \<longleftrightarrow> owned_conflict d s cid c \<and> sc_status c = Conf_open"

definition dismissed_db :: "db \<Rightarrow> session \<Rightarrow> instant \<Rightarrow> uuid \<Rightarrow> db" where
  "dismissed_db d s now cid =
     d\<lparr>sync_conflicts := update_where (dismiss_hit d s cid) (dismissed_row now) (sync_conflicts d)\<rparr>"

lemma dismiss_eq:
  assumes "conflicts_ok d"
  shows "dismiss (Some p) now cid d =
    (let d' = dismissed_db d (session_of p) now cid in
     case select_one (owned_conflict d (session_of p) cid) (sync_conflicts d') of
       None \<Rightarrow> Inl (NotFound ''No sync conflict with that id'')
     | Some c \<Rightarrow> Inr (\<lparr>dr_id = cid, dr_status = sc_status c, dr_closedAt = sc_closedAt c\<rparr>, d'))"
proof -
  let ?s = "session_of p"
  have lt: "sc_checkIn r < sc_checkOut r" if "r \<in> set (sync_conflicts d)" for r
    using assms that by (auto simp: conflicts_ok_def conflict_violation_None)
  have hit: "(\<lambda>c. owned_conflict d ?s cid c \<and> sc_status c = Conf_open) = dismiss_hit d ?s cid"
    by (simp add: fun_eq_iff dismiss_hit_def)
  note up = update_conflicts_admitted [OF assms, of "dismissed_row now" "dismiss_hit d ?s cid"]
  have u: "update_conflicts (dismiss_hit d ?s cid) (dismissed_row now) d = Inr (dismissed_db d ?s now cid)"
    using up(1) lt by (simp add: dismissed_db_def)
  have ok': "conflicts_ok (dismissed_db d ?s now cid)"
    unfolding dismissed_db_def using lt by (intro up(2)) simp_all
  show ?thesis
  proof (cases "select_one (dismiss_hit d ?s cid) (sync_conflicts d)")
    case (Some c)
    then have c: "c \<in> set (sync_conflicts d)" "dismiss_hit d ?s cid c" by (auto dest: select_one_SomeD)
    have "dismissed_row now c \<in> set (sync_conflicts (dismissed_db d ?s now cid))"
      unfolding dismissed_db_def using update_where_hit [where P = "dismiss_hit d ?s cid", OF c] by simp
    moreover have "owned_conflict (dismissed_db d ?s now cid) ?s cid (dismissed_row now c)"
      using c(2) by (simp add: dismissed_db_def dismiss_hit_def)
    ultimately have "select_one (owned_conflict (dismissed_db d ?s now cid) ?s cid)
        (sync_conflicts (dismissed_db d ?s now cid)) = Some (dismissed_row now c)"
      by (rule owned_conflict_unique [OF ok'])
    moreover have "owned_conflict (dismissed_db d ?s now cid) ?s cid = owned_conflict d ?s cid"
      by (simp add: fun_eq_iff dismissed_db_def)
    ultimately show ?thesis
      using Some u
      by (simp add: dismiss_def dismiss_repo_def Let_def hit intercept_def)
  next
    case None
    have "owned_conflict (dismissed_db d ?s now cid) ?s cid = owned_conflict d ?s cid"
      by (simp add: fun_eq_iff dismissed_db_def)
    with None u show ?thesis
      by (auto simp: dismiss_def dismiss_repo_def Let_def hit intercept_def simp del: select_one_None_iff split: option.splits)
  qed
qed

text \<open>Dismissing a conflict is idempotent and answers what is: an id outside the caller's scope is
  404; an open conflict becomes dismissed now; one already closed is answered as it stands. Dismissing
  again, at any later time, gives the very same answer and changes nothing, and no booking is touched.\<close>

theorem dismiss_contract:
  assumes "sync_ok d"
  shows "case dismiss (Some p) now cid d of
      Inl e \<Rightarrow> e = NotFound ''No sync conflict with that id'' \<and>
        (\<forall>c \<in> set (sync_conflicts d). \<not> owned_conflict d (session_of p) cid c)
    | Inr (r, d') \<Rightarrow>
        (\<exists>c \<in> set (sync_conflicts d). owned_conflict d (session_of p) cid c \<and>
           (if sc_status c = Conf_open then dr_status r = Conf_dismissed \<and> dr_closedAt r = Some now
            else dr_status r = sc_status c \<and> dr_closedAt r = sc_closedAt c)) \<and>
        dr_status r \<noteq> Conf_open \<and> bookings d' = bookings d \<and> sync_ok d' \<and>
        dismiss (Some p) later cid d' = Inr (r, d')"
proof -
  let ?s = "session_of p" let ?d' = "dismissed_db d (session_of p) now cid"
  have ok: "conflicts_ok d" using assms by blast
  have lt: "sc_checkIn r < sc_checkOut r" if "r \<in> set (sync_conflicts d)" for r
    using ok that by (auto simp: conflicts_ok_def conflict_violation_None)
  have ok': "conflicts_ok ?d'"
    unfolding dismissed_db_def using lt by (intro update_conflicts_admitted(2) [OF ok]) simp_all
  have sok: "sync_ok ?d'"
    using ok' unfolding dismissed_db_def by (intro sync_ok_conflict_update [OF assms]) simp_all
  have again: "dismissed_db ?d' ?s later cid = ?d'"
  proof -
    have "update_where (dismiss_hit ?d' ?s cid) (dismissed_row later) (sync_conflicts ?d') = sync_conflicts ?d'"
    proof (rule update_where_none)
      fix r
      assume "r \<in> set (sync_conflicts ?d')"
      then show "\<not> dismiss_hit ?d' ?s cid r"
        by (auto simp: dismissed_db_def set_update_where dismiss_hit_def)
    qed
    then show ?thesis by (simp add: dismissed_db_def)
  qed
  show ?thesis
  proof (cases "\<exists>c \<in> set (sync_conflicts d). owned_conflict d ?s cid c")
    case False
    then have "select_one (owned_conflict d ?s cid) (sync_conflicts ?d') = None"
      by (auto simp: dismissed_db_def set_update_where dismiss_hit_def)
    then have "dismiss (Some p) now cid d = Inl (NotFound ''No sync conflict with that id'')"
      by (simp add: dismiss_eq [OF ok] Let_def del: select_one_None_iff)
    with False show ?thesis by simp
  next
    case True
    then obtain c where c: "c \<in> set (sync_conflicts d)" "owned_conflict d ?s cid c" by blast
    define c' where "c' = (if sc_status c = Conf_open then dismissed_row now c else c)"
    have "c' \<in> set (sync_conflicts ?d')"
      using c unfolding c'_def dismissed_db_def
      by (auto simp: set_update_where dismiss_hit_def image_iff intro!: bexI [of _ c])
    moreover have "owned_conflict ?d' ?s cid c'" using c(2) by (simp add: c'_def dismissed_db_def)
    ultimately have sel: "select_one (owned_conflict ?d' ?s cid) (sync_conflicts ?d') = Some c'"
      by (rule owned_conflict_unique [OF ok'])
    have fr: "owned_conflict ?d' ?s cid = owned_conflict d ?s cid" by (simp add: fun_eq_iff dismissed_db_def)
    have one: "dismiss (Some p) now cid d = Inr (\<lparr>dr_id = cid, dr_status = sc_status c', dr_closedAt = sc_closedAt c'\<rparr>, ?d')"
      using sel fr by (simp add: dismiss_eq [OF ok])
    moreover have "dismiss (Some p) later cid ?d' = Inr (\<lparr>dr_id = cid, dr_status = sc_status c', dr_closedAt = sc_closedAt c'\<rparr>, ?d')"
      using sel by (simp add: dismiss_eq [OF ok'] again)
    moreover have "bookings ?d' = bookings d" by (simp add: dismissed_db_def)
    ultimately show ?thesis using c sok by (auto simp: c'_def)
  qed
qed

end
