(* ===== verification/Ical_Fetcher.thy ===== *)
theory Ical_Fetcher
  imports Ical_Import Channels
begin

text \<open>
  The guarded fetch of a feed, \<^verbatim>\<open>ical-fetcher.ts\<close> with \<^verbatim>\<open>common/private-host.ts\<close>: redirects are
  followed by hand and every hop is checked again. The platform's \<^verbatim>\<open>URL\<close> and \<^verbatim>\<open>fetch\<close> are parameters;
  the walk also answers the addresses it requested, in order.
\<close>

section \<open>Private hosts\<close>

definition PRIVATE_USE_SUFFIXES :: "string list" where
  "PRIVATE_USE_SUFFIXES = [''.localhost'', ''.local'', ''.internal'', ''.home.arpa'']"

definition strip_brackets :: "string \<Rightarrow> string" where
  "strip_brackets host =
     (let h = (case host of [] \<Rightarrow> [] | c # cs \<Rightarrow> if c = CHR ''['' then cs else host)
      in if h \<noteq> [] \<and> last h = CHR '']'' then butlast h else h)"

text \<open>The regular expression of a dotted quad: four runs of one to three digits.\<close>

fun take_digits :: "nat \<Rightarrow> string \<Rightarrow> string \<times> string" where
  "take_digits 0 s = ([], s)"
| "take_digits (Suc n) [] = ([], [])"
| "take_digits (Suc n) (c # cs) =
     (if is_digit c then (case take_digits n cs of (a, b) \<Rightarrow> (c # a, b)) else ([], c # cs))"

definition quad_part :: "string \<Rightarrow> (string \<times> string) option" where
  "quad_part s = (case take_digits 3 s of (a, b) \<Rightarrow> if a = [] then None else Some (a, b))"

definition expect_dot :: "string \<Rightarrow> string option" where
  "expect_dot s = (case s of c # cs \<Rightarrow> if c = CHR ''.'' then Some cs else None | [] \<Rightarrow> None)"

definition dotted_quad :: "string \<Rightarrow> (nat \<times> nat) option" where
  "dotted_quad s =
     Option.bind (quad_part s) (\<lambda>(a, r1). Option.bind (expect_dot r1) (\<lambda>s2.
     Option.bind (quad_part s2) (\<lambda>(b, r2). Option.bind (expect_dot r2) (\<lambda>s3.
     Option.bind (quad_part s3) (\<lambda>(c, r3). Option.bind (expect_dot r3) (\<lambda>s4.
     Option.bind (quad_part s4) (\<lambda>(e, r4).
       if r4 = [] then Some (num a, num b) else None)))))))"

definition isPrivateHost :: "string \<Rightarrow> bool" where
  "isPrivateHost hostname =
     (let host = strip_brackets (to_lower hostname) in
      if host = [] then False
      else if host = ''localhost'' \<or> list_ex (\<lambda>suf. suffix suf host) PRIVATE_USE_SUFFIXES then True
      else if CHR '':'' \<in> set host then
        (if host = ''::1'' \<or> host = ''::'' then True
         else if prefix ''fe8'' host \<or> prefix ''fe9'' host \<or> prefix ''fea'' host \<or> prefix ''feb'' host then True
         else prefix ''fc'' host \<or> prefix ''fd'' host)
      else (case dotted_quad host of
              None \<Rightarrow> False
            | Some (a, b) \<Rightarrow>
                a = 0 \<or> a = 10 \<or> a = 127 \<or> a = 169 \<and> b = 254 \<or> a = 172 \<and> b \<ge> 16 \<and> b \<le> 31 \<or>
                a = 192 \<and> b = 168))"

section \<open>The walk\<close>

definition MAX_SNIFF_BYTES :: nat where
  "MAX_SNIFF_BYTES = 64 * 1024"

definition MAX_FEED_BYTES :: nat where
  "MAX_FEED_BYTES = 5 * 1024 * 1024"

definition MAX_REDIRECTS :: nat where
  "MAX_REDIRECTS = 5"

definition REDIRECT_STATUSES :: "nat list" where
  "REDIRECT_STATUSES = [301, 302, 303, 307, 308]"

text \<open>The platform: \<^verbatim>\<open>new URL(s)\<close>, \<^verbatim>\<open>new URL(s, base)\<close>, its protocol and host, and one GET without
  following redirects (no answer when it fails or times out). A body is the chunks its reader yields, a
  missing chunk a failed read.\<close>

record 'u url_api =
  url_parse :: "string \<Rightarrow> 'u option"
  url_resolve :: "string \<Rightarrow> 'u \<Rightarrow> 'u option"
  url_protocol :: "'u \<Rightarrow> string"
  url_hostname :: "'u \<Rightarrow> string"

record http_response =
  rs_status :: nat
  rs_location :: "string option"
  rs_body :: "string option list"

definition rs_ok :: "http_response \<Rightarrow> bool" where
  "rs_ok r \<longleftrightarrow> 200 \<le> rs_status r \<and> rs_status r \<le> 299"

fun walk_loop ::
  "'u url_api \<Rightarrow> ('u \<Rightarrow> http_response option) \<Rightarrow> nat \<Rightarrow> 'u \<Rightarrow> (string + http_response) \<times> 'u list" where
  "walk_loop api fetch 0 current = (Inl ''Too many redirects'', [])"
| "walk_loop api fetch (Suc hops) current =
     (if url_protocol api current \<noteq> ''https:'' then (Inl ''Feed URL must be https'', [])
      else if isPrivateHost (url_hostname api current) then (Inl ''Feed host is not allowed'', [])
      else case fetch current of
        None \<Rightarrow> (Inl ''Feed is unreachable'', [current])
      | Some res \<Rightarrow>
          if rs_status res \<in> set REDIRECT_STATUSES then
            (case rs_location res of
               None \<Rightarrow> (Inl ''Feed redirect could not be verified'', [current])
             | Some location \<Rightarrow>
                 if location = [] then (Inl ''Feed redirect could not be verified'', [current])
                 else (case url_resolve api location current of
                    None \<Rightarrow> (Inl ''Feed redirect is invalid'', [current])
                  | Some next_url \<Rightarrow>
                      (case walk_loop api fetch hops next_url of
                         (r, visited) \<Rightarrow> (r, current # visited))))
          else if \<not> rs_ok res then (Inl (''Feed responded '' @ pad 3 (rs_status res)), [current])
          else (Inr res, [current]))"

definition walk ::
  "'u url_api \<Rightarrow> ('u \<Rightarrow> http_response option) \<Rightarrow> string \<Rightarrow> (string + http_response) \<times> 'u list" where
  "walk api fetch url =
     (case url_parse api url of
        None \<Rightarrow> (Inl ''Not a valid URL'', [])
      | Some current \<Rightarrow> walk_loop api fetch (Suc MAX_REDIRECTS) current)"

fun readBounded :: "nat \<Rightarrow> string option list \<Rightarrow> string \<Rightarrow> string option" where
  "readBounded maxBytes [] out = Some out"
| "readBounded maxBytes (None # chunks) out = None"
| "readBounded maxBytes (Some c # chunks) out =
     (if utf16_length (out @ c) \<ge> maxBytes then Some (out @ c) else readBounded maxBytes chunks (out @ c))"

definition probe :: "'u url_api \<Rightarrow> ('u \<Rightarrow> http_response option) \<Rightarrow> string \<Rightarrow> probe_result" where
  "probe api fetch url =
     (case fst (walk api fetch url) of
        Inl err \<Rightarrow> \<lparr>pb_ok = False, pb_error = Some err\<rparr>
      | Inr res \<Rightarrow>
          (let head_text = (case readBounded MAX_SNIFF_BYTES (rs_body res) [] of None \<Rightarrow> [] | Some t \<Rightarrow> t)
           in if sublist ''BEGIN:VCALENDAR'' head_text then \<lparr>pb_ok = True, pb_error = None\<rparr>
              else \<lparr>pb_ok = False, pb_error = Some ''Response is not an iCalendar feed''\<rparr>))"

definition fetchFeed :: "'u url_api \<Rightarrow> ('u \<Rightarrow> http_response option) \<Rightarrow> string \<Rightarrow> fetch_result" where
  "fetchFeed api fetch url =
     (case fst (walk api fetch url) of
        Inl err \<Rightarrow> \<lparr>fr_ok = False, fr_body = None, fr_error = Some err\<rparr>
      | Inr res \<Rightarrow>
          (case readBounded MAX_FEED_BYTES (rs_body res) [] of
             None \<Rightarrow> \<lparr>fr_ok = False, fr_body = None, fr_error = Some ''Feed could not be read''\<rparr>
           | Some body \<Rightarrow> \<lparr>fr_ok = True, fr_body = Some body, fr_error = None\<rparr>))"

section \<open>What the guard guarantees\<close>

definition allowed_url :: "'u url_api \<Rightarrow> 'u \<Rightarrow> bool" where
  "allowed_url api u \<longleftrightarrow> url_protocol api u = ''https:'' \<and> \<not> isPrivateHost (url_hostname api u)"

lemma walk_loop_redirects:
  obtains (stop) r v where "walk_loop api fetch (Suc hops) current = (r, v)" "length v \<le> 1"
      "\<forall>u \<in> set v. allowed_url api u"
      "\<And>res. r = Inr res \<Longrightarrow> v = [current] \<and> fetch current = Some res \<and> rs_ok res"
    | (hop) next_url where "allowed_url api current" "walk_loop api fetch (Suc hops) current =
        (fst (walk_loop api fetch hops next_url), current # snd (walk_loop api fetch hops next_url))"
proof (cases "\<exists>r location next_url. allowed_url api current \<and> fetch current = Some r \<and>
      rs_status r \<in> set REDIRECT_STATUSES \<and> rs_location r = Some location \<and> location \<noteq> [] \<and>
      url_resolve api location current = Some next_url")
  case True
  then obtain r location next_url where h: "allowed_url api current" "fetch current = Some r"
    "rs_status r \<in> set REDIRECT_STATUSES" "rs_location r = Some location" "location \<noteq> []"
    "url_resolve api location current = Some next_url" by blast
  then show ?thesis by (intro hop [of next_url]) (simp_all add: allowed_url_def split: prod.splits)
next
  case False
  let ?w = "walk_loop api fetch (Suc hops) current"
  have "length (snd ?w) \<le> 1 \<and> (\<forall>u \<in> set (snd ?w). allowed_url api u) \<and>
      (\<forall>res. fst ?w = Inr res \<longrightarrow> snd ?w = [current] \<and> fetch current = Some res \<and> rs_ok res)"
  proof (cases "allowed_url api current")
    case True
    with False show ?thesis
      by (cases "fetch current") (auto simp: allowed_url_def split: option.splits)
  next
    case False
    then show ?thesis by (auto simp: allowed_url_def)
  qed
  then show ?thesis using stop [of "fst ?w" "snd ?w"] by simp
qed

lemma walk_loop_guarded: "\<forall>u \<in> set (snd (walk_loop api fetch n current)). allowed_url api u"
proof (induction n arbitrary: current)
  case (Suc n)
  show ?case
  proof (cases rule: walk_loop_redirects [where api = api and fetch = fetch and hops = n and current = current])
    case (stop r v)
    then show ?thesis by simp
  next
    case (hop next_url)
    with Suc [of next_url] show ?thesis by simp
  qed
qed simp

lemma walk_loop_bound: "length (snd (walk_loop api fetch n current)) \<le> n"
proof (induction n arbitrary: current)
  case (Suc n)
  show ?case
  proof (cases rule: walk_loop_redirects [where api = api and fetch = fetch and hops = n and current = current])
    case (stop r v)
    then show ?thesis by simp
  next
    case (hop next_url)
    with Suc [of next_url] show ?thesis by simp
  qed
qed simp

lemma walk_loop_final:
  "fst (walk_loop api fetch n current) = Inr res \<Longrightarrow>
     snd (walk_loop api fetch n current) \<noteq> [] \<and>
     fetch (last (snd (walk_loop api fetch n current))) = Some res \<and> rs_ok res"
proof (induction n arbitrary: current)
  case (Suc n)
  show ?case
  proof (cases rule: walk_loop_redirects [where api = api and fetch = fetch and hops = n and current = current])
    case (stop r v)
    then show ?thesis using Suc.prems by simp
  next
    case (hop next_url)
    with Suc.IH [of next_url] Suc.prems show ?thesis by simp
  qed
qed simp

lemma readBounded_prefix:
  "readBounded maxBytes chunks out = Some t \<Longrightarrow> \<exists>n. t = out @ concat (map the (take n chunks)) \<and> None \<notin> set (take n chunks)"
proof (induction maxBytes chunks out rule: readBounded.induct)
  case (1 maxBytes out)
  then show ?case by simp
next
  case (3 maxBytes c chunks out)
  show ?case
  proof (cases "utf16_length (out @ c) \<ge> maxBytes")
    case True
    with 3 have "t = out @ concat (map the (take 1 (Some c # chunks)))" by simp
    then show ?thesis by (metis insertE list.set(2) option.distinct(1) take0 take_Suc_Cons One_nat_def empty_iff empty_set)
  next
    case False
    with 3 obtain n where "t = (out @ c) @ concat (map the (take n chunks))" "None \<notin> set (take n chunks)"
      by auto
    then have "t = out @ concat (map the (take (Suc n) (Some c # chunks))) \<and> None \<notin> set (take (Suc n) (Some c # chunks))"
      by simp
    then show ?thesis by blast
  qed
qed simp


section \<open>IPv4 literals\<close>

text \<open>A literal as \<^verbatim>\<open>URL.hostname\<close> gives it: four decimal numbers without leading zeros.\<close>

definition dec :: "nat \<Rightarrow> string" where
  "dec n = (if n < 10 then pad 1 n else if n < 100 then pad 2 n else pad 3 n)"

definition ipv4 :: "nat \<Rightarrow> nat \<Rightarrow> nat \<Rightarrow> nat \<Rightarrow> string" where
  "ipv4 a b c e = dec a @ ''.'' @ dec b @ ''.'' @ dec c @ ''.'' @ dec e"

lemma dec_facts:
  assumes "n < 1000"
  shows "list_all is_digit (dec n)" "dec n \<noteq> []" "length (dec n) \<le> 3" "num (dec n) = n"
proof -
  obtain w where w: "dec n = pad w n" "1 \<le> w" "w \<le> 3" "n < 10 ^ w"
  proof (cases "n < 10 \<or> n \<ge> 100")
    case True
    then show ?thesis using that [of 1] that [of 3] assms by (cases "n < 10") (simp_all add: dec_def)
  next
    case False
    then show ?thesis using that [of 2] by (simp add: dec_def)
  qed
  show "list_all is_digit (dec n)" unfolding w(1) by (rule pad_digits)
  have len: "length (dec n) = w" unfolding w(1) by (rule length_pad)
  then show "dec n \<noteq> []" "length (dec n) \<le> 3" using w(2,3) by auto
  show "num (dec n) = n" unfolding w(1) num_pad using w(4) by simp
qed

lemma take_digits_exact:
  "list_all is_digit ds \<Longrightarrow> length ds \<le> n \<Longrightarrow> r = [] \<or> \<not> is_digit (hd r) \<Longrightarrow> take_digits n (ds @ r) = (ds, r)"
proof (induction ds arbitrary: n)
  case Nil
  then show ?case by (cases n; cases r) auto
next
  case (Cons c ds)
  then show ?case by (cases n) simp_all
qed

lemma quad_part_dec:
  assumes "n < 1000" "r = [] \<or> \<not> is_digit (hd r)"
  shows "quad_part (dec n @ r) = Some (dec n, r)"
  using take_digits_exact [OF dec_facts(1,3) [OF assms(1)] assms(2)] dec_facts(2) [OF assms(1)]
  by (simp add: quad_part_def)

lemma not_digit_dot [simp]: "\<not> is_digit CHR ''.''"
  by code_simp

lemma dotted_quad_ipv4:
  assumes "a < 1000" "b < 1000" "c < 1000" "e < 1000"
  shows "dotted_quad (ipv4 a b c e) = Some (a, b)"
proof -
  have "quad_part (dec e) = Some (dec e, [])" using quad_part_dec [OF assms(4), of "[]"] by simp
  then show ?thesis
    using quad_part_dec [OF assms(1)] quad_part_dec [OF assms(2)] quad_part_dec [OF assms(3)]
      dec_facts(4) [OF assms(1)] dec_facts(4) [OF assms(2)]
    by (simp add: dotted_quad_def ipv4_def expect_dot_def)
qed

lemma dot_not_letter: "to_lower1 CHR ''.'' = CHR ''.''"
  by code_simp

lemma digit_not_letter: "is_digit c \<Longrightarrow> to_lower1 c = c \<and> c \<noteq> CHR '':'' \<and> c \<noteq> CHR ''['' \<and> c \<noteq> CHR '']''"
  by (auto simp: is_digit_iff to_lower1_def less_eq_char_def)

lemma ipv4_chars:
  assumes "a < 1000" "b < 1000" "c < 1000" "e < 1000" "x \<in> set (ipv4 a b c e)"
  shows "is_digit x \<or> x = CHR ''.''"
  using assms dec_facts(1) by (auto simp: ipv4_def list_all_iff)

text \<open>An IPv4 literal is refused exactly when it lies in 0/8, 10/8, 127/8, 169.254/16, 172.16/12
  or 192.168/16: the regular expression, its anchors and the ranges are right for all of them.\<close>

theorem ipv4_private_iff:
  assumes "a < 256" "b < 256" "c < 256" "e < 256"
  shows "isPrivateHost (ipv4 a b c e) \<longleftrightarrow>
    a = 0 \<or> a = 10 \<or> a = 127 \<or> (a = 169 \<and> b = 254) \<or> (a = 172 \<and> b div 16 = 1) \<or> (a = 192 \<and> b = 168)"
proof -
  let ?h = "ipv4 a b c e"
  have chars: "is_digit x \<or> x = CHR ''.''" if "x \<in> set ?h" for x
    using assms that by (intro ipv4_chars [of a b c e]) simp_all
  have l: "is_digit (last ?h)"
    using dec_facts(1,2) [of e] assms(4) by (simp add: ipv4_def list_all_iff)
  have ne: "?h \<noteq> []" by (simp add: ipv4_def)
  have "map to_lower1 ?h = ?h"
    using chars digit_not_letter dot_not_letter by (intro map_idI) metis
  then have lower: "to_lower ?h = ?h" by (simp add: to_lower_def)
  have "hd ?h \<noteq> CHR ''[''" "last ?h \<noteq> CHR '']''"
    using digit_not_letter chars [OF hd_in_set [OF ne]] chars [OF last_in_set [OF ne]] by auto
  then have strip: "strip_brackets ?h = ?h"
    using ne by (auto simp: strip_brackets_def Let_def split: list.splits)
  have suf: "\<not> suffix s ?h" if "s \<noteq> []" "\<not> is_digit (last s)" for s
    using that l by (auto simp: suffix_def)
  have "\<not> list_ex (\<lambda>s. suffix s ?h) PRIVATE_USE_SUFFIXES"
    unfolding PRIVATE_USE_SUFFIXES_def by (simp, intro conjI suf; code_simp)
  moreover have "?h \<noteq> ''localhost''" using suf [of "''localhost''"] by (auto simp: is_digit_def less_eq_char_def)
  moreover have "CHR '':'' \<notin> set ?h" using chars digit_not_letter by force
  moreover have "16 \<le> b \<and> b \<le> 31 \<longleftrightarrow> b div 16 = 1" by presburger
  ultimately show ?thesis
    using dotted_quad_ipv4 [of a b c e] assms ne by (simp add: isPrivateHost_def lower strip)
qed

text \<open>Two spellings of the local machine pass the test: the rooted name and the IPv4-mapped loopback, as
  \<^verbatim>\<open>URL.hostname\<close> serialises them.\<close>

lemma private_host_gap: "\<not> isPrivateHost ''localhost.'' \<and> \<not> isPrivateHost ''[::ffff:7f00:1]''"
  by code_simp

end
