(* ===== verification/Channel_Witnesses.thy ===== *)
theory Channel_Witnesses
  imports Witnesses Channel_Rules Conflict_Rules Ical_Fetcher
begin

text \<open>
  The theorems on calendar sync, instantiated: the sample ledger with one connection, a stay imported
  through it, and a feed the exporter itself wrote.
\<close>

section \<open>A ledger with a connection\<close>

definition "sample_channel = \<lparr>ch_id = ''k1'', ch_unitId = ''u1'', ch_tenantId = ''t1'', ch_channel = Airbnb,
  ch_importIcalUrl = ''https://ota.example/a.ics'', ch_lastSyncedAt = None, ch_lastStatus = Sync_never,
  ch_lastError = None, ch_createdAt = 0\<rparr>"

definition "sample_imported = \<lparr>bk_id = ''i1'', bk_tenantId = ''t1'', bk_unitId = ''u1'', bk_source = Airbnb,
  bk_status = Confirmed, bk_checkIn = ''2026-08-10'', bk_checkOut = ''2026-08-12'', bk_guestName = None,
  bk_guestPhone = None, bk_guestEmail = None, bk_guestCount = None, bk_totalPriceIdr = None,
  bk_externalUid = Some ''x1'', bk_channelConnectionId = Some ''k1'', bk_holdExpiresAt = None,
  bk_createdAt = 0\<rparr>"

definition "sample_conflict = \<lparr>sc_id = ''c1'', sc_tenantId = ''t1'', sc_channelConnectionId = ''k1'',
  sc_unitId = ''u1'', sc_externalUid = ''x1'', sc_checkIn = ''2026-08-03'', sc_checkOut = ''2026-08-12'',
  sc_status = Conf_open, sc_firstDetectedAt = 0, sc_lastSeenAt = 0, sc_closedAt = None\<rparr>"

definition channel_db :: db where
  "channel_db = sample_db\<lparr>bookings := bookings sample_db @ [sample_imported], channels := [sample_channel],
     sync_conflicts := [sample_conflict]\<rparr>"

lemma channel_rows:
  "units channel_db = [sample_unit, spare_unit]" "properties channel_db = [sample_property]"
  "bookings channel_db = bookings sample_db @ [sample_imported]" "channels channel_db = [sample_channel]"
  "sync_conflicts channel_db = [sample_conflict]" "price_overrides channel_db = [sample_override]"
  "user_properties channel_db = []"
  by (simp_all add: channel_db_def sample_rows)

lemma channel_bookings: "booking_table_ok channel_db"
  unfolding booking_table_ok_def channel_rows sample_rows no_overlap_def
  by (simp add: sample_booking_def sample_imported_def sample_unit_def spare_unit_def booking_check_def
      range_overlaps_def same_feed_event_def occupies_iff)

lemma channel_db_ok: "db_ok channel_db"
  using sample_ok sample_dates channel_bookings
  by (auto simp: db_ok_def inventory_ok_def override_table_ok_def dates_ok_def channel_rows sample_rows
      sample_imported_def)

lemma channel_sync_ok: "sync_ok channel_db"
  by (simp add: sync_ok_def channel_db_ok channels_ok_def conflicts_ok_def imports_ok_def conflict_violation_None
      on_connection_def channel_rows sample_rows sample_channel_def sample_conflict_def sample_unit_def
      sample_imported_def sample_booking_def)

lemma channel_in: "sample_channel \<in> set (channels channel_db)"
  by (simp add: channel_rows)

section \<open>A feed\<close>

definition sample_zones :: zone_db where
  "sample_zones z = Some (\<lambda>t. (''2026'', ''08'', ''01''))"

definition "feed_input = \<lparr>bc_prodId = PROD_ID,
  bc_events = [\<lparr>ce_uid = ''x1'', ce_start = ''2026-08-10'', ce_end = ''2026-08-12''\<rparr>], bc_dtstamp = 0\<rparr>"

definition feed_body :: string where
  "feed_body = (case buildCalendar feed_input of Inr b \<Rightarrow> b | Inl e \<Rightarrow> [])"

definition "feed_events = [\<lparr>ie_uid = ''x1'', ie_start = ''2026-08-10'', ie_end = ''2026-08-12''\<rparr>]"

definition number_id :: "nat \<Rightarrow> uuid" where
  "number_id k = replicate k CHR ''n''"

definition feed_env :: "fetch_result \<Rightarrow> sync_env" where
  "feed_env r = \<lparr>se_fetchFeed = (\<lambda>url. r), se_tz = sample_zones, se_now = 9, se_dbNow = 9,
     se_bookingId = number_id, se_conflictId = number_id\<rparr>"

abbreviation good_env :: sync_env where
  "good_env \<equiv> feed_env \<lparr>fr_ok = True, fr_body = Some feed_body, fr_error = None\<rparr>"

lemma sample_zones_lawful: "zones_lawful sample_zones"
proof -
  have "is_iso_date ''2026-08-01''" using sample_dates by simp
  moreover have "utf16_length ''2026'' = 4" by code_simp
  ultimately show ?thesis by (simp add: zones_lawful_def sample_zones_def)
qed

lemma feed_exportable: "\<forall>e \<in> set (bc_events feed_input). exportable e"
proof -
  have "plain_uid ''x1''" by code_simp
  then show ?thesis using sample_dates by (simp add: feed_input_def exportable_def)
qed

lemma feed_built: "buildCalendar feed_input = Inr feed_body"
  using buildCalendar_total [OF feed_exportable] by (auto simp: feed_body_def)

lemma feed_parsed: "parseCalendar sample_zones feed_body zone = Parse_ok feed_events []"
  using parse_built [where tz = sample_zones and timeZone = zone, OF feed_exportable feed_built]
  by (simp add: sample_zones_def feed_input_def feed_events_def event_back_def)

lemma feed_env_simps [simp]:
  "se_fetchFeed (feed_env r) url = r" "se_tz (feed_env r) = sample_zones" "se_bookingId (feed_env r) = number_id"
  "se_conflictId (feed_env r) = number_id"
  by (simp_all add: feed_env_def)

lemma number_id_inj: "inj number_id"
  by (rule injI) (simp add: number_id_def)

lemma number_id_fresh: "number_id k \<notin> {''b1'', ''b2'', ''b3'', ''i1'', ''c1''}"
  by (cases k) (auto simp: number_id_def)

lemma feed_fresh: "fresh_ids (feed_env r) 0 channel_db"
  using number_id_fresh
  by (simp add: fresh_ids_def channel_rows sample_rows sample_booking_def sample_imported_def sample_conflict_def)

lemma feed_zone: "resolveTimeZone sample_channel channel_db = Some ''Asia/Makassar''"
  by (simp add: resolveTimeZone_def channel_rows sample_channel_def sample_unit_def spare_unit_def sample_property_def)

section \<open>The import\<close>


lemma good_sync:
  "\<exists>out d'. syncConnection good_env sample_channel channel_db = Inr (out, d') \<and> so_status out = Sync_ok \<and>
     so_conflicts out = 0 \<and> sample_channel\<lparr>ch_lastStatus := Sync_ok, ch_lastSyncedAt := Some 9, ch_lastError := None\<rparr> \<in> set (channels d')"
proof -
  have b: "booked sample_channel e (bookings channel_db)" if "e \<in> set feed_events" for e
    using that by (auto simp: booked_def channel_rows feed_events_def from_feed_def sample_channel_def sample_imported_def)
  have e: "event_ok e" if "e \<in> set feed_events" for e
    using that sample_dates by (auto simp: feed_events_def event_ok_def)
  have k: "known_connection sample_channel channel_db"
    by (rule known_member [OF sync_okD(2) [OF channel_sync_ok] channel_in])
  define s where "s = fold (sync_event good_env sample_channel) feed_events (sync_start channel_db)"
  have "booking_table_ok (sy_db (sync_start channel_db))" by (simp add: sync_start_def channel_bookings)
  then have q: "sy_db s = channel_db" "sy_conflicts s = 0"
    unfolding s_def using quiet_events [of "sync_start channel_db" feed_events sample_channel good_env] b e
    by (simp_all add: sync_start_def)
  have "syncConnection good_env sample_channel channel_db = reconcile_feed good_env sample_channel feed_events channel_db"
    using feed_zone feed_parsed by (simp add: syncConnection_def)
  moreover have "reconcile_feed good_env sample_channel feed_events channel_db =
      Inr (sync_report good_env sample_channel feed_events s, settled good_env sample_channel feed_events s)"
    using e by (intro reconcile_feed_eq(1) [OF channel_sync_ok k _ s_def]) blast
  moreover have "sample_channel\<lparr>ch_lastStatus := Sync_ok, ch_lastSyncedAt := Some 9, ch_lastError := None\<rparr>
      \<in> set (channels (settled good_env sample_channel feed_events s))"
    using q by (simp add: settled_def update_channels_def channel_rows this_connection_def stamp_ok_def feed_env_def)
  ultimately show ?thesis using q by (simp add: sync_report_def)
qed

lemma import_confined_witness:
  "\<exists>out d'. syncConnection good_env sample_channel channel_db = Inr (out, d') \<and> touches_only sample_channel channel_db d'"
proof -
  obtain out d' where o: "syncConnection good_env sample_channel channel_db = Inr (out, d')" using good_sync by blast
  from import_confined [OF channel_sync_ok channel_in _ o] show ?thesis using o by (auto simp: sample_zones_lawful)
qed

lemma doubtful_pull_witness:
  "\<exists>out d'. syncConnection (feed_env \<lparr>fr_ok = False, fr_body = None, fr_error = Some ''down''\<rparr>) sample_channel channel_db =
       Inr (out, d') \<and> bookings d' = bookings channel_db \<and> so_lastError out = Some ''down''"
proof -
  let ?env = "feed_env \<lparr>fr_ok = False, fr_body = None, fr_error = Some ''down''\<rparr>"
  obtain out d' where o: "syncConnection ?env sample_channel channel_db = Inr (out, d')"
    "so_status out = Sync_error" "so_lastError out = Some ''down''"
    by (simp add: syncConnection_def markError_def)
  have "so_status out \<noteq> Sync_ok" using o(2) by simp
  from doubtful_pull_changes_nothing [OF o(1) this] o show ?thesis by blast
qed

definition cut_body :: string where "cut_body = take (length feed_body - 3) feed_body"



lemma repull_witness:
  "\<exists>out d1 out1 d2. syncConnection good_env sample_channel channel_db = Inr (out, d1) \<and>
     syncConnection good_env (sample_channel\<lparr>ch_lastStatus := Sync_ok, ch_lastSyncedAt := Some 9, ch_lastError := None\<rparr>) d1 =
       Inr (out1, d2) \<and> bookings d2 = bookings d1 \<and> so_cancelled out1 = 0"
proof -
  let ?k = "sample_channel\<lparr>ch_lastStatus := Sync_ok, ch_lastSyncedAt := Some 9, ch_lastError := None\<rparr>"
  obtain out d1 where o: "syncConnection good_env sample_channel channel_db = Inr (out, d1)" "so_conflicts out = 0"
    "?k \<in> set (channels d1)" using good_sync by blast
  have "distinct (map ie_uid feed_events)" by (simp add: feed_events_def)
  from repull_changes_nothing [where env = good_env and ?env1.0 = good_env, OF channel_sync_ok channel_in _ feed_fresh _ _ _ feed_zone _ this o(1,2,3) _ refl refl]
  show ?thesis using o(1) number_id_inj feed_parsed sample_zones_lawful by fastforce
qed

section \<open>Channels and the inbox\<close>

lemma sample_owned_channel: "owned_unit channel_db (session_of owner_p) ''u1'' sample_unit"
  by (simp add: owned_unit_def rls_unit_def sample_unit_def)

lemma sample_unit_channel: "sample_unit \<in> set (units channel_db)"
  by (simp add: channel_rows)

lemma export_witness:
  "\<exists>body events. exportCalendar 0 ''2026-08-02'' (u_id sample_unit) channel_db = Inr body \<and>
     parseCalendar sample_zones body ''Asia/Makassar'' = Parse_ok events [] \<and> distinct (map ie_uid events)"
proof -
  have "plain_uid ''b1'' \<and> plain_uid ''b2'' \<and> plain_uid ''b3'' \<and> plain_uid ''i1''" by code_simp
  then have p: "\<forall>b \<in> set (bookings channel_db). plain_uid (bk_id b)"
    by (simp add: channel_rows sample_rows sample_booking_def sample_imported_def)
  have z: "sample_zones ''Asia/Makassar'' = Some (\<lambda>t. (''2026'', ''08'', ''01''))" by (simp add: sample_zones_def)
  from export_roundtrip [where tz = sample_zones, OF channel_db_ok sample_unit_channel p z] show ?thesis by blast
qed

lemma export_private_witness:
  "exportCalendar 0 ''2026-08-02'' ''u1''
     (channel_db\<lparr>bookings := map (\<lambda>b. b\<lparr>bk_guestName := None, bk_guestPhone := None\<rparr>) (bookings channel_db)\<rparr>) =
   exportCalendar 0 ''2026-08-02'' ''u1'' channel_db"
  by (rule export_leaks_no_guest) simp

lemma connect_witness:
  "connect (Some owner_p) (\<lambda>url. \<lparr>pb_ok = False, pb_error = Some ''down''\<rparr>) 7 ''k2'' ''u1''
     \<lparr>cq_channel = Airbnb, cq_importIcalUrl = ''https://ota.example/b.ics''\<rparr> channel_db = Inl (Conflict Channel_already_connected)"
proof -
  let ?q = "\<lparr>cq_channel = Airbnb, cq_importIcalUrl = ''https://ota.example/b.ics''\<rparr>"
  have q: "channelSchema (cq_channel ?q)" "''k2'' \<notin> ch_id ` set (channels channel_db)"
    by (simp_all add: channelSchema_def channel_rows sample_channel_def)
  have "connected channel_db ''u1'' Airbnb" by (simp add: connected_def channel_rows sample_channel_def)
  moreover have "\<exists>u \<in> set (units channel_db). owned_unit channel_db (session_of owner_p) ''u1'' u"
    using sample_owned_channel sample_unit_channel by blast
  ultimately show ?thesis
    using connect_contract [where p = owner_p and uid = "''u1''" and now = 7 and
        probe = "\<lambda>url. \<lparr>pb_ok = False, pb_error = Some ''down''\<rparr>", OF channel_sync_ok q]
    by (auto split: sum.splits)
qed

lemma disconnect_witness:
  "\<exists>d'. disconnect (Some owner_p) ''k1'' channel_db = Inr (1, d') \<and> channels d' = []"
proof -
  have "rls_channel channel_db (session_of owner_p) sample_channel"
    using unit_visible_owned [OF sample_unit_channel sample_owned_channel]
    by (simp add: rls_channel_def sample_channel_def)
  then show ?thesis
    using disconnect_contract [where p = owner_p and cid = "''k1''", OF channel_sync_ok]
    by (auto simp: channel_rows sample_rows sample_channel_def sample_booking_def sample_imported_def split: sum.splits)
qed

lemma sync_all_witness:
  "\<exists>t d'. syncAll (Some owner_p) (\<lambda>k. good_env) channel_db = Inr (t, d') \<and> sync_ok d'"
  using sync_all_in_scope [where envs = "\<lambda>k. good_env" and p = owner_p, OF channel_sync_ok] sample_zones_lawful by auto

lemma blocking_witness:
  "\<exists>err. upsertEvent sample_channel 9 ''n'' \<lparr>ie_uid = ''x1'', ie_start = ''2026-08-03'', ie_end = ''2026-08-12''\<rparr> channel_db = Inl err \<and>
     {q \<in> set (bookings channel_db). refuser sample_channel \<lparr>ie_uid = ''x1'', ie_start = ''2026-08-03'', ie_end = ''2026-08-12''\<rparr> q} \<noteq> {} \<and>
     sample_imported \<in> br_booking ` set (findBlockingBookings channel_db (session_of owner_p) [''c1'']) \<and>
     \<not> refuser sample_channel \<lparr>ie_uid = ''x1'', ie_start = ''2026-08-03'', ie_end = ''2026-08-12''\<rparr> sample_imported"
proof -
  let ?e = "\<lparr>ie_uid = ''x1'', ie_start = ''2026-08-03'', ie_end = ''2026-08-12''\<rparr>"
  let ?b = "sample_booking ''b1'' Confirmed ''2026-08-01'' ''2026-08-05'' None"
  have e: "event_ok ?e" using sample_dates by (simp add: event_ok_def)
  have i: "''n'' \<notin> bk_id ` set (bookings channel_db)"
    by (simp add: channel_rows sample_rows sample_booking_def sample_imported_def)
  have "?b \<in> set (bookings channel_db)" by (simp add: channel_rows sample_rows)
  moreover have "refuser sample_channel ?e ?b"
    by (simp add: refuser_def sample_booking_def from_feed_def occupies_iff sample_channel_def range_overlaps_def)
  ultimately obtain err where err: "upsertEvent sample_channel 9 ''n'' ?e channel_db = Inl err"
    using upsert_refused_iff [OF channel_sync_ok channel_in e i] by blast
  have c: "sample_conflict \<in> set (sync_conflicts channel_db)" by (simp add: channel_rows)
  have k: "conflict_of sample_channel (ie_uid ?e) sample_conflict" "sc_checkIn sample_conflict = ie_start ?e"
    "sc_checkOut sample_conflict = ie_end ?e" "sc_unitId sample_conflict = ''u1''" "sc_id sample_conflict = ''c1''"
    by (simp_all add: conflict_of_def sample_conflict_def sample_channel_def)
  have "sample_imported \<in> blockers channel_db sample_conflict"
    by (simp add: blockers_def channel_rows sample_imported_def sample_conflict_def occupies_iff range_overlaps_def)
  moreover have "\<not> refuser sample_channel ?e sample_imported"
    by (simp add: refuser_def from_feed_def sample_imported_def sample_channel_def)
  moreover have "owned_unit channel_db (session_of owner_p) (sc_unitId sample_conflict) sample_unit"
    using sample_owned_channel k(4) by simp
  from blocking_list_resolves [OF channel_sync_ok channel_in e i err c k(1-3) sample_unit_channel this]
  have "br_booking ` set (findBlockingBookings channel_db (session_of owner_p) [''c1'']) = blockers channel_db sample_conflict"
    "{q \<in> set (bookings channel_db). refuser sample_channel ?e q} \<noteq> {}" unfolding k(5) by blast+
  ultimately show ?thesis using err by blast
qed

lemma dismiss_witness:
  "\<exists>r d'. dismiss (Some owner_p) 7 ''c1'' channel_db = Inr (r, d') \<and> dr_status r = Conf_dismissed \<and>
     dismiss (Some owner_p) 8 ''c1'' d' = Inr (r, d')"
proof -
  have "owned_conflict channel_db (session_of owner_p) ''c1'' sample_conflict"
    using unit_visible_owned [OF sample_unit_channel sample_owned_channel]
    by (simp add: owned_conflict_def rls_conflict_def sample_conflict_def)
  then show ?thesis
    using dismiss_contract [where p = owner_p and now = 7 and cid = "''c1''" and later = 8, OF channel_sync_ok]
    by (auto simp: channel_rows sample_conflict_def split: sum.splits if_splits)
qed

section \<open>The fetcher\<close>

definition sample_urls :: "string url_api" where
  "sample_urls = \<lparr>url_parse = Some, url_resolve = (\<lambda>l b. Some l), url_protocol = (\<lambda>u. ''https:''), url_hostname = id\<rparr>"


lemma ipv4_witness: "isPrivateHost (ipv4 169 254 169 254) \<and> \<not> isPrivateHost (ipv4 172 32 0 1)"
  using ipv4_private_iff [of 169 254 169 254] ipv4_private_iff [of 172 32 0 1] by simp

end
