(* ===== verification/Boot_Guard.thy ===== *)
theory Boot_Guard
  imports Ical_Fetcher
begin

text \<open>
  What keeps a misconfigured process from starting: \<^verbatim>\<open>deployment-env.ts\<close> (is this process a deployment?),
  \<^verbatim>\<open>validate-env.ts\<close> (the guards of the boot) and \<^verbatim>\<open>payment-gateway.factory.ts\<close> (which adapter is bound).
  The environment is a map from names to values; the platform's URL parser and its base64 decoder are
  parameters. A refusal carries the evidence its message ends with.
\<close>

section \<open>Is this process a deployment?\<close>

type_synonym env_vars = "string \<Rightarrow> string option"

record 'u origin_api = "'u url_api" +
  url_origin :: "'u \<Rightarrow> string"

text \<open>\<^verbatim>\<open>env[name]?.trim() ?? ''\<close>: an absent variable reads as the empty one everywhere it is used.\<close>

definition env_value :: "env_vars \<Rightarrow> string \<Rightarrow> string" where
  "env_value env k = (case env k of None \<Rightarrow> [] | Some v \<Rightarrow> js_trim v)"

definition BROWSER_FACING_ORIGIN_VARS :: "string list" where
  "BROWSER_FACING_ORIGIN_VARS = [''WEB_BASE_URL'', ''STORAGE_PUBLIC_BASE_URL'']"

definition parseBrowserOrigin :: "('u, 'z) origin_api_scheme \<Rightarrow> string \<Rightarrow> 'u option" where
  "parseBrowserOrigin api s =
     (case url_parse api s of
        None \<Rightarrow> None
      | Some url \<Rightarrow>
          if url_protocol api url \<noteq> ''http:'' \<and> url_protocol api url \<noteq> ''https:'' then None
          else if url_hostname api url = [] then None else Some url)"

definition declared_origin :: "('u, 'z) origin_api_scheme \<Rightarrow> env_vars \<Rightarrow> string \<Rightarrow> (string \<times> 'u) option" where
  "declared_origin api env k =
     (let raw = env_value env k in
      if raw = [] then None else map_option (Pair k) (parseBrowserOrigin api raw))"

definition declared_origins :: "('u, 'z) origin_api_scheme \<Rightarrow> env_vars \<Rightarrow> (string \<times> 'u) list" where
  "declared_origins api env = List.map_filter (declared_origin api env) BROWSER_FACING_ORIGIN_VARS"

definition deploymentEvidence :: "('u, 'z) origin_api_scheme \<Rightarrow> env_vars \<Rightarrow> string option" where
  "deploymentEvidence api env =
     (if env_value env ''NODE_ENV'' = ''production'' then Some ''NODE_ENV=production''
      else let declared = declared_origins api env in
        if declared = [] then
          Some ''no browser-facing origin is declared, so nothing proves this is a local sandbox''
        else (case List.find (\<lambda>(k, url). \<not> isPrivateHost (url_hostname api url)) declared of
                None \<Rightarrow> None
              | Some (k, url) \<Rightarrow> Some (k @ '' names the public origin '' @ url_origin api url)))"

definition isDeployment :: "('u, 'z) origin_api_scheme \<Rightarrow> env_vars \<Rightarrow> bool" where
  "isDeployment api env = (deploymentEvidence api env \<noteq> None)"

section \<open>The guards of the boot\<close>

datatype boot_refusal =
    WebBaseUrlUnset string
  | PublicBaseInvalid string string
  | PublicBaseUnreachable string string
  | FakeGatewayBound string
  | CredentialKeyMissing string
  | StorageBootstrapSet string

definition public_base_guard ::
  "('u, 'z) origin_api_scheme \<Rightarrow> string \<Rightarrow> string \<Rightarrow> boot_refusal + unit" where
  "public_base_guard api because publicBase =
     (if publicBase = [] then Inr ()
      else case url_parse api publicBase of
          None \<Rightarrow> Inl (PublicBaseInvalid publicBase because)
        | Some parsed \<Rightarrow>
            guard_res (\<not> (url_protocol api parsed \<noteq> ''https:'' \<or> isPrivateHost (url_hostname api parsed)))
              (PublicBaseUnreachable publicBase because))"

definition validateEnv ::
  "('u, 'z) origin_api_scheme \<Rightarrow> (string \<Rightarrow> string) \<Rightarrow> env_vars \<Rightarrow> boot_refusal + unit" where
  "validateEnv api from_base64 env =
     (case deploymentEvidence api env of
        None \<Rightarrow> Inr ()
      | Some because \<Rightarrow>
          bind_res (guard_res (env_value env ''WEB_BASE_URL'' \<noteq> []) (WebBaseUrlUnset because)) (\<lambda>_.
          bind_res (public_base_guard api because (env_value env ''STORAGE_PUBLIC_BASE_URL'')) (\<lambda>_.
          bind_res (guard_res (env_value env ''PAYMENT_GATEWAY'' \<noteq> ''fake'') (FakeGatewayBound because)) (\<lambda>_.
          bind_res (guard_res (length (from_base64 (env_value env ''CREDENTIAL_ENCRYPTION_KEY'')) = 32)
            (CredentialKeyMissing because)) (\<lambda>_.
          guard_res (env_value env ''STORAGE_BOOTSTRAP'' \<noteq> ''true'') (StorageBootstrapSet because))))))"

datatype gateway_kind = FakeGateway | MidtransGateway

definition createPaymentGateway :: "env_vars \<Rightarrow> gateway_kind" where
  "createPaymentGateway env = (if env_value env ''PAYMENT_GATEWAY'' = ''fake'' then FakeGateway else MidtransGateway)"

section \<open>What a process that started is\<close>

text \<open>A local sandbox sends browsers to private hosts only; a safe deployment has every setting whose
  absence is silent.\<close>

definition sandbox :: "('u, 'z) origin_api_scheme \<Rightarrow> env_vars \<Rightarrow> bool" where
  "sandbox api env \<longleftrightarrow>
     env_value env ''NODE_ENV'' \<noteq> ''production'' \<and> declared_origins api env \<noteq> [] \<and>
     (\<forall>(k, url) \<in> set (declared_origins api env). isPrivateHost (url_hostname api url))"

definition photo_base_ok :: "('u, 'z) origin_api_scheme \<Rightarrow> env_vars \<Rightarrow> bool" where
  "photo_base_ok api env \<longleftrightarrow>
     env_value env ''STORAGE_PUBLIC_BASE_URL'' = [] \<or>
     (\<exists>url. url_parse api (env_value env ''STORAGE_PUBLIC_BASE_URL'') = Some url \<and>
        url_protocol api url = ''https:'' \<and> \<not> isPrivateHost (url_hostname api url))"

lemma declared_iff:
  "(k, url) \<in> set (declared_origins api env) \<longleftrightarrow>
     k \<in> set BROWSER_FACING_ORIGIN_VARS \<and> env_value env k \<noteq> [] \<and> parseBrowserOrigin api (env_value env k) = Some url"
  by (auto simp: declared_origins_def declared_origin_def Let_def BROWSER_FACING_ORIGIN_VARS_def
      List.map_filter_def split: if_splits)

lemma isDeployment_iff: "isDeployment api env \<longleftrightarrow> \<not> sandbox api env"
proof -
  let ?out = "\<lambda>(k, url). \<not> isPrivateHost (url_hostname api url)"
  have "(List.find ?out (declared_origins api env) = None) \<longleftrightarrow>
      (\<forall>(k, url) \<in> set (declared_origins api env). isPrivateHost (url_hostname api url))"
    by (auto simp: find_None_iff)
  then show ?thesis
    by (cases "List.find ?out (declared_origins api env)")
      (simp_all add: isDeployment_def deploymentEvidence_def sandbox_def Let_def split_def)
qed

lemma public_base_guard_iff:
  "public_base_guard api because (env_value env ''STORAGE_PUBLIC_BASE_URL'') = Inr () \<longleftrightarrow> photo_base_ok api env"
  by (auto simp: public_base_guard_def photo_base_ok_def split: option.split)

lemma started_deployment:
  assumes "isDeployment api env"
  shows "validateEnv api b64 env = Inr () \<longleftrightarrow>
     env_value env ''WEB_BASE_URL'' \<noteq> [] \<and> photo_base_ok api env \<and>
     createPaymentGateway env = MidtransGateway \<and>
     length (b64 (env_value env ''CREDENTIAL_ENCRYPTION_KEY'')) = 32 \<and>
     env_value env ''STORAGE_BOOTSTRAP'' \<noteq> ''true''"
  using assms
  by (auto simp: isDeployment_def validateEnv_def bind_res_Inr_iff createPaymentGateway_def public_base_guard_iff)

section \<open>The refresh cookie\<close>

text \<open>\<^verbatim>\<open>auth/refresh-cookie.ts\<close>: the cookie's options, \<^verbatim>\<open>Secure\<close> decided by the same authority.\<close>

record cookie =
  ck_name :: string
  ck_value :: string
  ck_httpOnly :: bool
  ck_secure :: bool
  ck_sameSite :: string
  ck_path :: string
  ck_maxAge :: int

definition REFRESH_COOKIE :: string where
  "REFRESH_COOKIE = ''refresh_token''"

definition REFRESH_PATH :: string where
  "REFRESH_PATH = ''/api/auth''"

definition REFRESH_MAX_AGE_MS :: int where
  "REFRESH_MAX_AGE_MS = 7 * 24 * 60 * 60 * 1000"

definition setRefreshCookie :: "('u, 'z) origin_api_scheme \<Rightarrow> env_vars \<Rightarrow> string \<Rightarrow> cookie" where
  "setRefreshCookie api env token =
     \<lparr>ck_name = REFRESH_COOKIE, ck_value = token, ck_httpOnly = True, ck_secure = isDeployment api env,
       ck_sameSite = ''lax'', ck_path = REFRESH_PATH, ck_maxAge = REFRESH_MAX_AGE_MS\<rparr>"


definition sample_urls_origin :: "string origin_api" where
  "sample_urls_origin =
     \<lparr>url_parse = (\<lambda>s. if prefix ''https://'' s then Some s else None), url_resolve = (\<lambda>_ _. None),
       url_protocol = (\<lambda>_. ''https:''), url_hostname = drop 8, url_origin = id\<rparr>"

definition deployed_vars :: env_vars where
  "deployed_vars = [''WEB_BASE_URL'' \<mapsto> ''https://villa.example'',
     ''STORAGE_PUBLIC_BASE_URL'' \<mapsto> ''https://photos.example'',
     ''CREDENTIAL_ENCRYPTION_KEY'' \<mapsto> replicate 32 (CHR ''k'')]"

definition local_vars :: env_vars where
  "local_vars = [''WEB_BASE_URL'' \<mapsto> ''https://localhost'', ''PAYMENT_GATEWAY'' \<mapsto> ''fake'']"

lemma deployed_facts:
  "validateEnv sample_urls_origin id deployed_vars = Inr ()"
  "(''WEB_BASE_URL'', ''https://villa.example'') \<in> set (declared_origins sample_urls_origin deployed_vars)"
  "\<not> isPrivateHost (url_hostname sample_urls_origin ''https://villa.example'')"
  "sandbox sample_urls_origin local_vars"
  by code_simp+


end
