(* ===== verification/Accounts.thy ===== *)
theory Accounts
  imports Tenancy "HOL-Library.Product_Lexorder"
begin

text \<open>
  The tables of people and their seats (\<^verbatim>\<open>packages/db/src/schema.ts\<close>: \<^verbatim>\<open>app_user\<close>, \<^verbatim>\<open>membership\<close>,
  \<^verbatim>\<open>user_property\<close>, \<^verbatim>\<open>staff_invite\<close>, \<^verbatim>\<open>staff_invite_property\<close>): what each INSERT checks, what a deleted
  membership takes with it, the policies of migrations 0015 and 0016, and the invariant the
  constraints amount to.
\<close>

section \<open>Addresses\<close>

text \<open>A \<^verbatim>\<open>citext\<close> column compares without regard to case.\<close>

definition citext_eq :: "string \<Rightarrow> string \<Rightarrow> bool" where
  "citext_eq a b \<longleftrightarrow> to_lower a = to_lower b"

lemma citext_refl [simp]: "citext_eq a a"
  by (simp add: citext_eq_def)

lemma citext_sym: "citext_eq a b \<Longrightarrow> citext_eq b a"
  by (simp add: citext_eq_def)

lemma citext_trans: "citext_eq a b \<Longrightarrow> citext_eq b c \<Longrightarrow> citext_eq a c"
  by (simp add: citext_eq_def)

section \<open>Inserts\<close>

definition insert_app_user :: "app_user_row \<Rightarrow> db \<Rightarrow> app_error + db" where
  "insert_app_user r d =
     (if \<exists>u \<in> set (app_users d). au_id u = au_id r then Inl (DbError ''app_user_pkey'')
      else if \<exists>u \<in> set (app_users d). citext_eq (au_email u) (au_email r)
      then Inl (DbError ''app_user_email_key'')
      else Inr (d\<lparr>app_users := app_users d @ [r]\<rparr>))"

definition same_seat :: "membership_row \<Rightarrow> membership_row \<Rightarrow> bool" where
  "same_seat m n \<longleftrightarrow> m_appUserId m = m_appUserId n \<and> m_tenantId m = m_tenantId n"

definition membership_violation :: "db \<Rightarrow> membership_row \<Rightarrow> string option" where
  "membership_violation d r =
     (if \<exists>m \<in> set (memberships d). same_seat m r then Some ''membership_app_user_id_tenant_id_pk''
      else if \<not> (\<exists>u \<in> set (app_users d). au_id u = m_appUserId r) then Some ''membership_app_user_id_app_user_id_fk''
      else if \<not> (\<exists>t \<in> set (tenants d). t_id t = m_tenantId r) then Some ''membership_tenant_id_tenant_id_fk''
      else None)"

definition insert_membership :: "membership_row \<Rightarrow> db \<Rightarrow> app_error + db" where
  "insert_membership r d =
     (case membership_violation d r of
        Some c \<Rightarrow> Inl (DbError c) | None \<Rightarrow> Inr (d\<lparr>memberships := memberships d @ [r]\<rparr>))"

definition same_grant :: "user_property_row \<Rightarrow> user_property_row \<Rightarrow> bool" where
  "same_grant x y \<longleftrightarrow> up_appUserId x = up_appUserId y \<and> up_propertyId x = up_propertyId y"

definition grant_violation :: "db \<Rightarrow> user_property_row \<Rightarrow> string option" where
  "grant_violation d r =
     (if \<exists>x \<in> set (user_properties d). same_grant x r then Some ''user_property_app_user_id_property_id_pk''
      else if \<not> (\<exists>m \<in> set (memberships d). m_appUserId m = up_appUserId r \<and> m_tenantId m = up_tenantId r)
      then Some ''user_property_app_user_tenant_fk''
      else if \<not> (\<exists>p \<in> set (properties d). p_id p = up_propertyId r \<and> p_tenantId p = up_tenantId r)
      then Some ''user_property_property_tenant_fk''
      else None)"

definition insert_user_property :: "user_property_row \<Rightarrow> db \<Rightarrow> app_error + db" where
  "insert_user_property r d =
     (case grant_violation d r of
        Some c \<Rightarrow> Inl (DbError c) | None \<Rightarrow> Inr (d\<lparr>user_properties := user_properties d @ [r]\<rparr>))"

text \<open>\<^verbatim>\<open>ON CONFLICT DO NOTHING\<close>: a row whose key is taken is skipped, every other constraint still raises.\<close>

definition insert_or_skip :: "(db \<Rightarrow> bool) \<Rightarrow> (db \<Rightarrow> app_error + db) \<Rightarrow> db \<Rightarrow> app_error + db" where
  "insert_or_skip taken ins d = (if taken d then Inr d else ins d)"

text \<open>An INSERT of several rows.\<close>

fun insert_each :: "('r \<Rightarrow> db \<Rightarrow> app_error + db) \<Rightarrow> 'r list \<Rightarrow> db \<Rightarrow> app_error + db" where
  "insert_each ins [] d = Inr d"
| "insert_each ins (r # rs) d = bind_res (ins r d) (insert_each ins rs)"

definition live_row :: "staff_invite_row \<Rightarrow> bool" where
  "live_row i \<longleftrightarrow> si_acceptedAt i = None \<and> si_revokedAt i = None"

definition invite_violation :: "db \<Rightarrow> staff_invite_row \<Rightarrow> string option" where
  "invite_violation d r =
     (if \<exists>i \<in> set (staff_invites d). si_id i = si_id r then Some ''staff_invite_pkey''
      else if \<exists>i \<in> set (staff_invites d). si_tokenHash i = si_tokenHash r then Some ''staff_invite_token_hash_key''
      else if live_row r \<and> (\<exists>i \<in> set (staff_invites d). live_row i \<and> si_tenantId i = si_tenantId r \<and>
                citext_eq (si_email i) (si_email r))
      then Some ''staff_invite_live_email_uniq''
      else if \<not> (\<exists>m \<in> set (memberships d). m_appUserId m = si_createdBy r \<and> m_tenantId m = si_tenantId r)
      then Some ''staff_invite_created_by_tenant_fk''
      else None)"

definition insert_invite :: "staff_invite_row \<Rightarrow> db \<Rightarrow> app_error + db" where
  "insert_invite r d =
     (case invite_violation d r of
        Some c \<Rightarrow> Inl (DbError c) | None \<Rightarrow> Inr (d\<lparr>staff_invites := staff_invites d @ [r]\<rparr>))"

definition invite_property_violation :: "db \<Rightarrow> staff_invite_property_row \<Rightarrow> string option" where
  "invite_property_violation d r =
     (if \<exists>x \<in> set (staff_invite_properties d). sip_inviteId x = sip_inviteId r \<and> sip_propertyId x = sip_propertyId r
      then Some ''staff_invite_property_invite_id_property_id_pk''
      else if \<not> (\<exists>i \<in> set (staff_invites d). si_id i = sip_inviteId r \<and> si_tenantId i = sip_tenantId r)
      then Some ''staff_invite_property_invite_tenant_fk''
      else if \<not> (\<exists>p \<in> set (properties d). p_id p = sip_propertyId r \<and> p_tenantId p = sip_tenantId r)
      then Some ''staff_invite_property_property_tenant_fk''
      else None)"

definition insert_invite_property :: "staff_invite_property_row \<Rightarrow> db \<Rightarrow> app_error + db" where
  "insert_invite_property r d =
     (case invite_property_violation d r of
        Some c \<Rightarrow> Inl (DbError c)
      | None \<Rightarrow> Inr (d\<lparr>staff_invite_properties := staff_invite_properties d @ [r]\<rparr>))"

section \<open>What a deleted membership takes with it\<close>

text \<open>The cascades of \<^verbatim>\<open>user_property_app_user_tenant_fk\<close> and \<^verbatim>\<open>staff_invite_created_by_tenant_fk\<close>.\<close>

definition delete_memberships :: "(membership_row \<Rightarrow> bool) \<Rightarrow> db \<Rightarrow> db" where
  "delete_memberships P d =
     (let gone = filter P (memberships d);
          orphan = (\<lambda>uid tid. \<exists>m \<in> set gone. m_appUserId m = uid \<and> m_tenantId m = tid);
          dead = map si_id (filter (\<lambda>i. orphan (si_createdBy i) (si_tenantId i)) (staff_invites d))
      in d\<lparr>memberships := filter (\<lambda>m. \<not> P m) (memberships d),
           user_properties := filter (\<lambda>x. \<not> orphan (up_appUserId x) (up_tenantId x)) (user_properties d),
           staff_invites := filter (\<lambda>i. \<not> orphan (si_createdBy i) (si_tenantId i)) (staff_invites d),
           staff_invite_properties :=
             filter (\<lambda>x. sip_inviteId x \<notin> set dead) (staff_invite_properties d)\<rparr>)"

section \<open>Policies\<close>

definition rls_membership :: "session \<Rightarrow> membership_row \<Rightarrow> bool" where
  "rls_membership s m \<longleftrightarrow>
     m_tenantId m = s_tenantId s \<and>
     (s_scope s = Scope_all \<or> s_scope s = Scope_assigned (m_appUserId m))"

definition rls_app_user :: "db \<Rightarrow> session \<Rightarrow> app_user_row \<Rightarrow> bool" where
  "rls_app_user d s u \<longleftrightarrow>
     (\<exists>m \<in> set (memberships d). rls_membership s m \<and> m_appUserId m = au_id u \<and> m_tenantId m = s_tenantId s)"

definition rls_invite :: "session \<Rightarrow> staff_invite_row \<Rightarrow> bool" where
  "rls_invite s i \<longleftrightarrow> si_tenantId i = s_tenantId s"

definition rls_invite_property :: "session \<Rightarrow> staff_invite_property_row \<Rightarrow> bool" where
  "rls_invite_property s x \<longleftrightarrow> sip_tenantId x = s_tenantId s"

text \<open>The WITH CHECK of \<^verbatim>\<open>user_property\<close>: only a session that sees the whole tenant grants.\<close>

definition rls_grant_check :: "session \<Rightarrow> user_property_row \<Rightarrow> bool" where
  "rls_grant_check s x \<longleftrightarrow> up_tenantId x = s_tenantId s \<and> s_scope s = Scope_all"

section \<open>The invariant\<close>

definition seat_of :: "db \<Rightarrow> uuid \<Rightarrow> uuid \<Rightarrow> bool" where
  "seat_of d uid tid \<longleftrightarrow> (\<exists>m \<in> set (memberships d). m_appUserId m = uid \<and> m_tenantId m = tid)"

definition owns_property :: "db \<Rightarrow> uuid \<Rightarrow> uuid \<Rightarrow> bool" where
  "owns_property d pid tid \<longleftrightarrow> (\<exists>p \<in> set (properties d). p_id p = pid \<and> p_tenantId p = tid)"

definition users_ok :: "db \<Rightarrow> bool" where
  "users_ok d \<longleftrightarrow>
     distinct (map au_id (app_users d)) \<and> distinct (map (\<lambda>u. to_lower (au_email u)) (app_users d)) \<and>
     distinct (map t_id (tenants d)) \<and>
     distinct (map (\<lambda>m. (m_appUserId m, m_tenantId m)) (memberships d)) \<and>
     (\<forall>m \<in> set (memberships d). (\<exists>u \<in> set (app_users d). au_id u = m_appUserId m) \<and>
        (\<exists>t \<in> set (tenants d). t_id t = m_tenantId m))"

definition grants_ok :: "db \<Rightarrow> bool" where
  "grants_ok d \<longleftrightarrow>
     distinct (map (\<lambda>x. (up_appUserId x, up_propertyId x)) (user_properties d)) \<and>
     (\<forall>x \<in> set (user_properties d). seat_of d (up_appUserId x) (up_tenantId x) \<and>
        owns_property d (up_propertyId x) (up_tenantId x))"

definition invites_ok :: "db \<Rightarrow> bool" where
  "invites_ok d \<longleftrightarrow>
     distinct (map si_id (staff_invites d)) \<and> distinct (map si_tokenHash (staff_invites d)) \<and>
     distinct (map (\<lambda>i. (si_tenantId i, to_lower (si_email i))) (filter live_row (staff_invites d))) \<and>
     (\<forall>i \<in> set (staff_invites d). seat_of d (si_createdBy i) (si_tenantId i)) \<and>
     (\<forall>x \<in> set (staff_invite_properties d).
        (\<exists>i \<in> set (staff_invites d). si_id i = sip_inviteId x \<and> si_tenantId i = sip_tenantId x) \<and>
        owns_property d (sip_propertyId x) (sip_tenantId x)) \<and>
     distinct (map (\<lambda>x. (sip_inviteId x, sip_propertyId x)) (staff_invite_properties d))"

definition accounts_ok :: "db \<Rightarrow> bool" where
  "accounts_ok d \<longleftrightarrow> users_ok d \<and> grants_ok d \<and> invites_ok d"

lemma accounts_okD [dest]:
  "accounts_ok d \<Longrightarrow> users_ok d" "accounts_ok d \<Longrightarrow> grants_ok d" "accounts_ok d \<Longrightarrow> invites_ok d"
  by (simp_all add: accounts_ok_def)

lemma seat_of_iff: "seat_of d uid tid \<longleftrightarrow> (uid, tid) \<in> (\<lambda>m. (m_appUserId m, m_tenantId m)) ` set (memberships d)"
  by (auto simp: seat_of_def)

lemma insert_app_user_cases:
  "insert_app_user r d = Inr d' \<Longrightarrow> d' = d\<lparr>app_users := app_users d @ [r]\<rparr> \<and>
     (\<forall>u \<in> set (app_users d). au_id u \<noteq> au_id r \<and> \<not> citext_eq (au_email u) (au_email r))"
  by (auto simp: insert_app_user_def split: if_splits)

lemma insert_membership_cases:
  "insert_membership r d = Inr d' \<Longrightarrow>
     d' = d\<lparr>memberships := memberships d @ [r]\<rparr> \<and> membership_violation d r = None"
  by (auto simp: insert_membership_def split: option.splits)

lemma insert_user_property_cases:
  "insert_user_property r d = Inr d' \<Longrightarrow>
     d' = d\<lparr>user_properties := user_properties d @ [r]\<rparr> \<and> grant_violation d r = None"
  by (auto simp: insert_user_property_def split: option.splits)

text \<open>Each statement keeps what the constraints promise.\<close>

lemma insert_app_user_ok:
  assumes "accounts_ok d" "insert_app_user r d = Inr d'"
  shows "accounts_ok d'"
  using assms(1) insert_app_user_cases [OF assms(2)]
  by (auto simp: accounts_ok_def users_ok_def grants_ok_def invites_ok_def seat_of_def owns_property_def
      citext_eq_def)

lemma insert_membership_ok:
  assumes "accounts_ok d" "insert_membership r d = Inr d'"
  shows "accounts_ok d'"
proof -
  from insert_membership_cases [OF assms(2)]
  have d': "d' = d\<lparr>memberships := memberships d @ [r]\<rparr>" and v: "membership_violation d r = None" by auto
  have "seat_of d uid tid \<Longrightarrow> seat_of d' uid tid" for uid tid by (auto simp: d' seat_of_def)
  moreover have "users_ok d'"
    using accounts_okD(1) [OF assms(1)] v
    by (auto simp: d' users_ok_def membership_violation_def same_seat_def split: if_splits)
  ultimately show ?thesis
    using assms(1) by (auto simp: d' accounts_ok_def grants_ok_def invites_ok_def owns_property_def)
qed

lemma insert_user_property_ok:
  assumes "accounts_ok d" "insert_user_property r d = Inr d'"
  shows "accounts_ok d'"
proof -
  from insert_user_property_cases [OF assms(2)]
  have d': "d' = d\<lparr>user_properties := user_properties d @ [r]\<rparr>" and v: "grant_violation d r = None" by auto
  have "grants_ok d'"
    using accounts_okD(2) [OF assms(1)] v
    by (auto simp: d' grants_ok_def grant_violation_def same_grant_def seat_of_def owns_property_def split: if_splits)
  then show ?thesis
    using assms(1) by (auto simp: d' accounts_ok_def users_ok_def invites_ok_def seat_of_def owns_property_def)
qed

lemma insert_each_ok:
  assumes "\<And>r d d'. I d \<Longrightarrow> ins r d = Inr d' \<Longrightarrow> I d'" "I d" "insert_each ins rs d = Inr d'"
  shows "I d'"
  using assms(2,3) by (induction rs arbitrary: d) (auto simp: bind_res_Inr_iff intro: assms(1))

end
