(* ===== verification/Auth.thy ===== *)
theory Auth
  imports Accounts
begin

text \<open>
  Identity and sessions: \<^verbatim>\<open>auth.service.ts\<close>, the access guard \<^verbatim>\<open>auth.guard.ts\<close> and the contract
  \<^verbatim>\<open>packages/shared/src/auth.ts\<close>. JSON Web Tokens and bcrypt are third-party: signing, verifying,
  hashing and comparing are the parameter \<open>auth_env\<close>, with the two laws the code relies on as the
  hypothesis \<open>auth_lawful\<close>. Every statement runs on the owner connection, outside row-level security.
\<close>

section \<open>Requests, answers and the outside world\<close>

record register_request =
  rr_tenantName :: string
  rr_email :: string
  rr_password :: string

record login_request =
  lg_email :: string
  lg_password :: string

record membership_dto =
  md_tenantId :: uuid
  md_tenantName :: string
  md_role :: user_role

text \<open>\<^verbatim>\<open>MeResponse\<close>: the user, the active tenant, and every seat.\<close>

record session_body =
  sb_userId :: uuid
  sb_email :: string
  sb_role :: user_role
  sb_tenantId :: uuid
  sb_tenantName :: string
  sb_memberships :: "membership_dto list"

record access_payload =
  ap_sub :: uuid
  ap_tenantId :: uuid
  ap_role :: user_role

record refresh_payload =
  rp_sub :: uuid
  rp_tenantId :: "uuid option"

record auth_answer =
  an_accessToken :: string
  an_session :: session_body
  an_refreshToken :: string

record auth_env =
  ae_now :: instant
  ae_newTenantId :: uuid
  ae_newUserId :: uuid
  ae_signAccess :: "access_payload \<Rightarrow> string"
  ae_verifyAccess :: "string \<Rightarrow> access_payload option"
  ae_signRefresh :: "refresh_payload \<Rightarrow> string"
  ae_verifyRefresh :: "string \<Rightarrow> refresh_payload option"
  ae_hash :: "string \<Rightarrow> string"
  ae_compare :: "string \<Rightarrow> string \<Rightarrow> bool"

text \<open>What the libraries document: a token verifies, under the same secret and within its life, to the
  payload it was signed with, and is never the empty text; a password compares with its own hash.\<close>

definition auth_lawful :: "auth_env \<Rightarrow> bool" where
  "auth_lawful env \<longleftrightarrow>
     (\<forall>p. ae_verifyAccess env (ae_signAccess env p) = Some p) \<and>
     (\<forall>p. ae_signRefresh env p \<noteq> [] \<and> ae_verifyRefresh env (ae_signRefresh env p) = Some p) \<and>
     (\<forall>w. ae_compare env w (ae_hash env w))"

section \<open>Seats and the minting of a session\<close>

definition find_user :: "(app_user_row \<Rightarrow> bool) \<Rightarrow> db \<Rightarrow> app_user_row option" where
  "find_user P d = select_one P (app_users d)"

text \<open>The default membership comes first: owners before staff, then oldest, then by tenant id.\<close>

definition seats :: "db \<Rightarrow> uuid \<Rightarrow> (membership_row \<times> tenant_row) list" where
  "seats d userId =
     filter (\<lambda>(m, t). m_tenantId m = t_id t \<and> m_appUserId m = userId)
       (List.product (memberships d) (tenants d))"

definition seat_key :: "membership_row \<times> tenant_row \<Rightarrow> nat \<times> instant \<times> uuid" where
  "seat_key = (\<lambda>(m, t). (if m_role m = Owner then 0 else 1, m_createdAt m, m_tenantId m))"

definition toMembershipDto :: "membership_row \<times> tenant_row \<Rightarrow> membership_dto" where
  "toMembershipDto = (\<lambda>(m, t). \<lparr>md_tenantId = m_tenantId m, md_tenantName = t_name t, md_role = m_role m\<rparr>)"

definition membershipsOf :: "db \<Rightarrow> uuid \<Rightarrow> membership_dto list" where
  "membershipsOf d userId = map toMembershipDto (sort_key seat_key (seats d userId))"

definition toSession :: "app_user_row \<Rightarrow> membership_dto \<Rightarrow> membership_dto list \<Rightarrow> session_body" where
  "toSession user active ms =
     \<lparr>sb_userId = au_id user, sb_email = au_email user, sb_role = md_role active,
      sb_tenantId = md_tenantId active, sb_tenantName = md_tenantName active, sb_memberships = ms\<rparr>"

definition issueFrom ::
  "auth_env \<Rightarrow> app_user_row \<Rightarrow> membership_dto list \<Rightarrow> uuid option \<Rightarrow> app_error + auth_answer" where
  "issueFrom env user ms preferred =
     (case ms of
        [] \<Rightarrow> Inl (Forbidden ''This account is not a member of any workspace'')
      | first # _ \<Rightarrow>
          let active = (case select_one (\<lambda>m. Some (md_tenantId m) = preferred) ms of
                          Some m \<Rightarrow> m | None \<Rightarrow> first)
          in Inr \<lparr>an_accessToken = ae_signAccess env
                    \<lparr>ap_sub = au_id user, ap_tenantId = md_tenantId active, ap_role = md_role active\<rparr>,
                  an_session = toSession user active ms,
                  an_refreshToken = ae_signRefresh env
                    \<lparr>rp_sub = au_id user, rp_tenantId = Some (md_tenantId active)\<rparr>\<rparr>)"

definition issue :: "auth_env \<Rightarrow> db \<Rightarrow> app_user_row \<Rightarrow> uuid option \<Rightarrow> app_error + auth_answer" where
  "issue env d user preferred = issueFrom env user (membershipsOf d (au_id user)) preferred"

definition startSessionForVerifiedUser :: "auth_env \<Rightarrow> db \<Rightarrow> app_user_row \<Rightarrow> uuid \<Rightarrow> app_error + auth_answer" where
  "startSessionForVerifiedUser env d user tenantId = issue env d user (Some tenantId)"

section \<open>The operations\<close>

definition new_tenant :: "auth_env \<Rightarrow> register_request \<Rightarrow> tenant_row" where
  "new_tenant env r =
     \<lparr>t_id = ae_newTenantId env, t_name = rr_tenantName r, t_galleryCap = 30, t_createdAt = ae_now env\<rparr>"

definition new_user :: "auth_env \<Rightarrow> string \<Rightarrow> string \<Rightarrow> app_user_row" where
  "new_user env email passwordHash =
     \<lparr>au_id = ae_newUserId env, au_email = email, au_passwordHash = passwordHash, au_createdAt = ae_now env\<rparr>"

definition register_tx :: "auth_env \<Rightarrow> register_request \<Rightarrow> db \<Rightarrow> app_error + (app_user_row \<times> db)" where
  "register_tx env r d =
     (let user = new_user env (rr_email r) (ae_hash env (rr_password r)) in
      bind_res (insert_app_user user (d\<lparr>tenants := tenants d @ [new_tenant env r]\<rparr>)) (\<lambda>d1.
      bind_res (insert_membership
          \<lparr>m_appUserId = au_id user, m_tenantId = ae_newTenantId env, m_role = Owner,
           m_createdAt = ae_now env\<rparr> d1) (\<lambda>d2.
      Inr (user, d2))))"

definition register :: "auth_env \<Rightarrow> register_request \<Rightarrow> db \<Rightarrow> app_error + (auth_answer \<times> db)" where
  "register env r d =
     intercept
       (case find_user (\<lambda>u. citext_eq (au_email u) (rr_email r)) d of
          Some _ \<Rightarrow> Inl (Conflict Email_taken)
        | None \<Rightarrow>
            bind_res (register_tx env r d) (\<lambda>(user, d').
            bind_res (issue env d' user None) (\<lambda>a. Inr (a, d'))))"

definition login :: "auth_env \<Rightarrow> login_request \<Rightarrow> db \<Rightarrow> app_error + auth_answer" where
  "login env r d =
     (case find_user (\<lambda>u. citext_eq (au_email u) (lg_email r)) d of
        None \<Rightarrow> Inl (Unauthorized ''Invalid credentials'')
      | Some user \<Rightarrow>
          if \<not> ae_compare env (lg_password r) (au_passwordHash user)
          then Inl (Unauthorized ''Invalid credentials'')
          else issue env d user None)"

definition refresh :: "auth_env \<Rightarrow> string option \<Rightarrow> db \<Rightarrow> app_error + auth_answer" where
  "refresh env refreshToken d =
     (if refreshToken = None \<or> refreshToken = Some [] then Inl (Unauthorized ''Missing refresh token'')
      else case ae_verifyRefresh env (the refreshToken) of
        None \<Rightarrow> Inl (Unauthorized ''Invalid refresh token'')
      | Some payload \<Rightarrow>
          (case find_user (\<lambda>u. au_id u = rp_sub payload) d of
             None \<Rightarrow> Inl (Unauthorized ''User no longer exists'')
           | Some user \<Rightarrow> issue env d user (rp_tenantId payload)))"

definition switchTenant :: "auth_env \<Rightarrow> uuid \<Rightarrow> uuid \<Rightarrow> db \<Rightarrow> app_error + auth_answer" where
  "switchTenant env userId tenantId d =
     (case find_user (\<lambda>u. au_id u = userId) d of
        None \<Rightarrow> Inl (Unauthorized ''User no longer exists'')
      | Some user \<Rightarrow>
          let ms = membershipsOf d userId in
          if \<not> (\<exists>m \<in> set ms. md_tenantId m = tenantId) then Inl (NotFound ''No such workspace'')
          else issueFrom env user ms (Some tenantId))"

definition me :: "uuid \<Rightarrow> uuid \<Rightarrow> db \<Rightarrow> app_error + session_body" where
  "me userId tenantId d =
     (case find_user (\<lambda>u. au_id u = userId) d of
        None \<Rightarrow> Inl (Unauthorized ''User no longer exists'')
      | Some user \<Rightarrow>
          let ms = membershipsOf d userId in
          (case select_one (\<lambda>m. md_tenantId m = tenantId) ms of
             None \<Rightarrow> Inl (Unauthorized ''Membership no longer exists'')
           | Some active \<Rightarrow> Inr (toSession user active ms)))"

text \<open>\<^verbatim>\<open>JwtAuthGuard.canActivate\<close>: the bearer token becomes the principal of the request.\<close>

definition canActivate :: "auth_env \<Rightarrow> string option \<Rightarrow> tenant_context \<Rightarrow> app_error + tenant_context" where
  "canActivate env header ctx =
     (case header of
        None \<Rightarrow> Inl (Unauthorized ''Missing bearer token'')
      | Some h \<Rightarrow>
          if \<not> prefix ''Bearer '' h then Inl (Unauthorized ''Missing bearer token'')
          else (case ae_verifyAccess env (drop 7 h) of
             None \<Rightarrow> Inl (Unauthorized ''Invalid or expired token'')
           | Some p \<Rightarrow> context_set (User_principal (ap_sub p) (ap_tenantId p) (ap_role p)) ctx))"

section \<open>Every session is a seat\<close>

lemma membershipsOf_set:
  "md \<in> set (membershipsOf d uid) \<longleftrightarrow>
   (\<exists>m \<in> set (memberships d). \<exists>t \<in> set (tenants d). m_tenantId m = t_id t \<and> m_appUserId m = uid \<and>
      md = \<lparr>md_tenantId = m_tenantId m, md_tenantName = t_name t, md_role = m_role m\<rparr>)"
  by (auto simp: membershipsOf_def seats_def toMembershipDto_def image_iff split_def) force+

text \<open>A session body that describes a seat of the ledger.\<close>

definition seated :: "db \<Rightarrow> session_body \<Rightarrow> bool" where
  "seated d b \<longleftrightarrow>
     (\<exists>m \<in> set (memberships d). m_appUserId m = sb_userId b \<and> m_tenantId m = sb_tenantId b \<and>
        m_role m = sb_role b) \<and>
     sb_memberships b = membershipsOf d (sb_userId b)"

definition answer_ok :: "auth_env \<Rightarrow> db \<Rightarrow> auth_answer \<Rightarrow> bool" where
  "answer_ok env d a \<longleftrightarrow>
     seated d (an_session a) \<and>
     canActivate env (Some (''Bearer '' @ an_accessToken a)) None =
       Inr (Some (User_principal (sb_userId (an_session a)) (sb_tenantId (an_session a)) (sb_role (an_session a)))) \<and>
     ae_verifyRefresh env (an_refreshToken a) =
       Some \<lparr>rp_sub = sb_userId (an_session a), rp_tenantId = Some (sb_tenantId (an_session a))\<rparr>"

lemma issueFrom_ok:
  assumes "auth_lawful env" "issueFrom env user (membershipsOf d (au_id user)) preferred = Inr a"
  shows "answer_ok env d a \<and> sb_userId (an_session a) = au_id user \<and>
    (\<forall>t. preferred = Some t \<and> (\<exists>m \<in> set (membershipsOf d (au_id user)). md_tenantId m = t) \<longrightarrow>
       sb_tenantId (an_session a) = t)"
proof -
  let ?ms = "membershipsOf d (au_id user)"
  obtain first rest where ms: "?ms = first # rest"
    using assms(2) by (cases ?ms) (auto simp: issueFrom_def)
  define active where
    "active = (case select_one (\<lambda>m. Some (md_tenantId m) = preferred) ?ms of Some m \<Rightarrow> m | None \<Rightarrow> first)"
  have active: "active \<in> set ?ms"
    using ms by (auto simp: active_def simp del: select_one_simps split: option.split dest: select_one_SomeD)
  have a: "a = \<lparr>an_accessToken = ae_signAccess env
                    \<lparr>ap_sub = au_id user, ap_tenantId = md_tenantId active, ap_role = md_role active\<rparr>,
                  an_session = toSession user active ?ms,
                  an_refreshToken = ae_signRefresh env
                    \<lparr>rp_sub = au_id user, rp_tenantId = Some (md_tenantId active)\<rparr>\<rparr>"
    using assms(2) unfolding issueFrom_def active_def ms by (simp add: Let_def)
  have "answer_ok env d a"
    using active assms(1) unfolding membershipsOf_set
    by (auto simp: a answer_ok_def seated_def toSession_def auth_lawful_def canActivate_def context_set_def)
  moreover have "md_tenantId active = t" if "preferred = Some t" "\<exists>m \<in> set ?ms. md_tenantId m = t" for t
  proof -
    have "select_one (\<lambda>m. Some (md_tenantId m) = preferred) ?ms \<noteq> None" using that by auto
    then obtain m where "select_one (\<lambda>m. Some (md_tenantId m) = preferred) ?ms = Some m" by blast
    then show ?thesis using select_one_SomeD [of _ ?ms m] that(1) by (auto simp: active_def)
  qed
  ultimately show ?thesis by (simp add: a toSession_def)
qed

lemmas issue_ok = issueFrom_ok [folded issue_def]

end
