(* ===== verification/Staff.thy ===== *)
theory Staff
  imports Auth
begin

text \<open>
  The owner's side of the team (\<^verbatim>\<open>staff.repository.ts\<close>, \<^verbatim>\<open>staff.service.ts\<close>): pending invites, the
  roster with its assignments, the whole-set replacement of an assignment and the removal of a seat.
  The order of two texts is the database's collation, given by a sort key \<open>collate\<close> (as \<^verbatim>\<open>strxfrm\<close>
  does); \<open>now\<close> is the clock of the process and \<open>dbNow\<close> the database's.
\<close>

section \<open>What the screens show\<close>

record assigned_property =
  as_id :: uuid
  as_name :: string

record staff_row =
  st_id :: uuid
  st_email :: string
  st_createdAt :: instant
  st_properties :: "assigned_property list"

record invite_row = staff_row +
  iv_expiresAt :: instant

text \<open>\<^verbatim>\<open>group\<close>: one entry per id, in the order of first appearance, its properties in the order of the rows.\<close>

definition add_property :: "assigned_property option \<Rightarrow> 'x staff_row_scheme \<Rightarrow> 'x staff_row_scheme" where
  "add_property p e =
     (case p of None \<Rightarrow> e
      | Some a \<Rightarrow> if as_id a = [] \<or> as_name a = [] then e else e\<lparr>st_properties := st_properties e @ [a]\<rparr>)"

fun group_into ::
  "'x staff_row_scheme list \<Rightarrow> ('x staff_row_scheme \<times> assigned_property option) list \<Rightarrow> 'x staff_row_scheme list" where
  "group_into acc [] = acc"
| "group_into acc ((e, p) # rows) =
     group_into
       (if \<exists>x \<in> set acc. st_id x = st_id e
        then update_where (\<lambda>x. st_id x = st_id e) (add_property p) acc
        else acc @ [add_property p e]) rows"

definition group :: "('x staff_row_scheme \<times> assigned_property option) list \<Rightarrow> 'x staff_row_scheme list" where
  "group rows = group_into [] rows"

text \<open>A left join: a row without a partner appears once, with none.\<close>

definition left_join :: "('a \<Rightarrow> 'b \<Rightarrow> bool) \<Rightarrow> 'b list \<Rightarrow> 'a list \<Rightarrow> ('a \<times> 'b option) list" where
  "left_join R bs as =
     concat (map (\<lambda>a. case filter (R a) bs of [] \<Rightarrow> [(a, None)] | ms \<Rightarrow> map (\<lambda>b. (a, Some b)) ms) as)"

text \<open>The granted property of a joined row, if the policy shows it.\<close>

definition assigned :: "property_row option \<Rightarrow> assigned_property option" where
  "assigned p = map_option (\<lambda>q. \<lparr>as_id = p_id q, as_name = p_name q\<rparr>) p"

text \<open>\<^verbatim>\<open>ORDER BY x, property.name\<close>: NULLs come last.\<close>

definition name_key :: "(string \<Rightarrow> string) \<Rightarrow> property_row option \<Rightarrow> nat \<times> string" where
  "name_key collate p = (case p of None \<Rightarrow> (1, []) | Some q \<Rightarrow> (0, collate (p_name q)))"

section \<open>The repository\<close>

definition countVisibleProperties :: "db \<Rightarrow> session \<Rightarrow> uuid list \<Rightarrow> nat" where
  "countVisibleProperties d s propertyIds =
     length (filter (\<lambda>p. rls_property d s p \<and> p_tenantId p = s_tenantId s \<and> p_id p \<in> set propertyIds) (properties d))"

definition liveInviteFor :: "instant \<Rightarrow> uuid \<Rightarrow> string option \<Rightarrow> staff_invite_row \<Rightarrow> bool" where
  "liveInviteFor dbNow tenantId email i \<longleftrightarrow>
     si_tenantId i = tenantId \<and> (case email of None \<Rightarrow> True | Some e \<Rightarrow> citext_eq (si_email i) e) \<and>
     si_acceptedAt i = None \<and> si_revokedAt i = None \<and> si_expiresAt i > dbNow"

definition hasLiveInvite :: "db \<Rightarrow> session \<Rightarrow> instant \<Rightarrow> string \<Rightarrow> bool" where
  "hasLiveInvite d s dbNow email =
     (\<exists>i \<in> set (staff_invites d). rls_invite s i \<and> liveInviteFor dbNow (s_tenantId s) (Some email) i)"

definition update_invites :: "(staff_invite_row \<Rightarrow> bool) \<Rightarrow> (staff_invite_row \<Rightarrow> staff_invite_row) \<Rightarrow> db \<Rightarrow> db" where
  "update_invites P f d = d\<lparr>staff_invites := update_where P f (staff_invites d)\<rparr>"

definition supersedeExpiredInvites :: "session \<Rightarrow> instant \<Rightarrow> instant \<Rightarrow> string \<Rightarrow> db \<Rightarrow> db" where
  "supersedeExpiredInvites s now dbNow email d =
     update_invites
       (\<lambda>i. rls_invite s i \<and> si_tenantId i = s_tenantId s \<and> citext_eq (si_email i) email \<and>
            si_acceptedAt i = None \<and> si_revokedAt i = None \<and> si_expiresAt i \<le> dbNow)
       (\<lambda>i. i\<lparr>si_revokedAt := Some now\<rparr>) d"

record create_invite_input =
  ci_email :: string
  ci_tokenHash :: string
  ci_expiresAt :: instant
  ci_createdBy :: uuid
  ci_propertyIds :: "uuid list"

definition createInvite :: "session \<Rightarrow> instant \<Rightarrow> uuid \<Rightarrow> create_invite_input \<Rightarrow> db \<Rightarrow> app_error + db" where
  "createInvite s dbNow newId i d =
     bind_res (insert_invite
        \<lparr>si_id = newId, si_tenantId = s_tenantId s, si_email = ci_email i, si_tokenHash = ci_tokenHash i,
         si_expiresAt = ci_expiresAt i, si_acceptedAt = None, si_revokedAt = None,
         si_createdBy = ci_createdBy i, si_createdAt = dbNow\<rparr> d)
       (insert_each insert_invite_property
         (map (\<lambda>p. \<lparr>sip_inviteId = newId, sip_propertyId = p, sip_tenantId = s_tenantId s\<rparr>) (ci_propertyIds i)))"

definition listPendingInvites :: "(string \<Rightarrow> string) \<Rightarrow> db \<Rightarrow> session \<Rightarrow> instant \<Rightarrow> invite_row list" where
  "listPendingInvites collate d s dbNow =
     (let live = filter (\<lambda>i. rls_invite s i \<and> liveInviteFor dbNow (s_tenantId s) None i) (staff_invites d);
          granted = left_join (\<lambda>i x. rls_invite_property s x \<and> sip_inviteId x = si_id i)
                      (staff_invite_properties d) live;
          named = left_join (\<lambda>(i, x) p. rls_property d s p \<and> Some (p_id p) = map_option sip_propertyId x)
                      (properties d) granted;
          ordered = sort_key (\<lambda>((i, x), p). (si_createdAt i, name_key collate p)) named
      in group (map (\<lambda>((i, x), p).
           (\<lparr>st_id = si_id i, st_email = si_email i, st_createdAt = si_createdAt i, st_properties = [],
             iv_expiresAt = si_expiresAt i\<rparr>, assigned p)) ordered))"

definition open_invite :: "session \<Rightarrow> uuid \<Rightarrow> staff_invite_row \<Rightarrow> bool" where
  "open_invite s inviteId i \<longleftrightarrow>
     rls_invite s i \<and> si_id i = inviteId \<and> si_tenantId i = s_tenantId s \<and>
     si_acceptedAt i = None \<and> si_revokedAt i = None"

definition revokeInvite :: "session \<Rightarrow> instant \<Rightarrow> uuid \<Rightarrow> db \<Rightarrow> bool \<times> db" where
  "revokeInvite s now inviteId d =
     ((\<exists>i \<in> set (staff_invites d). open_invite s inviteId i) \<or>
      (\<exists>i \<in> set (staff_invites d). rls_invite s i \<and> si_id i = inviteId \<and> si_tenantId i = s_tenantId s),
      update_invites (open_invite s inviteId) (\<lambda>i. i\<lparr>si_revokedAt := Some now\<rparr>) d)"

definition listStaff :: "(string \<Rightarrow> string) \<Rightarrow> db \<Rightarrow> session \<Rightarrow> staff_row list" where
  "listStaff collate d s =
     (let members = filter (\<lambda>(u, m). rls_app_user d s u \<and> rls_membership s m \<and>
              m_appUserId m = au_id u \<and> m_tenantId m = s_tenantId s \<and> m_role m = Staff)
            (List.product (app_users d) (memberships d));
          granted = left_join (\<lambda>(u, m) x. rls_user_property s x \<and> up_appUserId x = au_id u \<and>
              up_tenantId x = s_tenantId s) (user_properties d) members;
          named = left_join (\<lambda>(um, x) p. rls_property d s p \<and> Some (p_id p) = map_option up_propertyId x)
              (properties d) granted;
          ordered = sort_key (\<lambda>(((u, m), x), p). (to_lower (au_email u), name_key collate p)) named
      in group (map (\<lambda>(((u, m), x), p).
           (\<lparr>st_id = au_id u, st_email = au_email u, st_createdAt = au_createdAt u, st_properties = []\<rparr>,
            assigned p)) ordered))"

definition staff_seat :: "session \<Rightarrow> uuid \<Rightarrow> membership_row \<Rightarrow> bool" where
  "staff_seat s userId m \<longleftrightarrow>
     rls_membership s m \<and> m_appUserId m = userId \<and> m_tenantId m = s_tenantId s \<and> m_role m = Staff"

definition staffExists :: "db \<Rightarrow> session \<Rightarrow> uuid \<Rightarrow> bool" where
  "staffExists d s userId = (\<exists>m \<in> set (memberships d). staff_seat s userId m)"

definition grant_row :: "session \<Rightarrow> uuid \<Rightarrow> uuid \<Rightarrow> user_property_row" where
  "grant_row s userId propertyId =
     \<lparr>up_appUserId = userId, up_propertyId = propertyId, up_tenantId = s_tenantId s\<rparr>"

definition insert_grant :: "session \<Rightarrow> user_property_row \<Rightarrow> db \<Rightarrow> app_error + db" where
  "insert_grant s x d =
     (if rls_grant_check s x then insert_user_property x d else Inl (DbError ''row-level security''))"

definition replaceAssignments :: "session \<Rightarrow> uuid \<Rightarrow> uuid list \<Rightarrow> db \<Rightarrow> app_error + db" where
  "replaceAssignments s userId propertyIds d =
     insert_each (insert_grant s) (map (grant_row s userId) propertyIds)
       (d\<lparr>user_properties := filter (\<lambda>x. \<not> (rls_user_property s x \<and> up_appUserId x = userId \<and>
            up_tenantId x = s_tenantId s)) (user_properties d)\<rparr>)"

definition removeStaff :: "session \<Rightarrow> uuid \<Rightarrow> db \<Rightarrow> bool \<times> db" where
  "removeStaff s userId d = (staffExists d s userId, delete_memberships (staff_seat s userId) d)"

section \<open>The service\<close>

text \<open>\<^verbatim>\<open>[...new Set(ids)]\<close>: first occurrences, in order.\<close>

definition unique_ids :: "uuid list \<Rightarrow> uuid list" where
  "unique_ids ids = rev (remdups (rev ids))"

lemma unique_ids_simps [simp]: "set (unique_ids ids) = set ids" "distinct (unique_ids ids)"
  by (simp_all add: unique_ids_def)

definition list_staff :: "(string \<Rightarrow> string) \<Rightarrow> tenant_context \<Rightarrow> db \<Rightarrow> app_error + staff_row list" where
  "list_staff collate ctx d = db_run ctx None (\<lambda>tx. Inr (listStaff collate d (tx_session tx)))"

definition updateAssignments ::
  "(string \<Rightarrow> string) \<Rightarrow> tenant_context \<Rightarrow> uuid \<Rightarrow> uuid list \<Rightarrow> db \<Rightarrow> app_error + (staff_row \<times> db)" where
  "updateAssignments collate ctx userId dto d =
     intercept
       (bind_res (db_run ctx None (\<lambda>tx. Inr (staffExists d (tx_session tx) userId))) (\<lambda>known.
        if \<not> known then Inl (NotFound ''Staff member not found'')
        else
          let propertyIds = unique_ids dto in
          bind_res (db_run ctx None (\<lambda>tx. Inr (countVisibleProperties d (tx_session tx) propertyIds))) (\<lambda>visible.
          if visible \<noteq> length propertyIds then Inl (NotFound ''Property not found'')
          else bind_res (db_run ctx None (\<lambda>tx. replaceAssignments (tx_session tx) userId propertyIds d)) (\<lambda>d'.
          bind_res (list_staff collate ctx d') (\<lambda>rows.
          case select_one (\<lambda>r. st_id r = userId) rows of
            None \<Rightarrow> Inl (NotFound ''Staff member not found'')
          | Some r \<Rightarrow> Inr (r, d'))))))"

definition remove_staff :: "tenant_context \<Rightarrow> uuid \<Rightarrow> db \<Rightarrow> app_error + db" where
  "remove_staff ctx userId d =
     (if (case ctx of Some (User_principal uid tid role) \<Rightarrow> uid = userId | _ \<Rightarrow> False)
      then Inl (Forbidden ''You cannot remove your own account'')
      else db_run ctx None (\<lambda>tx.
        case removeStaff (tx_session tx) userId d of
          (False, d') \<Rightarrow> Inl (NotFound ''Staff member not found'')
        | (True, d') \<Rightarrow> Inr d'))"

end
