(* ===== verification/Mailer.thy ===== *)
theory Mailer
  imports Wa_Link Schema
begin

text \<open>
  Outgoing mail: the message, the choice of adapter (\<^verbatim>\<open>mailer.factory.ts\<close>) and the two adapters
  (\<^verbatim>\<open>log-mailer.ts\<close>, \<^verbatim>\<open>resend-mailer.ts\<close>). The HTTP call is a parameter: \<open>fetch\<close> answers no response
  (network failure or timeout) or a status.
\<close>

record email_message =
  em_to :: string
  em_subject :: string
  em_text :: string
  em_html :: "string option"

definition text_message :: "string \<Rightarrow> string \<Rightarrow> string \<Rightarrow> email_message" where
  "text_message to subject body = \<lparr>em_to = to, em_subject = subject, em_text = body, em_html = None\<rparr>"

text \<open>Environment variables, as \<^verbatim>\<open>ConfigService.get\<close> answers them.\<close>

record mail_config =
  mc_apiKey :: "string option"
  mc_from :: "string option"
  mc_baseUrl :: "string option"

definition truthy :: "string option \<Rightarrow> bool" where
  "truthy v = (case v of None \<Rightarrow> False | Some s \<Rightarrow> s \<noteq> [])"

datatype mailer_kind = Resend_mailer | Log_mailer

definition createMailer :: "mail_config \<Rightarrow> mailer_kind" where
  "createMailer config = (if truthy (mc_apiKey config) \<and> truthy (mc_from config) then Resend_mailer else Log_mailer)"

definition RESEND_DEFAULT_BASE_URL :: string where
  "RESEND_DEFAULT_BASE_URL = ''https://api.resend.com/emails''"

record mail_request =
  mr_url :: string
  mr_authorization :: string
  mr_body :: json

definition resend_request :: "string \<Rightarrow> string \<Rightarrow> string \<Rightarrow> email_message \<Rightarrow> mail_request" where
  "resend_request baseUrl apiKey sender m =
     \<lparr>mr_url = baseUrl, mr_authorization = ''Bearer '' @ apiKey,
      mr_body = J_obj ([(''from'', J_str sender), (''to'', J_str (em_to m)),
        (''subject'', J_str (em_subject m)), (''text'', J_str (em_text m))] @
        (case em_html m of None \<Rightarrow> [] | Some h \<Rightarrow> if h = [] then [] else [(''html'', J_str h)]))\<rparr>"

text \<open>Sending resolves (\<open>Inr\<close>) or rejects; a configuration read at call time guards the adapter.\<close>

definition resend_send ::
  "mail_config \<Rightarrow> (mail_request \<Rightarrow> nat option) \<Rightarrow> email_message \<Rightarrow> string + unit" where
  "resend_send config fetch m =
     (if \<not> truthy (mc_apiKey config) \<or> \<not> truthy (mc_from config)
      then Inl ''Email is not configured''
      else let url = (case mc_baseUrl config of None \<Rightarrow> RESEND_DEFAULT_BASE_URL | Some u \<Rightarrow> u) in
        case fetch (resend_request url (the (mc_apiKey config)) (the (mc_from config)) m) of
          None \<Rightarrow> Inl ''Resend request failed''
        | Some status \<Rightarrow> if 200 \<le> status \<and> status \<le> 299 then Inr () else Inl ''Resend rejected the send'')"

definition mailer_send ::
  "mail_config \<Rightarrow> (mail_request \<Rightarrow> nat option) \<Rightarrow> email_message \<Rightarrow> string + unit" where
  "mailer_send config fetch m =
     (case createMailer config of Log_mailer \<Rightarrow> Inr () | Resend_mailer \<Rightarrow> resend_send config fetch m)"

text \<open>The adapter that is bound is never the unconfigured one.\<close>

lemma bound_mailer_configured: "mailer_send config fetch m \<noteq> Inl ''Email is not configured''"
  by (auto simp: mailer_send_def createMailer_def resend_send_def Let_def split: mailer_kind.split option.split)

end
