(* ===== verification/Invites.thy ===== *)
theory Invites
  imports Staff Mailer
begin

text \<open>
  The life of an invite (\<^verbatim>\<open>invites.service.ts\<close>, \<^verbatim>\<open>invite-accept.repository.ts\<close>, \<^verbatim>\<open>invite-liveness.ts\<close>,
  \<^verbatim>\<open>invite-token.ts\<close>, \<^verbatim>\<open>invite-email.ts\<close>): created under row-level security by an owner, e-mailed once,
  previewed and spent by whoever holds the token, on the owner connection. SHA-256, the random token
  and the mailer are parameters. An operation whose steps commit one by one answers the database beside
  its result, since an error does not undo the earlier steps.
\<close>

section \<open>The e-mail\<close>

definition INVITE_TTL_DAYS :: int where "INVITE_TTL_DAYS = 7"

definition inviteAcceptUrl :: "string \<Rightarrow> string \<Rightarrow> string" where
  "inviteAcceptUrl webBaseUrl token = strip_slashes webBaseUrl @ ''/invite/'' @ token"

record invite_email_data =
  ie_to :: string
  ie_tenantName :: string
  ie_invitedBy :: string
  ie_propertyNames :: "string list"
  ie_acceptUrl :: string
  ie_expiresInDays :: string
    \<comment> \<open>the number of days, as the template prints it\<close>

definition renderInviteEmail :: "invite_email_data \<Rightarrow> email_message" where
  "renderInviteEmail d =
     text_message (ie_to d) (ie_invitedBy d @ '' invited you to help manage '' @ ie_tenantName d)
       (''Hi,'' @ newline @ newline @
        ie_invitedBy d @ '' has invited you to join '' @ ie_tenantName d @ '' on Sambung as a '' @
        ''staff member.'' @ newline @ newline @
        ''You'' @ [CHR 0x27] @ ''ll be able to manage:'' @ newline @
        join newline (map (\<lambda>n. ''  - '' @ n) (ie_propertyNames d)) @ newline @ newline @
        ''Set your password and get started:'' @ newline @ ie_acceptUrl d @ newline @ newline @
        ''This link can be used once, and expires in '' @ ie_expiresInDays d @
        '' day'' @ (if ie_expiresInDays d = ''1'' then '''' else ''s'') @ ''.'' @ newline @
        ''If you weren'' @ [CHR 0x27] @ ''t expecting this, you can ignore it.'' @ newline)"

section \<open>Why an invite is dead\<close>

record invite_view =
  vw_id :: uuid
  vw_tenantId :: uuid
  vw_tenantName :: string
  vw_email :: string
  vw_expiresAt :: instant
  vw_acceptedAt :: "instant option"
  vw_revokedAt :: "instant option"
  vw_invitedBy :: string
  vw_propertyNames :: "string list"

definition refusalReason :: "invite_view \<Rightarrow> instant \<Rightarrow> invite_refusal option" where
  "refusalReason i now =
     (if vw_acceptedAt i \<noteq> None then Some Invite_accepted
      else if vw_expiresAt i \<le> now then Some Invite_expired
      else if vw_revokedAt i \<noteq> None then Some Invite_revoked
      else None)"

datatype accept_mode = Mode_create | Mode_signin

definition inviteAcceptModeFor :: "nat option \<Rightarrow> accept_mode" where
  "inviteAcceptModeFor seatCount =
     (case seatCount of None \<Rightarrow> Mode_create | Some n \<Rightarrow> if n > 0 then Mode_signin else Mode_create)"

section \<open>The accept side of the repository\<close>

definition invite_names :: "(string \<Rightarrow> string) \<Rightarrow> db \<Rightarrow> uuid \<Rightarrow> string list" where
  "invite_names collate d inviteId =
     map p_name (sort_key (\<lambda>p. collate (p_name p))
       (map snd (filter (\<lambda>(x, p). p_id p = sip_propertyId x \<and> sip_inviteId x = inviteId)
          (List.product (staff_invite_properties d) (properties d)))))"

definition findByTokenHash :: "(string \<Rightarrow> string) \<Rightarrow> db \<Rightarrow> string \<Rightarrow> invite_view option" where
  "findByTokenHash collate d tokenHash =
     map_option (\<lambda>(i, t, u).
         \<lparr>vw_id = si_id i, vw_tenantId = si_tenantId i, vw_tenantName = t_name t, vw_email = si_email i,
          vw_expiresAt = si_expiresAt i, vw_acceptedAt = si_acceptedAt i, vw_revokedAt = si_revokedAt i,
          vw_invitedBy = au_email u, vw_propertyNames = invite_names collate d (si_id i)\<rparr>)
       (select_one (\<lambda>(i, t, u). t_id t = si_tenantId i \<and> au_id u = si_createdBy i \<and> si_tokenHash i = tokenHash)
         (List.product (staff_invites d) (List.product (tenants d) (app_users d))))"

definition seatCount :: "db \<Rightarrow> uuid \<Rightarrow> nat" where
  "seatCount d userId = length (filter (\<lambda>m. m_appUserId m = userId) (memberships d))"

definition findAccountByEmail :: "db \<Rightarrow> string \<Rightarrow> app_user_row option" where
  "findAccountByEmail d email = find_user (\<lambda>u. citext_eq (au_email u) email) d"

definition isMemberOfTenant :: "db \<Rightarrow> string \<Rightarrow> uuid \<Rightarrow> bool" where
  "isMemberOfTenant d email tenantId =
     (\<exists>u \<in> set (app_users d). citext_eq (au_email u) email \<and> seat_of d (au_id u) tenantId)"

datatype accept_failure = Password_required | Failed app_error

definition failing :: "app_error + 'a \<Rightarrow> accept_failure + 'a" where
  "failing r = map_sum Failed id r"

definition reclaimAccount :: "uuid \<Rightarrow> string \<Rightarrow> db \<Rightarrow> db" where
  "reclaimAccount userId passwordHash d =
     d\<lparr>app_users := update_where (\<lambda>u. au_id u = userId) (\<lambda>u. u\<lparr>au_passwordHash := passwordHash\<rparr>) (app_users d)\<rparr>"

text \<open>The account the seat goes to: created, proved by the caller, or claimed while no seat guards it.\<close>

definition accept_account ::
  "auth_env \<Rightarrow> string \<Rightarrow> string \<Rightarrow> uuid option \<Rightarrow> db \<Rightarrow> accept_failure + (app_user_row \<times> db)" where
  "accept_account env email passwordHash verifiedUserId d =
     (case findAccountByEmail d email of
        None \<Rightarrow>
          (let user = new_user env email passwordHash
           in bind_res (failing (insert_app_user user d)) (\<lambda>d'. Inr (user, d')))
      | Some existing \<Rightarrow>
          if verifiedUserId = Some (au_id existing) then Inr (existing, d)
          else if seatCount d (au_id existing) > 0 then Inl Password_required
          else Inr (existing\<lparr>au_passwordHash := passwordHash\<rparr>, reclaimAccount (au_id existing) passwordHash d))"

definition seat_staff :: "instant \<Rightarrow> uuid \<Rightarrow> uuid \<Rightarrow> db \<Rightarrow> app_error + db" where
  "seat_staff dbNow userId tenantId d =
     (let m = \<lparr>m_appUserId = userId, m_tenantId = tenantId, m_role = Staff, m_createdAt = dbNow\<rparr>
      in insert_or_skip (\<lambda>d. \<exists>x \<in> set (memberships d). same_seat x m) (insert_membership m) d)"

definition copy_grant :: "uuid \<Rightarrow> staff_invite_property_row \<Rightarrow> db \<Rightarrow> app_error + db" where
  "copy_grant userId x d =
     (let g = \<lparr>up_appUserId = userId, up_propertyId = sip_propertyId x, up_tenantId = sip_tenantId x\<rparr>
      in insert_or_skip (\<lambda>d. \<exists>y \<in> set (user_properties d). same_grant y g) (insert_user_property g) d)"

definition invite_grants :: "db \<Rightarrow> uuid \<Rightarrow> staff_invite_property_row list" where
  "invite_grants d inviteId = filter (\<lambda>x. sip_inviteId x = inviteId) (staff_invite_properties d)"

definition spendable :: "instant \<Rightarrow> uuid \<Rightarrow> staff_invite_row \<Rightarrow> bool" where
  "spendable dbNow inviteId i \<longleftrightarrow>
     si_id i = inviteId \<and> si_acceptedAt i = None \<and> si_revokedAt i = None \<and> si_expiresAt i > dbNow"

definition accept_repo ::
  "auth_env \<Rightarrow> instant \<Rightarrow> instant \<Rightarrow> uuid \<Rightarrow> string \<Rightarrow> uuid option \<Rightarrow> db \<Rightarrow>
     accept_failure + ((app_user_row \<times> uuid) option \<times> db)" where
  "accept_repo env now dbNow inviteId passwordHash verifiedUserId d =
     (case select_one (spendable dbNow inviteId) (staff_invites d) of
        None \<Rightarrow> Inr (None, d)
      | Some spent \<Rightarrow>
          (let d1 = update_invites (spendable dbNow inviteId) (\<lambda>i. i\<lparr>si_acceptedAt := Some now\<rparr>) d in
           bind_res (accept_account env (si_email spent) passwordHash verifiedUserId d1) (\<lambda>(user, d2).
           bind_res (failing (seat_staff dbNow (au_id user) (si_tenantId spent) d2)) (\<lambda>d3.
           bind_res (failing (insert_each (copy_grant (au_id user)) (invite_grants d3 (si_id spent)) d3)) (\<lambda>d4.
           Inr (Some (user, si_tenantId spent), d4))))))"

section \<open>The service\<close>

record invite_env =
  ve_auth :: auth_env
  ve_now :: instant
  ve_dbNow :: instant
  ve_collate :: "string \<Rightarrow> string"
  ve_token :: string
  ve_hashInviteToken :: "string \<Rightarrow> string"
  ve_newInviteId :: uuid
  ve_webBaseUrl :: string
  ve_send :: "email_message \<Rightarrow> bool"

record create_invite_request =
  cv_email :: string
  cv_propertyIds :: "uuid list"

definition list_pending :: "invite_env \<Rightarrow> tenant_context \<Rightarrow> db \<Rightarrow> app_error + invite_row list" where
  "list_pending env ctx d =
     db_run ctx None (\<lambda>tx. Inr (listPendingInvites (ve_collate env) d (tx_session tx) (ve_dbNow env)))"

definition new_invite :: "invite_env \<Rightarrow> uuid \<Rightarrow> string \<Rightarrow> uuid list \<Rightarrow> create_invite_input" where
  "new_invite env userId email propertyIds =
     \<lparr>ci_email = email, ci_tokenHash = ve_hashInviteToken env (ve_token env),
      ci_expiresAt = ve_now env + INVITE_TTL_DAYS * 86400000, ci_createdBy = userId,
      ci_propertyIds = propertyIds\<rparr>"

definition invite_mail :: "invite_env \<Rightarrow> invite_view \<Rightarrow> email_message" where
  "invite_mail env view =
     renderInviteEmail
       \<lparr>ie_to = vw_email view, ie_tenantName = vw_tenantName view, ie_invitedBy = vw_invitedBy view,
        ie_propertyNames = vw_propertyNames view,
        ie_acceptUrl = inviteAcceptUrl (ve_webBaseUrl env) (ve_token env), ie_expiresInDays = ''7''\<rparr>"

text \<open>The mailing half of \<^verbatim>\<open>create\<close>: a failure withdraws the invite.\<close>

definition send_invite :: "invite_env \<Rightarrow> session \<Rightarrow> db \<Rightarrow> (app_error + unit) \<times> db" where
  "send_invite env s d =
     (case findByTokenHash (ve_collate env) d (ve_hashInviteToken env (ve_token env)) of
        Some view \<Rightarrow>
          if ve_send env (invite_mail env view) then (Inr (), d)
          else (Inl (ServiceUnavailable ''Could not send the invite email''), snd (revokeInvite s (ve_now env) (ve_newInviteId env) d))
      | None \<Rightarrow> (Inl (ServiceUnavailable ''Could not send the invite email''), snd (revokeInvite s (ve_now env) (ve_newInviteId env) d)))"

definition create_staff_invite ::
  "invite_env \<Rightarrow> tenant_context \<Rightarrow> create_invite_request \<Rightarrow> db \<Rightarrow> (app_error + invite_row) \<times> db" where
  "create_staff_invite env ctx dto d =
     (case ctx of
        Some (User_principal userId tenantId role) \<Rightarrow>
          (let s = session_of (User_principal userId tenantId role);
               propertyIds = unique_ids (cv_propertyIds dto);
               d1 = supersedeExpiredInvites s (ve_now env) (ve_dbNow env) (cv_email dto) d in
           if countVisibleProperties d s propertyIds \<noteq> length propertyIds
           then (Inl (NotFound ''Property not found''), d)
           else if isMemberOfTenant d (cv_email dto) tenantId then (Inl (Conflict Email_taken), d)
           else if hasLiveInvite d1 s (ve_dbNow env) (cv_email dto)
           then (Inl (Conflict Invite_already_pending), d1)
           else case createInvite s (ve_dbNow env) (ve_newInviteId env)
                       (new_invite env userId (cv_email dto) propertyIds) d1 of
             Inl e \<Rightarrow> (intercept (Inl e), d1)
           | Inr d2 \<Rightarrow>
               (case send_invite env s d2 of
                  (Inl e, d3) \<Rightarrow> (Inl e, d3)
                | (Inr _, d3) \<Rightarrow>
                    (case select_one (\<lambda>i. st_id i = ve_newInviteId env)
                            (listPendingInvites (ve_collate env) d3 s (ve_dbNow env)) of
                       None \<Rightarrow> (Inl (NotFound ''Invite not found''), d3)
                     | Some i \<Rightarrow> (Inr i, d3))))
      | _ \<Rightarrow> (Inl (NotFound ''Invite not found''), d))"

definition revoke_staff_invite :: "invite_env \<Rightarrow> tenant_context \<Rightarrow> uuid \<Rightarrow> db \<Rightarrow> app_error + db" where
  "revoke_staff_invite env ctx inviteId d =
     db_run ctx None (\<lambda>tx.
       case revokeInvite (tx_session tx) (ve_now env) inviteId d of
         (False, d') \<Rightarrow> Inl (NotFound ''Invite not found'')
       | (True, d') \<Rightarrow> Inr d')"

record invite_preview =
  pv_email :: string
  pv_tenantName :: string
  pv_propertyNames :: "string list"
  pv_expiresAt :: instant
  pv_mode :: accept_mode

definition account_mode :: "db \<Rightarrow> string \<Rightarrow> accept_mode" where
  "account_mode d email =
     inviteAcceptModeFor (map_option (\<lambda>u. seatCount d (au_id u)) (findAccountByEmail d email))"

definition preview :: "invite_env \<Rightarrow> string \<Rightarrow> db \<Rightarrow> app_error + invite_preview" where
  "preview env token d =
     (case findByTokenHash (ve_collate env) d (ve_hashInviteToken env token) of
        None \<Rightarrow> Inl (NotFound ''Invite not found'')
      | Some i \<Rightarrow>
          (case refusalReason i (ve_now env) of
             Some reason \<Rightarrow> Inl (Conflict (Invite_not_acceptable reason))
           | None \<Rightarrow> Inr \<lparr>pv_email = vw_email i, pv_tenantName = vw_tenantName i,
               pv_propertyNames = vw_propertyNames i, pv_expiresAt = vw_expiresAt i,
               pv_mode = account_mode d (vw_email i)\<rparr>))"

record accept_request =
  aq_token :: string
  aq_password :: string

definition accept_refusal :: "invite_env \<Rightarrow> string \<Rightarrow> db \<Rightarrow> invite_refusal" where
  "accept_refusal env token d =
     (case findByTokenHash (ve_collate env) d (ve_hashInviteToken env token) of
        None \<Rightarrow> Invite_expired
      | Some fresh \<Rightarrow> (case refusalReason fresh (ve_now env) of None \<Rightarrow> Invite_expired | Some r \<Rightarrow> r))"

text \<open>The password check outside the transaction: whom the caller proved to be, if anyone.\<close>

definition verified_user :: "invite_env \<Rightarrow> string \<Rightarrow> string \<Rightarrow> db \<Rightarrow> app_error + uuid option" where
  "verified_user env email password d =
     (case account_mode d email of
        Mode_create \<Rightarrow> Inr None
      | Mode_signin \<Rightarrow>
          (case findAccountByEmail d email of
             Some existing \<Rightarrow>
               if ae_compare (ve_auth env) password (au_passwordHash existing) then Inr (Some (au_id existing))
               else Inl (Unauthorized ''Invalid credentials'')
           | None \<Rightarrow> Inr None))"

definition accept_invite :: "invite_env \<Rightarrow> accept_request \<Rightarrow> db \<Rightarrow> (app_error + auth_answer) \<times> db" where
  "accept_invite env dto d =
     (case findByTokenHash (ve_collate env) d (ve_hashInviteToken env (aq_token dto)) of
        None \<Rightarrow> (Inl (NotFound ''Invite not found''), d)
      | Some invite \<Rightarrow>
          (case verified_user env (vw_email invite) (aq_password dto) d of
             Inl e \<Rightarrow> (Inl e, d)
           | Inr verified \<Rightarrow>
               (case accept_repo (ve_auth env) (ve_now env) (ve_dbNow env) (vw_id invite)
                       (ae_hash (ve_auth env) (aq_password dto)) verified d of
                  Inl Password_required \<Rightarrow> (Inl (Unauthorized ''Invalid credentials''), d)
                | Inl (Failed e) \<Rightarrow> (intercept (Inl e), d)
                | Inr (None, d') \<Rightarrow>
                    (Inl (Conflict (Invite_not_acceptable (accept_refusal env (aq_token dto) d'))), d')
                | Inr (Some (user, tenantId), d') \<Rightarrow>
                    (startSessionForVerifiedUser (ve_auth env) d' user tenantId, d'))))"

end
