(* ===== verification/Team_Invariant.thy ===== *)
theory Team_Invariant
  imports Invites
begin

text \<open>
  Every statement the team's operations issue keeps the people's tables consistent (\<open>accounts_ok\<close>),
  and with it every operation of \<^verbatim>\<open>auth.service.ts\<close>, \<^verbatim>\<open>staff.service.ts\<close> and \<^verbatim>\<open>invites.service.ts\<close>.
\<close>

section \<open>Invites\<close>

lemma distinct_update_where:
  assumes "distinct (map g (filter Q xs))" "\<And>x. P x \<Longrightarrow> \<not> Q (f x)"
  shows "distinct (map g (filter Q (update_where P f xs)))"
  using assms(1)
proof (induction xs)
  case (Cons x xs)
  then show ?case using assms(2) by (auto simp: set_update_where split: if_splits)
qed simp

text \<open>An invite that is closed (accepted or revoked) frees its address.\<close>

lemma update_invites_ok:
  assumes "accounts_ok d"
    and f: "\<And>i. si_id (f i) = si_id i" "\<And>i. si_tokenHash (f i) = si_tokenHash i"
      "\<And>i. si_tenantId (f i) = si_tenantId i" "\<And>i. si_createdBy (f i) = si_createdBy i"
      "\<And>i. \<not> live_row (f i)"
  shows "accounts_ok (update_invites P f d)"
proof -
  have i: "invites_ok d" using assms(1) by auto
  have "map g (update_where P f (staff_invites d)) = map g (staff_invites d)" if "\<And>i. g (f i) = g i"
    for g :: "staff_invite_row \<Rightarrow> string" using that by (auto intro: map_update_where)
  moreover have "distinct (map (\<lambda>i. (si_tenantId i, to_lower (si_email i)))
      (filter live_row (update_where P f (staff_invites d))))"
    using i f(5) by (intro distinct_update_where) (auto simp: invites_ok_def)
  moreover have "\<exists>j \<in> set (update_where P f (staff_invites d)). si_id j = n \<and> si_tenantId j = t"
    if "i \<in> set (staff_invites d)" "si_id i = n" "si_tenantId i = t" for i n t
  proof -
    have "(if P i then f i else i) \<in> set (update_where P f (staff_invites d))"
      using that by (simp add: update_where_def)
    then show ?thesis by (rule bexI [rotated]) (use that f in auto)
  qed
  ultimately have "invites_ok (update_invites P f d)"
    using i f(1-4) unfolding invites_ok_def update_invites_def owns_property_def seat_of_def
    by (auto simp: set_update_where)
  then show ?thesis
    using assms(1) by (auto simp: accounts_ok_def users_ok_def grants_ok_def update_invites_def seat_of_def owns_property_def)
qed

lemma supersede_ok: "accounts_ok d \<Longrightarrow> accounts_ok (supersedeExpiredInvites s now dbNow email d)"
  unfolding supersedeExpiredInvites_def by (rule update_invites_ok) (simp_all add: live_row_def)

lemma revokeInvite_ok: "accounts_ok d \<Longrightarrow> accounts_ok (snd (revokeInvite s now i d))"
  unfolding revokeInvite_def snd_conv by (rule update_invites_ok) (simp_all add: live_row_def)

lemma insert_invite_ok:
  assumes "accounts_ok d" "insert_invite r d = Inr d'"
  shows "accounts_ok d'"
proof -
  have v: "invite_violation d r = None" and d': "d' = d\<lparr>staff_invites := staff_invites d @ [r]\<rparr>"
    using assms(2) by (auto simp: insert_invite_def split: option.splits)
  have "invites_ok d'"
    using accounts_okD(3) [OF assms(1)] v unfolding d' invites_ok_def invite_violation_def
    by (auto simp: citext_eq_def seat_of_def owns_property_def split: if_splits)
  then show ?thesis
    using assms(1) by (auto simp: d' accounts_ok_def users_ok_def grants_ok_def seat_of_def owns_property_def)
qed

lemma insert_invite_property_ok:
  assumes "accounts_ok d" "insert_invite_property r d = Inr d'"
  shows "accounts_ok d'"
proof -
  have v: "invite_property_violation d r = None"
    and d': "d' = d\<lparr>staff_invite_properties := staff_invite_properties d @ [r]\<rparr>"
    using assms(2) by (auto simp: insert_invite_property_def split: option.splits)
  have "invites_ok d'"
    using accounts_okD(3) [OF assms(1)] v unfolding d' invites_ok_def invite_property_violation_def
    by (auto simp: seat_of_def owns_property_def split: if_splits)
  then show ?thesis
    using assms(1) by (auto simp: d' accounts_ok_def users_ok_def grants_ok_def seat_of_def owns_property_def)
qed

lemma createInvite_ok: "accounts_ok d \<Longrightarrow> createInvite s dbNow n i d = Inr d' \<Longrightarrow> accounts_ok d'"
  unfolding createInvite_def bind_res_Inr_iff
  using insert_each_ok [of accounts_ok insert_invite_property] insert_invite_property_ok insert_invite_ok by blast

section \<open>Seats and grants\<close>

lemma delete_memberships_ok:
  assumes "accounts_ok d"
  shows "accounts_ok (delete_memberships P d)"
proof -
  let ?d = "delete_memberships P d"
  let ?orphan = "\<lambda>uid tid. \<exists>m \<in> set (memberships d). P m \<and> m_appUserId m = uid \<and> m_tenantId m = tid"
  have seat: "seat_of ?d uid tid" if "seat_of d uid tid" "\<not> ?orphan uid tid" for uid tid
    using that by (auto simp: seat_of_def delete_memberships_def Let_def)
  have owns: "owns_property ?d p t = owns_property d p t" for p t
    by (simp add: owns_property_def delete_memberships_def Let_def)
  have "users_ok ?d"
    using accounts_okD(1) [OF assms] by (auto simp: users_ok_def delete_memberships_def Let_def distinct_map_filter)
  moreover have "grants_ok ?d"
    using accounts_okD(2) [OF assms] seat unfolding grants_ok_def owns
    by (auto simp: delete_memberships_def Let_def distinct_map_filter)
  moreover have "invites_ok ?d"
  proof -
    have i: "staff_invites ?d = filter (\<lambda>i. \<not> ?orphan (si_createdBy i) (si_tenantId i)) (staff_invites d)"
      by (auto simp: delete_memberships_def Let_def intro: filter_cong)
    have dead: "\<exists>j \<in> set (staff_invites ?d). si_id j = sip_inviteId x \<and> si_tenantId j = sip_tenantId x"
      if x: "x \<in> set (staff_invite_properties ?d)" for x
    proof -
      from x have "x \<in> set (staff_invite_properties d)"
        and n: "\<And>i. i \<in> set (staff_invites d) \<Longrightarrow> si_id i = sip_inviteId x \<Longrightarrow> \<not> ?orphan (si_createdBy i) (si_tenantId i)"
        by (auto simp: delete_memberships_def Let_def image_iff)
      with accounts_okD(3) [OF assms] obtain i where "i \<in> set (staff_invites d)" "si_id i = sip_inviteId x"
        "si_tenantId i = sip_tenantId x" by (auto simp: invites_ok_def)
      with n show ?thesis unfolding i by auto
    qed
    have owned: "owns_property d (sip_propertyId x) (sip_tenantId x)"
      if x: "x \<in> set (staff_invite_properties ?d)" for x
      using x accounts_okD(3) [OF assms] by (auto simp: invites_ok_def delete_memberships_def Let_def)
    have seated: "seat_of ?d (si_createdBy j) (si_tenantId j)" if "j \<in> set (staff_invites ?d)" for j
      using that seat accounts_okD(3) [OF assms] unfolding i by (auto simp: invites_ok_def)
    have keys: "distinct (map g (staff_invites ?d))" if "distinct (map g (staff_invites d))"
      for g :: "staff_invite_row \<Rightarrow> string"
      using that unfolding i by (simp add: distinct_map_filter)
    have x': "distinct (map (\<lambda>x. (sip_inviteId x, sip_propertyId x)) (staff_invite_properties ?d))"
      using accounts_okD(3) [OF assms] by (auto simp: invites_ok_def delete_memberships_def Let_def distinct_map_filter)
    have l: "distinct (map g (filter live_row (staff_invites ?d)))"
      if "distinct (map g (filter live_row (staff_invites d)))" for g :: "staff_invite_row \<Rightarrow> string \<times> string"
    proof -
      have eq: "filter live_row (staff_invites ?d) =
          filter (\<lambda>i. \<not> ?orphan (si_createdBy i) (si_tenantId i)) (filter live_row (staff_invites d))"
        unfolding i filter_filter by (rule filter_cong) auto
      show ?thesis unfolding eq using that by (rule distinct_map_filter)
    qed
    show ?thesis
      using accounts_okD(3) [OF assms] dead owned seated x' l keys unfolding invites_ok_def owns by simp
  qed
  ultimately show ?thesis by (simp add: accounts_ok_def)
qed

lemma removeStaff_ok: "accounts_ok d \<Longrightarrow> accounts_ok (snd (removeStaff s uid d))"
  by (simp add: removeStaff_def delete_memberships_ok)

text \<open>A filtered grant table is a grant table.\<close>

lemma filter_grants_ok:
  assumes "accounts_ok d"
  shows "accounts_ok (d\<lparr>user_properties := filter P (user_properties d)\<rparr>)"
  using assms
  by (auto simp: accounts_ok_def users_ok_def grants_ok_def invites_ok_def seat_of_def owns_property_def
      distinct_map_filter)

lemma insert_grant_ok: "accounts_ok d \<Longrightarrow> insert_grant s x d = Inr d' \<Longrightarrow> accounts_ok d'"
  by (auto simp: insert_grant_def intro: insert_user_property_ok split: if_splits)

lemma replaceAssignments_ok:
  assumes "accounts_ok d" "replaceAssignments s uid ids d = Inr d'"
  shows "accounts_ok d'"
  by (rule insert_each_ok [where I = accounts_ok and ins = "insert_grant s", OF _ filter_grants_ok [OF assms(1)]
        assms(2) [unfolded replaceAssignments_def]]) (rule insert_grant_ok)

lemma insert_or_skip_ok:
  assumes "\<And>d d'. I d \<Longrightarrow> ins d = Inr d' \<Longrightarrow> I d'" "I d" "insert_or_skip taken ins d = Inr d'"
  shows "I d'"
  using assms by (auto simp: insert_or_skip_def split: if_splits)

lemma seat_staff_ok: "accounts_ok d \<Longrightarrow> seat_staff now uid tid d = Inr d' \<Longrightarrow> accounts_ok d'"
  unfolding seat_staff_def Let_def by (rule insert_or_skip_ok [where I = accounts_ok]) (rule insert_membership_ok)

lemma copy_grant_ok: "accounts_ok d \<Longrightarrow> copy_grant uid x d = Inr d' \<Longrightarrow> accounts_ok d'"
  unfolding copy_grant_def Let_def by (rule insert_or_skip_ok [where I = accounts_ok]) (rule insert_user_property_ok)

lemma reclaimAccount_ok:
  assumes "accounts_ok d"
  shows "accounts_ok (reclaimAccount uid hash d)"
proof -
  have "map g (update_where P (\<lambda>u. u\<lparr>au_passwordHash := hash\<rparr>) us) = map g us"
    if "\<And>u. g (u\<lparr>au_passwordHash := hash\<rparr>) = g u" for g :: "app_user_row \<Rightarrow> string" and P us
    using that by (auto intro: map_update_where)
  then have "map au_id (app_users (reclaimAccount uid hash d)) = map au_id (app_users d)"
    "map (\<lambda>u. to_lower (au_email u)) (app_users (reclaimAccount uid hash d)) = map (\<lambda>u. to_lower (au_email u)) (app_users d)"
    by (simp_all add: reclaimAccount_def)
  moreover have "(\<exists>u \<in> set us. au_id u = n) \<longleftrightarrow> n \<in> set (map au_id us)" for us and n :: string by auto
  moreover have reclaim: "memberships (reclaimAccount uid hash d) = memberships d"
    "tenants (reclaimAccount uid hash d) = tenants d" by (simp_all add: reclaimAccount_def)
  ultimately have "users_ok (reclaimAccount uid hash d)"
    using accounts_okD(1) [OF assms] unfolding users_ok_def by (metis (lifting) reclaim)
  then show ?thesis
    using assms by (auto simp: accounts_ok_def grants_ok_def invites_ok_def seat_of_def owns_property_def reclaimAccount_def)
qed

section \<open>The operations\<close>

lemma failing_Inr [simp]: "failing r = Inr x \<longleftrightarrow> r = Inr x"
  by (cases r) (auto simp: failing_def)

lemma accept_account_ok:
  "accounts_ok d \<Longrightarrow> accept_account env email hash verified d = Inr (user, d') \<Longrightarrow> accounts_ok d'"
  by (auto simp: accept_account_def Let_def bind_res_Inr_iff reclaimAccount_ok intro: insert_app_user_ok
      split: option.splits if_splits)

lemma accept_repo_ok:
  assumes "accounts_ok d" "accept_repo env now dbNow iid hash verified d = Inr (r, d')"
  shows "accounts_ok d'"
proof (cases "select_one (spendable dbNow iid) (staff_invites d)")
  case None
  then show ?thesis using assms unfolding accept_repo_def None by simp
next
  case (Some i)
  let ?d1 = "update_invites (spendable dbNow iid) (\<lambda>i. i\<lparr>si_acceptedAt := Some now\<rparr>) d"
  obtain user d2 d3 where d: "accept_account env (si_email i) hash verified ?d1 = Inr (user, d2)"
    "seat_staff dbNow (au_id user) (si_tenantId i) d2 = Inr d3"
    "insert_each (copy_grant (au_id user)) (invite_grants d3 (si_id i)) d3 = Inr d'"
    using assms(2) unfolding accept_repo_def Some by (auto simp: Let_def bind_res_Inr_iff)
  have "accounts_ok ?d1" using assms(1) by (rule update_invites_ok) (simp_all add: live_row_def)
  then have "accounts_ok d3" using d(1,2) accept_account_ok seat_staff_ok by blast
  then show ?thesis using d(3) by (rule insert_each_ok [rotated]) (rule copy_grant_ok)
qed

lemma accept_invite_ok: "accounts_ok d \<Longrightarrow> accounts_ok (snd (accept_invite env q d))"
  by (auto simp: accept_invite_def accept_repo_ok split: option.split sum.split prod.split accept_failure.split)

lemma send_invite_ok: "accounts_ok d \<Longrightarrow> accounts_ok (snd (send_invite env s d))"
  by (auto simp: send_invite_def revokeInvite_ok split: option.split)

lemma create_staff_invite_ok: "accounts_ok d \<Longrightarrow> accounts_ok (snd (create_staff_invite env ctx q d))"
proof -
  assume d: "accounts_ok d"
  have s: "accounts_ok d3" if "send_invite env s d2 = (r, d3)" "accounts_ok d2" for s r d2 d3
    using send_invite_ok [OF that(2)] that(1) by (metis snd_conv)
  have c: "accounts_ok d3" if "send_invite env s d2 = (r, d3)"
    "createInvite s now n i (supersedeExpiredInvites s a b e d) = Inr d2" for s r d2 d3 now n i a b e
    using s [OF that(1)] that(2) createInvite_ok supersede_ok [OF d] by blast
  show ?thesis
    using d by (auto simp: create_staff_invite_def Let_def supersede_ok dest: c
        split: option.split sum.split prod.split principal.split)
qed

lemma revoke_staff_invite_ok:
  "accounts_ok d \<Longrightarrow> revoke_staff_invite env (Some p) iid d = Inr d' \<Longrightarrow> accounts_ok d'"
  using revokeInvite_ok [of d "session_of p" "ve_now env" iid]
  by (auto simp: revoke_staff_invite_def split: prod.splits bool.splits)

lemma remove_staff_ok: "accounts_ok d \<Longrightarrow> remove_staff (Some p) uid d = Inr d' \<Longrightarrow> accounts_ok d'"
  using removeStaff_ok [of d "session_of p" uid]
  by (auto simp: remove_staff_def split: prod.splits bool.splits if_splits principal.splits)

lemma updateAssignments_cases:
  assumes "updateAssignments collate (Some p) uid ids d = Inr (r, d')"
  shows "staffExists d (session_of p) uid"
    "countVisibleProperties d (session_of p) (unique_ids ids) = length (unique_ids ids)"
    "replaceAssignments (session_of p) uid (unique_ids ids) d = Inr d'"
    "select_one (\<lambda>r. st_id r = uid) (listStaff collate d' (session_of p)) = Some r"
  using assms
  by (auto simp: updateAssignments_def list_staff_def Let_def bind_res_Inr_iff split: if_splits option.splits
      simp del: select_one_None_iff)

lemma updateAssignments_ok:
  "accounts_ok d \<Longrightarrow> updateAssignments collate (Some p) uid ids d = Inr (r, d') \<Longrightarrow> accounts_ok d'"
  using updateAssignments_cases(3) replaceAssignments_ok by blast

text \<open>Registration: the identifiers the database generates are fresh.\<close>

definition fresh_ids :: "auth_env \<Rightarrow> db \<Rightarrow> bool" where
  "fresh_ids env d \<longleftrightarrow>
     ae_newTenantId env \<notin> t_id ` set (tenants d) \<and> ae_newUserId env \<notin> au_id ` set (app_users d)"

lemma add_tenant_ok:
  assumes "accounts_ok d" "t_id t \<notin> t_id ` set (tenants d)"
  shows "accounts_ok (d\<lparr>tenants := tenants d @ [t]\<rparr>)"
  using assms by (auto simp: accounts_ok_def users_ok_def grants_ok_def invites_ok_def seat_of_def owns_property_def)

lemma register_tx_ok:
  assumes "accounts_ok d" "fresh_ids env d" "register_tx env r d = Inr (user, d')"
  shows "accounts_ok d'"
proof -
  have "accounts_ok (d\<lparr>tenants := tenants d @ [new_tenant env r]\<rparr>)"
    using assms(1,2) by (intro add_tenant_ok) (simp_all add: fresh_ids_def new_tenant_def)
  moreover obtain d1 u m where "insert_app_user u (d\<lparr>tenants := tenants d @ [new_tenant env r]\<rparr>) = Inr d1"
    "insert_membership m d1 = Inr d'"
    using assms(3) by (auto simp: register_tx_def Let_def bind_res_Inr_iff)
  ultimately show ?thesis using insert_app_user_ok insert_membership_ok by blast
qed

lemma register_ok:
  assumes "accounts_ok d" "fresh_ids env d" "register env r d = Inr (a, d')"
  shows "accounts_ok d'"
  using assms register_tx_ok [OF assms(1,2)]
  by (auto simp: register_def bind_res_Inr_iff split: option.splits)

end
