(* ===== verification/Team_Rules.thy ===== *)
theory Team_Rules
  imports Team_Invariant
begin

text \<open>
  What the team's operations mean: the abstract roster (who holds which role in which workspace, and
  which properties each was given), the step relation of the operations, and the theorems that the
  tables refine the roster, that every session is a seat, and that an invite is spent once.
\<close>

section \<open>The abstract roster\<close>

definition same_member :: "uuid \<Rightarrow> uuid \<Rightarrow> membership_row \<Rightarrow> bool" where
  "same_member tid uid m \<longleftrightarrow> m_appUserId m = uid \<and> m_tenantId m = tid"

definition role_of :: "db \<Rightarrow> uuid \<Rightarrow> uuid \<Rightarrow> user_role option" where
  "role_of d tid uid = map_option m_role (select_one (same_member tid uid) (memberships d))"

definition grants_of :: "db \<Rightarrow> uuid \<Rightarrow> uuid \<Rightarrow> uuid set" where
  "grants_of d tid uid =
     set (map up_propertyId (filter (\<lambda>x. up_appUserId x = uid \<and> up_tenantId x = tid) (user_properties d)))"

type_synonym roster = "uuid \<Rightarrow> uuid \<Rightarrow> user_role option \<times> uuid set"

definition roster_of :: "db \<Rightarrow> roster" where
  "roster_of d tid uid = (role_of d tid uid, grants_of d tid uid)"

text \<open>What happened, and what it does to the roster.\<close>

datatype team_event =
    Registered uuid uuid
  | Joined uuid uuid "uuid set"
  | Assigned uuid uuid "uuid set"
  | Dismissed uuid uuid
  | Withdrawn uuid
  | Quiet

definition set_member :: "uuid \<Rightarrow> uuid \<Rightarrow> user_role option \<times> uuid set \<Rightarrow> roster \<Rightarrow> roster" where
  "set_member tid uid x r = (\<lambda>t u. if t = tid \<and> u = uid then x else r t u)"

fun on_roster :: "team_event \<Rightarrow> roster \<Rightarrow> roster" where
  "on_roster (Registered tid uid) r = set_member tid uid (Some Owner, snd (r tid uid)) r"
| "on_roster (Joined tid uid S) r =
     set_member tid uid (case fst (r tid uid) of None \<Rightarrow> Some Staff | Some x \<Rightarrow> Some x, snd (r tid uid) \<union> S) r"
| "on_roster (Assigned tid uid S) r = set_member tid uid (fst (r tid uid), S) r"
| "on_roster (Dismissed tid uid) r = set_member tid uid (None, {}) r"
| "on_roster (Withdrawn pid) r = (\<lambda>t u. (fst (r t u), snd (r t u) - {pid}))"
| "on_roster Quiet r = r"

text \<open>The properties a session reads under row-level security.\<close>

definition visible_ids :: "db \<Rightarrow> principal \<Rightarrow> uuid set" where
  "visible_ids d p = set (map p_id (filter (rls_property d (session_of p)) (properties d)))"

section \<open>Reading the tables\<close>

lemma role_of_iff:
  assumes "users_ok d"
  shows "role_of d tid uid = Some r \<longleftrightarrow>
    (\<exists>m \<in> set (memberships d). m_appUserId m = uid \<and> m_tenantId m = tid \<and> m_role m = r)"
proof -
  have "select_one (same_member tid uid) (memberships d) = Some m"
    if "m \<in> set (memberships d)" "m_appUserId m = uid" "m_tenantId m = tid" for m
    using assms that
    by (intro select_one_unique [where k = "\<lambda>m. (m_appUserId m, m_tenantId m)"])
      (auto simp: users_ok_def same_member_def)
  then show ?thesis
    unfolding role_of_def by (auto simp: same_member_def dest!: select_one_SomeD)
qed

lemma role_of_None: "role_of d tid uid = None \<longleftrightarrow> \<not> seat_of d uid tid"
  by (auto simp: role_of_def same_member_def seat_of_def)

lemma grants_of_iff:
  "pid \<in> grants_of d tid uid \<longleftrightarrow>
   (\<exists>x \<in> set (user_properties d). up_appUserId x = uid \<and> up_tenantId x = tid \<and> up_propertyId x = pid)"
  by (auto simp: grants_of_def)

lemma grants_need_seat: "grants_ok d \<Longrightarrow> \<not> seat_of d uid tid \<Longrightarrow> grants_of d tid uid = {}"
  by (auto simp: grants_of_def grants_ok_def filter_empty_conv)

text \<open>A staff session reads exactly what was granted; one whose seat is gone reads nothing.\<close>

lemma visible_staff:
  assumes "grants_ok d"
  shows "visible_ids d (User_principal uid tid Staff) = grants_of d tid uid"
proof -
  have "pid \<in> visible_ids d (User_principal uid tid Staff) \<longleftrightarrow>
      owns_property d pid tid \<and> pid \<in> grants_of d tid uid" for pid
    by (auto simp: visible_ids_def rls_property_def app_property_visible_assigned owns_property_def grants_of_iff)
  moreover have "owns_property d pid tid" if "pid \<in> grants_of d tid uid" for pid
    using assms that by (auto simp: grants_of_iff grants_ok_def)
  ultimately show ?thesis by blast
qed

lemma visible_owner:
  "visible_ids d (User_principal uid tid Owner) = p_id ` {p \<in> set (properties d). p_tenantId p = tid}"
  by (auto simp: visible_ids_def rls_property_def)

section \<open>What the statements do to the roster\<close>

lemma role_of_cong: "memberships d' = memberships d \<Longrightarrow> role_of d' = role_of d"
  by (intro ext) (simp add: role_of_def)

lemma grants_of_cong: "user_properties d' = user_properties d \<Longrightarrow> grants_of d' = grants_of d"
  by (intro ext) (simp add: grants_of_def)

lemma roster_of_cong:
  "memberships d' = memberships d \<Longrightarrow> user_properties d' = user_properties d \<Longrightarrow> roster_of d' = roster_of d"
  by (intro ext) (simp add: roster_of_def role_of_cong [of d' d] grants_of_cong [of d' d])

lemma insert_each_rows:
  assumes "\<And>r d d'. ins r d = Inr d' \<Longrightarrow> d' = d\<lparr>user_properties := user_properties d @ [r]\<rparr>"
    "insert_each ins rs d = Inr d'"
  shows "d' = d\<lparr>user_properties := user_properties d @ rs\<rparr>"
  using assms(2)
proof (induction rs arbitrary: d)
  case (Cons r rs)
  then obtain e where "ins r d = Inr e" "insert_each ins rs e = Inr d'" by (auto simp: bind_res_Inr_iff)
  with Cons.IH [of e] assms(1) [of r d e] show ?case by simp
qed simp

lemma replaceAssignments_eq:
  assumes "replaceAssignments s uid ids d = Inr d'"
  shows "d' = d\<lparr>user_properties :=
     filter (\<lambda>x. \<not> (rls_user_property s x \<and> up_appUserId x = uid \<and> up_tenantId x = s_tenantId s))
       (user_properties d) @ map (grant_row s uid) ids\<rparr>"
proof -
  have "d' = d\<lparr>user_properties := user_properties d @ [r]\<rparr>" if "insert_grant s r d = Inr d'" for r d d'
    using that by (auto simp: insert_grant_def dest!: insert_user_property_cases split: if_splits)
  from insert_each_rows [OF this assms [unfolded replaceAssignments_def]] show ?thesis by simp
qed

lemma replaceAssignments_roster:
  assumes "replaceAssignments (session_of (User_principal o1 tid Owner)) uid ids d = Inr d'"
  shows "roster_of d' = on_roster (Assigned tid uid (set ids)) (roster_of d)"
proof -
  note d' = replaceAssignments_eq [OF assms]
  have "role_of d' = role_of d" by (rule role_of_cong) (simp add: d')
  moreover have "grants_of d' t u = (if t = tid \<and> u = uid then set ids else grants_of d t u)" for t u
    unfolding set_eq_iff
    by (auto simp: grants_of_iff d' grant_row_def rls_user_property_def bex_Un)
  ultimately show ?thesis by (intro ext) (auto simp: roster_of_def set_member_def)
qed

lemma removeStaff_roster:
  assumes "users_ok d" "staffExists d (session_of (User_principal o1 tid Owner)) uid" "grants_ok d"
  shows "roster_of (snd (removeStaff (session_of (User_principal o1 tid Owner)) uid d)) =
    on_roster (Dismissed tid uid) (roster_of d)"
proof -
  let ?s = "session_of (User_principal o1 tid Owner)"
  let ?d = "delete_memberships (staff_seat ?s uid) d"
  have seat: "staff_seat ?s uid m \<longleftrightarrow> m_appUserId m = uid \<and> m_tenantId m = tid \<and> m_role m = Staff" for m
    by (auto simp: staff_seat_def rls_membership_def)
  obtain m0 where m0: "m0 \<in> set (memberships d)" "m_appUserId m0 = uid" "m_tenantId m0 = tid" "m_role m0 = Staff"
    using assms(2) by (auto simp: staffExists_def seat)
  have only: "m_role m = Staff" if "m \<in> set (memberships d)" "m_appUserId m = uid" "m_tenantId m = tid" for m
    using role_of_iff [OF assms(1), of tid uid "m_role m"] role_of_iff [OF assms(1), of tid uid Staff] that m0 by auto
  have find: "select_one Q (filter (\<lambda>m. \<not> P m) ms) = select_one Q ms" if "\<And>m. Q m \<Longrightarrow> \<not> P m"
    for P Q :: "membership_row \<Rightarrow> bool" and ms
    using that by (induction ms) auto
  have "role_of ?d t u = (if t = tid \<and> u = uid then None else role_of d t u)" for t u
  proof (cases "t = tid \<and> u = uid")
    case True
    then have "\<not> seat_of ?d u t" using only by (auto simp: seat_of_def delete_memberships_def Let_def seat)
    then show ?thesis using True role_of_None by auto
  next
    case False
    then have "select_one (same_member t u) (memberships ?d) = select_one (same_member t u) (memberships d)"
      unfolding delete_memberships_def Let_def by (simp del: select_one_simps) (rule find, auto simp: same_member_def seat)
    then have "role_of ?d t u = role_of d t u" unfolding role_of_def by metis
    then show ?thesis using False by auto
  qed
  moreover have "grants_of ?d t u = (if t = tid \<and> u = uid then {} else grants_of d t u)" for t u
    using m0 by (auto simp: grants_of_def delete_memberships_def Let_def seat filter_empty_conv)
  ultimately show ?thesis by (intro ext) (auto simp: roster_of_def set_member_def removeStaff_def)
qed

section \<open>Spending an invite\<close>

definition invited_ids :: "db \<Rightarrow> uuid \<Rightarrow> uuid set" where
  "invited_ids d inviteId = set (map sip_propertyId (invite_grants d inviteId))"

lemma findByTokenHash_SomeD:
  assumes "findByTokenHash collate d h = Some v"
  shows "\<exists>i \<in> set (staff_invites d). si_id i = vw_id v \<and> si_tokenHash i = h \<and> si_email i = vw_email v \<and>
    si_acceptedAt i = vw_acceptedAt v \<and> si_tenantId i = vw_tenantId v"
  using assms by (auto simp: findByTokenHash_def dest!: select_one_SomeD)

lemma seat_staff_roles:
  assumes "seat_staff now uid tid d = Inr d'"
  shows "role_of d' t u = (if t = tid \<and> u = uid then Some (case role_of d tid uid of None \<Rightarrow> Staff | Some r \<Rightarrow> r)
      else role_of d t u)"
    "d' = d\<lparr>memberships := memberships d'\<rparr>"
    "seat_of d' uid tid"
proof -
  let ?m = "\<lparr>m_appUserId = uid, m_tenantId = tid, m_role = Staff, m_createdAt = now\<rparr>"
  have *: "d' = d \<and> seat_of d uid tid \<or> \<not> seat_of d uid tid \<and> d' = d\<lparr>memberships := memberships d @ [?m]\<rparr>"
    using assms insert_membership_cases [of ?m d d']
    by (auto simp: seat_staff_def insert_or_skip_def same_seat_def seat_of_def split: if_splits)
  then show "d' = d\<lparr>memberships := memberships d'\<rparr>" "seat_of d' uid tid" by (auto simp: seat_of_def)
  from * show "role_of d' t u = (if t = tid \<and> u = uid then Some (case role_of d tid uid of None \<Rightarrow> Staff | Some r \<Rightarrow> r)
      else role_of d t u)"
  proof (elim disjE conjE)
    assume "d' = d" "seat_of d uid tid"
    then show ?thesis using role_of_None [of d tid uid] by auto
  next
    assume n: "\<not> seat_of d uid tid" and d': "d' = d\<lparr>memberships := memberships d @ [?m]\<rparr>"
    have "role_of d tid uid = None" using n role_of_None by blast
    then show ?thesis
      unfolding role_of_def d'
      by (auto simp: select_one_append same_member_def simp del: select_one_None_iff split: option.split)
  qed
qed

lemma copy_grant_grants:
  assumes "copy_grant uid x d = Inr d'" "grants_ok d" "distinct (map p_id (properties d))"
    "owns_property d (sip_propertyId x) (sip_tenantId x)"
  shows "grants_of d' t u = grants_of d t u \<union> (if t = sip_tenantId x \<and> u = uid then {sip_propertyId x} else {})"
    "\<exists>ys. d' = d\<lparr>user_properties := user_properties d @ ys\<rparr>"
proof -
  let ?g = "\<lparr>up_appUserId = uid, up_propertyId = sip_propertyId x, up_tenantId = sip_tenantId x\<rparr>"
  have "y = ?g" if "y \<in> set (user_properties d)" "same_grant y ?g" for y
  proof -
    have "owns_property d (sip_propertyId x) (up_tenantId y)"
      using assms(2) that by (auto simp: grants_ok_def same_grant_def)
    then have "up_tenantId y = sip_tenantId x"
      using assms(3,4) unfolding owns_property_def distinct_map by (metis inj_onD)
    then show ?thesis using that by (cases y) (auto simp: same_grant_def)
  qed
  then have *: "d' = d \<and> ?g \<in> set (user_properties d) \<or> d' = d\<lparr>user_properties := user_properties d @ [?g]\<rparr>"
    using assms(1) insert_user_property_cases [of ?g d d']
    unfolding copy_grant_def insert_or_skip_def Let_def by (auto split: if_splits)
  from * show "\<exists>ys. d' = d\<lparr>user_properties := user_properties d @ ys\<rparr>"
  proof
    assume "d' = d \<and> ?g \<in> set (user_properties d)"
    then have "d' = d\<lparr>user_properties := user_properties d @ []\<rparr>" by simp
    then show ?thesis by blast
  qed blast
  from * show "grants_of d' t u = grants_of d t u \<union> (if t = sip_tenantId x \<and> u = uid then {sip_propertyId x} else {})"
    unfolding set_eq_iff Un_iff grants_of_iff by (elim disjE) (auto simp: bex_Un intro: bexI [where x = ?g])
qed

lemma copy_grants:
  assumes "insert_each (copy_grant uid) xs d = Inr d'" "accounts_ok d" "distinct (map p_id (properties d))"
    "\<forall>x \<in> set xs. owns_property d (sip_propertyId x) (sip_tenantId x)"
  shows "grants_of d' t u = grants_of d t u \<union> {sip_propertyId x | x. x \<in> set xs \<and> t = sip_tenantId x \<and> u = uid} \<and>
    (\<exists>ys. d' = d\<lparr>user_properties := user_properties d @ ys\<rparr>)"
  using assms
proof (induction xs arbitrary: d)
  case Nil
  then have "d' = d\<lparr>user_properties := user_properties d @ []\<rparr>" by simp
  then have "\<exists>ys. d' = d\<lparr>user_properties := user_properties d @ ys\<rparr>" by (rule exI)
  then show ?case using Nil(1) by simp
next
  case (Cons x xs)
  then obtain e where e: "copy_grant uid x d = Inr e" "insert_each (copy_grant uid) xs e = Inr d'"
    by (auto simp: bind_res_Inr_iff)
  obtain ys where e': "e = d\<lparr>user_properties := user_properties d @ ys\<rparr>"
    using copy_grant_grants(2) [OF e(1)] Cons.prems by auto
  then have p: "properties e = properties d" by simp
  have "grants_of d' t u = grants_of e t u \<union> {sip_propertyId x | x. x \<in> set xs \<and> t = sip_tenantId x \<and> u = uid} \<and>
      (\<exists>ys. d' = e\<lparr>user_properties := user_properties e @ ys\<rparr>)"
    using Cons.prems copy_grant_ok [OF Cons.prems(2) e(1)] p
    by (intro Cons.IH [OF e(2)]) (auto simp: owns_property_def)
  moreover have "grants_of e t u = grants_of d t u \<union> (if t = sip_tenantId x \<and> u = uid then {sip_propertyId x} else {})"
    using copy_grant_grants(1) [OF e(1)] Cons.prems by auto
  moreover have "\<exists>ys. d' = d\<lparr>user_properties := user_properties d @ ys\<rparr>"
    using calculation(1) e' by auto
  ultimately show ?case by auto
qed

text \<open>The account the seat goes to; nobody's password changes while a seat guards the account.\<close>

definition same_but_claimed :: "string \<Rightarrow> db \<Rightarrow> db \<Rightarrow> bool" where
  "same_but_claimed email d d' \<longleftrightarrow>
     (\<forall>u \<in> set (app_users d). u \<in> set (app_users d') \<or> citext_eq (au_email u) email \<and> seatCount d (au_id u) = 0)"

lemma accept_account_cases:
  assumes "accept_account env email hash verified d = Inr (user, d')" "users_ok d"
  shows "citext_eq (au_email user) email" "user \<in> set (app_users d')" "same_but_claimed email d d'"
    "\<exists>us. d' = d\<lparr>app_users := us\<rparr>"
    "\<And>u. u \<in> set (app_users d) \<Longrightarrow> citext_eq (au_email u) email \<Longrightarrow> seatCount d (au_id u) > 0 \<Longrightarrow>
       verified = Some (au_id u) \<and> au_id user = au_id u"
proof -
  have one: "u = x" if "u \<in> set (app_users d)" "x \<in> set (app_users d)" "citext_eq (au_email u) email"
    "citext_eq (au_email x) email" for u x
    using assms(2) that unfolding users_ok_def citext_eq_def distinct_map by (metis (lifting) inj_onD)
  have keep: "\<exists>us. d = d\<lparr>app_users := us\<rparr>" by (rule exI [of _ "app_users d"]) simp
  have "citext_eq (au_email user) email \<and> user \<in> set (app_users d') \<and> same_but_claimed email d d' \<and>
      (\<exists>us. d' = d\<lparr>app_users := us\<rparr>) \<and> (\<forall>u \<in> set (app_users d). citext_eq (au_email u) email \<longrightarrow>
        seatCount d (au_id u) > 0 \<longrightarrow> verified = Some (au_id u) \<and> au_id user = au_id u)"
  proof (cases "findAccountByEmail d email")
    case None
    have "user = new_user env email hash" "insert_app_user user d = Inr d'"
      using assms(1) unfolding accept_account_def None by (auto simp: Let_def bind_res_Inr_iff)
    moreover have "\<forall>u \<in> set (app_users d). \<not> citext_eq (au_email u) email"
      using None by (simp add: findAccountByEmail_def find_user_def)
    ultimately show ?thesis
      using insert_app_user_cases [of user d d'] by (auto simp: new_user_def same_but_claimed_def)
  next
    case (Some x)
    then have x: "x \<in> set (app_users d)" "citext_eq (au_email x) email"
      by (auto simp: findAccountByEmail_def find_user_def dest!: select_one_SomeD)
    show ?thesis
    proof (cases "verified = Some (au_id x)")
      case True
      then have "user = x" "d' = d" using assms(1) Some by (auto simp: accept_account_def)
      then show ?thesis using x one True keep by (auto simp: same_but_claimed_def)
    next
      case False
      then have s: "seatCount d (au_id x) = 0" and u: "user = x\<lparr>au_passwordHash := hash\<rparr>"
        and d': "d' = reclaimAccount (au_id x) hash d"
        using assms(1) Some by (auto simp: accept_account_def split: if_splits)
      have "user \<in> set (app_users d')"
        using x(1) unfolding u d' reclaimAccount_def by (simp add: update_where_hit)
      moreover have "same_but_claimed email d d'"
      proof -
        have "u \<in> set (app_users d') \<or> u = x" if "u \<in> set (app_users d)" for u
        proof (cases "au_id u = au_id x")
          case True
          then have "u = x" using assms(2) that x(1) unfolding users_ok_def distinct_map by (metis inj_onD)
          then show ?thesis by simp
        next
          case False
          then show ?thesis using that by (auto simp: d' reclaimAccount_def set_update_where)
        qed
        then show ?thesis using x s unfolding same_but_claimed_def by blast
      qed
      moreover have "\<exists>us. d' = d\<lparr>app_users := us\<rparr>" by (auto simp: d' reclaimAccount_def)
      moreover have "\<not> seatCount d (au_id v) > 0" if "v \<in> set (app_users d)" "citext_eq (au_email v) email" for v
        using one [OF that(1) x(1) that(2) x(2)] s by simp
      ultimately show ?thesis using x by (auto simp: u)
    qed
  qed
  then show "citext_eq (au_email user) email" "user \<in> set (app_users d')" "same_but_claimed email d d'"
    "\<exists>us. d' = d\<lparr>app_users := us\<rparr>"
    "\<And>u. u \<in> set (app_users d) \<Longrightarrow> citext_eq (au_email u) email \<Longrightarrow> seatCount d (au_id u) > 0 \<Longrightarrow>
       verified = Some (au_id u) \<and> au_id user = au_id u" by auto
qed

definition spend :: "instant \<Rightarrow> staff_invite_row \<Rightarrow> staff_invite_row" where
  "spend now i = i\<lparr>si_acceptedAt := Some now\<rparr>"

lemma accept_repo_cases:
  assumes ok: "accounts_ok d" "distinct (map p_id (properties d))"
    and acc: "accept_repo env now dbNow iid hash verified d = Inr (Some (user, tid), d')"
  obtains i where "i \<in> set (staff_invites d)" "spendable dbNow iid i" "tid = si_tenantId i"
    "citext_eq (au_email user) (si_email i)" "user \<in> set (app_users d')" "same_but_claimed (si_email i) d d'"
    "\<And>u. u \<in> set (app_users d) \<Longrightarrow> citext_eq (au_email u) (si_email i) \<Longrightarrow> seatCount d (au_id u) > 0 \<Longrightarrow>
       verified = Some (au_id u) \<and> au_id user = au_id u"
    "roster_of d' = on_roster (Joined tid (au_id user) (invited_ids d iid)) (roster_of d)"
    "seat_of d' (au_id user) tid" "properties d' = properties d"
    "staff_invites d' = update_where (spendable dbNow iid) (spend now) (staff_invites d)"
proof -
  obtain i where sel: "select_one (spendable dbNow iid) (staff_invites d) = Some i"
    using acc by (cases "select_one (spendable dbNow iid) (staff_invites d)") (auto simp: accept_repo_def)
  then have i: "i \<in> set (staff_invites d)" "spendable dbNow iid i" by (auto dest!: select_one_SomeD)
  then have iid: "si_id i = iid" by (simp add: spendable_def)
  define d1 where "d1 = update_invites (spendable dbNow iid) (spend now) d"
  obtain d2 d3 where a: "accept_account env (si_email i) hash verified d1 = Inr (user, d2)" "tid = si_tenantId i"
    and s: "seat_staff dbNow (au_id user) tid d2 = Inr d3"
    and c: "insert_each (copy_grant (au_id user)) (invite_grants d3 iid) d3 = Inr d'"
    using acc unfolding accept_repo_def sel
    by (auto simp: Let_def bind_res_Inr_iff d1_def spend_def [abs_def] iid)
  have ok1: "accounts_ok d1"
    unfolding d1_def using ok(1) by (rule update_invites_ok) (simp_all add: live_row_def spend_def)
  note aa = accept_account_cases [OF a(1) accounts_okD(1) [OF ok1]]
  obtain us where d2: "d2 = d1\<lparr>app_users := us\<rparr>" using aa(4) by blast
  have ok3: "accounts_ok d3" using ok1 a(1) s accept_account_ok seat_staff_ok by blast
  note ss = seat_staff_roles [OF s]
  have d3: "d3 = d1\<lparr>app_users := us, memberships := memberships d3\<rparr>" using ss(2) unfolding d2 by simp
  have p3: "properties d3 = properties d" "user_properties d3 = user_properties d" "app_users d3 = us"
    "staff_invite_properties d3 = staff_invite_properties d" "staff_invites d3 = staff_invites d1"
    by (subst d3, simp add: d1_def update_invites_def)+
  have x: "sip_tenantId x = tid \<and> owns_property d3 (sip_propertyId x) (sip_tenantId x)"
    if "x \<in> set (invite_grants d3 iid)" for x
  proof -
    have x: "x \<in> set (staff_invite_properties d)" "sip_inviteId x = iid"
      using that by (auto simp: invite_grants_def p3)
    then obtain j where j: "j \<in> set (staff_invites d)" "si_id j = iid" "si_tenantId j = sip_tenantId x"
      "owns_property d (sip_propertyId x) (sip_tenantId x)"
      using accounts_okD(3) [OF ok(1)] by (auto simp: invites_ok_def)
    have "j = i" using accounts_okD(3) [OF ok(1)] i(1) j(1,2) iid unfolding invites_ok_def distinct_map
      by (metis inj_onD)
    with j show ?thesis by (simp add: a(2) owns_property_def p3)
  qed
  have owned: "\<forall>x \<in> set (invite_grants d3 iid). owns_property d3 (sip_propertyId x) (sip_tenantId x)"
    using x by blast
  have dp: "distinct (map p_id (properties d3))" using ok(2) by (simp add: p3)
  have cg: "grants_of d' t u = grants_of d3 t u \<union>
      {sip_propertyId x | x. x \<in> set (invite_grants d3 iid) \<and> t = sip_tenantId x \<and> u = au_id user}" for t u
    using copy_grants [OF c ok3 dp owned, of t u] by blast
  obtain ys where d': "d' = d3\<lparr>user_properties := user_properties d3 @ ys\<rparr>"
    using copy_grants [OF c ok3 dp owned] by blast
  have roster: "roster_of d' = on_roster (Joined tid (au_id user) (invited_ids d iid)) (roster_of d)"
  proof -
    have "grants_of d3 = grants_of d" by (rule grants_of_cong) (simp add: p3)
    moreover have "invite_grants d3 iid = invite_grants d iid" by (simp add: invite_grants_def p3)
    ultimately have "grants_of d' t u = (if t = tid \<and> u = au_id user then grants_of d t u \<union> invited_ids d iid
        else grants_of d t u)" for t u
      using x unfolding cg by (auto simp: invited_ids_def)
    moreover have "role_of d' = role_of d3" by (rule role_of_cong) (simp add: d')
    moreover have "role_of d2 = role_of d" by (rule role_of_cong) (simp add: d2 d1_def update_invites_def)
    ultimately show ?thesis
      using ss(1) by (intro ext) (auto simp: roster_of_def set_member_def split: option.split)
  qed
  have m1: "memberships d1 = memberships d" "app_users d1 = app_users d" by (simp_all add: d1_def update_invites_def)
  show thesis
  proof (rule that [OF i a(2) aa(1) _ _ _ roster])
    show "user \<in> set (app_users d')" using aa(2) by (simp add: d' d2 p3)
    show "same_but_claimed (si_email i) d d'"
      using aa(3) by (simp add: same_but_claimed_def seatCount_def m1 d2 d' p3)
    show "\<And>u. u \<in> set (app_users d) \<Longrightarrow> citext_eq (au_email u) (si_email i) \<Longrightarrow> seatCount d (au_id u) > 0 \<Longrightarrow>
       verified = Some (au_id u) \<and> au_id user = au_id u"
      using aa(5) by (simp add: seatCount_def m1)
    show "seat_of d' (au_id user) tid" using ss(3) by (simp add: seat_of_def d')
    show "properties d' = properties d" by (simp add: d' p3)
    show "staff_invites d' = update_where (spendable dbNow iid) (spend now) (staff_invites d)"
      by (simp add: d' p3 d1_def update_invites_def)
  qed
qed

end
