(* ===== verification/Team_Contracts.thy ===== *)
theory Team_Contracts
  imports Team_Rules
begin

text \<open>
  The theorems about people and their sessions: every answer of the identity service is a seat of the
  tables, registration and sign-in, the spending of an invite, the roster the owner's screen shows, and
  the refinement of the abstract roster by the operations.
\<close>

section \<open>Sessions\<close>

lemma issue_active:
  assumes "issue env d user preferred = Inr a"
  obtains active where "active \<in> set (membershipsOf d (au_id user))"
    "an_session a = toSession user active (membershipsOf d (au_id user))"
    "an_accessToken a = ae_signAccess env
       \<lparr>ap_sub = au_id user, ap_tenantId = md_tenantId active, ap_role = md_role active\<rparr>"
    "an_refreshToken a = ae_signRefresh env \<lparr>rp_sub = au_id user, rp_tenantId = Some (md_tenantId active)\<rparr>"
    "\<And>t. preferred = Some t \<Longrightarrow> \<exists>m \<in> set (membershipsOf d (au_id user)). md_tenantId m = t \<Longrightarrow> md_tenantId active = t"
proof -
  let ?ms = "membershipsOf d (au_id user)"
  obtain first rest where ms: "?ms = first # rest"
    using assms by (cases ?ms) (auto simp: issue_def issueFrom_def)
  define active where
    "active = (case select_one (\<lambda>m. Some (md_tenantId m) = preferred) ?ms of Some m \<Rightarrow> m | None \<Rightarrow> first)"
  have 1: "active \<in> set ?ms"
    using ms by (auto simp: active_def simp del: select_one_simps split: option.split dest: select_one_SomeD)
  have 2: "md_tenantId active = t" if "preferred = Some t" "\<exists>m \<in> set ?ms. md_tenantId m = t" for t
  proof -
    have "select_one (\<lambda>m. Some (md_tenantId m) = preferred) ?ms \<noteq> None" using that by auto
    then obtain m where "select_one (\<lambda>m. Some (md_tenantId m) = preferred) ?ms = Some m" by blast
    then show ?thesis using select_one_SomeD [of _ ?ms m] that(1) by (auto simp: active_def)
  qed
  show thesis
    using assms unfolding issue_def issueFrom_def ms list.case Let_def
    unfolding ms [symmetric] active_def [symmetric] by (intro that [OF 1 _ _ _ 2]) auto
qed

lemma issue_total:
  assumes "md \<in> set (membershipsOf d (au_id user))"
  shows "\<exists>a. issue env d user preferred = Inr a"
  using assms by (cases "membershipsOf d (au_id user)") (auto simp: issue_def issueFrom_def Let_def)

text \<open>One seat per workspace.\<close>

lemma membershipsOf_unique:
  assumes "users_ok d" "x \<in> set (membershipsOf d uid)" "y \<in> set (membershipsOf d uid)"
    "md_tenantId x = md_tenantId y"
  shows "x = y"
proof -
  obtain m t where x: "m \<in> set (memberships d)" "t \<in> set (tenants d)" "m_tenantId m = t_id t" "m_appUserId m = uid"
    "x = \<lparr>md_tenantId = m_tenantId m, md_tenantName = t_name t, md_role = m_role m\<rparr>"
    using assms(2) unfolding membershipsOf_set by blast
  obtain n s where y: "n \<in> set (memberships d)" "s \<in> set (tenants d)" "m_tenantId n = t_id s" "m_appUserId n = uid"
    "y = \<lparr>md_tenantId = m_tenantId n, md_tenantName = t_name s, md_role = m_role n\<rparr>"
    using assms(3) unfolding membershipsOf_set by blast
  have eq: "m_tenantId m = m_tenantId n" using assms(4) x(5) y(5) by simp
  then have "m = n"
    using assms(1) x(1,4) y(1,4) unfolding users_ok_def distinct_map by (metis (mono_tags, lifting) inj_onD)
  moreover have "t = s"
    using assms(1) x(2,3) y(2,3) eq unfolding users_ok_def distinct_map by (metis inj_onD)
  ultimately show ?thesis using x(5) y(5) by simp
qed

text \<open>What a minted session is good for.\<close>

definition session_good :: "auth_env \<Rightarrow> db \<Rightarrow> auth_answer \<Rightarrow> bool" where
  "session_good env d a \<longleftrightarrow>
     (\<exists>m \<in> set (memberships d). \<exists>u \<in> set (app_users d).
        canActivate env (Some (''Bearer '' @ an_accessToken a)) None =
          Inr (Some (User_principal (m_appUserId m) (m_tenantId m) (m_role m))) \<and>
        au_id u = m_appUserId m \<and> au_email u = sb_email (an_session a) \<and>
        me (m_appUserId m) (m_tenantId m) d = Inr (an_session a)) \<and>
     (\<exists>a'. refresh env (Some (an_refreshToken a)) d = Inr a' \<and> an_session a' = an_session a)"

lemma issue_good:
  assumes "auth_lawful env" "users_ok d" "user \<in> set (app_users d)" "issue env d user preferred = Inr a"
  shows "session_good env d a"
proof -
  obtain active where a: "active \<in> set (membershipsOf d (au_id user))"
    "an_session a = toSession user active (membershipsOf d (au_id user))"
    "an_accessToken a = ae_signAccess env
       \<lparr>ap_sub = au_id user, ap_tenantId = md_tenantId active, ap_role = md_role active\<rparr>"
    "an_refreshToken a = ae_signRefresh env \<lparr>rp_sub = au_id user, rp_tenantId = Some (md_tenantId active)\<rparr>"
    by (rule issue_active [OF assms(4)]) blast
  obtain m where m: "m \<in> set (memberships d)" "m_appUserId m = au_id user" "m_tenantId m = md_tenantId active"
    "m_role m = md_role active" using a(1) unfolding membershipsOf_set by auto
  have find: "find_user (\<lambda>u. au_id u = au_id user) d = Some user"
    using assms(2,3) unfolding find_user_def users_ok_def by (intro select_one_unique [where k = au_id]) auto
  have sel: "select_one (\<lambda>m. md_tenantId m = md_tenantId active) (membershipsOf d (au_id user)) = Some active"
  proof -
    obtain x where x: "select_one (\<lambda>m. md_tenantId m = md_tenantId active) (membershipsOf d (au_id user)) = Some x"
      using a(1) select_one_None_iff by (metis (mono_tags, lifting) option.exhaust)
    then have "x = active" using membershipsOf_unique [OF assms(2) _ a(1)] select_one_SomeD [OF x] by blast
    with x show ?thesis by simp
  qed
  have "me (au_id user) (md_tenantId active) d = Inr (an_session a)"
    using find sel by (simp add: me_def Let_def a(2) del: select_one_None_iff)
  moreover have "canActivate env (Some (''Bearer '' @ an_accessToken a)) None =
      Inr (Some (User_principal (m_appUserId m) (m_tenantId m) (m_role m)))"
    using assms(1) by (simp add: canActivate_def a(3) auth_lawful_def context_set_def m)
  moreover have "\<exists>a'. refresh env (Some (an_refreshToken a)) d = Inr a' \<and> an_session a' = an_session a"
  proof -
    obtain a' where a': "issue env d user (Some (md_tenantId active)) = Inr a'" using issue_total [OF a(1)] by blast
    obtain x where x: "x \<in> set (membershipsOf d (au_id user))"
      "an_session a' = toSession user x (membershipsOf d (au_id user))" "md_tenantId x = md_tenantId active"
      by (rule issue_active [OF a']) (use a(1) in blast)
    have "x = active" using membershipsOf_unique [OF assms(2) x(1) a(1) x(3)] .
    then show ?thesis
      using assms(1) find a' x(2) by (auto simp: refresh_def a auth_lawful_def)
  qed
  ultimately show ?thesis
    using m assms(3) unfolding session_good_def by (metis (no_types, lifting) a(2) session_body.select_convs(2) toSession_def)
qed

lemma find_userD: "find_user P d = Some u \<Longrightarrow> u \<in> set (app_users d) \<and> P u"
  by (auto simp: find_user_def dest!: select_one_SomeD)

lemma login_cases:
  assumes "login env r d = Inr a"
  obtains user where "user \<in> set (app_users d)" "citext_eq (au_email user) (lg_email r)"
    "ae_compare env (lg_password r) (au_passwordHash user)" "issue env d user None = Inr a"
  using assms by (auto simp: login_def dest!: find_userD split: option.splits if_splits)

lemma refresh_cases:
  assumes "refresh env tok d = Inr a"
  obtains user pl where "user \<in> set (app_users d)" "ae_verifyRefresh env (the tok) = Some pl" "au_id user = rp_sub pl"
    "issue env d user (rp_tenantId pl) = Inr a"
  using assms unfolding refresh_def by (auto dest!: find_userD split: option.splits if_split_asm)

lemma switchTenant_cases:
  assumes "switchTenant env uid tid d = Inr a"
  obtains user where "user \<in> set (app_users d)" "au_id user = uid" "issue env d user (Some tid) = Inr a"
    "\<exists>m \<in> set (membershipsOf d uid). md_tenantId m = tid"
  using assms unfolding switchTenant_def Let_def issue_def by (auto dest!: find_userD split: option.splits if_split_asm)

lemma register_cases:
  assumes "register env r d = Inr (a, d')"
  obtains d1 where
    "insert_app_user (new_user env (rr_email r) (ae_hash env (rr_password r)))
       (d\<lparr>tenants := tenants d @ [new_tenant env r]\<rparr>) = Inr d1"
    "insert_membership \<lparr>m_appUserId = ae_newUserId env, m_tenantId = ae_newTenantId env, m_role = Owner,
       m_createdAt = ae_now env\<rparr> d1 = Inr d'"
    "issue env d' (new_user env (rr_email r) (ae_hash env (rr_password r))) None = Inr a"
proof -
  have n: "find_user (\<lambda>u. citext_eq (au_email u) (rr_email r)) d = None"
    using assms by (auto simp: register_def split: option.splits)
  have "au_id (new_user env e h) = ae_newUserId env" for e h by (simp add: new_user_def)
  with assms that show thesis
    unfolding register_def n by (auto simp: register_tx_def Let_def bind_res_Inr_iff)
qed

text \<open>
  Claim C17. Every session the service mints is a seat of the tables: whatever registers, signs in,
  refreshes or switches workspace is answered with a token the guard turns back into a principal whose
  user holds exactly that role in exactly that workspace; the profile of that principal is the session
  itself, and its refresh token renews it. A switch lands in the workspace asked for.
\<close>

theorem sessions_are_seats:
  assumes "auth_lawful env" "accounts_ok d"
    "register env rq d0 = Inr (a, d) \<or> login env lq d = Inr a \<or> refresh env tok d = Inr a \<or>
     switchTenant env uid tid d = Inr a"
  shows "session_good env d a \<and> (switchTenant env uid tid d = Inr a \<longrightarrow> sb_tenantId (an_session a) = tid)"
proof -
  have "\<exists>user pref. user \<in> set (app_users d) \<and> issue env d user pref = Inr a"
    using assms(3)
  proof (elim disjE)
    assume "register env rq d0 = Inr (a, d)"
    then show ?thesis
      by (rule register_cases) (auto dest!: insert_app_user_cases insert_membership_cases)
  qed (blast elim: login_cases refresh_cases switchTenant_cases)+
  moreover have "sb_tenantId (an_session a) = tid" if sw: "switchTenant env uid tid d = Inr a"
  proof -
    obtain user where u: "issue env d user (Some tid) = Inr a"
      "\<exists>m \<in> set (membershipsOf d (au_id user)). md_tenantId m = tid"
      by (rule switchTenant_cases [OF sw]) blast
    show ?thesis by (rule issue_active [OF u(1)]) (use u(2) in \<open>auto simp: toSession_def\<close>)
  qed
  ultimately show ?thesis using issue_good assms(1,2) by blast
qed

section \<open>Registration and sign-in\<close>

text \<open>
  Registration refuses an address that is taken, however it is capitalised, and otherwise
  creates exactly one workspace, one account and one owner's seat, keeps the tables consistent, and the
  new account signs in with its password, under any capitalisation of its address, to the very session
  registration answered.
\<close>

theorem register_contract:
  assumes "auth_lawful env" "accounts_ok d" "fresh_ids env d"
  shows "(if \<exists>u \<in> set (app_users d). citext_eq (au_email u) (rr_email r)
     then register env r d = Inl (Conflict Email_taken)
     else \<exists>a d'. register env r d = Inr (a, d') \<and>
       d' = d\<lparr>tenants := tenants d @ [new_tenant env r],
              app_users := app_users d @ [new_user env (rr_email r) (ae_hash env (rr_password r))],
              memberships := memberships d @
                [\<lparr>m_appUserId = ae_newUserId env, m_tenantId = ae_newTenantId env, m_role = Owner,
                  m_createdAt = ae_now env\<rparr>]\<rparr> \<and>
       accounts_ok d' \<and>
       (\<forall>email. citext_eq email (rr_email r) \<longrightarrow>
          login env \<lparr>lg_email = email, lg_password = rr_password r\<rparr> d' = Inr a))"
proof (cases "\<exists>u \<in> set (app_users d). citext_eq (au_email u) (rr_email r)")
  case True
  then have "find_user (\<lambda>u. citext_eq (au_email u) (rr_email r)) d \<noteq> None" by (auto simp: find_user_def)
  then show ?thesis using True by (auto simp: register_def split: option.split)
next
  case False
  let ?u = "new_user env (rr_email r) (ae_hash env (rr_password r))"
  let ?m = "\<lparr>m_appUserId = ae_newUserId env, m_tenantId = ae_newTenantId env, m_role = Owner, m_createdAt = ae_now env\<rparr>"
  let ?d1 = "d\<lparr>tenants := tenants d @ [new_tenant env r], app_users := app_users d @ [?u]\<rparr>"
  let ?d' = "?d1\<lparr>memberships := memberships d @ [?m]\<rparr>"
  have u: "au_id ?u = ae_newUserId env" "au_email ?u = rr_email r" by (simp_all add: new_user_def)
  have "au_id x \<noteq> ae_newUserId env" if "x \<in> set (app_users d)" for x
    using assms(3) that unfolding fresh_ids_def by (metis image_eqI)
  then have "insert_app_user ?u (d\<lparr>tenants := tenants d @ [new_tenant env r]\<rparr>) = Inr ?d1"
    using False by (auto simp: insert_app_user_def u)
  moreover have nm: "m_appUserId m \<noteq> ae_newUserId env" if "m \<in> set (memberships d)" for m
    using accounts_okD(1) [OF assms(2)] assms(3) that by (force simp: users_ok_def fresh_ids_def)
  then have "insert_membership ?m ?d1 = Inr ?d'"
    by (auto simp: insert_membership_def membership_violation_def same_seat_def u new_tenant_def)
  ultimately have tx: "register_tx env r d = Inr (?u, ?d')" by (simp add: register_tx_def Let_def u)
  have "\<lparr>md_tenantId = ae_newTenantId env, md_tenantName = rr_tenantName r, md_role = Owner\<rparr> \<in> set (membershipsOf ?d' (au_id ?u))"
    unfolding membershipsOf_set u by (intro bexI [of _ ?m] bexI [of _ "new_tenant env r"]) (auto simp: new_tenant_def)
  then obtain a where a: "issue env ?d' ?u None = Inr a" using issue_total by blast
  have find: "find_user (\<lambda>u. citext_eq (au_email u) (rr_email r)) d = None" using False by (simp add: find_user_def)
  have reg: "register env r d = Inr (a, ?d')" unfolding register_def find by (simp add: tx a)
  have "login env \<lparr>lg_email = email, lg_password = rr_password r\<rparr> ?d' = Inr a" if "citext_eq email (rr_email r)" for email
  proof -
    have "\<not> citext_eq (au_email u) email" if "u \<in> set (app_users d)" for u
      using False that \<open>citext_eq email (rr_email r)\<close> citext_trans by blast
    then have "find_user (\<lambda>u. citext_eq (au_email u) email) ?d' = Some ?u"
      using citext_sym [OF that] by (auto simp: find_user_def select_one_append u split: option.split dest!: select_one_SomeD)
    then show ?thesis using assms(1) a by (simp add: login_def auth_lawful_def new_user_def)
  qed
  then show ?thesis using False reg register_ok [OF assms(2,3) reg] by auto
qed

section \<open>Invites\<close>

lemma accept_invite_cases:
  assumes "accounts_ok d" "distinct (map p_id (properties d))" "accept_invite env q d = (r, d')"
  shows "(\<exists>e. r = Inl e) \<and> d' = d \<or>
    (\<exists>v verified user tid.
      findByTokenHash (ve_collate env) d (ve_hashInviteToken env (aq_token q)) = Some v \<and>
      verified_user env (vw_email v) (aq_password q) d = Inr verified \<and>
      accept_repo (ve_auth env) (ve_now env) (ve_dbNow env) (vw_id v) (ae_hash (ve_auth env) (aq_password q))
        verified d = Inr (Some (user, tid), d') \<and>
      (\<exists>a. r = Inr a \<and> issue (ve_auth env) d' user (Some tid) = Inr a \<and> sb_tenantId (an_session a) = tid))"
proof (cases "\<exists>v verified user tid.
      findByTokenHash (ve_collate env) d (ve_hashInviteToken env (aq_token q)) = Some v \<and>
      verified_user env (vw_email v) (aq_password q) d = Inr verified \<and>
      accept_repo (ve_auth env) (ve_now env) (ve_dbNow env) (vw_id v) (ae_hash (ve_auth env) (aq_password q))
        verified d = Inr (Some (user, tid), d')")
  case False
  have none: "d'' = d" if "accept_repo e n b i h w d = Inr (None, d'')" for e n b i h w d''
    using that by (auto simp: accept_repo_def Let_def bind_res_Inr_iff split: option.splits)
  show ?thesis
    using assms(3) False none unfolding accept_invite_def intercept_def
    by (fastforce split: option.splits sum.splits prod.splits accept_failure.splits)
next
  case True
  then obtain v verified user tid where t:
    "findByTokenHash (ve_collate env) d (ve_hashInviteToken env (aq_token q)) = Some v"
    "verified_user env (vw_email v) (aq_password q) d = Inr verified"
    "accept_repo (ve_auth env) (ve_now env) (ve_dbNow env) (vw_id v) (ae_hash (ve_auth env) (aq_password q))
        verified d = Inr (Some (user, tid), d')" by blast
  have "users_ok d'" using accept_repo_ok [OF assms(1) t(3)] by auto
  moreover have "seat_of d' (au_id user) tid" by (rule accept_repo_cases [OF assms(1,2) t(3)]) blast
  ultimately obtain md where md: "md \<in> set (membershipsOf d' (au_id user))" "md_tenantId md = tid"
    unfolding membershipsOf_set seat_of_def users_ok_def by fastforce
  obtain a where a: "issue (ve_auth env) d' user (Some tid) = Inr a" using issue_total [OF md(1)] by blast
  have "sb_tenantId (an_session a) = tid"
    by (rule issue_active [OF a]) (use md in \<open>auto simp: toSession_def\<close>)
  moreover have "r = Inr a"
    using assms(3) t a by (simp add: accept_invite_def startSessionForVerifiedUser_def)
  ultimately show ?thesis using t a by blast
qed

text \<open>A spent invite is never spent again.\<close>

lemma spent_is_dead:
  assumes "invites_ok d" "i \<in> set (staff_invites d)" "si_acceptedAt i \<noteq> None"
    "ve_hashInviteToken env (aq_token q) = si_tokenHash i"
  shows "\<exists>e. accept_invite env q d = (Inl e, d)"
proof -
  have "accept_repo e n b (vw_id v) h w d = Inr (None, d)"
    if v: "findByTokenHash c d (si_tokenHash i) = Some v" for e n b v h w c
  proof -
    obtain j where j: "j \<in> set (staff_invites d)" "si_id j = vw_id v" "si_tokenHash j = si_tokenHash i"
      using findByTokenHash_SomeD [OF v] by blast
    then have "j = i" using assms(1,2) unfolding invites_ok_def distinct_map by (metis inj_onD)
    then have "\<not> spendable b (vw_id v) k" if "k \<in> set (staff_invites d)" for k
      using that assms(1-3) j unfolding invites_ok_def distinct_map spendable_def by (metis inj_onD)
    then have "select_one (spendable b (vw_id v)) (staff_invites d) = None" by simp
    then show ?thesis by (simp add: accept_repo_def del: select_one_None_iff)
  qed
  then show ?thesis
    using assms(4) by (auto simp: accept_invite_def split: option.split sum.split)
qed

text \<open>
  Claim C16. An invite is spent exactly once and gives exactly what it offered. Either acceptance
  changes nothing, or the token named a live invite; then the account of its address (proved by its
  password where any seat guards it, claimed or created otherwise, with no other account touched) holds
  a seat in the inviting workspace and the grants the invite listed, no more; the answer is a good session
  there; and every later attempt with the token, by anyone, is refused and changes nothing.
\<close>

theorem accept_contract:
  assumes "auth_lawful (ve_auth env)" "accounts_ok d" "distinct (map p_id (properties d))"
  shows "case accept_invite env q d of
     (Inl e, d') \<Rightarrow> d' = d
   | (Inr a, d') \<Rightarrow> (\<exists>i \<in> set (staff_invites d).
       si_tokenHash i = ve_hashInviteToken env (aq_token q) \<and> spendable (ve_dbNow env) (si_id i) i \<and>
       session_good (ve_auth env) d' a \<and> sb_tenantId (an_session a) = si_tenantId i \<and>
       citext_eq (sb_email (an_session a)) (si_email i) \<and>
       roster_of d' = on_roster
         (Joined (si_tenantId i) (sb_userId (an_session a)) (invited_ids d (si_id i))) (roster_of d) \<and>
       same_but_claimed (si_email i) d d' \<and>
       (\<forall>u \<in> set (app_users d). citext_eq (au_email u) (si_email i) \<longrightarrow> seatCount d (au_id u) > 0 \<longrightarrow>
          ae_compare (ve_auth env) (aq_password q) (au_passwordHash u)) \<and>
       (\<forall>env' q'. ve_hashInviteToken env' (aq_token q') = si_tokenHash i \<longrightarrow>
          (\<exists>e. accept_invite env' q' d' = (Inl e, d'))))"
proof -
  obtain r d' where run: "accept_invite env q d = (r, d')" by (cases "accept_invite env q d")
  from accept_invite_cases [OF assms(2,3) run] show ?thesis
  proof (elim disjE exE conjE)
    fix v verified user tid a
    assume t: "findByTokenHash (ve_collate env) d (ve_hashInviteToken env (aq_token q)) = Some v"
      "verified_user env (vw_email v) (aq_password q) d = Inr verified"
      "accept_repo (ve_auth env) (ve_now env) (ve_dbNow env) (vw_id v) (ae_hash (ve_auth env) (aq_password q))
        verified d = Inr (Some (user, tid), d')"
      "r = Inr a" "issue (ve_auth env) d' user (Some tid) = Inr a" "sb_tenantId (an_session a) = tid"
    obtain j where j: "j \<in> set (staff_invites d)" "si_id j = vw_id v" "si_email j = vw_email v"
      "si_tokenHash j = ve_hashInviteToken env (aq_token q)"
      using findByTokenHash_SomeD [OF t(1)] by blast
    obtain i where i: "i \<in> set (staff_invites d)" "spendable (ve_dbNow env) (vw_id v) i" "tid = si_tenantId i"
      "citext_eq (au_email user) (si_email i)" "user \<in> set (app_users d')" "same_but_claimed (si_email i) d d'"
      "\<And>u. u \<in> set (app_users d) \<Longrightarrow> citext_eq (au_email u) (si_email i) \<Longrightarrow> seatCount d (au_id u) > 0 \<Longrightarrow>
       verified = Some (au_id u) \<and> au_id user = au_id u"
      "roster_of d' = on_roster (Joined tid (au_id user) (invited_ids d (vw_id v))) (roster_of d)"
      "staff_invites d' = update_where (spendable (ve_dbNow env) (vw_id v)) (spend (ve_now env)) (staff_invites d)"
      by (rule accept_repo_cases [OF assms(2,3) t(3)]) blast
    have iv: "si_id i = vw_id v" using i(2) by (simp add: spendable_def)
    have ji: "j = i"
      using accounts_okD(3) [OF assms(2)] i(1) j(1,2) iv unfolding invites_ok_def distinct_map by (metis inj_onD)
    have ok': "accounts_ok d'" using assms(2) t(3) by (rule accept_repo_ok)
    have "session_good (ve_auth env) d' a" using issue_good [OF assms(1) _ i(5) t(5)] ok' by auto
    moreover have who: "sb_userId (an_session a) = au_id user \<and> sb_email (an_session a) = au_email user"
      by (rule issue_active [OF t(5)]) (auto simp: toSession_def)
    moreover have "ae_compare (ve_auth env) (aq_password q) (au_passwordHash u)"
      if "u \<in> set (app_users d)" "citext_eq (au_email u) (si_email i)" "seatCount d (au_id u) > 0" for u
    proof -
      have v: "verified = Some (au_id u)" using i(7) [OF that] by blast
      then obtain x where x: "findAccountByEmail d (vw_email v) = Some x" "au_id x = au_id u"
        "ae_compare (ve_auth env) (aq_password q) (au_passwordHash x)"
        using t(2) by (auto simp: verified_user_def split: accept_mode.splits option.splits if_splits)
      have "x \<in> set (app_users d)" using x(1) by (auto simp: findAccountByEmail_def dest: find_userD)
      then have "x = u"
        using accounts_okD(1) [OF assms(2)] that(1) x(2) unfolding users_ok_def distinct_map by (metis inj_onD)
      with x(3) show ?thesis by simp
    qed
    moreover have "\<exists>e. accept_invite env' q' d' = (Inl e, d')"
      if "ve_hashInviteToken env' (aq_token q') = si_tokenHash i" for env' q'
    proof (rule spent_is_dead [of d' "spend (ve_now env) i"])
      show "spend (ve_now env) i \<in> set (staff_invites d')" unfolding i(9) using i(1,2) by (rule update_where_hit)
    qed (use ok' that in \<open>auto simp: spend_def\<close>)
    ultimately show ?thesis
      using i j t iv ji unfolding run t(4) by (auto intro!: bexI [of _ i])
  qed (simp add: run)
qed

section \<open>The owner's screen\<close>

lemma left_join_set:
  "set (left_join R bs as) =
     {(a, Some b) | a b. a \<in> set as \<and> b \<in> set bs \<and> R a b} \<union>
     {(a, None) | a. a \<in> set as \<and> (\<forall>b \<in> set bs. \<not> R a b)}"
proof -
  have "set (case filter (R a) bs of [] \<Rightarrow> [(a, None)] | ms \<Rightarrow> map (\<lambda>b. (a, Some b)) ms) =
      {(a, Some b) | b. b \<in> set bs \<and> R a b} \<union> (if \<forall>b \<in> set bs. \<not> R a b then {(a, None)} else {})" for a
  proof (cases "filter (R a) bs")
    case Nil
    then show ?thesis by (auto simp: filter_empty_conv)
  next
    case (Cons x xs)
    have "x \<in> set (filter (R a) bs)" unfolding Cons by simp
    moreover have "set (map (\<lambda>b. (a, Some b)) (filter (R a) bs)) = {(a, Some b) | b. b \<in> set bs \<and> R a b}" by auto
    ultimately show ?thesis unfolding Cons by auto
  qed
  then show ?thesis unfolding left_join_def by (auto split: if_split_asm)
qed

text \<open>Grouping: one entry per id, holding the properties of all its rows.\<close>

definition shown :: "assigned_property option \<Rightarrow> assigned_property set" where
  "shown p = (case p of None \<Rightarrow> {} | Some a \<Rightarrow> if as_id a = [] \<or> as_name a = [] then {} else {a})"

lemma add_property_simps [simp]:
  "st_id (add_property p e) = st_id e"
  "set (st_properties (add_property p e)) = set (st_properties e) \<union> shown p"
  by (auto simp: add_property_def shown_def split: option.split)

lemma group_into_spec:
  fixes acc :: "'x staff_row_scheme list"
  assumes "distinct (map st_id acc)" "\<forall>(e, p) \<in> set rows. st_properties e = []"
  shows "distinct (map st_id (group_into acc rows)) \<and>
    set (map st_id (group_into acc rows)) = set (map st_id acc) \<union> st_id ` fst ` set rows \<and>
    (\<forall>r \<in> set (group_into acc rows). set (st_properties r) =
       (\<Union>x \<in> {x \<in> set acc. st_id x = st_id r}. set (st_properties x)) \<union>
       (\<Union>(e, p) \<in> {x \<in> set rows. st_id (fst x) = st_id r}. shown p))"
  using assms
proof (induction acc rows rule: group_into.induct)
  case (1 acc)
  then show ?case by (auto simp: distinct_map inj_on_def)
next
  case (2 acc e p rows)
  let ?hit = "\<exists>x \<in> set acc. st_id x = st_id e"
  let ?acc = "if ?hit then update_where (\<lambda>x. st_id x = st_id e) (add_property p) acc else acc @ [add_property p e]"
  have same: "map st_id (update_where (\<lambda>x. st_id x = st_id e) (add_property p) acc) = map st_id acc"
    by (rule map_update_where) simp
  then have dist: "distinct (map st_id ?acc)" using 2(2) by auto
  have ids: "set (map st_id ?acc) = insert (st_id e) (set (map st_id acc))"
  proof (cases ?hit)
    case True
    then have "st_id e \<in> set (map st_id acc)" by (metis image_eqI list.set_map)
    then show ?thesis using True same by (simp add: insert_absorb)
  qed auto
  have props: "(\<Union>x \<in> {x \<in> set ?acc. st_id x = n}. set (st_properties x)) =
      (\<Union>x \<in> {x \<in> set acc. st_id x = n}. set (st_properties x)) \<union> (if st_id e = n then shown p else {})" for n
    using 2(3) by (auto simp: set_update_where)
  have "distinct (map st_id (group_into ?acc rows)) \<and>
    set (map st_id (group_into ?acc rows)) = set (map st_id ?acc) \<union> st_id ` fst ` set rows \<and>
    (\<forall>r \<in> set (group_into ?acc rows). set (st_properties r) =
       (\<Union>x \<in> {x \<in> set ?acc. st_id x = st_id r}. set (st_properties x)) \<union>
       (\<Union>(e, p) \<in> {x \<in> set rows. st_id (fst x) = st_id r}. shown p))"
    using 2(3) by (intro 2(1)) (auto simp: dist)
  then show ?case unfolding props ids by auto
qed

text \<open>The rows the query answers, before grouping: each staff member with each granted property.\<close>

definition member_row :: "app_user_row \<Rightarrow> staff_row" where
  "member_row u = \<lparr>st_id = au_id u, st_email = au_email u, st_createdAt = au_createdAt u, st_properties = []\<rparr>"

definition staff_rows :: "db \<Rightarrow> uuid \<Rightarrow> (staff_row \<times> assigned_property option) set" where
  "staff_rows d tid =
     {(member_row u, p) | u p. u \<in> set (app_users d) \<and> role_of d tid (au_id u) = Some Staff \<and>
        (case p of None \<Rightarrow> grants_of d tid (au_id u) = {}
         | Some a \<Rightarrow> \<exists>q \<in> set (properties d). p_id q \<in> grants_of d tid (au_id u) \<and>
             a = \<lparr>as_id = p_id q, as_name = p_name q\<rparr>)}"

lemma listStaff_rows:
  assumes "accounts_ok d" "distinct (map p_id (properties d))"
  obtains raw where "listStaff collate d (session_of (User_principal o1 tid Owner)) = group raw"
    "set raw = staff_rows d tid"
proof -
  let ?s = "session_of (User_principal o1 tid Owner)"
  define members where "members = filter (\<lambda>(u, m). rls_app_user d ?s u \<and> rls_membership ?s m \<and>
      m_appUserId m = au_id u \<and> m_tenantId m = s_tenantId ?s \<and> m_role m = Staff)
    (List.product (app_users d) (memberships d))"
  define granted where "granted = left_join (\<lambda>(u, m) x. rls_user_property ?s x \<and> up_appUserId x = au_id u \<and>
      up_tenantId x = s_tenantId ?s) (user_properties d) members"
  define named where "named = left_join (\<lambda>(um, x) p. rls_property d ?s p \<and> Some (p_id p) = map_option up_propertyId x)
      (properties d) granted"
  define f where "f = (\<lambda>(((u, m :: membership_row), x :: user_property_row option), p). (member_row u, assigned p))"
  have m: "(u, m) \<in> set members \<longleftrightarrow> u \<in> set (app_users d) \<and> m \<in> set (memberships d) \<and> m_appUserId m = au_id u \<and>
      m_tenantId m = tid \<and> m_role m = Staff" for u m
    by (auto simp: members_def rls_app_user_def rls_membership_def)
  have role: "(\<exists>m. (u, m) \<in> set members) \<longleftrightarrow> u \<in> set (app_users d) \<and> role_of d tid (au_id u) = Some Staff" for u
    unfolding m role_of_iff [OF accounts_okD(1) [OF assms(1)]] by auto
  have g1: "((u, m), None) \<in> set granted \<longleftrightarrow> (u, m) \<in> set members \<and> grants_of d tid (au_id u) = {}" for u m
    by (auto simp: granted_def left_join_set rls_user_property_def grants_of_def filter_empty_conv)
  have g2: "((u, m), Some x) \<in> set granted \<longleftrightarrow> (u, m) \<in> set members \<and> x \<in> set (user_properties d) \<and>
      up_appUserId x = au_id u \<and> up_tenantId x = tid" for u m x
    by (auto simp: granted_def left_join_set rls_user_property_def)
  have n1: "(((u, m), x), Some p) \<in> set named \<longleftrightarrow> ((u, m), x) \<in> set granted \<and> p \<in> set (properties d) \<and>
      p_tenantId p = tid \<and> Some (p_id p) = map_option up_propertyId x" for u m x p
    by (auto simp: named_def left_join_set rls_property_def)
  have n2: "(((u, m), x), None) \<in> set named \<longleftrightarrow> ((u, m), x) \<in> set granted \<and>
      (\<forall>p \<in> set (properties d). \<not> (p_tenantId p = tid \<and> Some (p_id p) = map_option up_propertyId x))" for u m x
    by (auto simp: named_def left_join_set rls_property_def)
  have owned: "\<exists>p \<in> set (properties d). p_tenantId p = tid \<and> p_id p = up_propertyId x"
    if "x \<in> set (user_properties d)" "up_tenantId x = tid" for x
    using accounts_okD(2) [OF assms(1)] that by (auto simp: grants_ok_def owns_property_def)
  have only: "p_tenantId p = tid" if "p \<in> set (properties d)" "p_id p = up_propertyId x"
    "x \<in> set (user_properties d)" "up_tenantId x = tid" for p x
    using owned [OF that(3,4)] assms(2) that(1,2) unfolding distinct_map by (metis inj_onD)
  have "f ` set named = staff_rows d tid"
  proof (intro equalityI subsetI)
    fix y assume "y \<in> f ` set named"
    then obtain u m x p where y: "(((u, m), x), p) \<in> set named" "y = (member_row u, assigned p)"
      by (auto simp: f_def)
    show "y \<in> staff_rows d tid"
    proof (cases p)
      case None
      then have "x = None" using y(1) owned unfolding None n2 by (cases x) (auto simp: g2)
      then show ?thesis using y None role by (auto simp: n2 g1 staff_rows_def assigned_def)
    next
      case (Some q)
      then obtain z where z: "x = Some z" using y(1) by (cases x) (auto simp: n1)
      have "(u, m) \<in> set members" "q \<in> set (properties d)" "p_id q \<in> grants_of d tid (au_id u)"
        using y(1) unfolding Some z n1 g2 by (auto simp: grants_of_iff)
      moreover have "y = (member_row u, Some \<lparr>as_id = p_id q, as_name = p_name q\<rparr>)"
        using y(2) Some by (simp add: assigned_def)
      ultimately show ?thesis using role unfolding staff_rows_def by auto
    qed
  next
    fix y assume "y \<in> staff_rows d tid"
    then obtain u p where y: "y = (member_row u, p)" "u \<in> set (app_users d)" "role_of d tid (au_id u) = Some Staff"
      "case p of None \<Rightarrow> grants_of d tid (au_id u) = {}
         | Some a \<Rightarrow> \<exists>q \<in> set (properties d). p_id q \<in> grants_of d tid (au_id u) \<and>
             a = \<lparr>as_id = p_id q, as_name = p_name q\<rparr>" unfolding staff_rows_def by blast
    obtain m where um: "(u, m) \<in> set members" using role y(2,3) by blast
    show "y \<in> f ` set named"
    proof (cases p)
      case None
      then have "(((u, m), None), None) \<in> set named" using um y(4) by (auto simp: n2 g1)
      then show ?thesis using y(1) None by (force simp: f_def assigned_def)
    next
      case (Some a)
      then obtain q x where q: "q \<in> set (properties d)" "p = Some \<lparr>as_id = p_id q, as_name = p_name q\<rparr>"
        "x \<in> set (user_properties d)" "up_appUserId x = au_id u" "up_tenantId x = tid" "up_propertyId x = p_id q"
        using y(4) by (auto simp: grants_of_iff)
      then have "(((u, m), Some x), Some q) \<in> set named" using um only [of q x] by (auto simp: n1 g2)
      then show ?thesis using y(1) q(2) by (force simp: f_def assigned_def)
    qed
  qed
  moreover have "listStaff collate d ?s = group (map f (sort_key (\<lambda>(((u, m), x), p). (to_lower (au_email u), name_key collate p)) named))"
    unfolding listStaff_def Let_def named_def granted_def members_def f_def member_row_def ..
  ultimately show thesis using that by simp
qed

text \<open>
  Claim C23. The owner's screen is the roster: it has one row for each staff member of the workspace and
  for nobody else, and the row lists exactly the properties the member was given (whose ids and names the
  contract keeps non-empty), whatever the database's collation.
\<close>

theorem screen_is_roster:
  assumes "accounts_ok d" "distinct (map p_id (properties d))"
    "\<forall>p \<in> set (properties d). p_id p \<noteq> [] \<and> p_name p \<noteq> []"
  shows "\<exists>rows. list_staff collate (Some (User_principal o1 tid Owner)) d = Inr rows \<and>
    distinct (map st_id rows) \<and>
    (\<lambda>r. (st_id r, set (map as_id (st_properties r)))) ` set rows =
      {(uid, S). roster_of d tid uid = (Some Staff, S)}"
proof -
  obtain raw where raw: "listStaff collate d (session_of (User_principal o1 tid Owner)) = group raw"
    "set raw = staff_rows d tid" using listStaff_rows [OF assms(1,2)] .
  note uok = accounts_okD(1) [OF assms(1)]
  have spec: "distinct (map st_id (group raw))" "set (map st_id (group raw)) = st_id ` fst ` set raw"
    "\<And>r. r \<in> set (group raw) \<Longrightarrow>
       set (st_properties r) = (\<Union>(e, p) \<in> {x \<in> set raw. st_id (fst x) = st_id r}. shown p)"
  proof -
    have "\<forall>(e, p) \<in> set raw. st_properties e = []" unfolding raw(2) by (auto simp: staff_rows_def member_row_def)
    note g = group_into_spec [of "[]" raw, OF _ this, folded group_def]
    show "distinct (map st_id (group raw))" "set (map st_id (group raw)) = st_id ` fst ` set raw" using g by auto
    show "set (st_properties r) = (\<Union>(e, p) \<in> {x \<in> set raw. st_id (fst x) = st_id r}. shown p)"
      if "r \<in> set (group raw)" for r using g that by simp
  qed
  have user: "\<exists>u \<in> set (app_users d). au_id u = uid" if "role_of d tid uid = Some Staff" for uid
    using that uok unfolding role_of_iff [OF uok] by (auto simp: users_ok_def)
  have known: "\<exists>q \<in> set (properties d). p_id q = pid" if "pid \<in> grants_of d tid uid" for pid uid
    using that accounts_okD(2) [OF assms(1)] by (auto simp: grants_of_iff grants_ok_def owns_property_def)
  have row: "(member_row u, None) \<in> set raw \<longleftrightarrow> grants_of d tid (au_id u) = {}"
    "(member_row u, Some a) \<in> set raw \<longleftrightarrow>
       (\<exists>q \<in> set (properties d). p_id q \<in> grants_of d tid (au_id u) \<and> a = \<lparr>as_id = p_id q, as_name = p_name q\<rparr>)"
    if "u \<in> set (app_users d)" "role_of d tid (au_id u) = Some Staff" for u a
    using that unfolding raw(2) staff_rows_def by (fastforce simp: member_row_def)+
  have member: "\<exists>u \<in> set (app_users d). e = member_row u \<and> role_of d tid (au_id u) = Some Staff"
    if "(e, p) \<in> set raw" for e p
    using that unfolding raw(2) staff_rows_def by auto
  have ids: "uid \<in> st_id ` fst ` set raw \<longleftrightarrow> role_of d tid uid = Some Staff" for uid
  proof
    assume "uid \<in> st_id ` fst ` set raw"
    then show "role_of d tid uid = Some Staff" by (auto dest!: member simp: member_row_def)
  next
    assume r: "role_of d tid uid = Some Staff"
    then obtain u where u: "u \<in> set (app_users d)" "au_id u = uid" using user by blast
    have "\<exists>p. (member_row u, p) \<in> set raw"
      using row [OF u(1)] r u(2) known [of _ uid] by (metis ex_in_conv)
    then show "uid \<in> st_id ` fst ` set raw" using u(2) by (force simp: member_row_def)
  qed
  have props: "as_id ` set (st_properties r) = grants_of d tid (st_id r)" if r: "r \<in> set (group raw)" for r
  proof -
    have role: "role_of d tid (st_id r) = Some Staff" using r spec(2) ids by (metis image_eqI list.set_map)
    then obtain u where u: "u \<in> set (app_users d)" "au_id u = st_id r" using user by blast
    have "a \<in> set (st_properties r) \<longleftrightarrow>
        (\<exists>q \<in> set (properties d). p_id q \<in> grants_of d tid (st_id r) \<and> a = \<lparr>as_id = p_id q, as_name = p_name q\<rparr>)" for a
    proof
      assume "a \<in> set (st_properties r)"
      then obtain e where e: "(e, Some a) \<in> set raw" "st_id e = st_id r"
        unfolding spec(3) [OF r] by (auto simp: shown_def split: option.splits if_splits)
      from member [OF e(1)] obtain v where v: "v \<in> set (app_users d)" "e = member_row v"
        "role_of d tid (au_id v) = Some Staff" by blast
      then show "\<exists>q \<in> set (properties d). p_id q \<in> grants_of d tid (st_id r) \<and> a = \<lparr>as_id = p_id q, as_name = p_name q\<rparr>"
        using row(2) [OF v(1,3), of a] e by (simp add: member_row_def)
    next
      assume q: "\<exists>q \<in> set (properties d). p_id q \<in> grants_of d tid (st_id r) \<and> a = \<lparr>as_id = p_id q, as_name = p_name q\<rparr>"
      then have "(member_row u, Some a) \<in> set raw" using row(2) [OF u(1)] role u(2) by simp
      moreover have "shown (Some a) = {a}" using q assms(3) by (auto simp: shown_def)
      ultimately show "a \<in> set (st_properties r)" unfolding spec(3) [OF r] using u(2) by (force simp: member_row_def)
    qed
    then have "as_id ` set (st_properties r) = {pid \<in> grants_of d tid (st_id r). \<exists>q \<in> set (properties d). p_id q = pid}"
      by (force simp: image_iff)
    then show ?thesis using known by blast
  qed
  have "(\<lambda>r. (st_id r, set (map as_id (st_properties r)))) ` set (group raw) =
      {(uid, S). roster_of d tid uid = (Some Staff, S)}"
  proof -
    have "(uid, S) \<in> (\<lambda>r. (st_id r, set (map as_id (st_properties r)))) ` set (group raw) \<longleftrightarrow>
        uid \<in> set (map st_id (group raw)) \<and> S = grants_of d tid uid" for uid S
      using props by (auto simp: image_iff)
    note pairs = this [unfolded spec(2) ids]
    show ?thesis
      unfolding set_eq_iff split_paired_All
      by (simp only: pairs mem_Collect_eq prod.case roster_of_def prod.inject) auto
  qed
  then show ?thesis using spec(1) by (simp add: list_staff_def raw(1))
qed

end
