(* ===== verification/Slug.thy ===== *)
theory Slug
  imports Prelude
begin

text \<open>
  The public address of a property, \<^verbatim>\<open>packages/shared/src/slug.ts\<close>: the shape every slug has, the base
  derived from the name and the candidates of one create. Unicode decomposition is a parameter
  (\<open>nfkd\<close>, on UTF-8 octets) and so are the random draws (\<open>rnd k\<close>, the \<open>k\<close>th
  \<^verbatim>\<open>Math.floor(Math.random() * 28)\<close>).
\<close>

definition MAX_BASE_LENGTH :: nat where "MAX_BASE_LENGTH = 60"

definition TOKEN_ALPHABET :: string where "TOKEN_ALPHABET = ''23456789bcdfghjkmnpqrstvwxyz''"

definition TOKEN_LENGTH :: nat where "TOKEN_LENGTH = 5"

text \<open>\<^verbatim>\<open>[a-z0-9]\<close>, and the pattern \<^verbatim>\<open>^[a-z0-9]+(-[a-z0-9]+)*$\<close> as the automaton it is: \<open>fresh\<close> at the start
  of a run.\<close>

definition slug_char :: "char \<Rightarrow> bool" where
  "slug_char c \<longleftrightarrow> CHR ''a'' \<le> c \<and> c \<le> CHR ''z'' \<or> is_digit c"

fun slug_run :: "bool \<Rightarrow> string \<Rightarrow> bool" where
  "slug_run fresh [] = (\<not> fresh)"
| "slug_run fresh (c # cs) =
     (if slug_char c then slug_run False cs
      else if c = CHR ''-'' \<and> \<not> fresh then slug_run True cs else False)"

definition SLUG_PATTERN :: "string \<Rightarrow> bool" where
  "SLUG_PATTERN s = slug_run True s"

definition randomToken :: "(nat \<Rightarrow> nat) \<Rightarrow> nat \<Rightarrow> string" where
  "randomToken rnd k = map (\<lambda>i. TOKEN_ALPHABET ! rnd (k + i)) [0..<TOKEN_LENGTH]"

text \<open>The combining marks U+0300 to U+036F are the octet pairs CC 80 to CC BF and CD 80 to CD AF.\<close>

fun strip_marks :: "string \<Rightarrow> string" where
  "strip_marks (a # b # cs) =
     (if a = CHR 0xCC \<and> CHR 0x80 \<le> b \<and> b \<le> CHR 0xBF \<or> a = CHR 0xCD \<and> CHR 0x80 \<le> b \<and> b \<le> CHR 0xAF
      then strip_marks cs else a # strip_marks (b # cs))"
| "strip_marks cs = cs"

text \<open>\<^verbatim>\<open>.replace(/[^a-z0-9]+/g, "-")\<close>: each maximal run of other characters becomes one dash.\<close>

fun dash_runs :: "bool \<Rightarrow> string \<Rightarrow> string" where
  "dash_runs inside [] = []"
| "dash_runs inside (c # cs) =
     (if slug_char c then c # dash_runs False cs
      else if inside then dash_runs True cs else CHR ''-'' # dash_runs True cs)"

definition strip_left :: "string \<Rightarrow> string" where
  "strip_left s = dropWhile (\<lambda>c. c = CHR ''-'') s"

definition strip_right :: "string \<Rightarrow> string" where
  "strip_right s = rev (strip_left (rev s))"

definition slug_base :: "(string \<Rightarrow> string) \<Rightarrow> string \<Rightarrow> string" where
  "slug_base nfkd name =
     strip_right (take MAX_BASE_LENGTH (strip_right (strip_left
       (dash_runs False (to_lower (strip_marks (nfkd name)))))))"

definition slugifyName :: "(string \<Rightarrow> string) \<Rightarrow> (nat \<Rightarrow> nat) \<Rightarrow> string \<Rightarrow> string" where
  "slugifyName nfkd rnd name =
     (let base = slug_base nfkd name in if length base > 0 then base else ''property-'' @ randomToken rnd 0)"

text \<open>The generator, in order; the draws of the fallback base come first.\<close>

definition slugCandidates :: "(string \<Rightarrow> string) \<Rightarrow> (nat \<Rightarrow> nat) \<Rightarrow> string \<Rightarrow> string list" where
  "slugCandidates nfkd rnd name =
     (let base = slugifyName nfkd rnd name;
          used = (if length (slug_base nfkd name) > 0 then 0 else TOKEN_LENGTH)
      in base # map (\<lambda>i. base @ ''-'' @ randomToken rnd (used + i * TOKEN_LENGTH)) [0..<4])"

section \<open>Every candidate has the shape of a slug\<close>

lemma slug_run_append:
  "slug_run f s \<Longrightarrow> slug_run False t \<Longrightarrow> slug_run f (s @ t)"
proof (induction f s rule: slug_run.induct)
  case (1 f)
  then show ?case by simp
qed (auto split: if_splits)

lemma slug_run_chars: "list_all slug_char s \<Longrightarrow> s \<noteq> [] \<or> \<not> f \<Longrightarrow> slug_run f s"
  by (induction s arbitrary: f) auto

lemma alphabet_chars: "list_all slug_char TOKEN_ALPHABET \<and> length TOKEN_ALPHABET = 28"
  by code_simp

lemma randomToken_chars:
  assumes "\<forall>k. rnd k < 28"
  shows "list_all slug_char (randomToken rnd k)" "length (randomToken rnd k) = 5"
proof -
  have "slug_char (TOKEN_ALPHABET ! rnd i)" for i
    using alphabet_chars assms by (auto simp: list_all_length)
  then show "list_all slug_char (randomToken rnd k)" by (simp add: randomToken_def list_all_iff)
qed (simp add: randomToken_def TOKEN_LENGTH_def)

lemma randomToken_nonempty [simp]: "randomToken rnd k \<noteq> []"
  by (simp add: randomToken_def TOKEN_LENGTH_def)

text \<open>A text of slug characters and single dashes that neither starts nor ends with a dash.\<close>

fun dashed :: "bool \<Rightarrow> string \<Rightarrow> bool" where
  "dashed after [] = True"
| "dashed after (c # cs) =
     (if slug_char c then dashed False cs else c = CHR ''-'' \<and> \<not> after \<and> dashed True cs)"

lemma dash_not_slug [simp]: "\<not> slug_char CHR ''-''"
  by code_simp

lemma dash_runs_dashed: "dashed b (dash_runs b s)"
  by (induction b s rule: dash_runs.induct) auto

lemma dashed_weaken: "dashed True s \<Longrightarrow> dashed False s"
  by (cases s) (auto split: if_splits)

lemma dashed_strip_left: "dashed b s \<Longrightarrow> dashed True (strip_left s)"
proof (induction b s rule: dashed.induct)
  case (2 b c cs)
  then show ?case by (cases "c = CHR ''-''") (auto simp: strip_left_def split: if_splits)
qed (simp add: strip_left_def)

lemma dashed_prefix: "dashed b (s @ t) \<Longrightarrow> dashed b s"
  by (induction b s rule: dashed.induct) (auto split: if_splits)

lemma strip_right_prefix: "\<exists>t. s = strip_right s @ t"
proof -
  have "rev s = takeWhile (\<lambda>c. c = CHR ''-'') (rev s) @ strip_left (rev s)" by (simp add: strip_left_def)
  then have "s = rev (strip_left (rev s)) @ rev (takeWhile (\<lambda>c. c = CHR ''-'') (rev s))"
    by (metis rev_append rev_rev_ident)
  then show ?thesis unfolding strip_right_def by blast
qed

lemma strip_right_last: "strip_right s \<noteq> [] \<Longrightarrow> last (strip_right s) \<noteq> CHR ''-''"
  using hd_dropWhile [of "\<lambda>c. c = CHR ''-''" "rev s"]
  by (auto simp: strip_right_def strip_left_def last_rev simp del: dropWhile_eq_Nil_conv)

lemma dashed_slug: "dashed b s \<Longrightarrow> s \<noteq> [] \<Longrightarrow> last s \<noteq> CHR ''-'' \<Longrightarrow> slug_run b s"
proof (induction b s rule: dashed.induct)
  case (2 b c cs)
  show ?case
  proof (cases "cs = []")
    case True
    then show ?thesis using 2(3,5) by (auto split: if_splits)
  next
    case False
    then have l: "last cs \<noteq> CHR ''-''" using 2(5) by simp
    show ?thesis
    proof (cases "slug_char c")
      case True
      then show ?thesis using 2(1) 2(3) False l by simp
    next
      case nc: False
      then have "c = CHR ''-''" "\<not> b" "dashed True cs" using 2(3) by simp_all
      then show ?thesis using 2(2) nc False l by simp
    qed
  qed
qed simp

lemma slug_base_ok:
  assumes "slug_base nfkd name \<noteq> []"
  shows "SLUG_PATTERN (slug_base nfkd name)"
proof -
  let ?s = "strip_left (dash_runs False (to_lower (strip_marks (nfkd name))))"
  have 1: "dashed True ?s" using dash_runs_dashed by (rule dashed_strip_left)
  obtain t where "?s = strip_right ?s @ t" using strip_right_prefix by blast
  with 1 have 2: "dashed True (strip_right ?s)" by (metis dashed_prefix)
  have 3: "dashed True (take MAX_BASE_LENGTH (strip_right ?s))"
    using 2 by (metis append_take_drop_id dashed_prefix)
  obtain u where "take MAX_BASE_LENGTH (strip_right ?s) = strip_right (take MAX_BASE_LENGTH (strip_right ?s)) @ u"
    using strip_right_prefix by blast
  with 3 have "dashed True (slug_base nfkd name)" unfolding slug_base_def by (metis dashed_prefix)
  then show ?thesis
    using assms strip_right_last unfolding SLUG_PATTERN_def slug_base_def by (intro dashed_slug) auto
qed

lemma slug_base_length: "length (slug_base nfkd name) \<le> MAX_BASE_LENGTH"
proof -
  have "length (strip_right s) \<le> length s" for s
    using strip_right_prefix [of s] by (metis length_append le_add1)
  then show ?thesis unfolding slug_base_def by (metis (no_types, lifting) length_take min.cobounded2 order_trans)
qed

lemma slugifyName_ok:
  assumes "\<forall>k. rnd k < 28"
  shows "SLUG_PATTERN (slugifyName nfkd rnd name)" "length (slugifyName nfkd rnd name) \<le> MAX_BASE_LENGTH"
proof -
  have "slug_run True (''property-'' @ randomToken rnd 0)"
  proof -
    have "slug_run False (randomToken rnd 0) \<and> slug_run True (randomToken rnd 0)"
      using randomToken_chars [OF assms] by (auto intro!: slug_run_chars)
    then show ?thesis by (simp add: slug_char_def is_digit_def)
  qed
  then have fallback: "SLUG_PATTERN (''property-'' @ randomToken rnd 0)" by (simp only: SLUG_PATTERN_def)
  show "SLUG_PATTERN (slugifyName nfkd rnd name)"
  proof (cases "slug_base nfkd name = []")
    case True
    then show ?thesis using fallback by (simp only: slugifyName_def Let_def list.size simp_thms if_False less_irrefl)
  next
    case False
    then show ?thesis using slug_base_ok by (simp add: slugifyName_def)
  qed
  show "length (slugifyName nfkd rnd name) \<le> MAX_BASE_LENGTH"
    using slug_base_length randomToken_chars(2) [OF assms] by (auto simp: slugifyName_def Let_def MAX_BASE_LENGTH_def)
qed

lemma slugCandidates_ok:
  assumes "\<forall>k. rnd k < 28" "s \<in> set (slugCandidates nfkd rnd name)"
  shows "SLUG_PATTERN s \<and> length s \<le> MAX_BASE_LENGTH + 6"
proof -
  let ?b = "slugifyName nfkd rnd name"
  have "slug_run True (?b @ CHR ''-'' # randomToken rnd k) \<and> length (?b @ CHR ''-'' # randomToken rnd k) \<le> MAX_BASE_LENGTH + 6" for k
  proof -
    have "slug_run True (randomToken rnd k)"
      using randomToken_chars [OF assms(1)] by (auto intro!: slug_run_chars)
    then have "slug_run False (CHR ''-'' # randomToken rnd k)" by simp
    then show ?thesis
      using slugifyName_ok [OF assms(1), of nfkd name] randomToken_chars(2) [OF assms(1), of k] slug_run_append
      unfolding SLUG_PATTERN_def by fastforce
  qed
  then show ?thesis
    using assms(2) slugifyName_ok [OF assms(1)] unfolding slugCandidates_def Let_def SLUG_PATTERN_def
    by (auto simp: le_SucI trans_le_add1)
qed

lemma slugCandidates_five: "length (slugCandidates nfkd rnd name) = 5"
  by (simp add: slugCandidates_def Let_def)

end
