(* ===== verification/Photo_Storage.thy ===== *)
theory Photo_Storage
  imports Prelude
begin

text \<open>
  Photo bytes in S3-compatible storage: \<^verbatim>\<open>storage.service.ts\<close> and the contract \<^verbatim>\<open>photo.ts\<close>. The object
  store is third-party: its state is any type \<open>'st\<close>, its three requests (ranged GET, one page of a
  listing, one batch delete) are the parameter \<open>object_api\<close>, and what its documentation promises is the
  hypothesis \<open>store_lawful\<close>.
\<close>

section \<open>The contract of an upload\<close>

datatype photo_type = Image_jpeg | Image_png | Image_webp

fun content_type :: "photo_type \<Rightarrow> string" where
  "content_type Image_jpeg = ''image/jpeg''"
| "content_type Image_png = ''image/png''"
| "content_type Image_webp = ''image/webp''"

fun PHOTO_EXTENSIONS :: "photo_type \<Rightarrow> string" where
  "PHOTO_EXTENSIONS Image_jpeg = ''jpg''"
| "PHOTO_EXTENSIONS Image_png = ''png''"
| "PHOTO_EXTENSIONS Image_webp = ''webp''"

definition MAX_PHOTO_SIZE_BYTES :: int where "MAX_PHOTO_SIZE_BYTES = 5 * 1024 * 1024"

definition PHOTO_GALLERY_CEILING :: nat where "PHOTO_GALLERY_CEILING = 100"

definition DEFAULT_GALLERY_CAP :: int where "DEFAULT_GALLERY_CAP = 30"

text \<open>\<^verbatim>\<open>presignPhotoRequestSchema\<close> and \<^verbatim>\<open>updatePhotosRequestSchema\<close>.\<close>

definition presign_request_ok :: "int \<Rightarrow> bool" where
  "presign_request_ok bytes \<longleftrightarrow> 0 < bytes \<and> bytes \<le> MAX_PHOTO_SIZE_BYTES"

definition key_char :: "char \<Rightarrow> bool" where
  "key_char c \<longleftrightarrow> in_class (CHR ''a'') (CHR ''z'') c \<or> in_class (CHR ''A'') (CHR ''Z'') c \<or> is_digit c \<or>
     c \<in> set ''/._-''"

definition updatePhotosRequestSchema :: "string list \<Rightarrow> bool" where
  "updatePhotosRequestSchema keys \<longleftrightarrow>
     (\<forall>k \<in> set keys. 1 \<le> length k \<and> length k \<le> 200 \<and> list_all key_char k) \<and>
     length keys \<le> PHOTO_GALLERY_CEILING \<and> distinct keys"

section \<open>Keys and addresses\<close>

definition photoKeyPrefix :: "uuid \<Rightarrow> uuid \<Rightarrow> string" where
  "photoKeyPrefix tenantId propertyId = tenantId @ ''/'' @ propertyId @ ''/''"

definition PRESIGN_EXPIRES_SECONDS :: int where "PRESIGN_EXPIRES_SECONDS = 300"

record presign_response =
  pr_uploadUrl :: string
  pr_key :: string
  pr_expiresInSeconds :: int

text \<open>\<open>sign key type bytes\<close> is the third-party presigner.\<close>

definition presignPhotoUpload ::
  "(string \<Rightarrow> string \<Rightarrow> int \<Rightarrow> string) \<Rightarrow> uuid \<Rightarrow> uuid \<Rightarrow> uuid \<Rightarrow> photo_type \<Rightarrow> int \<Rightarrow> presign_response" where
  "presignPhotoUpload sign newId tenantId propertyId contentType bytes =
     (let key = photoKeyPrefix tenantId propertyId @ newId @ ''.'' @ PHOTO_EXTENSIONS contentType
      in \<lparr>pr_uploadUrl = sign key (content_type contentType) bytes, pr_key = key,
          pr_expiresInSeconds = PRESIGN_EXPIRES_SECONDS\<rparr>)"

definition publicUrl :: "string \<Rightarrow> string \<Rightarrow> string" where
  "publicUrl configuredBase key =
     strip_slashes configuredBase @ ''/'' @ key"

section \<open>Magic bytes\<close>

definition MAGIC_BYTES :: "string \<Rightarrow> string \<Rightarrow> bool" where
  "MAGIC_BYTES type head =
     (if type = ''image/jpeg'' then take 3 head = [CHR 0xFF, CHR 0xD8, CHR 0xFF]
      else if type = ''image/png''
      then take 8 head = [CHR 0x89, CHR 0x50, CHR 0x4E, CHR 0x47, CHR 0x0D, CHR 0x0A, CHR 0x1A, CHR 0x0A]
      else if type = ''image/webp'' then take 4 head = ''RIFF'' \<and> take 4 (drop 8 head) = ''WEBP''
      else False)"

section \<open>The object store\<close>

record listed_item =
  li_key :: "string option"
  li_size :: "int option"
  li_lastModified :: "instant option"

record list_page =
  pg_contents :: "listed_item list"
  pg_truncated :: bool
  pg_next :: "string option"

record 'st object_api =
  oa_get :: "'st \<Rightarrow> string \<Rightarrow> (string \<times> string) option"
    \<comment> \<open>content type and first twelve octets\<close>
  oa_list :: "'st \<Rightarrow> string \<Rightarrow> string option \<Rightarrow> list_page"
  oa_delete :: "string list \<Rightarrow> 'st \<Rightarrow> 'st"

record storage_object =
  so_key :: string
  so_size :: int
  so_lastModified :: "instant option"

definition isValidPhotoObject :: "'st object_api \<Rightarrow> 'st \<Rightarrow> string \<Rightarrow> bool" where
  "isValidPhotoObject api st key =
     (case oa_get api st key of
        None \<Rightarrow> False
      | Some (type, head) \<Rightarrow> length head \<ge> 12 \<and> MAGIC_BYTES type head)"

definition to_object :: "listed_item \<Rightarrow> storage_object option" where
  "to_object o1 =
     (case li_key o1 of
        None \<Rightarrow> None
      | Some k \<Rightarrow> if k = [] then None
          else Some \<lparr>so_key = k, so_size = (case li_size o1 of Some n \<Rightarrow> n | None \<Rightarrow> 0),
                     so_lastModified = li_lastModified o1\<rparr>)"

definition page_objects :: "list_page \<Rightarrow> storage_object list" where
  "page_objects page = List.map_filter to_object (pg_contents page)"

definition next_token :: "list_page \<Rightarrow> string option" where
  "next_token page =
     (if pg_truncated page then (case pg_next page of Some t \<Rightarrow> if t = [] then None else Some t | None \<Rightarrow> None)
      else None)"

text \<open>The \<^verbatim>\<open>do ... while\<close> over the pages; a store that never ends its listing never answers.\<close>

partial_function (option) list_pages ::
  "'st object_api \<Rightarrow> 'st \<Rightarrow> string \<Rightarrow> string option \<Rightarrow> storage_object list option" where
  "list_pages api st pre tok =
     (let page = oa_list api st pre tok in
      case next_token page of
        None \<Rightarrow> Some (page_objects page)
      | Some t \<Rightarrow> Option.bind (list_pages api st pre (Some t)) (\<lambda>rest. Some (page_objects page @ rest)))"

definition listObjects :: "'st object_api \<Rightarrow> 'st \<Rightarrow> string \<Rightarrow> storage_object list option" where
  "listObjects api st pre = list_pages api st pre None"

definition DELETE_BATCH_MAX :: nat where "DELETE_BATCH_MAX = 1000"

function deleteObjects :: "'st object_api \<Rightarrow> string list \<Rightarrow> 'st \<Rightarrow> 'st" where
  "deleteObjects api keys st =
     (if keys = [] then st
      else deleteObjects api (drop DELETE_BATCH_MAX keys) (oa_delete api (take DELETE_BATCH_MAX keys) st))"
  by auto
termination
  by (relation "measure (\<lambda>(api, keys, st). length keys)") (auto simp: DELETE_BATCH_MAX_def)

declare deleteObjects.simps [simp del]

section \<open>What the store promises\<close>

inductive page_chain :: "'st object_api \<Rightarrow> 'st \<Rightarrow> string \<Rightarrow> string option \<Rightarrow> storage_object list \<Rightarrow> bool"
  for api st pre where
  last_page: "next_token (oa_list api st pre tok) = None \<Longrightarrow>
     page_chain api st pre tok (page_objects (oa_list api st pre tok))"
| next_page: "next_token (oa_list api st pre tok) = Some t \<Longrightarrow> page_chain api st pre (Some t) os \<Longrightarrow>
     page_chain api st pre tok (page_objects (oa_list api st pre tok) @ os)"

definition stored :: "'st object_api \<Rightarrow> 'st \<Rightarrow> string \<Rightarrow> bool" where
  "stored api st key \<longleftrightarrow> oa_get api st key \<noteq> None"

text \<open>A listing ends and names exactly the stored objects under the prefix; a batch of at most a
  thousand keys deletes exactly those.\<close>

definition store_lawful :: "'st object_api \<Rightarrow> bool" where
  "store_lawful api \<longleftrightarrow>
     (\<forall>st pre. \<exists>os. page_chain api st pre None os \<and>
        (\<forall>k. k \<in> so_key ` set os \<longleftrightarrow> prefix pre k \<and> k \<noteq> [] \<and> stored api st k)) \<and>
     (\<forall>ks st k. length ks \<le> DELETE_BATCH_MAX \<longrightarrow>
        oa_get api (oa_delete api ks st) k = (if k \<in> set ks then None else oa_get api st k))"

lemma page_chain_listed: "page_chain api st pre tok os \<Longrightarrow> list_pages api st pre tok = Some os"
  by (induction rule: page_chain.induct) (simp_all add: list_pages.simps)

lemma listObjects_total:
  assumes "store_lawful api"
  obtains os where "listObjects api st pre = Some os"
    "\<And>k. k \<in> so_key ` set os \<longleftrightarrow> prefix pre k \<and> k \<noteq> [] \<and> stored api st k"
  using assms page_chain_listed unfolding store_lawful_def listObjects_def by metis

text \<open>The batches together delete exactly the keys given.\<close>

lemma deleteObjects_get:
  assumes "store_lawful api"
  shows "oa_get api (deleteObjects api keys st) k = (if k \<in> set keys then None else oa_get api st k)"
  using assms
proof (induction api keys st rule: deleteObjects.induct)
  case (1 api keys st)
  have batch: "oa_get api (oa_delete api (take DELETE_BATCH_MAX keys) st) k =
      (if k \<in> set (take DELETE_BATCH_MAX keys) then None else oa_get api st k)"
  proof -
    have "length (take DELETE_BATCH_MAX keys) \<le> DELETE_BATCH_MAX" by simp
    from 1(2) [unfolded store_lawful_def, THEN conjunct2, rule_format, OF this] show ?thesis .
  qed
  have split: "set keys = set (take DELETE_BATCH_MAX keys) \<union> set (drop DELETE_BATCH_MAX keys)"
    by (metis append_take_drop_id set_append)
  show ?case
  proof (cases "keys = []")
    case True
    then show ?thesis by (simp add: deleteObjects.simps)
  next
    case False
    then show ?thesis
      using 1 by (subst deleteObjects.simps) (auto simp: batch split)
  qed
qed

end
