(* ===== verification/Settings.thy ===== *)
theory Settings
  imports Tenancy Photo_Storage
begin

text \<open>
  The tenant's one setting, the gallery cap (\<^verbatim>\<open>settings.repository.ts\<close>, \<^verbatim>\<open>settings.service.ts\<close>,
  \<^verbatim>\<open>packages/shared/src/settings.ts\<close>), with the range CHECK of the \<^verbatim>\<open>tenant\<close> table.
\<close>

definition galleryCapSchema :: "int \<Rightarrow> bool" where
  "galleryCapSchema n \<longleftrightarrow> 1 \<le> n \<and> n \<le> int PHOTO_GALLERY_CEILING"

definition rls_tenant :: "session \<Rightarrow> tenant_row \<Rightarrow> bool" where
  "rls_tenant s t \<longleftrightarrow> t_id t = s_tenantId s"

definition own_tenant :: "session \<Rightarrow> tenant_row \<Rightarrow> bool" where
  "own_tenant s t \<longleftrightarrow> rls_tenant s t \<and> t_id t = s_tenantId s"

definition getGalleryCap :: "db \<Rightarrow> session \<Rightarrow> int option" where
  "getGalleryCap d s = map_option t_galleryCap (select_one (own_tenant s) (tenants d))"

definition setGalleryCap :: "session \<Rightarrow> int \<Rightarrow> db \<Rightarrow> app_error + (int option \<times> db)" where
  "setGalleryCap s cap d =
     (if (\<exists>t \<in> set (tenants d). own_tenant s t) \<and> \<not> galleryCapSchema cap
      then Inl (DbError ''tenant_gallery_cap_range'')
      else Inr (map_option (\<lambda>_. cap) (select_one (own_tenant s) (tenants d)),
                d\<lparr>tenants := update_where (own_tenant s) (\<lambda>t. t\<lparr>t_galleryCap := cap\<rparr>) (tenants d)\<rparr>))"

record tenant_settings =
  ts_galleryCap :: int
  ts_galleryCeiling :: nat

definition settings_response :: "int \<Rightarrow> tenant_settings" where
  "settings_response cap = \<lparr>ts_galleryCap = cap, ts_galleryCeiling = PHOTO_GALLERY_CEILING\<rparr>"

definition cap_or_throw :: "int option \<Rightarrow> app_error + int" where
  "cap_or_throw cap = (case cap of None \<Rightarrow> Inl (NotFound ''Tenant not found'') | Some n \<Rightarrow> Inr n)"

definition galleryCap :: "tenant_context \<Rightarrow> db \<Rightarrow> app_error + int" where
  "galleryCap ctx d = bind_res (db_run ctx None (\<lambda>tx. Inr (getGalleryCap d (tx_session tx)))) cap_or_throw"

definition get_settings :: "tenant_context \<Rightarrow> db \<Rightarrow> app_error + tenant_settings" where
  "get_settings ctx d = bind_res (galleryCap ctx d) (\<lambda>n. Inr (settings_response n))"

definition update_settings :: "tenant_context \<Rightarrow> int option \<Rightarrow> db \<Rightarrow> app_error + (tenant_settings \<times> db)" where
  "update_settings ctx dto d =
     (case dto of
        None \<Rightarrow> bind_res (get_settings ctx d) (\<lambda>r. Inr (r, d))
      | Some cap \<Rightarrow> intercept (
          bind_res (db_run ctx None (\<lambda>tx. setGalleryCap (tx_session tx) cap d)) (\<lambda>(n, d').
          bind_res (cap_or_throw n) (\<lambda>n. Inr (settings_response n, d')))))"

text \<open>A cap that was set is the cap that is read, for this tenant and no other.\<close>

lemma settings_read_back:
  assumes "update_settings (Some p) (Some cap) d = Inr (r, d')" "galleryCapSchema cap"
  shows "get_settings (Some p) d' = Inr r \<and> r = settings_response cap \<and>
    (principal_tenant q \<noteq> principal_tenant p \<longrightarrow> get_settings (Some q) d' = get_settings (Some q) d)"
proof -
  have own: "own_tenant (session_of p) t \<longleftrightarrow> t_id t = principal_tenant p" for p t
    by (auto simp: own_tenant_def rls_tenant_def)
  let ?u = "update_where (own_tenant (session_of p)) (\<lambda>t. t\<lparr>t_galleryCap := cap\<rparr>)"
  obtain t where t: "select_one (own_tenant (session_of p)) (tenants d) = Some t"
    and d': "d' = d\<lparr>tenants := ?u (tenants d)\<rparr>" and r: "r = settings_response cap"
    using assms by (auto simp: update_settings_def setGalleryCap_def bind_res_Inr_iff cap_or_throw_def
        split: if_splits option.splits)
  have "\<exists>x. select_one (own_tenant (session_of p)) (?u ts) = Some x \<and> t_galleryCap x = cap"
    if "select_one (own_tenant (session_of p)) ts = Some t" for ts
    using that by (induction ts) (auto simp: own split: if_splits)
  from this [OF t] have "getGalleryCap d' (session_of p) = Some cap" by (auto simp: getGalleryCap_def d')
  moreover have "getGalleryCap d' (session_of q) = getGalleryCap d (session_of q)"
    if "principal_tenant q \<noteq> principal_tenant p"
  proof -
    have "map_option t_galleryCap (select_one (own_tenant (session_of q)) (?u ts)) =
        map_option t_galleryCap (select_one (own_tenant (session_of q)) ts)" for ts
      using that by (induction ts) (auto simp: own)
    then show ?thesis by (simp add: getGalleryCap_def d')
  qed
  ultimately show ?thesis by (simp add: get_settings_def galleryCap_def cap_or_throw_def r)
qed

end
