(* ===== verification/Properties.thy ===== *)
theory Properties
  imports Slug Settings Units
begin

text \<open>
  Properties: \<^verbatim>\<open>properties.repository.ts\<close>, \<^verbatim>\<open>properties.service.ts\<close> and the contract \<^verbatim>\<open>property.ts\<close>. The
  \<^verbatim>\<open>property\<close> table with its checks, the mint of the public slug, the patch, the gallery, the guarded
  delete and its cascades.
\<close>

section \<open>The contract\<close>

definition DEFAULT_DEPOSIT_PCT :: int where "DEFAULT_DEPOSIT_PCT = 100"

definition depositPctSchema :: "int \<Rightarrow> bool" where
  "depositPctSchema n \<longleftrightarrow> 1 \<le> n \<and> n \<le> 100"

definition propertyTimeZoneSchema :: "string \<Rightarrow> bool" where
  "propertyTimeZoneSchema z \<longleftrightarrow> z \<in> {''Asia/Jakarta'', ''Asia/Makassar'', ''Asia/Jayapura''}"

definition isVerified :: "string option \<Rightarrow> bool" where
  "isVerified licenseNo = (case licenseNo of None \<Rightarrow> False | Some l \<Rightarrow> utf16_length (js_trim l) > 0)"

definition isPublishable :: "nat \<Rightarrow> nat \<Rightarrow> bool" where
  "isPublishable photoCount pricedUnitCount \<longleftrightarrow> photoCount \<ge> 1 \<and> pricedUnitCount \<ge> 1"

text \<open>\<^verbatim>\<open>clearableText\<close>, after the transform: trimmed, empty means null.\<close>

definition clearable :: "string option \<Rightarrow> string option" where
  "clearable v = (case v of None \<Rightarrow> None | Some s \<Rightarrow> if js_trim s = [] then None else Some (js_trim s))"

record create_property_request =
  cp_name :: string
  cp_address :: "string option"
  cp_latitude :: "double option"
  cp_longitude :: "double option"
  cp_description :: "string option"
  cp_licenseNo :: "string option"
  cp_depositPct :: "int option"
  cp_timeZone :: "string option"

text \<open>A PATCH: \<open>None\<close> is an absent field, \<open>Some None\<close> an explicit null.\<close>

record property_patch =
  pp_name :: "string option"
  pp_address :: "string option option"
  pp_latitude :: "double option option"
  pp_longitude :: "double option option"
  pp_description :: "string option option"
  pp_licenseNo :: "string option option"
  pp_depositPct :: "int option"
  pp_timeZone :: "string option"
  pp_photos :: "string list option"

section \<open>The table\<close>

definition property_check :: "property_row \<Rightarrow> string option" where
  "property_check r =
     (if \<not> depositPctSchema (p_depositPct r) then Some ''property_deposit_pct_range''
      else if \<not> SLUG_PATTERN (p_slug r) then Some ''property_slug_format''
      else if \<not> propertyTimeZoneSchema (p_timeZone r) then Some ''property_time_zone_known''
      else None)"

text \<open>The \<^verbatim>\<open>WITH CHECK\<close> of the policy is its \<^verbatim>\<open>USING\<close>; \<^verbatim>\<open>ON CONFLICT (slug) DO NOTHING\<close> answers no row.\<close>

definition insert_property_or_nothing :: "session \<Rightarrow> property_row \<Rightarrow> db \<Rightarrow> app_error + (property_row option \<times> db)" where
  "insert_property_or_nothing s r d =
     (if \<not> rls_property d s r then Inl (DbError ''row-level security'')
      else case property_check r of
        Some c \<Rightarrow> Inl (DbError c)
      | None \<Rightarrow>
          if \<exists>p \<in> set (properties d). p_slug p = p_slug r then Inr (None, d)
          else if \<exists>p \<in> set (properties d). p_id p = p_id r then Inl (DbError ''property_pkey'')
          else Inr (Some r, d\<lparr>properties := properties d @ [r]\<rparr>))"

definition update_property ::
  "(property_row \<Rightarrow> bool) \<Rightarrow> (property_row \<Rightarrow> property_row) \<Rightarrow> db \<Rightarrow> app_error + db" where
  "update_property P f d =
     (case first_violation property_check (map f (filter P (properties d))) of
        Some c \<Rightarrow> Inl (DbError c)
      | None \<Rightarrow> Inr (d\<lparr>properties := update_where P f (properties d)\<rparr>))"

text \<open>Deleting a property takes its units (with all they take), the grants on it and its place in invites.\<close>

definition delete_properties :: "(property_row \<Rightarrow> bool) \<Rightarrow> db \<Rightarrow> app_error + db" where
  "delete_properties P d =
     (let gone = (\<lambda>pid. \<exists>p \<in> set (properties d). P p \<and> p_id p = pid) in
      bind_res (delete_units (\<lambda>u. gone (u_propertyId u)) d) (\<lambda>d'.
        Inr (d'\<lparr>properties := filter (\<lambda>p. \<not> P p) (properties d),
           user_properties := filter (\<lambda>x. \<not> gone (up_propertyId x)) (user_properties d),
           staff_invite_properties := filter (\<lambda>x. \<not> gone (sip_propertyId x)) (staff_invite_properties d)\<rparr>)))"

section \<open>The repository\<close>

text \<open>A property with the number of its sellable units; the archived terms live inside the count.\<close>

type_synonym property_out = "property_row \<times> nat"

definition sellable :: "unit_row \<Rightarrow> bool" where
  "sellable u \<longleftrightarrow> u_basePriceIdr u > 0 \<and> u_archivedAt u = None"

definition pricedUnitCount :: "db \<Rightarrow> session \<Rightarrow> property_row \<Rightarrow> nat" where
  "pricedUnitCount d s p =
     length (filter (\<lambda>u. rls_unit d s u \<and> u_propertyId u = p_id p \<and> u_tenantId u = s_tenantId s \<and>
        sellable u \<and> p_archivedAt p = None) (units d))"

definition own_property :: "db \<Rightarrow> session \<Rightarrow> property_row \<Rightarrow> bool" where
  "own_property d s p \<longleftrightarrow> rls_property d s p \<and> p_tenantId p = s_tenantId s"

definition findAll :: "db \<Rightarrow> session \<Rightarrow> property_out list" where
  "findAll d s =
     map (\<lambda>p. (p, pricedUnitCount d s p))
       (sort_key (\<lambda>p. (p_createdAt p, p_id p)) (filter (own_property d s) (properties d)))"

definition findById :: "db \<Rightarrow> session \<Rightarrow> uuid \<Rightarrow> property_out option" where
  "findById d s pid =
     map_option (\<lambda>p. (p, pricedUnitCount d s p))
       (select_one (\<lambda>p. own_property d s p \<and> p_id p = pid) (properties d))"

definition new_property :: "uuid \<Rightarrow> uuid \<Rightarrow> instant \<Rightarrow> create_property_request \<Rightarrow> string \<Rightarrow> property_row" where
  "new_property newId tenantId now dto slug =
     \<lparr>p_id = newId, p_tenantId = tenantId, p_name = cp_name dto, p_slug = slug, p_address = cp_address dto,
      p_latitude = cp_latitude dto, p_longitude = cp_longitude dto, p_description = cp_description dto,
      p_photos = [], p_licenseNo = cp_licenseNo dto, p_archivedAt = None,
      p_depositPct = (case cp_depositPct dto of Some n \<Rightarrow> n | None \<Rightarrow> DEFAULT_DEPOSIT_PCT),
      p_timeZone = (case cp_timeZone dto of Some z \<Rightarrow> z | None \<Rightarrow> ''Asia/Makassar''),
      p_createdAt = now\<rparr>"

definition createWithSlug ::
  "session \<Rightarrow> uuid \<Rightarrow> instant \<Rightarrow> create_property_request \<Rightarrow> string \<Rightarrow> db \<Rightarrow>
     app_error + (property_out option \<times> db)" where
  "createWithSlug s newId now dto slug d =
     bind_res (insert_property_or_nothing s (new_property newId (s_tenantId s) now dto slug) d)
       (\<lambda>(row, d'). Inr (map_option (\<lambda>r. (r, 0)) row, d'))"

definition patch_property :: "property_patch \<Rightarrow> property_row \<Rightarrow> property_row" where
  "patch_property dto p =
     p\<lparr>p_name := (case pp_name dto of Some v \<Rightarrow> v | None \<Rightarrow> p_name p),
       p_address := (case pp_address dto of Some v \<Rightarrow> v | None \<Rightarrow> p_address p),
       p_latitude := (case pp_latitude dto of Some v \<Rightarrow> v | None \<Rightarrow> p_latitude p),
       p_longitude := (case pp_longitude dto of Some v \<Rightarrow> v | None \<Rightarrow> p_longitude p),
       p_description := (case pp_description dto of Some v \<Rightarrow> v | None \<Rightarrow> p_description p),
       p_licenseNo := (case pp_licenseNo dto of Some v \<Rightarrow> v | None \<Rightarrow> p_licenseNo p),
       p_depositPct := (case pp_depositPct dto of Some v \<Rightarrow> v | None \<Rightarrow> p_depositPct p),
       p_timeZone := (case pp_timeZone dto of Some v \<Rightarrow> v | None \<Rightarrow> p_timeZone p),
       p_photos := (case pp_photos dto of Some v \<Rightarrow> v | None \<Rightarrow> p_photos p)\<rparr>"

definition this_property :: "db \<Rightarrow> session \<Rightarrow> uuid \<Rightarrow> property_row \<Rightarrow> bool" where
  "this_property d s pid p \<longleftrightarrow> own_property d s p \<and> p_id p = pid"

definition update_repo ::
  "session \<Rightarrow> uuid \<Rightarrow> property_patch \<Rightarrow> db \<Rightarrow> app_error + (property_out option \<times> db)" where
  "update_repo s pid dto d =
     bind_res (update_property (this_property d s pid) (patch_property dto) d) (\<lambda>d'.
       case select_one (this_property d s pid) (properties d) of
         None \<Rightarrow> Inr (None, d')
       | Some p \<Rightarrow>
           let row = patch_property dto p in
           if p_archivedAt row \<noteq> None then Inr (Some (row, 0), d')
           else Inr (Some (row, length (filter (\<lambda>u. rls_unit d' s u \<and> u_propertyId u = pid \<and>
                  u_tenantId u = s_tenantId s \<and> sellable u) (units d'))), d'))"

definition property_archived :: "instant \<Rightarrow> bool \<Rightarrow> property_row \<Rightarrow> property_row" where
  "property_archived now archived p =
     p\<lparr>p_archivedAt :=
        (if archived then (case p_archivedAt p of Some t \<Rightarrow> Some t | None \<Rightarrow> Some now) else None)\<rparr>"

definition setArchived_repo :: "session \<Rightarrow> instant \<Rightarrow> uuid \<Rightarrow> bool \<Rightarrow> db \<Rightarrow> app_error + (bool \<times> db)" where
  "setArchived_repo s now pid archived d =
     bind_res (update_property (this_property d s pid) (property_archived now archived) d) (\<lambda>d'.
       Inr (\<exists>p \<in> set (properties d). this_property d s pid p, d'))"

definition lockProperty :: "active_tx \<Rightarrow> uuid \<Rightarrow> db \<Rightarrow> app_error + bool" where
  "lockProperty tx pid d =
     bind_res (assertInTransaction (Some tx)) (\<lambda>_.
       Inr (select_one (this_property d (tx_session tx) pid) (properties d) \<noteq> None))"

definition countPropertyBookings :: "db \<Rightarrow> session \<Rightarrow> uuid \<Rightarrow> nat" where
  "countPropertyBookings d s pid =
     length (filter (\<lambda>(b, u). rls_booking d s b \<and> rls_unit d s u \<and> bk_unitId b = u_id u \<and>
        u_propertyId u = pid \<and> bk_tenantId b = s_tenantId s) (List.product (bookings d) (units d)))"

definition delete_repo :: "session \<Rightarrow> uuid \<Rightarrow> db \<Rightarrow> app_error + db" where
  "delete_repo s pid d = delete_properties (this_property d s pid) d"

section \<open>The service\<close>

record property_photo =
  ph_key :: string
  ph_url :: string

record property_response =
  pw_row :: property_row
    \<comment> \<open>the columns that are answered as they are stored\<close>
  pw_photos :: "property_photo list"
  pw_verified :: bool
  pw_publishable :: bool

definition property_toResponse :: "string \<Rightarrow> property_out \<Rightarrow> app_error + property_response" where
  "property_toResponse base row =
     (case row of (p, n) \<Rightarrow>
        if \<not> propertyTimeZoneSchema (p_timeZone p) then Inl (JsError ''invalid time zone'')
        else Inr \<lparr>pw_row = p,
          pw_photos = map (\<lambda>key. \<lparr>ph_key = key, ph_url = publicUrl base key\<rparr>) (p_photos p),
          pw_verified = isVerified (p_licenseNo p),
          pw_publishable = isPublishable (length (p_photos p)) n\<rparr>)"

definition list_properties :: "string \<Rightarrow> tenant_context \<Rightarrow> db \<Rightarrow> app_error + property_response list" where
  "list_properties base ctx d =
     bind_res (db_run ctx None (\<lambda>tx. Inr (findAll d (tx_session tx)))) (map_res (property_toResponse base))"

definition getOwnedOrThrow :: "tenant_context \<Rightarrow> uuid \<Rightarrow> db \<Rightarrow> app_error + property_out" where
  "getOwnedOrThrow ctx pid d =
     db_run ctx None (\<lambda>tx.
       case findById d (tx_session tx) pid of
         None \<Rightarrow> Inl (NotFound ''Property not found'') | Some row \<Rightarrow> Inr row)"

definition get_property :: "string \<Rightarrow> tenant_context \<Rightarrow> uuid \<Rightarrow> db \<Rightarrow> app_error + property_response" where
  "get_property base ctx pid d = bind_res (getOwnedOrThrow ctx pid d) (property_toResponse base)"

text \<open>The mint loop: the first candidate the unique index accepts.\<close>

fun mint ::
  "session \<Rightarrow> uuid \<Rightarrow> instant \<Rightarrow> create_property_request \<Rightarrow> string list \<Rightarrow> db \<Rightarrow>
     app_error + (property_out \<times> db)" where
  "mint s newId now dto [] d = Inl (InternalError ''Could not mint a unique slug for this property'')"
| "mint s newId now dto (slug # slugs) d =
     bind_res (createWithSlug s newId now dto slug d) (\<lambda>(row, d').
       case row of Some r \<Rightarrow> Inr (r, d') | None \<Rightarrow> mint s newId now dto slugs d')"

definition create_property ::
  "string \<Rightarrow> (string \<Rightarrow> string) \<Rightarrow> (nat \<Rightarrow> nat) \<Rightarrow> tenant_context \<Rightarrow> instant \<Rightarrow> uuid \<Rightarrow>
     create_property_request \<Rightarrow> db \<Rightarrow> app_error + (property_response \<times> db)" where
  "create_property base nfkd rnd ctx now newId dto d =
     intercept (db_run ctx None (\<lambda>tx.
       bind_res (mint (tx_session tx) newId now dto (slugCandidates nfkd rnd (cp_name dto)) d) (\<lambda>(row, d').
       bind_res (property_toResponse base row) (\<lambda>r. Inr (r, d')))))"

definition no_patch :: property_patch where
  "no_patch = \<lparr>pp_name = None, pp_address = None, pp_latitude = None, pp_longitude = None,
     pp_description = None, pp_licenseNo = None, pp_depositPct = None, pp_timeZone = None, pp_photos = None\<rparr>"

definition answer_property ::
  "string \<Rightarrow> property_out option \<times> db \<Rightarrow> app_error + (property_response \<times> db)" where
  "answer_property base out =
     (case out of
        (None, d') \<Rightarrow> Inl (NotFound ''Property not found'')
      | (Some row, d') \<Rightarrow> bind_res (property_toResponse base row) (\<lambda>r. Inr (r, d')))"

definition modify_property ::
  "string \<Rightarrow> tenant_context \<Rightarrow> uuid \<Rightarrow> property_patch \<Rightarrow> db \<Rightarrow> app_error + (property_response \<times> db)" where
  "modify_property base ctx pid dto d =
     (if dto = no_patch then bind_res (get_property base ctx pid d) (\<lambda>r. Inr (r, d))
      else intercept (
        bind_res (db_run ctx None (\<lambda>tx. update_repo (tx_session tx) pid dto d)) (answer_property base)))"

definition presignPhoto ::
  "(string \<Rightarrow> string \<Rightarrow> int \<Rightarrow> string) \<Rightarrow> uuid \<Rightarrow> tenant_context \<Rightarrow> uuid \<Rightarrow> photo_type \<Rightarrow> int \<Rightarrow> db \<Rightarrow>
     app_error + presign_response" where
  "presignPhoto sign newId ctx pid contentType bytes d =
     bind_res (getOwnedOrThrow ctx pid d) (\<lambda>_.
     bind_res (context_tenantId ctx) (\<lambda>tenantId.
     Inr (presignPhotoUpload sign newId tenantId pid contentType bytes)))"

definition updatePhotos ::
  "string \<Rightarrow> 'st object_api \<Rightarrow> 'st \<Rightarrow> tenant_context \<Rightarrow> uuid \<Rightarrow> string list \<Rightarrow> db \<Rightarrow>
     app_error + (property_response \<times> db)" where
  "updatePhotos base api st ctx pid keys d =
     bind_res (getOwnedOrThrow ctx pid d) (\<lambda>(existing, n).
     bind_res (galleryCap ctx d) (\<lambda>cap.
     bind_res (guard_res (\<not> (int (length keys) > cap \<and> length keys > length (p_photos existing)))
       (BadRequest ''Gallery is full'')) (\<lambda>_.
     bind_res (context_tenantId ctx) (\<lambda>tenantId.
     bind_res (guard_res (\<forall>k \<in> set keys. prefix (photoKeyPrefix tenantId pid) k)
       (BadRequest ''Every photo key must belong to this property'')) (\<lambda>_.
     bind_res (guard_res (\<forall>k \<in> set keys. k \<notin> set (p_photos existing) \<longrightarrow> isValidPhotoObject api st k)
       (BadRequest ''Not an uploaded image'')) (\<lambda>_.
     intercept (
       bind_res (db_run ctx None (\<lambda>tx. update_repo (tx_session tx) pid (no_patch\<lparr>pp_photos := Some keys\<rparr>) d))
         (answer_property base))))))))"

definition remove_property :: "tenant_context \<Rightarrow> uuid \<Rightarrow> db \<Rightarrow> app_error + db" where
  "remove_property ctx pid d =
     intercept (db_run ctx None (\<lambda>tx.
       bind_res (lockProperty tx pid d) (\<lambda>locked.
         if \<not> locked then Inl (NotFound ''Property not found'')
         else let n = countPropertyBookings d (tx_session tx) pid in
           if n > 0 then Inl (Conflict (Property_has_bookings n))
           else delete_repo (tx_session tx) pid d)))"

definition setArchived_property ::
  "string \<Rightarrow> tenant_context \<Rightarrow> instant \<Rightarrow> uuid \<Rightarrow> bool \<Rightarrow> db \<Rightarrow> app_error + (property_response \<times> db)" where
  "setArchived_property base ctx now pid archived d =
     bind_res (intercept (db_run ctx None (\<lambda>tx. setArchived_repo (tx_session tx) now pid archived d))) (\<lambda>(known, d').
     if \<not> known then Inl (NotFound ''Property not found'')
     else bind_res (get_property base ctx pid d') (\<lambda>r. Inr (r, d')))"

end
