(* ===== verification/Photo_Gc.thy ===== *)
theory Photo_Gc
  imports Properties
begin

text \<open>
  The sweep that reclaims photo bytes no gallery points at, \<^verbatim>\<open>photo-gc-sweeper.service.ts\<close>: it runs on
  the owner connection, lists only the prefixes of known tenants, spares what is referenced or young,
  and evicts oversize objects from store and gallery alike.
\<close>

definition PHOTO_GC_GRACE_MS :: int where "PHOTO_GC_GRACE_MS = 24 * 60 * 60 * 1000"

definition referencedKeys :: "db \<Rightarrow> string list" where
  "referencedKeys d = concat (map p_photos (properties d))"

definition allTenantIds :: "db \<Rightarrow> uuid list" where
  "allTenantIds d = map t_id (tenants d)"

definition isOld :: "storage_object \<Rightarrow> instant \<Rightarrow> bool" where
  "isOld o1 cutoff = (case so_lastModified o1 of None \<Rightarrow> False | Some t \<Rightarrow> t < cutoff)"

definition stripFromGallery :: "string \<Rightarrow> db \<Rightarrow> db" where
  "stripFromGallery key d =
     d\<lparr>properties := update_where (\<lambda>p. key \<in> set (p_photos p))
        (\<lambda>p. p\<lparr>p_photos := filter (\<lambda>k. k \<noteq> key) (p_photos p)\<rparr>) (properties d)\<rparr>"

definition oversize :: "storage_object \<Rightarrow> bool" where
  "oversize o1 \<longleftrightarrow> so_size o1 > MAX_PHOTO_SIZE_BYTES"

text \<open>The listing loop: every object under the prefix of every tenant, in order.\<close>

fun list_tenants :: "'st object_api \<Rightarrow> 'st \<Rightarrow> uuid list \<Rightarrow> storage_object list option" where
  "list_tenants api st [] = Some []"
| "list_tenants api st (i # is) =
     Option.bind (listObjects api st (i @ ''/'')) (\<lambda>os.
     Option.bind (list_tenants api st is) (\<lambda>rest. Some (os @ rest)))"

definition orphanKeys :: "db \<Rightarrow> instant \<Rightarrow> storage_object list \<Rightarrow> string list" where
  "orphanKeys d cutoff os =
     map so_key (filter (\<lambda>o1. \<not> oversize o1 \<and> so_key o1 \<notin> set (referencedKeys d) \<and> isOld o1 cutoff) os)"

definition oversizeKeys :: "storage_object list \<Rightarrow> string list" where
  "oversizeKeys os = map so_key (filter oversize os)"

definition evict :: "db \<Rightarrow> string \<Rightarrow> db \<Rightarrow> db" where
  "evict d0 key d = (if key \<in> set (referencedKeys d0) then stripFromGallery key d else d)"

record gc_result =
  gc_deletedOrphans :: nat
  gc_evictedOversize :: nat

text \<open>\<open>tenantIds\<close> narrows the sweep; the cron passes none. No answer only if a listing never ends.\<close>

definition sweep ::
  "'st object_api \<Rightarrow> instant \<Rightarrow> uuid list option \<Rightarrow> db \<Rightarrow> 'st \<Rightarrow> (gc_result \<times> db \<times> 'st) option" where
  "sweep api now tenantIds d st =
     (let cutoff = now - PHOTO_GC_GRACE_MS;
          ids = (case tenantIds of Some is \<Rightarrow> is | None \<Rightarrow> allTenantIds d) in
      Option.bind (list_tenants api st ids) (\<lambda>os.
        let orphans = orphanKeys d cutoff os; big = oversizeKeys os in
        Some (\<lparr>gc_deletedOrphans = length orphans, gc_evictedOversize = length big\<rparr>,
              fold (evict d) big d, deleteObjects api (big @ orphans) st)))"

definition sweepOrphanedPhotos ::
  "'st object_api \<Rightarrow> instant \<Rightarrow> db \<Rightarrow> 'st \<Rightarrow> (gc_result \<times> db \<times> 'st) option" where
  "sweepOrphanedPhotos api now d st = sweep api now None d st"

section \<open>What the sweep keeps\<close>

lemma list_tenants_total:
  assumes "store_lawful api"
  shows "\<exists>os. list_tenants api st ids = Some os \<and>
    (\<forall>k. k \<in> so_key ` set os \<longleftrightarrow> (\<exists>i \<in> set ids. prefix (i @ ''/'') k) \<and> k \<noteq> [] \<and> stored api st k)"
proof (induction ids)
  case (Cons i ids)
  obtain os where "listObjects api st (i @ ''/'') = Some os"
    "\<And>k. k \<in> so_key ` set os \<longleftrightarrow> prefix (i @ ''/'') k \<and> k \<noteq> [] \<and> stored api st k"
    using listObjects_total [OF assms] by blast
  then show ?case using Cons by (auto simp: image_Un)
qed simp

text \<open>Galleries after the evictions: the oversize keys are gone, nothing else moved.\<close>

definition without_keys :: "string list \<Rightarrow> property_row \<Rightarrow> property_row" where
  "without_keys ks p = p\<lparr>p_photos := filter (\<lambda>k. k \<notin> set ks) (p_photos p)\<rparr>"

lemma evict_eq:
  assumes "\<And>p. p \<in> set (properties d) \<Longrightarrow> set (p_photos p) \<subseteq> set (referencedKeys d0)"
  shows "evict d0 key d = d\<lparr>properties := map (without_keys [key]) (properties d)\<rparr>"
proof -
  have "without_keys [key] p = p" if "key \<notin> set (p_photos p)" for p
    using that by (cases p) (auto simp: without_keys_def filter_id_conv)
  note same = this
  show ?thesis
  proof (cases "key \<in> set (referencedKeys d0)")
    case True
    have "update_where (\<lambda>p. key \<in> set (p_photos p)) (\<lambda>p. p\<lparr>p_photos := filter (\<lambda>k. k \<noteq> key) (p_photos p)\<rparr>) ps =
        map (without_keys [key]) ps" for ps
      unfolding update_where_def using same by (auto simp: without_keys_def)
    then show ?thesis using True by (simp add: evict_def stripFromGallery_def)
  next
    case False
    then have "map (without_keys [key]) (properties d) = properties d"
      using assms same by (intro map_idI) blast
    then show ?thesis using False by (simp add: evict_def)
  qed
qed

lemma fold_evict:
  assumes "\<And>p. p \<in> set (properties d) \<Longrightarrow> set (p_photos p) \<subseteq> set (referencedKeys d0)"
  shows "fold (evict d0) ks d = d\<lparr>properties := map (without_keys ks) (properties d)\<rparr>"
  using assms
proof (induction ks arbitrary: d)
  case Nil
  have "without_keys [] p = p" for p by (cases p) (simp add: without_keys_def)
  then have "map (without_keys []) (properties d) = properties d" by (simp add: map_idI)
  then show ?case by simp
next
  case (Cons k ks)
  let ?d = "d\<lparr>properties := map (without_keys [k]) (properties d)\<rparr>"
  have "fold (evict d0) (k # ks) d = fold (evict d0) ks ?d" using evict_eq [OF Cons.prems] by simp
  also have "\<dots> = ?d\<lparr>properties := map (without_keys ks) (properties ?d)\<rparr>"
    using Cons.prems by (intro Cons.IH) (fastforce simp: without_keys_def)
  also have "map (without_keys ks) (properties ?d) = map (without_keys (k # ks)) (properties d)"
    by (auto simp: without_keys_def intro!: filter_cong)
  finally show ?case by simp
qed

lemma referencedKeys_iff: "k \<in> set (referencedKeys d) \<longleftrightarrow> (\<exists>p \<in> set (properties d). k \<in> set (p_photos p))"
  by (auto simp: referencedKeys_def)

text \<open>The outcome of one sweep, as sets of keys.\<close>

lemma sweep_eq:
  assumes "store_lawful api"
  obtains os where
    "sweep api now tenantIds d st = Some
       (\<lparr>gc_deletedOrphans = length (orphanKeys d (now - PHOTO_GC_GRACE_MS) os), gc_evictedOversize = length (oversizeKeys os)\<rparr>,
        d\<lparr>properties := map (without_keys (oversizeKeys os)) (properties d)\<rparr>,
        deleteObjects api (oversizeKeys os @ orphanKeys d (now - PHOTO_GC_GRACE_MS) os) st)"
    "list_tenants api st (case tenantIds of Some is \<Rightarrow> is | None \<Rightarrow> allTenantIds d) = Some os"
    "\<And>k. k \<in> so_key ` set os \<longleftrightarrow>
       (\<exists>i \<in> set (case tenantIds of Some is \<Rightarrow> is | None \<Rightarrow> allTenantIds d). prefix (i @ ''/'') k) \<and>
       k \<noteq> [] \<and> stored api st k"
proof -
  obtain os where os: "list_tenants api st (case tenantIds of Some is \<Rightarrow> is | None \<Rightarrow> allTenantIds d) = Some os"
    "\<And>k. k \<in> so_key ` set os \<longleftrightarrow>
       (\<exists>i \<in> set (case tenantIds of Some is \<Rightarrow> is | None \<Rightarrow> allTenantIds d). prefix (i @ ''/'') k) \<and>
       k \<noteq> [] \<and> stored api st k"
    using list_tenants_total [OF assms] by blast
  moreover have "fold (evict d) ks d = d\<lparr>properties := map (without_keys ks) (properties d)\<rparr>" for ks
    by (rule fold_evict) (auto simp: referencedKeys_iff)
  ultimately show thesis by (intro that [of os]) (simp_all add: sweep_def Let_def)
qed

end
