(* ===== verification/Property_Rules.thy ===== *)
theory Property_Rules
  imports Photo_Gc Booking_Rules
begin

text \<open>
  What the properties service promises: the table's invariant \<open>properties_ok\<close>, the mint of a slug, the
  gallery's rules, and the guarded delete.
\<close>

definition properties_ok :: "db \<Rightarrow> bool" where
  "properties_ok d \<longleftrightarrow>
     distinct (map p_id (properties d)) \<and> distinct (map p_slug (properties d)) \<and>
     (\<forall>p \<in> set (properties d). property_check p = None)"

lemma property_check_None:
  "property_check r = None \<longleftrightarrow> depositPctSchema (p_depositPct r) \<and> SLUG_PATTERN (p_slug r) \<and>
     propertyTimeZoneSchema (p_timeZone r)"
  by (simp add: property_check_def)

lemma owner_scope [simp]:
  "rls_property d (session_of (User_principal u tid Owner)) p \<longleftrightarrow> p_tenantId p = tid"
  "own_property d (session_of (User_principal u tid Owner)) p \<longleftrightarrow> p_tenantId p = tid"
  "this_property d (session_of (User_principal u tid Owner)) pid p \<longleftrightarrow> p_tenantId p = tid \<and> p_id p = pid"
  by (auto simp: rls_property_def own_property_def this_property_def)

section \<open>Minting\<close>

text \<open>The loop stops at the first candidate no property holds.\<close>

lemma mint_first_free:
  assumes "\<And>slug. slug \<in> set slugs \<Longrightarrow> property_check (new_property newId (s_tenantId s) now dto slug) = None"
    "\<And>slug. rls_property d s (new_property newId (s_tenantId s) now dto slug)"
    "newId \<notin> p_id ` set (properties d)"
  shows "mint s newId now dto slugs d =
    (case List.find (\<lambda>slug. slug \<notin> p_slug ` set (properties d)) slugs of
       None \<Rightarrow> Inl (InternalError ''Could not mint a unique slug for this property'')
     | Some slug \<Rightarrow> let r = new_property newId (s_tenantId s) now dto slug
         in Inr ((r, 0), d\<lparr>properties := properties d @ [r]\<rparr>))"
  using assms(1)
proof (induction slugs)
  case (Cons slug slugs)
  let ?r = "new_property newId (s_tenantId s) now dto slug"
  have slug: "p_slug ?r = slug" "p_id ?r = newId" by (simp_all add: new_property_def)
  have "\<not> (\<exists>p \<in> set (properties d). p_id p = newId)" using assms(3) by (auto simp: image_iff)
  then have "insert_property_or_nothing s ?r d =
      (if slug \<in> p_slug ` set (properties d) then Inr (None, d)
       else Inr (Some ?r, d\<lparr>properties := properties d @ [?r]\<rparr>))"
    using assms(2) [of slug] Cons.prems [of slug]
    by (auto simp: insert_property_or_nothing_def slug image_iff)
  then show ?case using Cons by (simp add: createWithSlug_def Let_def)
qed simp


section \<open>Writing one property\<close>

lemma property_select:
  assumes "distinct (map p_id (properties d))" "p \<in> set (properties d)" "own_property d s p"
  shows "select_one (this_property d s (p_id p)) (properties d) = Some p"
  using assms by (intro select_one_unique [where k = p_id]) (auto simp: this_property_def)

lemma findById_eq:
  assumes "distinct (map p_id (properties d))" "p \<in> set (properties d)" "own_property d s p"
  shows "findById d s (p_id p) = Some (p, pricedUnitCount d s p)"
proof -
  have "(\<lambda>q. own_property d s q \<and> p_id q = p_id p) = this_property d s (p_id p)"
    by (auto simp: this_property_def)
  then show ?thesis using property_select [OF assms] by (simp add: findById_def)
qed

lemma findById_None:
  "findById d s pid = None \<longleftrightarrow> \<not> (\<exists>p \<in> set (properties d). this_property d s pid p)"
  by (auto simp: findById_def this_property_def)

text \<open>The one row a write reaches.\<close>

lemma this_property_only:
  assumes "distinct (map p_id (properties d))" "p \<in> set (properties d)" "own_property d s p"
  shows "update_where (this_property d s (p_id p)) f (properties d) =
    update_where (\<lambda>q. p_id q = p_id p) f (properties d)"
proof -
  have "this_property d s (p_id p) q \<longleftrightarrow> p_id q = p_id p" if "q \<in> set (properties d)" for q
  proof -
    have "q = p" if "p_id q = p_id p"
      using assms(1,2) that \<open>q \<in> set (properties d)\<close> by (auto simp: distinct_map dest: inj_onD)
    then show ?thesis using assms(3) by (auto simp: this_property_def)
  qed
  then show ?thesis by (simp add: update_where_def)
qed

definition set_photos :: "uuid \<Rightarrow> string list \<Rightarrow> db \<Rightarrow> db" where
  "set_photos pid keys d =
     d\<lparr>properties := update_where (\<lambda>q. p_id q = pid) (\<lambda>q. q\<lparr>p_photos := keys\<rparr>) (properties d)\<rparr>"

lemma patch_photos: "patch_property (no_patch\<lparr>pp_photos := Some keys\<rparr>) p = p\<lparr>p_photos := keys\<rparr>"
  by (simp add: patch_property_def no_patch_def)

lemma update_photos_repo:
  assumes "properties_ok d" "p \<in> set (properties d)" "own_property d s p"
  shows "\<exists>n. update_repo s (p_id p) (no_patch\<lparr>pp_photos := Some keys\<rparr>) d =
    Inr (Some (p\<lparr>p_photos := keys\<rparr>, n), set_photos (p_id p) keys d)"
proof -
  have d: "distinct (map p_id (properties d))" using assms(1) by (simp add: properties_ok_def)
  let ?f = "patch_property (no_patch\<lparr>pp_photos := Some keys\<rparr>)"
  have f: "?f = (\<lambda>q. q\<lparr>p_photos := keys\<rparr>)" by (rule ext) (rule patch_photos)
  have "property_check (?f q) = None" if "q \<in> set (properties d)" for q
    using assms(1) that by (simp add: patch_photos properties_ok_def property_check_None)
  then have "first_violation property_check (map ?f (filter (this_property d s (p_id p)) (properties d))) = None"
    by (auto simp: first_violation_None)
  then have "update_property (this_property d s (p_id p)) ?f d = Inr (set_photos (p_id p) keys d)"
    using this_property_only [OF d assms(2,3)]
    by (simp add: update_property_def set_photos_def f del: first_violation_None)
  then show ?thesis
    using property_select [OF d assms(2,3)] by (auto simp: update_repo_def Let_def patch_photos)
qed

section \<open>The gallery\<close>

text \<open>
  The gallery PATCH, decided completely: on the caller's own property it refuses exactly a set
  that grows past the tenant's cap (so an over-cap gallery can still shrink, reorder and swap), a key
  outside the property's prefix, or a new key that is not an uploaded image of its declared type; anything
  else becomes the gallery, in the order given, and no other row moves.
\<close>

lemma gallery_contract:
  assumes "properties_ok d" "p \<in> set (properties d)" "own_property d (session_of pr) p"
    "getGalleryCap d (session_of pr) = Some cap"
  shows "let grown = int (length keys) > cap \<and> length keys > length (p_photos p);
      foreign = (\<exists>k \<in> set keys. \<not> prefix (photoKeyPrefix (p_tenantId p) (p_id p)) k);
      fake = (\<exists>k \<in> set keys. k \<notin> set (p_photos p) \<and> \<not> isValidPhotoObject api st k);
      out = updatePhotos base api st (Some pr) (p_id p) keys d
    in if grown then out = Inl (BadRequest ''Gallery is full'')
       else if foreign then out = Inl (BadRequest ''Every photo key must belong to this property'')
       else if fake then out = Inl (BadRequest ''Not an uploaded image'')
       else \<exists>r. out = Inr (r, set_photos (p_id p) keys d) \<and> map ph_key (pw_photos r) = keys \<and>
         (int (length keys) \<le> cap \<or> length keys \<le> length (p_photos p))"
proof -
  have d: "distinct (map p_id (properties d))" using assms(1) by (simp add: properties_ok_def)
  have found: "getOwnedOrThrow (Some pr) (p_id p) d = Inr (p, pricedUnitCount d (session_of pr) p)"
    using findById_eq [OF d assms(2,3)] by (simp add: getOwnedOrThrow_def)
  have cap: "galleryCap (Some pr) d = Inr cap" using assms(4) by (simp add: galleryCap_def cap_or_throw_def)
  have tid: "context_tenantId (Some pr) = Inr (p_tenantId p)"
    using assms(3) by (simp add: context_tenantId_def own_property_def)
  obtain n where upd: "update_repo (session_of pr) (p_id p) (no_patch\<lparr>pp_photos := Some keys\<rparr>) d =
      Inr (Some (p\<lparr>p_photos := keys\<rparr>, n), set_photos (p_id p) keys d)"
    using update_photos_repo [OF assms(1-3)] by blast
  have "propertyTimeZoneSchema (p_timeZone p)"
    using assms(1,2) by (auto simp: properties_ok_def property_check_None)
  then obtain r where r: "property_toResponse base (p\<lparr>p_photos := keys\<rparr>, n) = Inr r" "map ph_key (pw_photos r) = keys"
    by (auto simp: property_toResponse_def comp_def)
  show ?thesis
    unfolding updatePhotos_def found cap tid Let_def
    using upd r by (auto simp: guard_res_def answer_property_def)
qed

section \<open>The guarded delete\<close>

lemma delete_properties_cases:
  assumes "delete_properties P d = Inr d'"
  obtains d1 where "delete_units (\<lambda>u. \<exists>p \<in> set (properties d). P p \<and> p_id p = u_propertyId u) d = Inr d1"
    "properties d' = filter (\<lambda>p. \<not> P p) (properties d)"
    "d' = d1\<lparr>properties := properties d', user_properties := user_properties d',
       staff_invite_properties := staff_invite_properties d'\<rparr>"
    "user_properties d' = filter (\<lambda>x. \<not> (\<exists>p \<in> set (properties d). P p \<and> p_id p = up_propertyId x)) (user_properties d)"
    "staff_invite_properties d' =
       filter (\<lambda>x. \<not> (\<exists>p \<in> set (properties d). P p \<and> p_id p = sip_propertyId x)) (staff_invite_properties d)"
  using assms by (auto simp: delete_properties_def Let_def bind_res_Inr_iff)

lemma countPropertyBookings_owner:
  assumes "booking_table_ok d" "inventory_ok d" "p \<in> set (properties d)" "p_tenantId p = tid"
  shows "countPropertyBookings d (session_of (User_principal u tid Owner)) (p_id p) > 0 \<longleftrightarrow>
    (\<exists>b \<in> set (bookings d). \<exists>x \<in> set (units d). u_id x = bk_unitId b \<and> u_propertyId x = p_id p)"
proof -
  let ?s = "session_of (User_principal u tid Owner)"
  have tenant: "u_tenantId x = tid" if x: "x \<in> set (units d)" "u_propertyId x = p_id p" for x
  proof -
    obtain q where "q \<in> set (properties d)" "p_id q = p_id p" "p_tenantId q = u_tenantId x"
      using assms(2) x unfolding inventory_ok_def by metis
    moreover have "q = p" using calculation assms(2,3) unfolding inventory_ok_def distinct_map by (metis inj_onD)
    ultimately show ?thesis using assms(4) by simp
  qed
  have booked: "bk_tenantId b = u_tenantId x"
    if b: "b \<in> set (bookings d)" "x \<in> set (units d)" "u_id x = bk_unitId b" for b x
  proof -
    obtain y where "y \<in> set (units d)" "u_id y = bk_unitId b" "u_tenantId y = bk_tenantId b"
      using assms(1) b(1) unfolding booking_table_ok_def by blast
    moreover have "y = x" using calculation b assms(2) unfolding inventory_ok_def distinct_map by (metis inj_onD)
    ultimately show ?thesis by simp
  qed
  have "(b, x) \<in> set (filter (\<lambda>(b, u). rls_booking d ?s b \<and> rls_unit d ?s u \<and> bk_unitId b = u_id u \<and>
        u_propertyId u = p_id p \<and> bk_tenantId b = s_tenantId ?s) (List.product (bookings d) (units d))) \<longleftrightarrow>
      b \<in> set (bookings d) \<and> x \<in> set (units d) \<and> u_id x = bk_unitId b \<and> u_propertyId x = p_id p" for b x
  proof -
    have "rls_unit d ?s x \<longleftrightarrow> u_tenantId x = tid" by (simp add: rls_unit_def)
    moreover have "rls_booking d ?s b \<longleftrightarrow> bk_tenantId b = tid" if "b \<in> set (bookings d)"
      using rls_booking_all [OF assms(1) _ that, of ?s] by simp
    ultimately show ?thesis using tenant [of x] booked [of b x] by auto
  qed
  note member = this
  have nonempty: "xs \<noteq> [] \<longleftrightarrow> (\<exists>b x. (b, x) \<in> set xs)" for xs :: "(booking_row \<times> unit_row) list"
    by (cases xs) auto
  show ?thesis
    unfolding countPropertyBookings_def length_greater_0_conv nonempty member by blast
qed

lemma delete_properties_db_ok:
  assumes "db_ok d" "delete_properties P d = Inr d'"
  shows "db_ok d'"
proof -
  obtain d1 where d1: "delete_units (\<lambda>u. \<exists>p \<in> set (properties d). P p \<and> p_id p = u_propertyId u) d = Inr d1"
    and p: "properties d' = filter (\<lambda>p. \<not> P p) (properties d)"
    and d': "d' = d1\<lparr>properties := properties d', user_properties := user_properties d',
       staff_invite_properties := staff_invite_properties d'\<rparr>"
    by (rule delete_properties_cases [OF assms(2)])
  note c = delete_units_cases [OF d1]
  have same: "units d' = units d1" "bookings d' = bookings d1" "price_overrides d' = price_overrides d1"
    by (subst d', simp)+
  have i1: "inventory_ok d1" and b1: "booking_table_ok d1" and o1: "override_table_ok d1"
    using delete_units_inventory_ok delete_units_booking_ok delete_units_overrides_ok d1 assms(1) by blast+
  have "\<exists>q \<in> set (properties d'). p_id q = u_propertyId u \<and> p_tenantId q = u_tenantId u" if "u \<in> set (units d')" for u
  proof -
    have "\<exists>q \<in> set (properties d). p_id q = u_propertyId u \<and> p_tenantId q = u_tenantId u"
      using i1 that c(2) by (simp add: inventory_ok_def same)
    moreover have "\<not> (\<exists>p \<in> set (properties d). P p \<and> p_id p = u_propertyId u)"
      using that c(1) by (simp add: same)
    ultimately show ?thesis unfolding p by auto
  qed
  then have "inventory_ok d'"
    using i1 unfolding inventory_ok_def same by (simp add: p c(2) distinct_map_filter)
  moreover have "booking_table_ok d'" using b1 by (simp add: booking_table_ok_def same)
  moreover have "override_table_ok d'" using o1 by (simp add: override_table_ok_def same)
  moreover have "dates_ok d'"
    using db_okD(4) [OF assms(1)] unfolding dates_ok_def same c(4,5) by auto
  ultimately show ?thesis by (simp add: db_ok_def)
qed

text \<open>
  Claim C25. The guarded delete of a property (ADR-0002): an unknown or foreign property is 404; one under
  which any booking was ever written is refused with a positive count and loses nothing; otherwise it
  goes, with its units and the grants on it, and no constraint is ever tripped: no booking row is lost or
  moved, and the ledger's invariant is kept.
\<close>

theorem remove_property_contract:
  assumes "db_ok d"
  shows "let out = remove_property (Some (User_principal u tid Owner)) pid d;
      mine = (\<lambda>p. p_tenantId p = tid \<and> p_id p = pid);
      booked = (\<exists>b \<in> set (bookings d). \<exists>x \<in> set (units d). u_id x = bk_unitId b \<and> u_propertyId x = pid)
    in if \<not> (\<exists>p \<in> set (properties d). mine p) then out = Inl (NotFound ''Property not found'')
       else if booked then \<exists>n > 0. out = Inl (Conflict (Property_has_bookings n))
       else \<exists>d'. out = Inr d' \<and> db_ok d' \<and>
         properties d' = filter (\<lambda>p. p_id p \<noteq> pid) (properties d) \<and>
         units d' = filter (\<lambda>x. u_propertyId x \<noteq> pid) (units d) \<and>
         user_properties d' = filter (\<lambda>x. up_propertyId x \<noteq> pid) (user_properties d) \<and>
         map (\<lambda>b. (bk_id b, bk_unitId b, bk_status b, bk_checkIn b, bk_checkOut b)) (bookings d') =
           map (\<lambda>b. (bk_id b, bk_unitId b, bk_status b, bk_checkIn b, bk_checkOut b)) (bookings d)"
proof -
  let ?s = "session_of (User_principal u tid Owner)"
  let ?out = "remove_property (Some (User_principal u tid Owner)) pid d"
  have inv: "inventory_ok d" "booking_table_ok d" using assms by auto
  show ?thesis
  proof (cases "\<exists>p \<in> set (properties d). p_tenantId p = tid \<and> p_id p = pid")
    case False
    then have "?out = Inl (NotFound ''Property not found'')"
      by (simp add: remove_property_def lockProperty_def assertInTransaction_def intercept_def)
    then show ?thesis using False by simp
  next
    case True
    then obtain p where p: "p \<in> set (properties d)" "p_tenantId p = tid" "p_id p = pid" by blast
    have step: "?out = intercept (let n = countPropertyBookings d ?s pid in
        if n > 0 then Inl (Conflict (Property_has_bookings n)) else delete_repo ?s pid d)"
      using True by (auto simp: remove_property_def lockProperty_def assertInTransaction_def cong: if_cong)
    have count: "countPropertyBookings d ?s pid > 0 \<longleftrightarrow>
        (\<exists>b \<in> set (bookings d). \<exists>x \<in> set (units d). u_id x = bk_unitId b \<and> u_propertyId x = pid)"
      using countPropertyBookings_owner [OF inv(2,1) p(1,2)] p(3) by simp
    show ?thesis
    proof (cases "countPropertyBookings d ?s pid > 0")
      case True
      then show ?thesis using step count p by (auto simp: Let_def)
    next
      case False
      have mine: "this_property d ?s pid q \<longleftrightarrow> p_id q = pid" if "q \<in> set (properties d)" for q
      proof -
        have "q = p" if "p_id q = pid"
          using inv(1) p that \<open>q \<in> set (properties d)\<close> unfolding inventory_ok_def distinct_map by (metis inj_onD)
        then show ?thesis using p by auto
      qed
      have gone: "(\<exists>q \<in> set (properties d). this_property d ?s pid q \<and> p_id q = n) \<longleftrightarrow> n = pid" for n
        using p mine by auto
      have free: "\<not> (\<exists>b \<in> set (bookings d). \<exists>x \<in> set (units d). u_propertyId x = pid \<and> u_id x = bk_unitId b)"
        using False unfolding count by blast
      obtain d' where d': "delete_repo ?s pid d = Inr d'"
        using free unfolding delete_repo_def delete_properties_def gone
        by (cases "delete_units (\<lambda>u. u_propertyId u = pid) d") (auto simp: delete_units_def Let_def split: if_splits)
      obtain d1 where d1: "delete_units (\<lambda>x. \<exists>q \<in> set (properties d). this_property d ?s pid q \<and> p_id q = u_propertyId x) d = Inr d1"
        and ps: "properties d' = filter (\<lambda>p. \<not> this_property d ?s pid p) (properties d)"
        and eq: "d' = d1\<lparr>properties := properties d', user_properties := user_properties d',
           staff_invite_properties := staff_invite_properties d'\<rparr>"
        and ups: "user_properties d' = filter (\<lambda>x. \<not> (\<exists>q \<in> set (properties d). this_property d ?s pid q \<and> p_id q = up_propertyId x)) (user_properties d)"
        and "staff_invite_properties d' =
           filter (\<lambda>x. \<not> (\<exists>q \<in> set (properties d). this_property d ?s pid q \<and> p_id q = sip_propertyId x)) (staff_invite_properties d)"
        by (rule delete_properties_cases [OF d' [unfolded delete_repo_def]])
      note c = delete_units_cases [OF d1]
      have same: "units d' = units d1" "bookings d' = bookings d1" by (subst eq, simp)+
      have out: "?out = Inr d'" using step False d' by simp
      have "db_ok d'" using delete_properties_db_ok [OF assms d' [unfolded delete_repo_def]] .
      moreover have "properties d' = filter (\<lambda>p. p_id p \<noteq> pid) (properties d)"
        unfolding ps by (intro filter_cong) (simp_all add: mine del: owner_scope)
      moreover have "units d' = filter (\<lambda>x. u_propertyId x \<noteq> pid) (units d)" unfolding same c(1) gone ..
      moreover have "user_properties d' = filter (\<lambda>x. up_propertyId x \<noteq> pid) (user_properties d)" unfolding ups gone ..
      moreover have "map (\<lambda>b. (bk_id b, bk_unitId b, bk_status b, bk_checkIn b, bk_checkOut b)) (bookings d') =
           map (\<lambda>b. (bk_id b, bk_unitId b, bk_status b, bk_checkIn b, bk_checkOut b)) (bookings d)"
        unfolding same c(4) by simp
      ultimately show ?thesis using out p free unfolding Let_def by auto
    qed
  qed
qed

end
