(* ===== verification/Photo_Rules.thy ===== *)
theory Photo_Rules
  imports Property_Rules
begin

text \<open>
  Galleries and the object store together: what one sweep deletes, and the invariant that no gallery
  points at a missing object, over every interleaving of uploads, gallery edits, creations, deletes and
  sweeps.
\<close>

section \<open>One sweep\<close>

text \<open>The keys a sweep may take, decided on the state before it.\<close>

definition sweepable :: "'st object_api \<Rightarrow> db \<Rightarrow> 'st \<Rightarrow> instant \<Rightarrow> uuid list option \<Rightarrow> string \<Rightarrow> bool" where
  "sweepable api d st now tenantIds k \<longleftrightarrow>
     (\<exists>os. list_tenants api st (case tenantIds of Some is \<Rightarrow> is | None \<Rightarrow> allTenantIds d) = Some os \<and>
        (\<exists>o1 \<in> set os. so_key o1 = k \<and>
           (oversize o1 \<or> k \<notin> set (referencedKeys d) \<and> isOld o1 (now - PHOTO_GC_GRACE_MS))))"

lemma sweep_outcome:
  assumes "store_lawful api"
  shows "\<exists>r d' st'. sweep api now tenantIds d st = Some (r, d', st') \<and>
    (\<forall>k. oa_get api st' k = (if sweepable api d st now tenantIds k then None else oa_get api st k)) \<and>
    (\<forall>k. k \<in> set (referencedKeys d') \<longrightarrow> k \<in> set (referencedKeys d) \<and> oa_get api st' k = oa_get api st k) \<and>
    (\<forall>k. sweepable api d st now tenantIds k \<longrightarrow>
       (\<exists>i \<in> set (case tenantIds of Some is \<Rightarrow> is | None \<Rightarrow> allTenantIds d). prefix (i @ ''/'') k)) \<and>
    (\<exists>big. d' = d\<lparr>properties := map (without_keys big) (properties d)\<rparr> \<and>
       (\<forall>k \<in> set big. sweepable api d st now tenantIds k))"
proof -
  obtain os where run: "sweep api now tenantIds d st = Some
       (\<lparr>gc_deletedOrphans = length (orphanKeys d (now - PHOTO_GC_GRACE_MS) os), gc_evictedOversize = length (oversizeKeys os)\<rparr>,
        d\<lparr>properties := map (without_keys (oversizeKeys os)) (properties d)\<rparr>,
        deleteObjects api (oversizeKeys os @ orphanKeys d (now - PHOTO_GC_GRACE_MS) os) st)"
    and os: "list_tenants api st (case tenantIds of Some is \<Rightarrow> is | None \<Rightarrow> allTenantIds d) = Some os"
    and keys: "\<And>k. k \<in> so_key ` set os \<longleftrightarrow>
       (\<exists>i \<in> set (case tenantIds of Some is \<Rightarrow> is | None \<Rightarrow> allTenantIds d). prefix (i @ ''/'') k) \<and>
       k \<noteq> [] \<and> stored api st k"
    by (rule sweep_eq [OF assms, where now = now and tenantIds = tenantIds and d = d and st = st]) blast
  let ?gone = "oversizeKeys os @ orphanKeys d (now - PHOTO_GC_GRACE_MS) os"
  have gone: "sweepable api d st now tenantIds k \<longleftrightarrow> k \<in> set ?gone" for k
    unfolding sweepable_def os by (auto simp: oversizeKeys_def orphanKeys_def)
  have get: "oa_get api (deleteObjects api ?gone st) k = (if sweepable api d st now tenantIds k then None else oa_get api st k)" for k
    unfolding deleteObjects_get [OF assms] gone ..
  have refs: "k \<in> set (referencedKeys (d\<lparr>properties := map (without_keys (oversizeKeys os)) (properties d)\<rparr>)) \<longleftrightarrow>
      k \<in> set (referencedKeys d) \<and> k \<notin> set (oversizeKeys os)" for k
    by (auto simp: referencedKeys_iff without_keys_def)
  have spared: "\<not> sweepable api d st now tenantIds k"
    if "k \<in> set (referencedKeys d)" "k \<notin> set (oversizeKeys os)" for k
    using that unfolding gone by (auto simp: orphanKeys_def)
  have prefixed: "\<exists>i \<in> set (case tenantIds of Some is \<Rightarrow> is | None \<Rightarrow> allTenantIds d). prefix (i @ ''/'') k"
    if "sweepable api d st now tenantIds k" for k
  proof -
    have "k \<in> so_key ` set os" using that unfolding gone by (auto simp: oversizeKeys_def orphanKeys_def)
    then show ?thesis using keys by blast
  qed
  have big: "sweepable api d st now tenantIds k" if "k \<in> set (oversizeKeys os)" for k
    using that unfolding gone by simp
  define d' where "d' = d\<lparr>properties := map (without_keys (oversizeKeys os)) (properties d)\<rparr>"
  define st' where "st' = deleteObjects api ?gone st"
  have get': "\<forall>k. oa_get api st' k = (if sweepable api d st now tenantIds k then None else oa_get api st k)"
    using get unfolding st'_def by blast
  have refs': "\<forall>k. k \<in> set (referencedKeys d') \<longrightarrow> k \<in> set (referencedKeys d) \<and> oa_get api st' k = oa_get api st k"
    using refs spared get' unfolding d'_def [symmetric] by auto
  have "\<exists>big. d' = d\<lparr>properties := map (without_keys big) (properties d)\<rparr> \<and>
      (\<forall>k \<in> set big. sweepable api d st now tenantIds k)" using big unfolding d'_def by blast
  then show ?thesis
    using run [folded d'_def st'_def] get' refs' prefixed by blast
qed


section \<open>No gallery dangles\<close>

definition gallery_ok :: "'st object_api \<Rightarrow> db \<Rightarrow> 'st \<Rightarrow> bool" where
  "gallery_ok api d st \<longleftrightarrow>
     properties_ok d \<and>
     (\<forall>p \<in> set (properties d). \<forall>k \<in> set (p_photos p).
        prefix (photoKeyPrefix (p_tenantId p) (p_id p)) k \<and> stored api st k)"

text \<open>What happens to the two together. An upload (by whoever holds a presigned address) may add or
  replace objects, and removes none.\<close>

inductive photo_step :: "'st object_api \<Rightarrow> db \<times> 'st \<Rightarrow> db \<times> 'st \<Rightarrow> bool" for api where
  photo_upload: "\<forall>k. stored api st k \<longrightarrow> stored api st' k \<Longrightarrow> photo_step api (d, st) (d, st')"
| photo_edit: "updatePhotos base api st (Some pr) pid keys d = Inr (r, d') \<Longrightarrow> photo_step api (d, st) (d', st)"
| photo_create: "create_property base nfkd rnd (Some pr) now newId dto d = Inr (r, d') \<Longrightarrow>
     newId \<notin> p_id ` set (properties d) \<Longrightarrow> photo_step api (d, st) (d', st)"
| photo_delete: "remove_property (Some pr) pid d = Inr d' \<Longrightarrow> photo_step api (d, st) (d', st)"
| photo_sweep: "sweep api now tenantIds d st = Some (r, d', st') \<Longrightarrow> photo_step api (d, st) (d', st')"

lemma mint_cases:
  assumes "mint s newId now dto slugs d = Inr (row, d')"
  obtains slug where "row = (new_property newId (s_tenantId s) now dto slug, 0)"
    "property_check (fst row) = None" "\<forall>p \<in> set (properties d). p_slug p \<noteq> slug" "rls_property d s (fst row)"
    "d' = d\<lparr>properties := properties d @ [fst row]\<rparr>"
proof -
  have "\<exists>slug. row = (new_property newId (s_tenantId s) now dto slug, 0) \<and>
      property_check (fst row) = None \<and> (\<forall>p \<in> set (properties d). p_slug p \<noteq> slug) \<and> rls_property d s (fst row) \<and>
      d' = d\<lparr>properties := properties d @ [fst row]\<rparr>"
    using assms
  proof (induction slugs)
    case (Cons slug slugs)
    show ?case
    proof (cases "\<exists>p \<in> set (properties d). p_slug p = slug")
      case True
      have "p_slug (new_property newId (s_tenantId s) now dto slug) = slug" by (simp add: new_property_def)
      then have "mint s newId now dto slugs d = Inr (row, d')"
        using Cons.prems True
        by (auto simp: createWithSlug_def insert_property_or_nothing_def bind_res_Inr_iff split: if_splits option.splits)
      then show ?thesis by (rule Cons.IH)
    next
      case False
      have "p_slug (new_property newId (s_tenantId s) now dto slug) = slug" by (simp add: new_property_def)
      then show ?thesis
        using Cons.prems False
        by (auto simp: createWithSlug_def insert_property_or_nothing_def bind_res_Inr_iff split: if_splits option.splits)
    qed
  qed simp
  then show thesis using that by blast
qed

lemma create_property_cases:
  assumes "create_property base nfkd rnd (Some pr) now newId dto d = Inr (r, d')"
  obtains row where "d' = d\<lparr>properties := properties d @ [row]\<rparr>" "p_id row = newId" "p_photos row = []"
    "property_check row = None" "\<forall>p \<in> set (properties d). p_slug p \<noteq> p_slug row"
    "p_tenantId row = principal_tenant pr" "rls_property d (session_of pr) row"
proof -
  obtain row where "mint (session_of pr) newId now dto (slugCandidates nfkd rnd (cp_name dto)) d = Inr (row, d')"
    using assms by (auto simp: create_property_def bind_res_Inr_iff split: prod.splits)
  then show thesis
    by (rule mint_cases) (rule that, auto simp: new_property_def)
qed

lemma create_property_ok:
  assumes "properties_ok d" "newId \<notin> p_id ` set (properties d)"
    "create_property base nfkd rnd (Some pr) now newId dto d = Inr (r, d')"
  shows "properties_ok d'"
proof -
  obtain row where "d' = d\<lparr>properties := properties d @ [row]\<rparr>" "p_id row = newId"
    "property_check row = None" "\<forall>p \<in> set (properties d). p_slug p \<noteq> p_slug row"
    using create_property_cases [OF assms(3)] by metis
  then show ?thesis using assms(1,2) by (auto simp: properties_ok_def image_iff)
qed

text \<open>A write that moves neither id, slug, nor a checked column.\<close>

lemma update_where_properties_ok:
  assumes "properties_ok d"
    "\<And>p. p_id (f p) = p_id p" "\<And>p. p_slug (f p) = p_slug p"
    "\<And>p. p \<in> set (properties d) \<Longrightarrow> P p \<Longrightarrow> property_check (f p) = None"
  shows "properties_ok (d\<lparr>properties := update_where P f (properties d)\<rparr>)"
proof -
  have "map p_id (update_where P f (properties d)) = map p_id (properties d)"
    "map p_slug (update_where P f (properties d)) = map p_slug (properties d)"
    using assms(2,3) by (auto intro!: map_update_where)
  then show ?thesis using assms(1,4) by (auto simp: properties_ok_def set_update_where)
qed

lemma set_photos_ok:
  assumes "properties_ok d"
  shows "properties_ok (set_photos pid keys d)"
  unfolding set_photos_def using assms
  by (intro update_where_properties_ok) (auto simp: properties_ok_def property_check_None)

lemma updatePhotos_cases:
  assumes "properties_ok d" "updatePhotos base api st (Some pr) pid keys d = Inr (r, d')"
  obtains p where "p \<in> set (properties d)" "own_property d (session_of pr) p" "p_id p = pid"
    "\<forall>k \<in> set keys. prefix (photoKeyPrefix (p_tenantId p) pid) k \<and> (k \<in> set (p_photos p) \<or> isValidPhotoObject api st k)"
    "d' = set_photos pid keys d"
proof -
  obtain p n cap where p: "getOwnedOrThrow (Some pr) pid d = Inr (p, n)" "galleryCap (Some pr) d = Inr cap"
    using assms(2) by (auto simp: updatePhotos_def bind_res_Inr_iff)
  then have own: "p \<in> set (properties d)" "own_property d (session_of pr) p" "p_id p = pid"
    by (auto simp: getOwnedOrThrow_def findById_def dest!: select_one_SomeD split: option.splits)
  have cap: "getGalleryCap d (session_of pr) = Some cap"
    using p(2) by (auto simp: galleryCap_def cap_or_throw_def split: option.splits)
  have out: "updatePhotos base api st (Some pr) (p_id p) keys d = Inr (r, d')" using assms(2) own(3) by simp
  from gallery_contract [OF assms(1) own(1,2) cap, of keys api st base, unfolded Let_def out]
  show thesis using own(3) by (intro that [OF own]) (auto split: if_split_asm)
qed

lemma photo_step_ok:
  assumes "store_lawful api" "photo_step api x y" "gallery_ok api (fst x) (snd x)"
  shows "gallery_ok api (fst y) (snd y)"
  using assms(2,3)
proof cases
  case (photo_upload st st' d)
  then show ?thesis using assms(3) by (auto simp: gallery_ok_def)
next
  case (photo_edit base st pr pid keys d r d')
  have ok: "properties_ok d" using assms(3) photo_edit by (simp add: gallery_ok_def)
  obtain p where p: "p \<in> set (properties d)" "p_id p = pid" "d' = set_photos pid keys d"
    "\<forall>k \<in> set keys. prefix (photoKeyPrefix (p_tenantId p) pid) k \<and> (k \<in> set (p_photos p) \<or> isValidPhotoObject api st k)"
    by (rule updatePhotos_cases [OF ok photo_edit(3)]) blast
  have keys: "prefix (photoKeyPrefix (p_tenantId p) pid) k \<and> stored api st k" if "k \<in> set keys" for k
    using p(1,4) that assms(3) photo_edit(1)
    by (auto simp: gallery_ok_def isValidPhotoObject_def stored_def split: option.splits)
  have only: "q = p" if "q \<in> set (properties d)" "p_id q = pid" for q
    using ok p(1,2) that unfolding properties_ok_def distinct_map by (metis inj_onD)
  have "prefix (photoKeyPrefix (p_tenantId q) (p_id q)) k \<and> stored api st k"
    if q: "q \<in> set (properties d')" "k \<in> set (p_photos q)" for q k
  proof -
    obtain q0 where q0: "q0 \<in> set (properties d)" "q = (if p_id q0 = pid then q0\<lparr>p_photos := keys\<rparr> else q0)"
      using q(1) unfolding p(3) set_photos_def by (auto simp: update_where_def)
    show ?thesis
    proof (cases "p_id q0 = pid")
      case True
      then show ?thesis using q0 only [OF q0(1)] keys q(2) p(2) by simp
    next
      case False
      then show ?thesis using q0 q(2) assms(3) photo_edit(1) by (auto simp: gallery_ok_def)
    qed
  qed
  then show ?thesis using set_photos_ok [OF ok, of pid keys] photo_edit p(3) by (simp add: gallery_ok_def)
next
  case (photo_create base nfkd rnd pr now newId dto d r d' st)
  have ok: "properties_ok d" using assms(3) photo_create by (simp add: gallery_ok_def)
  obtain row where "d' = d\<lparr>properties := properties d @ [row]\<rparr>" "p_photos row = []"
    using create_property_cases [OF photo_create(3)] by metis
  then show ?thesis
    using create_property_ok [OF ok photo_create(4,3)] assms(3) photo_create(1,2) by (auto simp: gallery_ok_def)
next
  case (photo_delete pr pid d d' st)
  have "set (properties d') \<subseteq> set (properties d) \<and> properties_ok d'"
  proof -
    obtain P where "delete_properties P d = Inr d'"
      using photo_delete(3) by (auto simp: remove_property_def delete_repo_def Let_def bind_res_Inr_iff split: if_splits)
    then have "properties d' = filter (\<lambda>p. \<not> P p) (properties d)" by (rule delete_properties_cases) simp
    then show ?thesis
      using assms(3) photo_delete(1) by (auto simp: gallery_ok_def properties_ok_def distinct_map_filter)
  qed
  then show ?thesis using assms(3) photo_delete(1,2) by (auto simp: gallery_ok_def)
next
  case (photo_sweep now tenantIds d st r d' st')
  obtain r2 d2 st2 where s: "sweep api now tenantIds d st = Some (r2, d2, st2)"
    "\<And>k. k \<in> set (referencedKeys d2) \<Longrightarrow> oa_get api st2 k = oa_get api st k"
    "\<exists>big. d2 = d\<lparr>properties := map (without_keys big) (properties d)\<rparr>"
    using sweep_outcome [OF assms(1), of now tenantIds d st] by blast
  have e: "d' = d2" "st' = st2" using s(1) photo_sweep(3) by auto
  obtain big where big: "d' = d\<lparr>properties := map (without_keys big) (properties d)\<rparr>" using s(3) e by blast
  have wk: "p_id (without_keys big p) = p_id p" "p_slug (without_keys big p) = p_slug p"
    "p_tenantId (without_keys big p) = p_tenantId p" "property_check (without_keys big p) = property_check p"
    "set (p_photos (without_keys big p)) \<subseteq> set (p_photos p)" for p
    by (auto simp: without_keys_def property_check_def)
  have "properties_ok d'" using assms(3) photo_sweep(1) by (auto simp: gallery_ok_def properties_ok_def big wk comp_def)
  moreover have "prefix (photoKeyPrefix (p_tenantId q) (p_id q)) k \<and> stored api st' k"
    if q: "q \<in> set (properties d')" "k \<in> set (p_photos q)" for q k
  proof -
    obtain p where p: "p \<in> set (properties d)" "q = without_keys big p" using q(1) by (auto simp: big)
    have "k \<in> set (p_photos p)" using wk(5) p(2) q(2) by blast
    then have "prefix (photoKeyPrefix (p_tenantId p) (p_id p)) k \<and> stored api st k"
      using assms(3) photo_sweep(1) p(1) by (auto simp: gallery_ok_def)
    moreover have "oa_get api st' k = oa_get api st k"
      using s(2) [of k] q e by (auto simp: referencedKeys_iff)
    ultimately show ?thesis by (simp add: p(2) wk stored_def)
  qed
  ultimately show ?thesis using photo_sweep(2) by (simp add: gallery_ok_def)
qed

text \<open>
  Claim C27. No gallery ever points at a missing or foreign object: from a state where every gallery key
  carries its property's prefix and names a stored object, every sequence of uploads, gallery edits,
  property creations, guarded deletes and photo sweeps (at any clock, for any tenants) keeps it so, and
  keeps ids and public addresses unique and well-formed.
\<close>

theorem galleries_never_dangle:
  assumes "store_lawful api" "gallery_ok api d st" "(photo_step api)\<^sup>*\<^sup>* (d, st) (d', st')"
  shows "gallery_ok api d' st'"
  using assms(3)
proof (induction rule: rtranclp_induct2)
  case refl
  then show ?case by (rule assms(2))
next
  case (step d1 st1 d2 st2)
  then show ?case using photo_step_ok [OF assms(1) step(2)] by simp
qed

end
