(* ===== verification/Team_Refinement.thy ===== *)
theory Team_Refinement
  imports Team_Contracts Photo_Rules
begin

text \<open>
  The operations on people and properties as one step relation, and the refinement: the tables compute
  the abstract roster, and row-level security shows each staff session exactly what the roster gives it.
\<close>

section \<open>The steps\<close>

abbreviation owner :: "uuid \<Rightarrow> uuid \<Rightarrow> tenant_context" where
  "owner u tid \<equiv> Some (User_principal u tid Owner)"

inductive team_step :: "db \<Rightarrow> team_event \<Rightarrow> db \<Rightarrow> bool" where
  team_register: "register env rq d = Inr (a, d') \<Longrightarrow> fresh_ids env d \<Longrightarrow>
     team_step d (Registered (ae_newTenantId env) (ae_newUserId env)) d'"
| team_invite: "create_staff_invite ienv (owner u tid) dto d = (r, d') \<Longrightarrow> team_step d Quiet d'"
| team_revoke: "revoke_staff_invite ienv (owner u tid) iid d = Inr d' \<Longrightarrow> team_step d Quiet d'"
| team_accept: "accept_invite ienv q d = (Inr a, d') \<Longrightarrow>
     select_one (\<lambda>i. si_tokenHash i = ve_hashInviteToken ienv (aq_token q)) (staff_invites d) = Some i \<Longrightarrow>
     team_step d (Joined (si_tenantId i) (sb_userId (an_session a)) (invited_ids d (si_id i))) d'"
| team_refused: "accept_invite ienv q d = (Inl e, d') \<Longrightarrow> team_step d Quiet d'"
| team_assign: "updateAssignments collate (owner u tid) uid ids d = Inr (r, d') \<Longrightarrow>
     team_step d (Assigned tid uid (set ids)) d'"
| team_dismiss: "remove_staff (owner u tid) uid d = Inr d' \<Longrightarrow> team_step d (Dismissed tid uid) d'"
| team_property: "create_property base nfkd rnd (owner u tid) now newId dto d = Inr (r, d') \<Longrightarrow>
     newId \<notin> p_id ` set (properties d) \<Longrightarrow> team_step d Quiet d'"
| team_withdraw: "remove_property (owner u tid) pid d = Inr d' \<Longrightarrow> team_step d (Withdrawn pid) d'"

inductive team_run :: "db \<Rightarrow> team_event list \<Rightarrow> db \<Rightarrow> bool" where
  run_start: "team_run d [] d"
| run_more: "team_run d es d1 \<Longrightarrow> team_step d1 e d2 \<Longrightarrow> team_run d (es @ [e]) d2"

definition team_ok :: "db \<Rightarrow> bool" where
  "team_ok d \<longleftrightarrow> accounts_ok d \<and> properties_ok d"

lemma team_okD: "team_ok d \<Longrightarrow> accounts_ok d" "team_ok d \<Longrightarrow> properties_ok d"
    "team_ok d \<Longrightarrow> distinct (map p_id (properties d))"
  by (simp_all add: team_ok_def properties_ok_def)

section \<open>Properties and people\<close>

lemma append_property_ok:
  assumes "accounts_ok d"
  shows "accounts_ok (d\<lparr>properties := properties d @ [p]\<rparr>)"
  using assms unfolding accounts_ok_def users_ok_def grants_ok_def invites_ok_def seat_of_def owns_property_def
  by auto

lemma delete_properties_people:
  assumes "delete_properties P d = Inr d'"
  shows "tenants d' = tenants d" "app_users d' = app_users d" "memberships d' = memberships d"
    "staff_invites d' = staff_invites d"
proof -
  obtain d1 where u: "delete_units (\<lambda>u. \<exists>p \<in> set (properties d). P p \<and> p_id p = u_propertyId u) d = Inr d1"
    "d' = d1\<lparr>properties := properties d', user_properties := user_properties d',
       staff_invite_properties := staff_invite_properties d'\<rparr>"
    using assms by (rule delete_properties_cases) blast
  then have "tenants d1 = tenants d" "app_users d1 = app_users d" "memberships d1 = memberships d"
    "staff_invites d1 = staff_invites d"
    by (auto simp: delete_units_def delete_channels_def Let_def split: if_splits)
  moreover have "tenants d' = tenants d1" "app_users d' = app_users d1" "memberships d' = memberships d1"
    "staff_invites d' = staff_invites d1" by (subst u(2), simp)+
  ultimately show "tenants d' = tenants d" "app_users d' = app_users d" "memberships d' = memberships d"
    "staff_invites d' = staff_invites d" by simp_all
qed

lemma delete_properties_accounts_ok:
  assumes "accounts_ok d" "delete_properties P d = Inr d'"
  shows "accounts_ok d'"
proof -
  note s = delete_properties_people [OF assms(2)]
  let ?gone = "\<lambda>pid. \<exists>p \<in> set (properties d). P p \<and> p_id p = pid"
  obtain d1 where p: "properties d' = filter (\<lambda>p. \<not> P p) (properties d)"
    and g: "user_properties d' = filter (\<lambda>x. \<not> ?gone (up_propertyId x)) (user_properties d)"
    and i: "staff_invite_properties d' = filter (\<lambda>x. \<not> ?gone (sip_propertyId x)) (staff_invite_properties d)"
    using assms(2) by (rule delete_properties_cases) blast
  have owns: "owns_property d' pid tid" if "owns_property d pid tid" "\<not> ?gone pid" for pid tid
    using that by (auto simp: owns_property_def p)
  have seat: "seat_of d' = seat_of d" by (intro ext) (simp add: seat_of_def s)
  have "grants_ok d'"
    using accounts_okD(2) [OF assms(1)] owns unfolding grants_ok_def seat g by (auto simp: distinct_map_filter)
  moreover have "invites_ok d'"
    using accounts_okD(3) [OF assms(1)] owns unfolding invites_ok_def seat s i by (auto simp: distinct_map_filter)
  moreover have "users_ok d'" using accounts_okD(1) [OF assms(1)] unfolding users_ok_def s by simp
  ultimately show ?thesis by (simp add: accounts_ok_def)
qed

lemma remove_property_cases:
  assumes "remove_property (owner u tid) pid d = Inr d'"
  shows "delete_properties (\<lambda>p. p_tenantId p = tid \<and> p_id p = pid) d = Inr d'"
    "\<exists>p \<in> set (properties d). p_tenantId p = tid \<and> p_id p = pid"
proof -
  have "this_property d (session_of (User_principal u tid Owner)) pid = (\<lambda>p. p_tenantId p = tid \<and> p_id p = pid)"
    by (rule ext) simp
  then show "delete_properties (\<lambda>p. p_tenantId p = tid \<and> p_id p = pid) d = Inr d'"
    "\<exists>p \<in> set (properties d). p_tenantId p = tid \<and> p_id p = pid"
    using assms by (auto simp: remove_property_def lockProperty_def delete_repo_def Let_def bind_res_Inr_iff split: if_splits)
qed

section \<open>Each step moves the roster as its event says\<close>

lemma quiet_step: "memberships d' = memberships d \<Longrightarrow> user_properties d' = user_properties d \<Longrightarrow>
    roster_of d' = on_roster Quiet (roster_of d)"
  by (simp only: on_roster.simps) (rule roster_of_cong)

lemma register_roster:
  assumes "users_ok d" "grants_ok d" "fresh_ids env d" "register env rq d = Inr (a, d')"
  shows "roster_of d' = on_roster (Registered (ae_newTenantId env) (ae_newUserId env)) (roster_of d)"
proof -
  let ?m = "\<lparr>m_appUserId = ae_newUserId env, m_tenantId = ae_newTenantId env, m_role = Owner, m_createdAt = ae_now env\<rparr>"
  have d': "memberships d' = memberships d @ [?m]" "user_properties d' = user_properties d"
    using assms(4) by (rule register_cases, auto dest!: insert_app_user_cases insert_membership_cases)+
  have "\<not> seat_of d (ae_newUserId env) tid" for tid
    using assms(1,3) unfolding seat_of_def users_ok_def fresh_ids_def by (metis image_eqI)
  then have none: "role_of d (ae_newTenantId env) (ae_newUserId env) = None" using role_of_None by blast
  have "role_of d' t u = (if t = ae_newTenantId env \<and> u = ae_newUserId env then Some Owner else role_of d t u)" for t u
    using none unfolding role_of_def d'
    by (auto simp: select_one_append same_member_def simp del: select_one_None_iff split: option.split)
  moreover have "grants_of d' = grants_of d" by (rule grants_of_cong) (rule d'(2))
  ultimately show ?thesis by (intro ext) (auto simp: roster_of_def set_member_def)
qed

lemma send_invite_people:
  "memberships (snd (send_invite env s d)) = memberships d"
  "user_properties (snd (send_invite env s d)) = user_properties d"
  "properties (snd (send_invite env s d)) = properties d"
  by (auto simp: send_invite_def revokeInvite_def update_invites_def split: option.split)

lemma insert_each_keeps:
  assumes "\<And>r d d'. ins r d = Inr d' \<Longrightarrow> g d' = g d" "insert_each ins rs d = Inr d'"
  shows "g d' = g d"
  using assms(2) by (induction rs arbitrary: d) (auto simp: bind_res_Inr_iff dest!: assms(1))

lemma createInvite_keeps:
  assumes "createInvite s now n i d = Inr d'"
    "\<And>e x. g (e\<lparr>staff_invites := x\<rparr>) = g e" "\<And>e x. g (e\<lparr>staff_invite_properties := x\<rparr>) = g e"
  shows "g d' = g d"
proof -
  obtain r rs d1 where s: "insert_invite r d = Inr d1" "insert_each insert_invite_property rs d1 = Inr d'"
    using assms(1) by (auto simp: createInvite_def bind_res_Inr_iff)
  have step: "g e' = g e" if "insert_invite_property x e = Inr e'" for x e e'
    using that assms(3) by (auto simp: insert_invite_property_def split: option.splits)
  have "g d1 = g d" using s(1) assms(2) by (auto simp: insert_invite_def split: option.splits)
  moreover have "g d' = g d1" using step s(2) by (rule insert_each_keeps)
  ultimately show ?thesis by simp
qed

lemma createInvite_people:
  assumes "createInvite s now n i d = Inr d'"
  shows "memberships d' = memberships d" "user_properties d' = user_properties d" "properties d' = properties d"
  using createInvite_keeps [OF assms, of memberships] createInvite_keeps [OF assms, of user_properties]
    createInvite_keeps [OF assms, of properties] by simp_all

lemma create_staff_invite_people:
  assumes "create_staff_invite env (owner u tid) dto d = (r, d')"
  shows "memberships d' = memberships d \<and> user_properties d' = user_properties d \<and> properties d' = properties d"
proof -
  let ?same = "\<lambda>x. memberships x = memberships d \<and> user_properties x = user_properties d \<and> properties x = properties d"
  have sup: "?same (supersedeExpiredInvites s a b e d)" for s a b e
    by (simp add: supersedeExpiredInvites_def update_invites_def)
  have sent: "?same d3" if "createInvite s n i c (supersedeExpiredInvites s a b e d) = Inr d2" "send_invite env s d2 = (x, d3)"
    for s n i c a b e d2 x d3
    using createInvite_people [OF that(1)] send_invite_people [of env s d2] that(2) sup by simp
  show ?thesis
    using assms unfolding create_staff_invite_def Let_def
    by (auto simp: sup dest: sent split: if_splits option.splits sum.splits prod.splits)
qed

lemma accept_roster:
  assumes "team_ok d" "accept_invite env q d = (Inr a, d')"
    "select_one (\<lambda>i. si_tokenHash i = ve_hashInviteToken env (aq_token q)) (staff_invites d) = Some i"
  shows "roster_of d' = on_roster (Joined (si_tenantId i) (sb_userId (an_session a)) (invited_ids d (si_id i))) (roster_of d)"
    "properties d' = properties d"
proof -
  note ok = team_okD(1,3) [OF assms(1)]
  obtain v verified user tid where t: "findByTokenHash (ve_collate env) d (ve_hashInviteToken env (aq_token q)) = Some v"
      "accept_repo (ve_auth env) (ve_now env) (ve_dbNow env) (vw_id v) (ae_hash (ve_auth env) (aq_password q))
        verified d = Inr (Some (user, tid), d')"
      "issue (ve_auth env) d' user (Some tid) = Inr a"
    using accept_invite_cases [OF ok assms(2)] by auto
  obtain j where j: "j \<in> set (staff_invites d)" "tid = si_tenantId j" "spendable (ve_dbNow env) (vw_id v) j"
    "roster_of d' = on_roster (Joined tid (au_id user) (invited_ids d (vw_id v))) (roster_of d)"
    "properties d' = properties d"
    by (rule accept_repo_cases [OF ok t(2)]) blast
  have unique: "distinct (map si_id (staff_invites d))" "distinct (map si_tokenHash (staff_invites d))"
    using accounts_okD(3) [OF ok(1)] by (auto simp: invites_ok_def)
  obtain k where k: "k \<in> set (staff_invites d)" "si_id k = vw_id v" "si_tokenHash k = ve_hashInviteToken env (aq_token q)"
    using findByTokenHash_SomeD [OF t(1)] by blast
  have "i \<in> set (staff_invites d)" "si_tokenHash i = ve_hashInviteToken env (aq_token q)"
    using select_one_SomeD [OF assms(3)] by auto
  then have "i = k" using unique(2) k unfolding distinct_map by (metis inj_onD)
  moreover have "j = k" using unique(1) k j(1,3) unfolding distinct_map spendable_def by (metis inj_onD)
  moreover have "sb_userId (an_session a) = au_id user" by (rule issue_active [OF t(3)]) (simp add: toSession_def)
  ultimately show "roster_of d' = on_roster (Joined (si_tenantId i) (sb_userId (an_session a)) (invited_ids d (si_id i))) (roster_of d)"
    using j(2,4) k(2) by simp
  show "properties d' = properties d" by (rule j(5))
qed

lemma withdraw_roster:
  assumes "team_ok d" "remove_property (owner u tid) pid d = Inr d'"
  shows "roster_of d' = on_roster (Withdrawn pid) (roster_of d)" "team_ok d'"
proof -
  note c = remove_property_cases [OF assms(2)]
  obtain p where p: "p \<in> set (properties d)" "p_tenantId p = tid" "p_id p = pid" using c(2) by blast
  let ?P = "\<lambda>p. p_tenantId p = tid \<and> p_id p = pid"
  obtain d1 where ps: "properties d' = filter (\<lambda>p. \<not> ?P p) (properties d)"
    and ups: "user_properties d' = filter (\<lambda>x. \<not> (\<exists>p \<in> set (properties d). ?P p \<and> p_id p = up_propertyId x)) (user_properties d)"
    using c(1) by (rule delete_properties_cases) blast
  have gone: "(\<exists>q \<in> set (properties d). ?P q \<and> p_id q = n) \<longleftrightarrow> n = pid" for n using p by blast
  have "role_of d' = role_of d" by (rule role_of_cong) (rule delete_properties_people(3) [OF c(1)])
  moreover have "grants_of d' t x = grants_of d t x - {pid}" for t x
    unfolding set_eq_iff Diff_iff grants_of_iff ups gone by auto
  ultimately show "roster_of d' = on_roster (Withdrawn pid) (roster_of d)"
    by (intro ext) (simp add: roster_of_def)
  have "properties_ok d'"
    using team_okD(2) [OF assms(1)] by (auto simp: properties_ok_def ps distinct_map_filter)
  then show "team_ok d'"
    using delete_properties_accounts_ok [OF team_okD(1) [OF assms(1)] c(1)] by (simp add: team_ok_def)
qed

lemma properties_ok_cong: "properties d' = properties d \<Longrightarrow> properties_ok d' = properties_ok d"
  by (simp add: properties_ok_def)

lemma team_step_sound:
  assumes "team_step d e d'" "team_ok d"
  shows "team_ok d' \<and> roster_of d' = on_roster e (roster_of d)"
  using assms(1)
proof cases
  case (team_register env rq a)
  have "properties d' = properties d"
    using team_register(2)
  proof (rule register_cases)
    fix d1 assume "insert_app_user (new_user env (rr_email rq) (ae_hash env (rr_password rq)))
        (d\<lparr>tenants := tenants d @ [new_tenant env rq]\<rparr>) = Inr d1"
      "insert_membership \<lparr>m_appUserId = ae_newUserId env, m_tenantId = ae_newTenantId env, m_role = Owner,
        m_createdAt = ae_now env\<rparr> d1 = Inr d'"
    note d1 = this(1) [THEN insert_app_user_cases, THEN conjunct1] and d2 = this(2) [THEN insert_membership_cases, THEN conjunct1]
    have "properties d' = properties d1" unfolding d2 by simp
    also have "\<dots> = properties d" unfolding d1 by simp
    finally show ?thesis .
  qed
  then have "properties_ok d'" using team_okD(2) [OF assms(2)] properties_ok_cong [of d' d] by blast
  moreover have "roster_of d' = on_roster e (roster_of d)"
    unfolding team_register(1) using register_roster [OF _ _ team_register(3,2)] team_okD(1) [OF assms(2)] by blast
  ultimately show ?thesis
    using register_ok [OF team_okD(1) [OF assms(2)] team_register(3,2)] by (simp add: team_ok_def)
next
  case (team_invite ienv u tid dto r)
  have "accounts_ok d'" using create_staff_invite_ok [OF team_okD(1) [OF assms(2)], of ienv "owner u tid" dto] team_invite(2) by simp
  note same = create_staff_invite_people [OF team_invite(2)]
  show ?thesis
    using \<open>accounts_ok d'\<close> quiet_step [of d' d] same properties_ok_cong [of d' d] team_okD [OF assms(2)] team_invite(1)
    by (simp add: team_ok_def)
next
  case (team_revoke ienv u tid iid)
  have same: "memberships d' = memberships d" "user_properties d' = user_properties d" "properties d' = properties d"
    using team_revoke(2) by (auto simp: revoke_staff_invite_def revokeInvite_def update_invites_def split: if_splits bool.splits)
  show ?thesis
    using revoke_staff_invite_ok [OF team_okD(1) [OF assms(2)] team_revoke(2)] quiet_step [OF same(1,2)]
      properties_ok_cong [OF same(3)] team_okD [OF assms(2)] team_revoke(1) by (simp add: team_ok_def)
next
  case (team_accept ienv q a i)
  have "accounts_ok d'" using accept_invite_ok [OF team_okD(1) [OF assms(2)], of ienv q] team_accept(2) by simp
  then show ?thesis
    using accept_roster [OF assms(2) team_accept(2,3)] properties_ok_cong [of d' d] team_okD [OF assms(2)] team_accept(1)
    by (simp add: team_ok_def)
next
  case (team_refused ienv q e2)
  have "d' = d" using accept_invite_cases [OF team_okD(1,3) [OF assms(2)] team_refused(2)] by auto
  then show ?thesis using assms(2) team_refused(1) by simp
next
  case (team_assign collate u tid uid ids r)
  note c = updateAssignments_cases [OF team_assign(2)]
  have "properties d' = properties d" using replaceAssignments_eq [OF c(3)] by simp
  then show ?thesis
    using updateAssignments_ok [OF team_okD(1) [OF assms(2)] team_assign(2)] replaceAssignments_roster [OF c(3)]
      properties_ok_cong [of d' d] team_okD [OF assms(2)] team_assign(1) by (simp add: team_ok_def)
next
  case (team_dismiss u tid uid)
  have c: "staffExists d (session_of (User_principal u tid Owner)) uid"
    "d' = snd (removeStaff (session_of (User_principal u tid Owner)) uid d)"
    using team_dismiss(2) by (auto simp: remove_staff_def removeStaff_def split: if_splits bool.splits)
  have "properties d' = properties d" by (simp add: c(2) removeStaff_def delete_memberships_def Let_def)
  then show ?thesis
    using remove_staff_ok [OF team_okD(1) [OF assms(2)] team_dismiss(2)] removeStaff_roster [OF _ c(1)]
      properties_ok_cong [of d' d] team_okD [OF assms(2)] team_dismiss(1) c(2) by (auto simp: team_ok_def)
next
  case (team_property base nfkd rnd u tid now newId dto r)
  obtain row where row: "d' = d\<lparr>properties := properties d @ [row]\<rparr>"
    using create_property_cases [OF team_property(2)] by metis
  have same: "memberships d' = memberships d" "user_properties d' = user_properties d" by (simp_all add: row)
  show ?thesis
    using create_property_ok [OF team_okD(2) [OF assms(2)] team_property(3,2)] append_property_ok [OF team_okD(1) [OF assms(2)]]
      quiet_step [OF same] team_property(1) by (simp add: team_ok_def row)
next
  case (team_withdraw u tid pid)
  then show ?thesis using withdraw_roster [OF assms(2)] by blast
qed

text \<open>
  Claim C4. The tables refine the abstract roster, and row-level security enforces it. Along every run of
  the team's operations (registration, invites created, revoked, accepted and refused, assignments,
  dismissals, properties created and deleted) the tables stay consistent and the roster they hold is the
  one the events compute; after it a staff session reads exactly the properties the roster gives it,
  so the still valid token of somebody dismissed, or of a stranger, reads none.
\<close>

theorem team_refines_roster:
  assumes "team_run d es d'" "team_ok d"
  shows "team_ok d' \<and> roster_of d' = fold on_roster es (roster_of d) \<and>
    (\<forall>tid uid. visible_ids d' (User_principal uid tid Staff) = snd (fold on_roster es (roster_of d) tid uid)) \<and>
    (\<forall>tid uid. fst (fold on_roster es (roster_of d) tid uid) = None \<longrightarrow>
       visible_ids d' (User_principal uid tid Staff) = {})"
proof -
  have run: "team_ok d' \<and> roster_of d' = fold on_roster es (roster_of d)"
    using assms
  proof (induction rule: team_run.induct)
    case (run_more d es d1 e d2)
    then show ?case using team_step_sound [of d1 e d2] by simp
  qed simp
  then have g: "grants_ok d'" using team_okD(1) by blast
  have "snd (roster_of d' tid uid) = grants_of d' tid uid" "fst (roster_of d' tid uid) = role_of d' tid uid" for tid uid
    by (simp_all add: roster_of_def)
  then show ?thesis
    using run visible_staff [OF g] grants_need_seat [OF g] role_of_None [of d'] by auto
qed

end
