(* ===== verification/Public_Page.thy ===== *)
theory Public_Page
  imports Properties Bookings
begin

text \<open>
  The public property page (\<^verbatim>\<open>public-properties.service.ts\<close>, \<^verbatim>\<open>findPublicBySlug\<close>, \<^verbatim>\<open>public-property.ts\<close>)
  and the static document served to link-preview crawlers (\<^verbatim>\<open>packages/shared/src/og.ts\<close>,
  \<^verbatim>\<open>property-og-html.ts\<close>).
\<close>

section \<open>The projection\<close>

record public_unit_row =
  pu_id :: uuid
  pu_name :: string
  pu_basePriceIdr :: int
  pu_maxGuests :: int
  pu_minStay :: int

record public_property_row =
  pb_slug :: string
  pb_name :: string
  pb_address :: "string option"
  pb_description :: "string option"
  pb_verified :: bool
  pb_depositPct :: int
  pb_photos :: "string list"
  pb_units :: "public_unit_row list"

definition public_unit :: "unit_row \<Rightarrow> public_unit_row" where
  "public_unit u =
     \<lparr>pu_id = u_id u, pu_name = u_name u, pu_basePriceIdr = u_basePriceIdr u,
      pu_maxGuests = u_maxGuests u, pu_minStay = u_minStay u\<rparr>"

definition public_units :: "db \<Rightarrow> session \<Rightarrow> uuid \<Rightarrow> public_unit_row list" where
  "public_units d s pid =
     map public_unit (sort_key (\<lambda>u. (u_createdAt u, u_id u))
       (filter (\<lambda>u. rls_unit d s u \<and> u_propertyId u = pid \<and> u_tenantId u = s_tenantId s \<and>
          u_archivedAt u = None) (units d)))"

definition findPublicBySlug :: "db \<Rightarrow> session \<Rightarrow> string \<Rightarrow> public_property_row option" where
  "findPublicBySlug d s slug =
     map_option (\<lambda>p.
         \<lparr>pb_slug = p_slug p, pb_name = p_name p, pb_address = p_address p, pb_description = p_description p,
          pb_verified = isVerified (p_licenseNo p), pb_depositPct = p_depositPct p, pb_photos = p_photos p,
          pb_units = public_units d s (p_id p)\<rparr>)
       (select_one (\<lambda>p. own_property d s p \<and> p_slug p = slug \<and> p_archivedAt p = None) (properties d))"

section \<open>The page\<close>

record public_property_response =
  po_slug :: string
  po_name :: string
  po_address :: "string option"
  po_description :: "string option"
  po_verified :: bool
  po_depositPct :: int
  po_onlinePaymentsAvailable :: bool
  po_photos :: "string list"
    \<comment> \<open>the addresses, in gallery order\<close>
  po_units :: "public_unit_row list"

definition public_unit_response :: "public_unit_row \<Rightarrow> app_error + public_unit_row" where
  "public_unit_response u = bind_res (toRupiah (pu_basePriceIdr u)) (\<lambda>n. Inr (u\<lparr>pu_basePriceIdr := n\<rparr>))"

definition getBySlug ::
  "string \<Rightarrow> bool \<Rightarrow> string \<Rightarrow> db \<Rightarrow> tenant_context \<Rightarrow> app_error + public_property_response" where
  "getBySlug base requiresCredentials slug d ctx =
     bind_res (enterFromSlug slug d ctx) (\<lambda>ctx'.
     bind_res (db_run ctx' None (\<lambda>tx. Inr (findPublicBySlug d (tx_session tx) slug))) (\<lambda>found.
     case found of
       None \<Rightarrow> Inl (NotFound ''Property not found'')
     | Some row \<Rightarrow>
         bind_res (if \<not> requiresCredentials then Inr True
           else db_run ctx' None (\<lambda>tx.
             Inr (paymentCredentialExists d (tx_session tx) (s_tenantId (tx_session tx))))) (\<lambda>available.
         bind_res (map_res public_unit_response (pb_units row)) (\<lambda>us.
         if \<not> depositPctSchema (pb_depositPct row) then Inl (JsError ''invalid public payload'')
         else Inr \<lparr>po_slug = pb_slug row, po_name = pb_name row, po_address = pb_address row,
           po_description = pb_description row, po_verified = pb_verified row,
           po_depositPct = pb_depositPct row, po_onlinePaymentsAvailable = available,
           po_photos = map (publicUrl base) (pb_photos row), po_units = us\<rparr>))))"

section \<open>The preview document\<close>

record og_tags =
  og_title :: string
  og_description :: string
  og_image :: "string option"
  og_twitterCard :: string

definition js_or :: "string option \<Rightarrow> string \<Rightarrow> string" where
  "js_or v e = (case v of None \<Rightarrow> e | Some s \<Rightarrow> if s = [] then e else s)"

definition buildPropertyOgTags :: "public_property_response \<Rightarrow> og_tags" where
  "buildPropertyOgTags p =
     (let image = (case po_photos p of [] \<Rightarrow> None | u # _ \<Rightarrow> Some u) in
      \<lparr>og_title = po_name p @ '' - Book direct'',
       og_description = js_or (map_option js_trim (po_description p))
         (case po_address p of
            None \<Rightarrow> ''Book '' @ po_name p @ '' directly.''
          | Some a \<Rightarrow> if a = [] then ''Book '' @ po_name p @ '' directly.''
              else ''Book '' @ po_name p @ '' directly - '' @ a),
       og_image = image,
       og_twitterCard = (case image of None \<Rightarrow> ''summary''
          | Some u \<Rightarrow> if u = [] then ''summary'' else ''summary_large_image'')\<rparr>)"

definition ogCanonicalUrl :: "string option \<Rightarrow> string \<Rightarrow> string \<Rightarrow> string" where
  "ogCanonicalUrl configuredBase requestOrigin slug =
     strip_slashes (js_or (map_option js_trim configuredBase) requestOrigin) @ ''/p/'' @ slug"

text \<open>The five replacements, in order, each over the whole text.\<close>

definition escapeHtml :: "string \<Rightarrow> string" where
  "escapeHtml value =
     replace_char CHR 0x27 ''&#39;'' (replace_char CHR 0x22 ''&quot;'' (replace_char CHR ''>'' ''&gt;''
       (replace_char CHR ''<'' ''&lt;'' (replace_char CHR ''&'' ''&amp;'' value))))"

definition meta_tag :: "string \<Rightarrow> string \<Rightarrow> string \<Rightarrow> string" where
  "meta_tag attr name content =
     ''<meta '' @ attr @ ''='' @ [CHR 0x22] @ name @ [CHR 0x22] @ '' content='' @ [CHR 0x22] @ content @ [CHR 0x22] @ ''>''"

definition og_lines :: "og_tags \<Rightarrow> string \<Rightarrow> string list" where
  "og_lines tags url =
     (let t = escapeHtml (og_title tags); dsc = escapeHtml (og_description tags); u = escapeHtml url;
          img = (case og_image tags of None \<Rightarrow> None | Some i \<Rightarrow> if i = [] then None else Some (escapeHtml i));
          q = [CHR 0x22]
      in [''<!doctype html>'', ''<html lang='' @ q @ ''en'' @ q @ ''>'', ''<head>'',
          ''<meta charset='' @ q @ ''utf-8'' @ q @ ''>'',
          ''<title>'' @ t @ ''</title>'',
          meta_tag ''name'' ''description'' dsc,
          meta_tag ''property'' ''og:type'' ''website'',
          meta_tag ''property'' ''og:title'' t,
          meta_tag ''property'' ''og:description'' dsc,
          meta_tag ''property'' ''og:url'' u] @
         (case img of None \<Rightarrow> [] | Some i \<Rightarrow> [meta_tag ''property'' ''og:image'' i]) @
         [meta_tag ''name'' ''twitter:card'' (escapeHtml (og_twitterCard tags)),
          meta_tag ''name'' ''twitter:title'' t,
          meta_tag ''name'' ''twitter:description'' dsc] @
         (case img of None \<Rightarrow> [] | Some i \<Rightarrow> [meta_tag ''name'' ''twitter:image'' i]) @
         [''<link rel='' @ q @ ''canonical'' @ q @ '' href='' @ q @ u @ q @ ''>'',
          ''<meta http-equiv='' @ q @ ''refresh'' @ q @ '' content='' @ q @ ''0; url='' @ u @ q @ ''>'',
          ''</head>'', ''<body>'',
          ''<p>Redirecting to <a href='' @ q @ u @ q @ ''>'' @ t @ ''</a>.</p>'',
          ''</body>'', ''</html>''])"

definition renderPropertyOgHtml :: "og_tags \<Rightarrow> string \<Rightarrow> string" where
  "renderPropertyOgHtml tags canonicalUrl =
     (let nl = [CHR 0x0A] in join nl (og_lines tags canonicalUrl) @ nl)"

definition getOgHtmlBySlug ::
  "string \<Rightarrow> bool \<Rightarrow> string option \<Rightarrow> string \<Rightarrow> string \<Rightarrow> db \<Rightarrow> tenant_context \<Rightarrow> app_error + string" where
  "getOgHtmlBySlug base requiresCredentials configuredBase requestOrigin slug d ctx =
     bind_res (getBySlug base requiresCredentials slug d ctx) (\<lambda>p.
       Inr (renderPropertyOgHtml (buildPropertyOgTags p) (ogCanonicalUrl configuredBase requestOrigin slug)))"

section \<open>Escaping\<close>

text \<open>What a browser reads back from an escaped text.\<close>

definition escape1 :: "char \<Rightarrow> string" where
  "escape1 c =
     (if c = CHR ''&'' then ''&amp;'' else if c = CHR ''<'' then ''&lt;'' else if c = CHR ''>'' then ''&gt;''
      else if c = CHR 0x22 then ''&quot;'' else if c = CHR 0x27 then ''&#39;'' else [c])"

lemma escapeHtml_eq: "escapeHtml s = concat (map escape1 s)"
proof -
  have 1: "replace_char CHR ''&'' ''&amp;'' s = concat (map (\<lambda>x. if x = CHR ''&'' then ''&amp;'' else [x]) s)"
    by (simp add: replace_char_def)
  have "replace_char CHR 0x27 ''&#39;'' (replace_char CHR 0x22 ''&quot;'' (replace_char CHR ''>'' ''&gt;''
       (replace_char CHR ''<'' ''&lt;'' (if x = CHR ''&'' then ''&amp;'' else [x])))) = escape1 x" for x
    by (simp add: replace_char_def escape1_def)
  then show ?thesis unfolding escapeHtml_def 1 replace_char_concat by simp
qed

lemma escapeHtml_inert: "c \<in> set (escapeHtml s) \<Longrightarrow> c \<notin> {CHR ''<'', CHR ''>'', CHR 0x22, CHR 0x27}"
  by (auto simp: escapeHtml_eq escape1_def split: if_splits)

fun html_text :: "nat \<Rightarrow> string \<Rightarrow> string" where
  "html_text 0 s = []"
| "html_text (Suc n) s =
     (if prefix ''&amp;'' s then CHR ''&'' # html_text n (drop 5 s)
      else if prefix ''&lt;'' s then CHR ''<'' # html_text n (drop 4 s)
      else if prefix ''&gt;'' s then CHR ''>'' # html_text n (drop 4 s)
      else if prefix ''&quot;'' s then CHR 0x22 # html_text n (drop 6 s)
      else if prefix ''&#39;'' s then CHR 0x27 # html_text n (drop 5 s)
      else case s of [] \<Rightarrow> [] | c # cs \<Rightarrow> c # html_text n cs)"

lemma html_text_escape: "length s \<le> n \<Longrightarrow> html_text n (concat (map escape1 s)) = s"
proof (induction s arbitrary: n)
  case Nil
  then show ?case by (cases n) (simp_all add: prefix_def)
next
  case (Cons c s)
  then obtain m where n: "n = Suc m" "length s \<le> m" by (cases n) auto
  define rest where "rest = concat (map escape1 s)"
  have "html_text m rest = s" unfolding rest_def using Cons.IH [OF n(2)] .
  then have "html_text (Suc m) (escape1 c @ rest) = c # s" by (auto simp: escape1_def prefix_def)
  then show ?case by (simp add: n(1) rest_def)
qed

section \<open>What the page reveals\<close>

text \<open>Two properties that differ only in what a visitor may not see.\<close>

definition same_public :: "property_row \<Rightarrow> property_row \<Rightarrow> bool" where
  "same_public p q \<longleftrightarrow>
     p_id p = p_id q \<and> p_tenantId p = p_tenantId q \<and> p_slug p = p_slug q \<and> p_name p = p_name q \<and>
     p_address p = p_address q \<and> p_description p = p_description q \<and> p_photos p = p_photos q \<and>
     p_depositPct p = p_depositPct q \<and> (p_archivedAt p = None) = (p_archivedAt q = None) \<and>
     isVerified (p_licenseNo p) = isVerified (p_licenseNo q)"

definition same_public_db :: "db \<Rightarrow> db \<Rightarrow> bool" where
  "same_public_db d d' \<longleftrightarrow>
     list_all2 same_public (properties d) (properties d') \<and> units d = units d' \<and>
     (\<forall>tid. (\<exists>c \<in> set (credentials d). tc_tenantId c = tid) = (\<exists>c \<in> set (credentials d'). tc_tenantId c = tid))"

lemma select_one_rel:
  assumes "list_all2 R xs ys" "\<And>x y. R x y \<Longrightarrow> P x = Q y"
  shows "rel_option R (select_one P xs) (select_one Q ys)"
  using assms(1) by (induction rule: list_all2_induct) (auto simp: assms(2))

text \<open>
  The public page and its preview document are functions of the public columns: databases that agree on
  them answer every visitor alike, whatever the licence numbers, coordinates, time zones, dates, guests,
  bookings, payments, people and sealed keys they hold.
\<close>

lemma page_reveals_only_public:
  assumes "same_public_db d d'"
  shows "getBySlug base req slug d None = getBySlug base req slug d' None \<and>
    getOgHtmlBySlug base req cfg origin slug d None = getOgHtmlBySlug base req cfg origin slug d' None"
proof -
  have r: "list_all2 same_public (properties d) (properties d')" using assms by (simp add: same_public_db_def)
  have enter: "enterFromSlug slug d None = enterFromSlug slug d' None"
    using select_one_rel [OF r, of "\<lambda>p. p_slug p = slug" "\<lambda>p. p_slug p = slug"]
    by (auto simp: enterFromSlug_def same_public_def option_rel_Some1 option_rel_Some2
        simp del: select_one_None_iff split: option.split)
  have scope: "\<exists>tid. ctx = Some (Visitor_principal tid)" if "enterFromSlug slug e None = Inr ctx" for ctx e
    using enter_tenant(1) [OF that] by auto
  have found: "findPublicBySlug d (session_of (Visitor_principal t)) slug =
      findPublicBySlug d' (session_of (Visitor_principal t)) slug" for t
  proof -
    let ?s = "session_of (Visitor_principal t)"
    have u: "public_units d ?s = public_units d' ?s"
      using assms by (intro ext) (simp add: public_units_def rls_unit_def same_public_db_def)
    have "rel_option same_public
        (select_one (\<lambda>p. own_property d ?s p \<and> p_slug p = slug \<and> p_archivedAt p = None) (properties d))
        (select_one (\<lambda>p. own_property d' ?s p \<and> p_slug p = slug \<and> p_archivedAt p = None) (properties d'))"
      by (rule select_one_rel [OF r]) (auto simp: own_property_def rls_property_def same_public_def)
    then show ?thesis
      unfolding findPublicBySlug_def u
      by (rule option.rel_cases) (auto simp: same_public_def simp del: select_one_None_iff)
  qed
  have "paymentCredentialExists d (session_of (Visitor_principal t)) t =
      paymentCredentialExists d' (session_of (Visitor_principal t)) t" for t
    using assms by (auto simp: paymentCredentialExists_def rls_credential_def same_public_db_def)
  then have "getBySlug base req slug d None = getBySlug base req slug d' None"
    unfolding getBySlug_def enter using scope
    by (cases "enterFromSlug slug d' None") (auto dest!: scope simp: found)
  then show ?thesis by (simp add: getOgHtmlBySlug_def)
qed

end
