(* ===== verification/Bookings_Query.thy ===== *)
theory Bookings_Query
  imports Booking_Rules "HOL-Library.Product_Lexorder"
begin

text \<open>
  The owner's read of the ledger: the filters of \<^verbatim>\<open>GET /bookings\<close> (\<^verbatim>\<open>packages/shared/src/booking-list.ts\<close>),
  the three queries of \<^verbatim>\<open>bookings-query.repository.ts\<close> over one predicate, and the service that frames
  them. The calendar it feeds is shown to agree, night by night, with the availability a guest is quoted.
\<close>

section \<open>The query\<close>

record list_bookings_query =
  lq_from :: "date option"
  lq_to :: "date option"
  lq_propertyId :: "uuid option"
  lq_unitId :: "uuid option"
  lq_status :: "booking_status list option"
  lq_source :: "booking_source list option"

text \<open>\<^verbatim>\<open>listBookingsQuerySchema\<close>: its three refinements. A window whose nights are not a number is refused.\<close>

definition listBookingsQuerySchema :: "list_bookings_query \<Rightarrow> bool" where
  "listBookingsQuerySchema q \<longleftrightarrow>
     (lq_from q = None) = (lq_to q = None) \<and>
     (case (lq_from q, lq_to q) of
        (Some from, Some to) \<Rightarrow>
          from < to \<and>
          (case countNights from to of None \<Rightarrow> False | Some n \<Rightarrow> n \<le> MAX_AVAILABILITY_NIGHTS)
      | _ \<Rightarrow> True)"

section \<open>The repository\<close>

text \<open>\<^verbatim>\<open>conditions\<close>: the filters, shared by the list and its CSV twin. An empty set filter filters nothing.\<close>

definition set_filter :: "'a list option \<Rightarrow> 'a \<Rightarrow> bool" where
  "set_filter f x \<longleftrightarrow> (case f of None \<Rightarrow> True | Some xs \<Rightarrow> xs = [] \<or> x \<in> set xs)"

definition conditions :: "session \<Rightarrow> list_bookings_query \<Rightarrow> booking_row \<Rightarrow> unit_row \<Rightarrow> bool" where
  "conditions s q b u \<longleftrightarrow>
     bk_tenantId b = s_tenantId s \<and>
     (case (lq_from q, lq_to q) of
        (Some from, Some to) \<Rightarrow> range_overlaps (bk_checkIn b) (bk_checkOut b) from to
      | _ \<Rightarrow> True) \<and>
     (case lq_propertyId q of None \<Rightarrow> True | Some p \<Rightarrow> u_propertyId u = p) \<and>
     (case lq_unitId q of None \<Rightarrow> True | Some i \<Rightarrow> bk_unitId b = i) \<and>
     set_filter (lq_status q) (bk_status b) \<and> set_filter (lq_source q) (bk_source b)"

definition with_unit :: "db \<Rightarrow> session \<Rightarrow> (booking_row \<times> unit_row) list" where
  "with_unit d s =
     filter (\<lambda>(b, u). rls_booking d s b \<and> rls_unit d s u \<and>
         u_id u = bk_unitId b \<and> u_tenantId u = bk_tenantId b)
       (List.product (bookings d) (units d))"

definition with_property :: "db \<Rightarrow> session \<Rightarrow> (booking_row \<times> unit_row \<times> property_row) list" where
  "with_property d s =
     filter (\<lambda>(b, u, p). rls_booking d s b \<and> rls_unit d s u \<and> rls_property d s p \<and>
         u_id u = bk_unitId b \<and> u_tenantId u = bk_tenantId b \<and>
         p_id p = u_propertyId u \<and> p_tenantId p = u_tenantId u)
       (List.product (bookings d) (List.product (units d) (properties d)))"

definition list_repo :: "db \<Rightarrow> session \<Rightarrow> list_bookings_query \<Rightarrow> booking_row list" where
  "list_repo d s q =
     map fst (sort_key (\<lambda>(b, u). (bk_checkIn b, bk_id b))
       (filter (\<lambda>(b, u). conditions s q b u) (with_unit d s)))"

definition listForExport ::
  "db \<Rightarrow> session \<Rightarrow> list_bookings_query \<Rightarrow> (booking_row \<times> unit_row \<times> property_row) list" where
  "listForExport d s q =
     sort_key (\<lambda>(b, u, p). (bk_checkIn b, bk_id b))
       (filter (\<lambda>(b, u, p). conditions s q b u) (with_property d s))"

definition getById_repo :: "db \<Rightarrow> session \<Rightarrow> uuid \<Rightarrow> (booking_row \<times> unit_row \<times> property_row) option" where
  "getById_repo d s bid =
     select_one (\<lambda>(b, u, p). bk_id b = bid \<and> bk_tenantId b = s_tenantId s) (with_property d s)"

section \<open>The service\<close>

record booking_list_row =
  lr_id :: uuid
  lr_unitId :: uuid
  lr_source :: booking_source
  lr_status :: booking_status
  lr_checkIn :: date
  lr_checkOut :: date
  lr_guestName :: "string option"
  lr_guestCount :: "int option"
  lr_holdExpiresAt :: "instant option"
  lr_totalPriceIdr :: "int option"

record booking_detail = booking_list_row +
  bd_guestPhone :: "string option"
  bd_guestEmail :: "string option"
  bd_propertyId :: uuid
  bd_propertyName :: string
  bd_unitName :: string

definition toRow :: "booking_row \<Rightarrow> app_error + booking_list_row" where
  "toRow b =
     bind_res (case bk_totalPriceIdr b of None \<Rightarrow> Inr None | Some v \<Rightarrow> map_sum id Some (toRupiah v)) (\<lambda>tot.
       Inr \<lparr>lr_id = bk_id b, lr_unitId = bk_unitId b, lr_source = bk_source b, lr_status = bk_status b,
         lr_checkIn = bk_checkIn b, lr_checkOut = bk_checkOut b, lr_guestName = bk_guestName b,
         lr_guestCount = bk_guestCount b, lr_holdExpiresAt = bk_holdExpiresAt b, lr_totalPriceIdr = tot\<rparr>)"

definition list_bookings :: "tenant_context \<Rightarrow> list_bookings_query \<Rightarrow> db \<Rightarrow> app_error + booking_list_row list" where
  "list_bookings ctx q d = db_run ctx None (\<lambda>tx. map_res toRow (list_repo d (tx_session tx) q))"

text \<open>\<^verbatim>\<open>bookingDetailSchema.parse\<close> narrows the guest count to a positive number.\<close>

definition toDetail :: "booking_row \<times> unit_row \<times> property_row \<Rightarrow> app_error + booking_detail" where
  "toDetail row =
     (case row of (b, u, p) \<Rightarrow>
        bind_res (toRow b) (\<lambda>r.
          if (case bk_guestCount b of None \<Rightarrow> False | Some n \<Rightarrow> n \<le> 0) then Inl (JsError ''ZodError'')
          else Inr (booking_list_row.extend r
            (booking_detail.fields (bk_guestPhone b) (bk_guestEmail b) (u_propertyId u) (p_name p) (u_name u)))))"

definition get_booking :: "tenant_context \<Rightarrow> uuid \<Rightarrow> db \<Rightarrow> app_error + booking_detail" where
  "get_booking ctx bid d =
     db_run ctx None (\<lambda>tx.
       case getById_repo d (tx_session tx) bid of
         None \<Rightarrow> Inl (NotFound ''Booking not found'')
       | Some row \<Rightarrow> toDetail row)"

section \<open>The joins drop nothing\<close>

text \<open>A join whose partner is unique is a filter: each row of the left table appears at most once.\<close>

lemma join_is_filter:
  assumes "distinct (map k ys)"
    and "\<And>x y y'. y \<in> set ys \<Longrightarrow> y' \<in> set ys \<Longrightarrow> Q x y \<Longrightarrow> Q x y' \<Longrightarrow> k y = k y'"
  shows "map fst (filter (\<lambda>(x, y). Q x y) (List.product xs ys)) = filter (\<lambda>x. \<exists>y \<in> set ys. Q x y) xs"
proof (induction xs)
  case (Cons x xs)
  have "map fst (filter (\<lambda>(x, y). Q x y) (map (Pair x) zs)) = (if \<exists>y \<in> set zs. Q x y then [x] else [])"
    if "set zs \<subseteq> set ys" "distinct (map k zs)" for zs
    using that
  proof (induction zs)
    case (Cons z zs)
    have none: "\<not> Q x y" if "Q x z" "y \<in> set zs" for y
      using that Cons.prems assms(2) [of z y x] by fastforce
    show ?case using Cons none by auto
  qed simp
  from this [of ys] assms(1) Cons show ?case by simp
qed simp

definition listed :: "db \<Rightarrow> session \<Rightarrow> list_bookings_query \<Rightarrow> booking_row \<Rightarrow> bool" where
  "listed d s q = (\<lambda>b. rls_booking d s b \<and>
     (\<exists>u \<in> set (units d). rls_unit d s u \<and> u_id u = bk_unitId b \<and> u_tenantId u = bk_tenantId b \<and> conditions s q b u))"

lemma list_repo_eq:
  assumes "inventory_ok d"
  shows "list_repo d s q = sort_key (\<lambda>b. (bk_checkIn b, bk_id b)) (filter (listed d s q) (bookings d))"
proof -
  have "map fst (filter (\<lambda>(b, u). conditions s q b u) (with_unit d s)) =
      map fst (filter (\<lambda>(b, u). rls_booking d s b \<and> rls_unit d s u \<and> u_id u = bk_unitId b \<and>
         u_tenantId u = bk_tenantId b \<and> conditions s q b u) (List.product (bookings d) (units d)))"
    unfolding with_unit_def filter_filter by (intro arg_cong [where f = "map fst"] filter_cong) auto
  also have "\<dots> = filter (listed d s q) (bookings d)"
    using assms by (subst join_is_filter [where k = u_id]) (auto simp: inventory_ok_def listed_def)
  finally show ?thesis
    using sort_key_map [of "\<lambda>b. (bk_checkIn b, bk_id b)" fst "filter (\<lambda>(b, u). conditions s q b u) (with_unit d s)", symmetric]
    by (simp add: list_repo_def split_def)
qed

lemma export_eq_list:
  assumes "inventory_ok d"
  shows "map fst (listForExport d s q) = list_repo d s q"
proof -
  have k: "distinct (map (\<lambda>(u, p). (u_id u, p_id p)) (List.product (units d) (properties d)))"
    using assms unfolding inventory_ok_def distinct_map by (auto simp: distinct_product inj_on_def)
  have "map fst (filter (\<lambda>(b, u, p). conditions s q b u) (with_property d s)) =
      map fst (filter (\<lambda>(b, up). rls_booking d s b \<and> rls_unit d s (fst up) \<and> rls_property d s (snd up) \<and>
         u_id (fst up) = bk_unitId b \<and> u_tenantId (fst up) = bk_tenantId b \<and>
         p_id (snd up) = u_propertyId (fst up) \<and> p_tenantId (snd up) = u_tenantId (fst up) \<and>
         conditions s q b (fst up)) (List.product (bookings d) (List.product (units d) (properties d))))"
    unfolding with_property_def filter_filter by (intro arg_cong [where f = "map fst"] filter_cong) auto
  also have "\<dots> = filter (\<lambda>b. \<exists>up \<in> set (List.product (units d) (properties d)).
         rls_booking d s b \<and> rls_unit d s (fst up) \<and> rls_property d s (snd up) \<and>
         u_id (fst up) = bk_unitId b \<and> u_tenantId (fst up) = bk_tenantId b \<and>
         p_id (snd up) = u_propertyId (fst up) \<and> p_tenantId (snd up) = u_tenantId (fst up) \<and>
         conditions s q b (fst up)) (bookings d)"
  proof (rule join_is_filter [OF k], goal_cases)
    case (1 b y z)
    then have "fst y = fst z" using unit_by_id [OF assms, of "fst y" "fst z"] by auto
    with 1 show ?case by (simp add: split_def)
  qed
  also have "\<dots> = filter (listed d s q) (bookings d)"
  proof (rule filter_cong [OF refl])
    fix b assume "b \<in> set (bookings d)"
    have "\<exists>p \<in> set (properties d). rls_property d s p \<and> p_id p = u_propertyId u \<and> p_tenantId p = u_tenantId u"
      if "u \<in> set (units d)" "rls_unit d s u" for u
      using that assms unfolding inventory_ok_def rls_unit_def rls_property_def by metis
    then show "(\<exists>up \<in> set (List.product (units d) (properties d)).
         rls_booking d s b \<and> rls_unit d s (fst up) \<and> rls_property d s (snd up) \<and>
         u_id (fst up) = bk_unitId b \<and> u_tenantId (fst up) = bk_tenantId b \<and>
         p_id (snd up) = u_propertyId (fst up) \<and> p_tenantId (snd up) = u_tenantId (fst up) \<and>
         conditions s q b (fst up)) \<longleftrightarrow> listed d s q b"
      unfolding listed_def by fastforce
  qed
  finally show ?thesis
    using sort_key_map [of "\<lambda>b. (bk_checkIn b, bk_id b)" fst "filter (\<lambda>(b, u, p). conditions s q b u) (with_property d s)", symmetric]
    by (simp add: listForExport_def split_def list_repo_eq [OF assms])
qed

section \<open>One picture of the calendar\<close>

text \<open>The window query of the owner's calendar for one unit: the occupying bookings that overlap it.\<close>

definition calendar_query :: "uuid \<Rightarrow> date \<Rightarrow> date \<Rightarrow> list_bookings_query" where
  "calendar_query unitId from to =
     \<lparr>lq_from = Some from, lq_to = Some to, lq_propertyId = None, lq_unitId = Some unitId,
      lq_status = Some OCCUPYING_STATUSES, lq_source = None\<rparr>"

lemma calendar_listed:
  assumes "b \<in> set (bookings d)"
  shows "listed d s (calendar_query unitId from to) b \<longleftrightarrow>
     rls_booking d s b \<and> bk_unitId b = unitId \<and> bk_tenantId b = s_tenantId s \<and>
     bk_status b \<in> set OCCUPYING_STATUSES \<and> range_overlaps (bk_checkIn b) (bk_checkOut b) from to"
  by (auto simp: listed_def calendar_query_def conditions_def set_filter_def rls_booking_def unit_visible_def
      rls_unit_def OCCUPYING_STATUSES_def)

lemma toRow_keeps:
  "toRow b = Inr r \<Longrightarrow> lr_id r = bk_id b \<and> lr_checkIn r = bk_checkIn b \<and> lr_checkOut r = bk_checkOut b"
  by (auto simp: toRow_def bind_res_Inr_iff)

lemma list_bookings_rows:
  assumes "list_bookings (Some p) q d = Inr rows"
  shows "list_all2 (\<lambda>b r. toRow b = Inr r) (list_repo d (session_of p) q) rows"
  using assms by (simp add: list_bookings_def map_res_Inr_iff)

lemma calendar_rows:
  assumes ok: "db_ok d" and u: "u \<in> set (units d)" "rls_unit d (session_of p) u"
    and rows: "list_bookings (Some p) (calendar_query (u_id u) from to) d = Inr rows"
  shows "(\<exists>r \<in> set rows. Q (lr_checkIn r) (lr_checkOut r)) \<longleftrightarrow>
    (\<exists>b \<in> set (bookings d). bk_unitId b = u_id u \<and> occupies b \<and>
       range_overlaps (bk_checkIn b) (bk_checkOut b) from to \<and> Q (bk_checkIn b) (bk_checkOut b))"
proof -
  let ?s = "session_of p"
  have o: "owned_unit d ?s (u_id u) u" using u(2) by (simp add: owned_unit_def rls_unit_def)
  have "map (\<lambda>r. (lr_checkIn r, lr_checkOut r)) rows =
      map (\<lambda>b. (bk_checkIn b, bk_checkOut b)) (list_repo d ?s (calendar_query (u_id u) from to))"
    using list_bookings_rows [OF rows] by (induction rule: list_all2_induct) (simp_all add: toRow_keeps)
  then have e: "(\<lambda>r. (lr_checkIn r, lr_checkOut r)) ` set rows =
      (\<lambda>b. (bk_checkIn b, bk_checkOut b)) ` set (list_repo d ?s (calendar_query (u_id u) from to))"
    by (metis list.set_map)
  have "(\<exists>r \<in> set rows. Q (lr_checkIn r) (lr_checkOut r)) \<longleftrightarrow>
      (\<exists>x \<in> (\<lambda>r. (lr_checkIn r, lr_checkOut r)) ` set rows. Q (fst x) (snd x))" by simp
  also have "\<dots> \<longleftrightarrow> (\<exists>b \<in> set (list_repo d ?s (calendar_query (u_id u) from to)). Q (bk_checkIn b) (bk_checkOut b))"
    unfolding e by simp
  also have "\<dots> \<longleftrightarrow> (\<exists>b \<in> set (bookings d). bk_unitId b = u_id u \<and> occupies b \<and>
       range_overlaps (bk_checkIn b) (bk_checkOut b) from to \<and> Q (bk_checkIn b) (bk_checkOut b))"
    using booking_seen [OF db_okD(1,2) u(1) o] ok
    by (auto simp: list_repo_eq [OF db_okD(1) [OF ok]] calendar_listed occupies_def)
  finally show ?thesis .
qed

lemma public_quote_answer:
  assumes "db_ok d" "u \<in> set (units d)" "stay_window_ok a b" "getPublicQuote d (u_id u) a b = Inr r"
  shows "ar_reasons r = refusals d u a b"
    "ar_blockedRanges r =
      coalesceRanges (findBlockedRanges d (session_of (Visitor_principal (u_tenantId u))) (u_id u) a b)"
proof -
  let ?s = "session_of (Visitor_principal (u_tenantId u))"
  have "r = quoted_response d ?s u a b"
    using quote_eq [OF assms(1,2) _ assms(3), of "\<lparr>tx_session = ?s, tx_alive = True\<rparr>"] visitor_owns [OF assms(2)]
      assms(4)
    by (simp add: getPublicQuote_def enter_unit [OF db_okD(1) [OF assms(1)] assms(2)] split: if_splits)
  then show "ar_reasons r = refusals d u a b"
    "ar_blockedRanges r = coalesceRanges (findBlockedRanges d ?s (u_id u) a b)"
    by (simp_all add: quoted_response_def)
qed

text \<open>Claim C14. One picture of the calendar: on every unit a member can see, the guest's availability
  and the member's own calendar agree. The public quote of a window refuses for overlap exactly when the
  calendar's query lists a booking there, and the ranges it blocks are, point for point, the listed stays
  cut to the window.\<close>

theorem calendar_agrees_with_quote:
  assumes "db_ok d" "u \<in> set (units d)" "rls_unit d (session_of p) u" "stay_window_ok a b"
    and "getPublicQuote d (u_id u) a b = Inr r"
    and "list_bookings (Some p) (calendar_query (u_id u) a b) d = Inr rows"
  shows "(Overlap \<in> set (ar_reasons r) \<longleftrightarrow> rows \<noteq> []) \<and>
    (\<forall>x. x \<in> covered (ar_blockedRanges r) \<longleftrightarrow>
       a \<le> x \<and> x < b \<and> (\<exists>row \<in> set rows. lr_checkIn row \<le> x \<and> x < lr_checkOut row))"
proof -
  let ?s = "session_of (Visitor_principal (u_tenantId u))"
  note o = visitor_owns [OF assms(2)]
  note rows = calendar_rows [OF assms(1-3,6)]
  note r = public_quote_answer [OF assms(1,2,4,5)]
  have "rows \<noteq> [] \<longleftrightarrow> nights_taken d (u_id u) a b"
    using rows [of "\<lambda>_ _. True"] by (cases rows) (auto simp: nights_taken_def)
  moreover have "x \<in> covered (ar_blockedRanges r) \<longleftrightarrow>
      a \<le> x \<and> x < b \<and> (\<exists>row \<in> set rows. lr_checkIn row \<le> x \<and> x < lr_checkOut row)" for x
    unfolding r(2) blocked_covered [OF assms(1,2) o] rows [of "\<lambda>i k. i \<le> x \<and> x < k"]
    by (auto simp: range_overlaps_def intro: le_less_trans less_le_trans)
  ultimately show ?thesis by (auto simp: r(1) refusals_def)
qed

end
