(* ===== verification/Bookings_Csv.thy ===== *)
theory Bookings_Csv
  imports Bookings_Query
begin

text \<open>
  The CSV export of the reservations (\<^verbatim>\<open>bookings-csv.ts\<close> and \<^verbatim>\<open>BookingsQueryService.exportCsv\<close>), and the
  reader it is written for: RFC 4180 as an automaton, so that what a spreadsheet sees is a function of
  the document.
\<close>

section \<open>The serializer\<close>

record booking_csv_row =
  cr_bookingId :: string
  cr_property :: string
  cr_unit :: string
  cr_guest :: string
  cr_checkIn :: string
  cr_checkOut :: string
  cr_nights :: string
  cr_source :: booking_source
  cr_status :: booking_status
  cr_guests :: string
  cr_totalIdr :: string

text \<open>The enum values are exported as the database spells them.\<close>

fun source_name :: "booking_source \<Rightarrow> string" where
  "source_name Direct = ''direct''"
| "source_name Airbnb = ''airbnb''"
| "source_name Booking_com = ''booking_com''"
| "source_name Vrbo = ''vrbo''"
| "source_name Manual_block = ''manual_block''"

fun status_name :: "booking_status \<Rightarrow> string" where
  "status_name Pending_payment = ''pending_payment''"
| "status_name Confirmed = ''confirmed''"
| "status_name Cancelled = ''cancelled''"
| "status_name Expired = ''expired''"

definition COLUMNS :: "(string \<times> (booking_csv_row \<Rightarrow> string)) list" where
  "COLUMNS =
     [(''Booking ID'', cr_bookingId), (''Property'', cr_property), (''Unit'', cr_unit),
      (''Guest'', cr_guest), (''Check-in'', cr_checkIn), (''Check-out'', cr_checkOut),
      (''Nights'', cr_nights), (''Source'', \<lambda>r. source_name (cr_source r)),
      (''Status'', \<lambda>r. status_name (cr_status r)), (''Guests'', cr_guests), (''Total (IDR)'', cr_totalIdr)]"

definition CSV_HEADERS :: "string list" where
  "CSV_HEADERS = map fst COLUMNS"

definition CSV_CRLF :: string where "CSV_CRLF = [CHR 0x0D, CHR 0x0A]"

definition BOM :: string where "BOM = [CHR 0xEF, CHR 0xBB, CHR 0xBF]"

definition FORMULA_TRIGGER :: "string \<Rightarrow> bool" where
  "FORMULA_TRIGGER v \<longleftrightarrow>
     (case v of [] \<Rightarrow> False | c # _ \<Rightarrow> c \<in> {CHR ''='', CHR ''+'', CHR ''-'', CHR ''@'', CHR 0x09, CHR 0x0D})"

definition NEEDS_QUOTING :: "string \<Rightarrow> bool" where
  "NEEDS_QUOTING v \<longleftrightarrow> (\<exists>c \<in> set v. c \<in> {CHR 0x22, CHR '','', CHR 0x0D, CHR 0x0A})"

definition double_quotes :: "string \<Rightarrow> string" where
  "double_quotes v = concat (map (\<lambda>c. if c = CHR 0x22 then [CHR 0x22, CHR 0x22] else [c]) v)"

definition escapeCsvField :: "string \<Rightarrow> string" where
  "escapeCsvField value =
     (let injectable = FORMULA_TRIGGER value;
          v = (if injectable then CHR 0x27 # value else value)
      in if injectable \<or> NEEDS_QUOTING v then CHR 0x22 # double_quotes v @ [CHR 0x22] else v)"

definition csv_cells :: "booking_csv_row \<Rightarrow> string list" where
  "csv_cells r = map (\<lambda>c. snd c r) COLUMNS"

definition bookingsToCsv :: "booking_csv_row list \<Rightarrow> string" where
  "bookingsToCsv rows =
     BOM @ join CSV_CRLF (map (join '','')
       (map escapeCsvField CSV_HEADERS # map (\<lambda>r. map escapeCsvField (csv_cells r)) rows)) @ CSV_CRLF"

section \<open>The export\<close>

text \<open>\<^verbatim>\<open>String(n)\<close> and \<^verbatim>\<open>bigint.toString()\<close>: decimal digits, no separators.\<close>

fun digits :: "nat \<Rightarrow> string" where
  "digits n = (if n < 10 then [digit_char n] else digits (n div 10) @ [digit_char (n mod 10)])"

declare digits.simps [simp del]

definition int_string :: "int \<Rightarrow> string" where
  "int_string i = (if i < 0 then CHR ''-'' # digits (nat (- i)) else digits (nat i))"

definition toCsvRow :: "booking_row \<times> unit_row \<times> property_row \<Rightarrow> booking_csv_row" where
  "toCsvRow row =
     (case row of (b, u, p) \<Rightarrow>
        \<lparr>cr_bookingId = bk_id b, cr_property = p_name p, cr_unit = u_name u,
         cr_guest = (case bk_guestName b of None \<Rightarrow> '''' | Some g \<Rightarrow> g),
         cr_checkIn = bk_checkIn b, cr_checkOut = bk_checkOut b,
         cr_nights = (case countNights (bk_checkIn b) (bk_checkOut b) of None \<Rightarrow> ''NaN'' | Some n \<Rightarrow> int_string n),
         cr_source = bk_source b, cr_status = bk_status b,
         cr_guests = (case bk_guestCount b of None \<Rightarrow> '''' | Some n \<Rightarrow> int_string n),
         cr_totalIdr = (case bk_totalPriceIdr b of None \<Rightarrow> '''' | Some n \<Rightarrow> int_string n)\<rparr>)"

definition exportCsv :: "tenant_context \<Rightarrow> list_bookings_query \<Rightarrow> db \<Rightarrow> app_error + string" where
  "exportCsv ctx q d =
     db_run ctx None (\<lambda>tx. Inr (bookingsToCsv (map toCsvRow (listForExport d (tx_session tx) q))))"

section \<open>The reader\<close>

text \<open>
  RFC 4180 with the byte-order mark: cells between commas, records ended by a line break, a cell that
  starts with a quote runs to the quote that is not doubled. A document the grammar does not
  derive is None.
\<close>

datatype csv_state = Cell_start | Bare | Quoted | Quote_seen

fun csv_scan :: "csv_state \<Rightarrow> string \<Rightarrow> string list \<Rightarrow> string \<Rightarrow> string list list option" where
  "csv_scan st cur cells [] = (if st = Cell_start \<and> cells = [] then Some [] else None)"
| "csv_scan st cur cells (c # cs) =
     (if st = Quoted then
        (if c = CHR 0x22 then csv_scan Quote_seen cur cells cs else csv_scan Quoted (cur @ [c]) cells cs)
      else if c = CHR '','' then csv_scan Cell_start [] (cells @ [cur]) cs
      else if c = CHR 0x0D then
        (case cs of
           [] \<Rightarrow> None
         | d # ds \<Rightarrow> if d = CHR 0x0A then map_option ((#) (cells @ [cur])) (csv_scan Cell_start [] [] ds) else None)
      else if c = CHR 0x0A then None
      else if c = CHR 0x22 then
        (case st of
           Cell_start \<Rightarrow> csv_scan Quoted [] cells cs
         | Quote_seen \<Rightarrow> csv_scan Quoted (cur @ [c]) cells cs
         | _ \<Rightarrow> None)
      else if st = Quote_seen then None
      else csv_scan Bare (cur @ [c]) cells cs)"

definition read_csv :: "string \<Rightarrow> string list list option" where
  "read_csv doc = (if prefix BOM doc then csv_scan Cell_start [] [] (drop 3 doc) else None)"

text \<open>What a spreadsheet shows for a field: a formula is turned into text by an apostrophe.\<close>

definition as_text :: "string \<Rightarrow> string" where
  "as_text v = (if FORMULA_TRIGGER v then CHR 0x27 # v else v)"

lemma as_text_inert: "\<not> FORMULA_TRIGGER (as_text v)"
  by (auto simp: as_text_def FORMULA_TRIGGER_def)

lemma as_text_plain: "\<not> FORMULA_TRIGGER v \<Longrightarrow> as_text v = v"
  by (simp add: as_text_def)

lemma scan_quoted:
  "csv_scan Quoted cur cells (double_quotes v @ CHR 0x22 # rest) = csv_scan Quote_seen (cur @ v) cells rest"
  by (induction v arbitrary: cur) (simp_all add: double_quotes_def)

lemma scan_bare:
  "\<not> NEEDS_QUOTING v \<Longrightarrow> st = Bare \<or> st = Cell_start \<Longrightarrow>
   csv_scan st cur cells (v @ rest) = csv_scan (if v = [] then st else Bare) (cur @ v) cells rest"
proof (induction v arbitrary: st cur)
  case (Cons c v)
  then have "csv_scan st cur cells ((c # v) @ rest) = csv_scan Bare (cur @ [c]) cells (v @ rest)"
    by (auto simp: NEEDS_QUOTING_def)
  also have "\<dots> = csv_scan (if v = [] then Bare else Bare) ((cur @ [c]) @ v) cells rest"
    using Cons.prems by (intro Cons.IH) (simp_all add: NEEDS_QUOTING_def)
  finally show ?case by simp
qed simp

text \<open>After a cell the reader is in a state that only a comma or a line break leaves.\<close>

lemma scan_field:
  "\<exists>st. st \<noteq> Quoted \<and>
     csv_scan Cell_start [] cells (escapeCsvField v @ rest) = csv_scan st (as_text v) cells rest"
proof (cases "FORMULA_TRIGGER v \<or> NEEDS_QUOTING v")
  case True
  then have e: "escapeCsvField v = CHR 0x22 # double_quotes (as_text v) @ [CHR 0x22]"
    by (auto simp: escapeCsvField_def as_text_def)
  have "csv_scan Cell_start [] cells (escapeCsvField v @ rest) = csv_scan Quote_seen (as_text v) cells rest"
    using scan_quoted [of "[]" cells "as_text v" rest] by (simp add: e)
  then show ?thesis by blast
next
  case False
  then have "escapeCsvField v = v" "as_text v = v" by (simp_all add: escapeCsvField_def as_text_def)
  moreover have "csv_scan Cell_start [] cells (v @ rest) =
      csv_scan (if v = [] then Cell_start else Bare) ([] @ v) cells rest"
    using False by (intro scan_bare) simp_all
  ultimately show ?thesis by auto
qed

lemma scan_record:
  "vs \<noteq> [] \<Longrightarrow>
   csv_scan Cell_start [] cells (join '','' (map escapeCsvField vs) @ CSV_CRLF @ rest) =
     map_option ((#) (cells @ map as_text vs)) (csv_scan Cell_start [] [] rest)"
proof (induction vs arbitrary: cells)
  case (Cons v vs)
  show ?case
  proof (cases "vs = []")
    case True
    obtain st where st: "st \<noteq> Quoted"
      "csv_scan Cell_start [] cells (escapeCsvField v @ CSV_CRLF @ rest) = csv_scan st (as_text v) cells (CSV_CRLF @ rest)"
      using scan_field by blast
    then show ?thesis using True by (simp add: CSV_CRLF_def)
  next
    case False
    let ?rest = "join '','' (map escapeCsvField vs) @ CSV_CRLF @ rest"
    obtain st where st: "st \<noteq> Quoted"
      "csv_scan Cell_start [] cells (escapeCsvField v @ '','' @ ?rest) = csv_scan st (as_text v) cells ('','' @ ?rest)"
      using scan_field by blast
    have "join '','' (map escapeCsvField (v # vs)) = escapeCsvField v @ '','' @ join '','' (map escapeCsvField vs)"
      using False by (simp add: join_Cons)
    then have "csv_scan Cell_start [] cells (join '','' (map escapeCsvField (v # vs)) @ CSV_CRLF @ rest) =
        csv_scan Cell_start [] (cells @ [as_text v]) ?rest"
      using st by simp
    then show ?thesis using Cons.IH [OF False] by simp
  qed
qed simp

lemma scan_records:
  assumes "\<forall>r \<in> set records. r \<noteq> []"
  shows "csv_scan Cell_start [] [] (concat (map (\<lambda>r. join '','' (map escapeCsvField r) @ CSV_CRLF) records)) =
     Some (map (map as_text) records)"
  using assms
proof (induction records)
  case (Cons r records)
  then show ?case using scan_record [of r "[]"] by simp
qed simp

lemma read_bookingsToCsv:
  "read_csv (bookingsToCsv rows) = Some (CSV_HEADERS # map (\<lambda>r. map as_text (csv_cells r)) rows)"
proof -
  let ?records = "CSV_HEADERS # map csv_cells rows"
  have "bookingsToCsv rows = BOM @ concat (map (\<lambda>r. join '','' (map escapeCsvField r) @ CSV_CRLF) ?records)"
    unfolding bookingsToCsv_def by (subst join_snoc_sep) (simp_all add: comp_def)
  moreover have "\<forall>r \<in> set ?records. r \<noteq> []" by (auto simp: CSV_HEADERS_def csv_cells_def COLUMNS_def)
  from scan_records [OF this]
  have "csv_scan Cell_start [] [] (concat (map (\<lambda>r. join '','' (map escapeCsvField r) @ CSV_CRLF) ?records)) =
      Some (map (map as_text) ?records)" .
  moreover have "map as_text CSV_HEADERS = CSV_HEADERS"
    by (simp add: CSV_HEADERS_def COLUMNS_def as_text_def FORMULA_TRIGGER_def)
  ultimately show ?thesis by (simp add: read_csv_def BOM_def comp_def)
qed

section \<open>Numbers survive\<close>

lemma digits_num [simp]: "num (digits n) = n"
proof (induction n rule: digits.induct)
  case (1 n)
  then show ?case by (cases "n < 10") (simp_all add: digits.simps [of n] num_def)
qed

lemma digits_digits: "list_all is_digit (digits n) \<and> digits n \<noteq> []"
proof (induction n rule: digits.induct)
  case (1 n)
  then show ?case by (cases "n < 10") (simp_all add: digits.simps [of n])
qed

lemma digits_inert: "as_text (digits n) = digits n"
proof -
  have "list_all is_digit (digits n)" by (simp add: digits_digits)
  then show ?thesis by (cases "digits n") (auto simp: as_text_def FORMULA_TRIGGER_def is_digit_def)
qed

lemma is_iso_inert: "is_iso_date x \<Longrightarrow> as_text x = x"
  by (cases x) (auto simp: as_text_def FORMULA_TRIGGER_def is_iso_date_def is_digit_def)

text \<open>What the money column of a row shows: nothing, or the very amount.\<close>

definition shows_amount :: "string \<Rightarrow> int option \<Rightarrow> bool" where
  "shows_amount cell v \<longleftrightarrow>
     (case v of None \<Rightarrow> cell = [] | Some n \<Rightarrow> list_all is_digit cell \<and> cell \<noteq> [] \<and> int (num cell) = n)"

lemma int_string_amount: "0 \<le> n \<Longrightarrow> shows_amount (int_string n) (Some n)"
  by (simp add: shows_amount_def int_string_def digits_digits)

definition csv_shows :: "string list \<Rightarrow> booking_row \<Rightarrow> bool" where
  "csv_shows cells b \<longleftrightarrow> length cells = length CSV_HEADERS \<and>
     cells ! 4 = bk_checkIn b \<and> cells ! 5 = bk_checkOut b \<and>
     shows_amount (cells ! 10) (bk_totalPriceIdr b) \<and> shows_amount (cells ! 9) (bk_guestCount b) \<and>
     cells ! 3 = as_text (case bk_guestName b of None \<Rightarrow> [] | Some g \<Rightarrow> g)"

lemma csv_row_shows:
  assumes "db_ok d" "b \<in> set (bookings d)"
  shows "csv_shows (map as_text (csv_cells (toCsvRow (b, u, p)))) b"
proof -
  have dates: "is_iso_date (bk_checkIn b)" "is_iso_date (bk_checkOut b)"
    using assms by (auto simp: db_ok_def dates_ok_def)
  have "booking_check b = None" using assms by (auto simp: db_ok_def booking_table_ok_def)
  then have c: "\<forall>n. bk_guestCount b = Some n \<longrightarrow> 0 \<le> n" "\<forall>n. bk_totalPriceIdr b = Some n \<longrightarrow> 0 \<le> n"
    by (auto simp: booking_check_def split: if_splits option.splits)
  have "shows_amount (as_text (case v of None \<Rightarrow> [] | Some n \<Rightarrow> int_string n)) v"
    if "\<forall>n. v = Some n \<longrightarrow> 0 \<le> n" for v
  proof (cases v)
    case None
    then show ?thesis by (simp add: shows_amount_def as_text_def FORMULA_TRIGGER_def)
  next
    case (Some n)
    then have "as_text (int_string n) = int_string n" using that by (simp add: int_string_def digits_inert)
    then show ?thesis using Some that int_string_amount by simp
  qed
  with c dates show ?thesis
    by (simp add: csv_shows_def csv_cells_def CSV_HEADERS_def COLUMNS_def toCsvRow_def is_iso_inert)
qed


end
