(* ===== verification/Notifications.thy ===== *)
theory Notifications
  imports Mailer Bookings_Csv Accounts
begin

text \<open>
  The confirmation e-mail: \<^verbatim>\<open>notifications.repository.ts\<close>, \<^verbatim>\<open>confirmation-email.ts\<close> and
  \<^verbatim>\<open>notifications.service.ts\<close>. The read runs on the owner connection; each recipient is sent to on its
  own, and a rejected send never stops the next. \<open>send\<close> is the bound mailer.
\<close>

text \<open>\<^verbatim>\<open>Intl.NumberFormat('id-ID')\<close> on an integer: groups of three digits, separated by dots.\<close>

function grouped :: "nat \<Rightarrow> string" where
  "grouped n =
     (if n < 1000 then digits n
      else grouped (n div 1000) @ ''.'' @
        [digit_char (n mod 1000 div 100), digit_char (n mod 100 div 10), digit_char (n mod 10)])"
  by auto
termination by (relation "measure id") auto

declare grouped.simps [simp del]

definition formatIdr :: "int \<Rightarrow> string" where
  "formatIdr amount = ''Rp '' @ (if amount < 0 then ''-'' else '''') @ grouped (nat \<bar>amount\<bar>)"

record confirmation_email =
  ce_bookingId :: uuid
  ce_guestName :: "string option"
  ce_guestEmail :: "string option"
  ce_ownerEmails :: "string list"
  ce_propertyName :: string
  ce_unitName :: string
  ce_checkIn :: date
  ce_checkOut :: date
  ce_totalPriceIdr :: "int option"
  ce_amountPaidIdr :: int

definition settled_amount :: "db \<Rightarrow> uuid \<Rightarrow> int" where
  "settled_amount d bookingId =
     sum_list (map py_amountIdr
       (filter (\<lambda>p. py_bookingId p = bookingId \<and> py_status p = Pay_paid) (payments d)))"

definition owner_emails :: "db \<Rightarrow> uuid \<Rightarrow> string list" where
  "owner_emails d tenantId =
     map (\<lambda>(u, m). au_email u)
       (filter (\<lambda>(u, m). m_appUserId m = au_id u \<and> m_tenantId m = tenantId \<and> m_role m = Owner)
         (List.product (app_users d) (memberships d)))"

definition readConfirmationData :: "db \<Rightarrow> uuid \<Rightarrow> confirmation_email option" where
  "readConfirmationData d bookingId =
     map_option (\<lambda>(b, u, p).
         \<lparr>ce_bookingId = bk_id b, ce_guestName = bk_guestName b, ce_guestEmail = bk_guestEmail b,
          ce_ownerEmails = owner_emails d (bk_tenantId b), ce_propertyName = p_name p, ce_unitName = u_name u,
          ce_checkIn = bk_checkIn b, ce_checkOut = bk_checkOut b, ce_totalPriceIdr = bk_totalPriceIdr b,
          ce_amountPaidIdr = settled_amount d (bk_id b)\<rparr>)
       (select_one (\<lambda>(b, u, p). u_id u = bk_unitId b \<and> p_id p = u_propertyId u \<and> bk_id b = bookingId)
         (List.product (bookings d) (List.product (units d) (properties d))))"

definition stay_lines :: "confirmation_email \<Rightarrow> string" where
  "stay_lines d =
     ce_propertyName d @ '' - '' @ ce_unitName d @ newline @
     ''Check-in:  '' @ ce_checkIn d @ newline @ ''Check-out: '' @ ce_checkOut d"

definition paid_line :: "confirmation_email \<Rightarrow> string" where
  "paid_line d = ''Paid online: '' @ formatIdr (ce_amountPaidIdr d)"

definition balance_line :: "confirmation_email \<Rightarrow> string" where
  "balance_line d =
     (case ce_totalPriceIdr d of
        None \<Rightarrow> ''''
      | Some full \<Rightarrow>
          if full > ce_amountPaidIdr d
          then newline @ ''Balance at the property: '' @ formatIdr (full - ce_amountPaidIdr d) else '''')"

definition guest_message :: "confirmation_email \<Rightarrow> string \<Rightarrow> email_message" where
  "guest_message d address =
     text_message address (''Your booking is confirmed - '' @ ce_propertyName d)
       (''Hi '' @ (case ce_guestName d of Some g \<Rightarrow> g | None \<Rightarrow> ''there'') @ '','' @ newline @ newline @
        ''Your booking is confirmed. We look forward to hosting you.'' @ newline @ newline @
        stay_lines d @ newline @ newline @ paid_line d @ balance_line d @ newline @ newline @
        ''Booking reference: '' @ ce_bookingId d @ newline)"

definition owner_message :: "confirmation_email \<Rightarrow> string \<Rightarrow> email_message" where
  "owner_message d address =
     text_message address (''New confirmed booking - '' @ ce_propertyName d)
       (''A booking was just confirmed.'' @ newline @ newline @ stay_lines d @ newline @
        ''Guest: '' @ (case ce_guestName d of Some g \<Rightarrow> g | None \<Rightarrow> ''-'') @ newline @ newline @
        paid_line d @ balance_line d @ newline @ newline @
        ''Booking reference: '' @ ce_bookingId d @ newline)"

definition renderConfirmationEmail :: "confirmation_email \<Rightarrow> email_message list" where
  "renderConfirmationEmail d =
     (if truthy (ce_guestEmail d) then [guest_message d (the (ce_guestEmail d))] else []) @
     map (owner_message d) (ce_ownerEmails d)"

text \<open>The attempts of one notification, in order, each with its own outcome; the operation itself never fails.\<close>

definition notifyBookingConfirmed ::
  "(email_message \<Rightarrow> string + unit) \<Rightarrow> db \<Rightarrow> uuid \<Rightarrow> (email_message \<times> (string + unit)) list" where
  "notifyBookingConfirmed send d bookingId =
     (case readConfirmationData d bookingId of
        None \<Rightarrow> []
      | Some data \<Rightarrow> map (\<lambda>m. (m, send m)) (renderConfirmationEmail data))"

text \<open>
  Who hears of a confirmation does not depend on which sends fail: the guest, if they left an address,
  and every owner of the booking's own workspace, once each, and nobody else.
\<close>

lemma notified_recipients:
  assumes "b \<in> set (bookings d)" "distinct (map bk_id (bookings d))"
    "u \<in> set (units d)" "u_id u = bk_unitId b" "p \<in> set (properties d)" "p_id p = u_propertyId u"
  shows "map (em_to \<circ> fst) (notifyBookingConfirmed send d (bk_id b)) =
    (if truthy (bk_guestEmail b) then [the (bk_guestEmail b)] else []) @ owner_emails d (bk_tenantId b)"
proof -
  let ?rows = "List.product (bookings d) (List.product (units d) (properties d))"
  let ?P = "\<lambda>(c, u, p). u_id u = bk_unitId c \<and> p_id p = u_propertyId u \<and> bk_id c = bk_id b"
  have "(b, u, p) \<in> set ?rows" "?P (b, u, p)" using assms by auto
  then have "select_one ?P ?rows \<noteq> None" by (auto simp del: set_product)
  then obtain x where x: "select_one ?P ?rows = Some x" by blast
  obtain c v q where "x = (c, v, q)" by (rule prod_cases3)
  with x have row: "select_one ?P ?rows = Some (c, v, q)" by (simp only:)
  then have "c \<in> set (bookings d)" "bk_id c = bk_id b" by (auto dest!: select_one_SomeD)
  then have "c = b" using assms(1,2) unfolding distinct_map by (metis inj_onD)
  then obtain data where data: "readConfirmationData d (bk_id b) = Some data"
    "ce_guestEmail data = bk_guestEmail b" "ce_ownerEmails data = owner_emails d (bk_tenantId b)"
    using row by (auto simp: readConfirmationData_def)
  have "em_to (guest_message x a) = a" "em_to (owner_message x a) = a" for x a
    by (simp_all add: guest_message_def owner_message_def text_message_def)
  then show ?thesis by (simp add: notifyBookingConfirmed_def data renderConfirmationEmail_def comp_def)
qed

end
