(* ===== verification/People_Witnesses.thy ===== *)
theory People_Witnesses
  imports Team_Refinement Public_Page Notifications Witnesses
begin

text \<open>
  The theorems about people, properties, photos and the calendar, instantiated: a workspace with an
  owner, a staff member, a grant and a pending invite; tokens as injective texts; a store as a list.
\<close>

section \<open>Tokens and passwords\<close>

text \<open>A text that can be read back from the front of a longer one.\<close>

definition pack :: "string \<Rightarrow> string" where
  "pack s = concat (map (\<lambda>c. [CHR ''a'', c]) s) @ ''z''"

fun unpack :: "string \<Rightarrow> (string \<times> string) option" where
  "unpack [] = None"
| "unpack [t] = (if t = CHR ''z'' then Some ([], []) else None)"
| "unpack (t # c # r) =
     (if t = CHR ''z'' then Some ([], c # r)
      else map_option (\<lambda>(s, rest). (c # s, rest)) (unpack r))"

lemma unpack_pack [simp]: "unpack (pack s @ r) = Some (s, r)"
proof (induction s)
  case Nil
  show ?case by (cases r) (simp_all add: pack_def)
next
  case (Cons c s)
  have "pack (c # s) @ r = CHR ''a'' # c # (pack s @ r)" by (simp add: pack_def)
  then show ?case using Cons by simp
qed

lemma unpack_pack_end [simp]: "unpack (pack s) = Some (s, [])"
  using unpack_pack [of s "[]"] by simp

definition sign_access :: "access_payload \<Rightarrow> string" where
  "sign_access p = pack (ap_sub p) @ pack (ap_tenantId p) @ (if ap_role p = Owner then ''o'' else ''s'')"

definition verify_access :: "string \<Rightarrow> access_payload option" where
  "verify_access t =
     Option.bind (unpack t) (\<lambda>(a, r). Option.bind (unpack r) (\<lambda>(b, k).
       Some \<lparr>ap_sub = a, ap_tenantId = b, ap_role = (if k = ''o'' then Owner else Staff)\<rparr>))"

definition sign_refresh :: "refresh_payload \<Rightarrow> string" where
  "sign_refresh p = pack (rp_sub p) @ (case rp_tenantId p of None \<Rightarrow> [] | Some t \<Rightarrow> pack t)"

definition verify_refresh :: "string \<Rightarrow> refresh_payload option" where
  "verify_refresh t =
     map_option (\<lambda>(a, r). \<lparr>rp_sub = a, rp_tenantId = map_option fst (unpack r)\<rparr>) (unpack t)"

definition sample_auth :: auth_env where
  "sample_auth = \<lparr>ae_now = 9, ae_newTenantId = ''t9'', ae_newUserId = ''x9'',
     ae_signAccess = sign_access, ae_verifyAccess = verify_access, ae_signRefresh = sign_refresh,
     ae_verifyRefresh = verify_refresh, ae_hash = rev, ae_compare = (\<lambda>w h. rev w = h)\<rparr>"

lemma sample_auth_lawful: "auth_lawful sample_auth"
proof -
  have "verify_access (sign_access p) = Some p" for p
    by (cases p; cases "ap_role p") (simp_all add: verify_access_def sign_access_def)
  moreover have "verify_refresh (sign_refresh p) = Some p" for p
    by (cases p; cases "rp_tenantId p") (simp_all add: verify_refresh_def sign_refresh_def)
  moreover have "sign_refresh p \<noteq> []" for p
    by (simp add: sign_refresh_def pack_def)
  ultimately show ?thesis by (simp add: auth_lawful_def sample_auth_def)
qed

section \<open>A workspace\<close>

definition person :: "uuid \<Rightarrow> string \<Rightarrow> app_user_row" where
  "person i e = \<lparr>au_id = i, au_email = e, au_passwordHash = ''drowssap'', au_createdAt = 0\<rparr>"

definition seat :: "uuid \<Rightarrow> user_role \<Rightarrow> membership_row" where
  "seat i r = \<lparr>m_appUserId = i, m_tenantId = ''t1'', m_role = r, m_createdAt = 0\<rparr>"

definition sample_invite :: staff_invite_row where
  "sample_invite = \<lparr>si_id = ''i1'', si_tenantId = ''t1'', si_email = ''C@x'', si_tokenHash = ''k'',
     si_expiresAt = 100, si_acceptedAt = None, si_revokedAt = None, si_createdBy = ''own'', si_createdAt = 0\<rparr>"

definition team_db :: db where
  "team_db = sample_db\<lparr>
     tenants := [\<lparr>t_id = ''t1'', t_name = ''Villa'', t_galleryCap = 30, t_createdAt = 0\<rparr>],
     app_users := [person ''own'' ''a@x'', person ''stf'' ''b@x''],
     memberships := [seat ''own'' Owner, seat ''stf'' Staff],
     user_properties := [\<lparr>up_appUserId = ''stf'', up_propertyId = ''p1'', up_tenantId = ''t1''\<rparr>],
     staff_invites := [sample_invite],
     staff_invite_properties := [\<lparr>sip_inviteId = ''i1'', sip_propertyId = ''p1'', sip_tenantId = ''t1''\<rparr>]\<rparr>"

lemma team_rows:
  "tenants team_db = [\<lparr>t_id = ''t1'', t_name = ''Villa'', t_galleryCap = 30, t_createdAt = 0\<rparr>]"
  "app_users team_db = [person ''own'' ''a@x'', person ''stf'' ''b@x'']"
  "memberships team_db = [seat ''own'' Owner, seat ''stf'' Staff]"
  "user_properties team_db = [\<lparr>up_appUserId = ''stf'', up_propertyId = ''p1'', up_tenantId = ''t1''\<rparr>]"
  "staff_invites team_db = [sample_invite]"
  "staff_invite_properties team_db = [\<lparr>sip_inviteId = ''i1'', sip_propertyId = ''p1'', sip_tenantId = ''t1''\<rparr>]"
  "properties team_db = [sample_property]"
  by (simp_all add: team_db_def sample_rows)

lemma team_accounts: "accounts_ok team_db"
proof -
  have "users_ok team_db" unfolding users_ok_def team_rows by code_simp
  moreover have "grants_ok team_db"
    unfolding grants_ok_def seat_of_def owns_property_def team_rows by code_simp
  moreover have "invites_ok team_db"
    unfolding invites_ok_def seat_of_def owns_property_def team_rows by code_simp
  ultimately show ?thesis by (simp add: accounts_ok_def)
qed

lemma team_properties: "properties_ok team_db"
  unfolding properties_ok_def team_rows by code_simp

lemma team_ready: "team_ok team_db" "distinct (map p_id (properties team_db))"
  by (simp_all add: team_ok_def team_accounts team_properties team_rows)

definition sample_login :: login_request where
  "sample_login = \<lparr>lg_email = ''A@X'', lg_password = ''password''\<rparr>"

lemma sessions_are_seats_witness:
  "case login sample_auth sample_login team_db of Inl e \<Rightarrow> False | Inr a \<Rightarrow> session_good sample_auth team_db a"
proof -
  have "\<not> isl (login sample_auth sample_login team_db)" by code_simp
  then obtain a where a: "login sample_auth sample_login team_db = Inr a" by (auto simp: isl_def split: sum.splits) (metis sum.exhaust)
  then show ?thesis
    using sessions_are_seats [OF sample_auth_lawful team_accounts, of undefined empty_db a sample_login] by simp
qed

definition sample_register :: register_request where
  "sample_register = \<lparr>rr_tenantName = ''Losmen'', rr_email = ''new@x'', rr_password = ''password''\<rparr>"

lemma register_witness:
  "\<exists>a d'. register sample_auth sample_register team_db = Inr (a, d') \<and> length (tenants d') = 2 \<and>
     login sample_auth \<lparr>lg_email = ''NEW@x'', lg_password = ''password''\<rparr> d' = Inr a"
proof -
  have fresh: "fresh_ids sample_auth team_db" unfolding fresh_ids_def team_rows by code_simp
  have free: "\<not> (\<exists>u \<in> set (app_users team_db). citext_eq (au_email u) (rr_email sample_register))"
    unfolding team_rows by code_simp
  have same: "citext_eq ''NEW@x'' (rr_email sample_register)" by code_simp
  show ?thesis
    using register_contract [OF sample_auth_lawful team_accounts fresh, of sample_register] free same
    by (auto simp: team_rows sample_register_def)
qed

section \<open>An invite accepted\<close>

definition sample_env :: invite_env where
  "sample_env = \<lparr>ve_auth = sample_auth, ve_now = 50, ve_dbNow = 50, ve_collate = id, ve_token = ''k'',
     ve_hashInviteToken = id, ve_newInviteId = ''i9'', ve_webBaseUrl = ''https://app'', ve_send = (\<lambda>m. True)\<rparr>"

lemma sample_env_lawful: "auth_lawful (ve_auth sample_env)"
  using sample_auth_lawful by (simp add: sample_env_def)

definition sample_accept :: accept_request where
  "sample_accept = \<lparr>aq_token = ''k'', aq_password = ''secret''\<rparr>"

lemma accept_witness:
  "case accept_invite sample_env sample_accept team_db of
     (Inl e, d') \<Rightarrow> False
   | (Inr a, d') \<Rightarrow> session_good sample_auth d' a \<and> grants_of d' ''t1'' (sb_userId (an_session a)) = {''p1''}"
proof -
  have ok: "\<not> isl (fst (accept_invite sample_env sample_accept team_db))"
    "sb_userId (an_session (projr (fst (accept_invite sample_env sample_accept team_db)))) = ''x9''"
    by code_simp+
  obtain r d' where run: "accept_invite sample_env sample_accept team_db = (r, d')" by fastforce
  with ok(1) obtain a where r: "r = Inr a" by (cases r) simp_all
  have who: "sb_userId (an_session a) = ''x9''" using ok(2) by (simp add: run r)
  have env: "ve_auth sample_env = sample_auth" by (simp add: sample_env_def)
  have S: "invited_ids team_db ''i1'' = {''p1''}" "grants_of team_db ''t1'' ''x9'' = {}"
    by (simp_all add: invited_ids_def invite_grants_def grants_of_def team_rows)
  have only: "i = sample_invite" if "i \<in> set (staff_invites team_db)" for i
    using that by (simp add: team_rows)
  have inv: "si_tenantId sample_invite = ''t1''" "si_id sample_invite = ''i1''" by (simp_all add: sample_invite_def)
  have "session_good (ve_auth sample_env) d' a \<and> roster_of d' =
      on_roster (Joined (si_tenantId sample_invite) (sb_userId (an_session a)) (invited_ids team_db (si_id sample_invite)))
        (roster_of team_db)"
    using accept_contract [OF sample_env_lawful team_accounts team_ready(2), of sample_accept] only
    unfolding run r prod.case sum.case by blast
  then have "session_good sample_auth d' a" and ros: "roster_of d' ''t1'' ''x9'' =
      on_roster (Joined ''t1'' ''x9'' {''p1''}) (roster_of team_db) ''t1'' ''x9''"
    unfolding env inv who S by simp_all
  moreover have "grants_of d' ''t1'' ''x9'' = snd (roster_of d' ''t1'' ''x9'')" by (simp add: roster_of_def)
  then have "grants_of d' ''t1'' ''x9'' = {''p1''}"
    unfolding ros by (simp add: set_member_def roster_of_def S)
  ultimately show ?thesis unfolding run r by (simp add: who)
qed

section \<open>The owner's screen and the roster\<close>

lemma screen_witness:
  "\<exists>rows. list_staff id (Some owner_p) team_db = Inr rows \<and>
     (\<lambda>r. (st_id r, set (map as_id (st_properties r)))) ` set rows = {(''stf'', {''p1''})}"
proof -
  have "\<forall>p \<in> set (properties team_db). p_id p \<noteq> [] \<and> p_name p \<noteq> []"
    by (simp add: team_rows sample_property_def)
  from screen_is_roster [OF team_accounts team_ready(2) this, of id "''own''" "''t1''"]
  have "\<exists>rows. list_staff id (Some owner_p) team_db = Inr rows \<and>
     (\<lambda>r. (st_id r, set (map as_id (st_properties r)))) ` set rows =
       {(uid, S). roster_of team_db ''t1'' uid = (Some Staff, S)}" by blast
  moreover have "roster_of team_db ''t1'' uid = (Some Staff, S) \<longleftrightarrow> uid = ''stf'' \<and> S = {''p1''}" for uid S
    by (auto simp: roster_of_def role_of_def grants_of_def same_member_def team_rows seat_def)
  ultimately show ?thesis by auto
qed

text \<open>Two steps: the assignment is replaced, then the member is dismissed.\<close>

definition reassigned_db :: db where
  "reassigned_db = snd (projr (updateAssignments id (Some owner_p) ''stf'' [''p1''] team_db))"

definition dismissed_db :: db where
  "dismissed_db = projr (remove_staff (Some owner_p) ''stf'' reassigned_db)"

lemma team_witness:
  "roster_of dismissed_db ''t1'' ''stf'' = (None, {}) \<and>
   visible_ids dismissed_db (User_principal ''stf'' ''t1'' Staff) = {}"
proof -
  have "\<not> isl (updateAssignments id (Some owner_p) ''stf'' [''p1''] team_db)" by code_simp
  then have 1: "updateAssignments id (Some owner_p) ''stf'' [''p1''] team_db =
      Inr (fst (projr (updateAssignments id (Some owner_p) ''stf'' [''p1''] team_db)), reassigned_db)"
    by (simp add: reassigned_db_def)
  have "\<not> isl (remove_staff (Some owner_p) ''stf'' reassigned_db)" by code_simp
  then have 2: "remove_staff (Some owner_p) ''stf'' reassigned_db = Inr dismissed_db"
    by (simp add: dismissed_db_def)
  have "team_run team_db ([] @ [Assigned ''t1'' ''stf'' (set [''p1''])]) reassigned_db"
    using run_start team_assign [OF 1] by (rule run_more)
  then have run: "team_run team_db (([] @ [Assigned ''t1'' ''stf'' (set [''p1''])]) @ [Dismissed ''t1'' ''stf'']) dismissed_db"
    using team_dismiss [OF 2] by (rule run_more)
  show ?thesis
    using team_refines_roster [OF run team_ready(1)] by (simp add: set_member_def)
qed

section \<open>A shelf of photos\<close>

text \<open>A store as a list of keys, content types and first octets; every object is small and old.\<close>

type_synonym shelf = "(string \<times> string \<times> string) list"

definition shelf_list :: "shelf \<Rightarrow> string \<Rightarrow> string option \<Rightarrow> list_page" where
  "shelf_list st pre tok =
     \<lparr>pg_contents = map (\<lambda>(k, x). \<lparr>li_key = Some k, li_size = Some 10, li_lastModified = Some 0\<rparr>)
        (filter (\<lambda>(k, x). prefix pre k) st),
      pg_truncated = False, pg_next = None\<rparr>"

definition shelf_api :: "shelf object_api" where
  "shelf_api = \<lparr>oa_get = map_of, oa_list = shelf_list,
     oa_delete = (\<lambda>ks. filter (\<lambda>(k, x). k \<notin> set ks))\<rparr>"

lemma shelf_cons:
  "page_objects (shelf_list ((k, x) # st) pre tok) =
     (if prefix pre k \<and> k \<noteq> [] then [\<lparr>so_key = k, so_size = 10, so_lastModified = Some 0\<rparr>] else []) @
     page_objects (shelf_list st pre tok)"
  by (simp add: page_objects_def shelf_list_def List.map_filter_def to_object_def)

lemma shelf_objects:
  "so_key ` set (page_objects (shelf_list st pre tok)) = {k. prefix pre k \<and> k \<noteq> [] \<and> map_of st k \<noteq> None}"
proof (induction st)
  case Nil
  show ?case by (simp add: page_objects_def shelf_list_def List.map_filter_def)
next
  case (Cons x st)
  obtain k y where x: "x = (k, y)" by (cases x)
  have "so_key ` set (page_objects (shelf_list (x # st) pre tok)) =
      (if prefix pre k \<and> k \<noteq> [] then {k} else {}) \<union> {k. prefix pre k \<and> k \<noteq> [] \<and> map_of st k \<noteq> None}"
    unfolding x shelf_cons set_append image_Un Cons by (cases "prefix pre k \<and> k \<noteq> []") auto
  then show ?case unfolding x by auto
qed

lemma shelf_delete:
  "map_of (filter (\<lambda>(k, x). k \<notin> set ks) st) k = (if k \<in> set ks then None else map_of st k)"
  by (induction st) auto

lemma shelf_lawful: "store_lawful shelf_api"
proof -
  have "page_chain shelf_api st pre None (page_objects (shelf_list st pre None))" for st pre
    using last_page [of shelf_api st pre None] by (simp add: shelf_api_def shelf_list_def next_token_def)
  moreover have "k \<in> so_key ` set (page_objects (shelf_list st pre None)) \<longleftrightarrow>
      prefix pre k \<and> k \<noteq> [] \<and> stored shelf_api st k" for st pre k
    unfolding shelf_objects by (simp add: stored_def shelf_api_def)
  moreover have "oa_get shelf_api (oa_delete shelf_api ks st) k =
      (if k \<in> set ks then None else oa_get shelf_api st k)" for ks st k
    by (simp add: shelf_api_def shelf_delete)
  ultimately show ?thesis unfolding store_lawful_def by blast
qed

definition kept_photo :: string where "kept_photo = ''t1/p1/a.jpg''"

definition lost_photo :: string where "lost_photo = ''t1/p1/b.jpg''"

definition shelf :: shelf where
  "shelf = [(kept_photo, ''image/jpeg'', ''''), (lost_photo, ''image/jpeg'', '''')]"

definition photo_db :: db where
  "photo_db = team_db\<lparr>properties := [sample_property\<lparr>p_photos := [kept_photo]\<rparr>]\<rparr>"


lemma galleries_witness:
  "\<exists>r d' st'. sweep shelf_api 90000000 None photo_db shelf = Some (r, d', st') \<and> gallery_ok shelf_api d' st'"
proof -
  have ps: "properties photo_db = [sample_property\<lparr>p_photos := [kept_photo]\<rparr>]" by (simp add: photo_db_def)
  have "properties_ok photo_db" unfolding properties_ok_def ps by code_simp
  moreover have "stored shelf_api shelf kept_photo" by code_simp
  moreover have "prefix (photoKeyPrefix ''t1'' ''p1'') kept_photo" by code_simp
  ultimately have ok: "gallery_ok shelf_api photo_db shelf"
    by (simp add: gallery_ok_def ps) (simp add: sample_property_def)
  obtain r d' st' where run: "sweep shelf_api 90000000 None photo_db shelf = Some (r, d', st')"
    using sweep_outcome [OF shelf_lawful] by blast
  then have "(photo_step shelf_api)\<^sup>*\<^sup>* (photo_db, shelf) (d', st')"
    by (intro r_into_rtranclp photo_sweep)
  then show ?thesis using galleries_never_dangle [OF shelf_lawful ok] run by blast
qed

section \<open>Properties\<close>

definition sample_new_property :: create_property_request where
  "sample_new_property = \<lparr>cp_name = ''Villa'', cp_address = None, cp_latitude = None, cp_longitude = None,
     cp_description = None, cp_licenseNo = None, cp_depositPct = None, cp_timeZone = None\<rparr>"


lemma remove_property_witness:
  "\<exists>n > 0. remove_property (Some owner_p) ''p1'' sample_db = Inl (Conflict (Property_has_bookings n))"
  using remove_property_contract [OF sample_ok, of "''own''" "''t1''" "''p1''"]
  by (auto simp: Let_def sample_rows sample_property_def sample_booking_def sample_unit_def spare_unit_def)

section \<open>The calendar and the export\<close>

definition every_booking :: list_bookings_query where
  "every_booking = \<lparr>lq_from = None, lq_to = None, lq_propertyId = None, lq_unitId = None, lq_status = None,
     lq_source = None\<rparr>"


lemma calendar_witness:
  "\<exists>r rows. getPublicQuote sample_db ''u1'' ''2026-08-20'' ''2026-08-23'' = Inr r \<and>
     list_bookings (Some owner_p) (calendar_query ''u1'' ''2026-08-20'' ''2026-08-23'') sample_db = Inr rows \<and>
     rows \<noteq> [] \<and> Overlap \<in> set (ar_reasons r)"
proof -
  have "\<not> isl (getPublicQuote sample_db ''u1'' ''2026-08-20'' ''2026-08-23'')" by code_simp
  then obtain r where r: "getPublicQuote sample_db (u_id sample_unit) ''2026-08-20'' ''2026-08-23'' = Inr r"
    by (auto simp: isl_def sample_unit_def) (metis sum.exhaust)
  have "case list_bookings (Some owner_p) (calendar_query ''u1'' ''2026-08-20'' ''2026-08-23'') sample_db of
      Inl e \<Rightarrow> False | Inr rows \<Rightarrow> rows \<noteq> []" by code_simp
  then obtain rows where rows: "list_bookings (Some owner_p)
      (calendar_query (u_id sample_unit) ''2026-08-20'' ''2026-08-23'') sample_db = Inr rows" "rows \<noteq> []"
    by (auto simp: sample_unit_def split: sum.splits)
  have vis: "rls_unit sample_db (session_of owner_p) sample_unit"
    using sample_owned by (simp add: owned_unit_def)
  show ?thesis
    using calendar_agrees_with_quote [OF sample_ok sample_unit_in vis sample_window(2) r rows(1)] r rows
    by (auto simp: sample_unit_def)
qed

end
