(* ===== verification/Web_Base.thy ===== *)
theory Web_Base
  imports Bookings_Csv Wa_Link
begin

text \<open>
  What the models of the web application share: the JavaScript of their date strings
  (\<^verbatim>\<open>apps/web/src/lib/date.ts\<close>), sorting by a comparator, a \<^verbatim>\<open>Map\<close> of lists, and the query string that
  \<^verbatim>\<open>URLSearchParams\<close> writes, with the reader of it the URL standard gives.
\<close>

section \<open>Numbers and date strings\<close>

text \<open>\<^verbatim>\<open>s.split(c)\<close> for a one-character separator: never empty.\<close>

fun split_on :: "char \<Rightarrow> string \<Rightarrow> string list" where
  "split_on c [] = [[]]"
| "split_on c (x # xs) =
     (if x = c then [] # split_on c xs else (x # hd (split_on c xs)) # tl (split_on c xs))"

text \<open>\<^verbatim>\<open>Number(s)\<close> on a run of digits; every other string the code can pass it (the parts of a date) is not a
  number. \<^verbatim>\<open>String(n).padStart(w, "0")\<close> pads and never cuts.\<close>

definition js_number :: "string \<Rightarrow> int option" where
  "js_number s = (if s \<noteq> [] \<and> list_all is_digit s then Some (int (num s)) else None)"

definition pad_start :: "nat \<Rightarrow> string \<Rightarrow> string" where
  "pad_start w s = replicate (w - length s) (CHR ''0'') @ s"

text \<open>\<^verbatim>\<open>addDays\<close>: no answer when the date does not parse or the result leaves the range of \<^verbatim>\<open>Date\<close>.\<close>

definition MAX_TIME :: int where
  "MAX_TIME = 8640000000000000"

definition addDays :: "date \<Rightarrow> int \<Rightarrow> date option" where
  "addDays day n =
     Option.bind (date_parse day) (\<lambda>t.
       let r = t + n * MS_PER_NIGHT in if \<bar>r\<bar> \<le> MAX_TIME then Some (iso_prefix r) else None)"

lemma split_on_nonempty [simp]: "split_on c s \<noteq> []"
  by (cases s) simp_all

lemma split_on_last: "c \<notin> set s \<Longrightarrow> split_on c s = [s]"
  by (induction s) auto

lemma split_on_append: "c \<notin> set s \<Longrightarrow> split_on c (s @ c # r) = s # split_on c r"
  by (induction s) auto

lemma split_on_join: "xs \<noteq> [] \<Longrightarrow> \<forall>x \<in> set xs. c \<notin> set x \<Longrightarrow> split_on c (join [c] xs) = xs"
proof (induction xs)
  case (Cons x xs)
  then show ?case by (cases xs) (simp_all add: split_on_last split_on_append join_Cons)
qed simp

lemma digit_char_0: "digit_char 0 = CHR ''0''"
  by code_simp

lemma pad_start_digits: "0 < w \<Longrightarrow> n < 10 ^ w \<Longrightarrow> pad_start w (digits n) = pad w n"
proof (induction w arbitrary: n)
  case (Suc w)
  show ?case
  proof (cases "n < 10")
    case True
    have "pad w 0 = replicate w (CHR ''0'')" for w
      by (induction w) (simp_all add: replicate_append_same [symmetric] digit_char_0)
    with True show ?thesis by (simp add: pad_start_def digits.simps [of n])
  next
    case False
    with Suc.prems have "0 < w" "n div 10 < 10 ^ w" by (cases w; simp)+
    from Suc.IH [OF this] False show ?thesis by (simp add: pad_start_def digits.simps [of n])
  qed
qed simp

lemma js_number_pad: "0 < w \<Longrightarrow> n < 10 ^ w \<Longrightarrow> js_number (pad w n) = Some (int n)"
proof -
  assume a: "0 < w" "n < 10 ^ w"
  then have "pad w n \<noteq> []" by (metis length_pad less_numeral_extra(3) list.size(3))
  with a show ?thesis by (simp add: js_number_def pad_digits num_pad)
qed

lemma is_digit_dash [simp]: "\<not> is_digit (CHR ''-'')"
  by code_simp

lemma pad_no_dash: "CHR ''-'' \<notin> set (pad w n)"
  using pad_digits [of w n] by (auto simp: list_all_iff)

lemma addDays_iso:
  assumes "is_iso_date s" "first_day \<le> day_of s + n" "day_of s + n \<le> last_day"
  shows "\<exists>t. addDays s n = Some t \<and> is_iso_date t \<and> day_of t = day_of s + n"
proof -
  have e: "MS_PER_NIGHT * day_of s + n * MS_PER_NIGHT = MS_PER_NIGHT * (day_of s + n)"
    by (simp add: algebra_simps)
  have "\<bar>MS_PER_NIGHT * (day_of s + n)\<bar> \<le> MAX_TIME"
    using assms(2,3) by (simp add: MS_PER_NIGHT_def MAX_TIME_def first_day_def last_day_def)
  with assms(1) date_of_day [OF assms(2,3)] show ?thesis by (simp add: addDays_def date_parse_def e)
qed

section \<open>Sorting and grouping\<close>

text \<open>\<^verbatim>\<open>xs.sort(compare)\<close>: stable. The comparator the code passes is a parameter of the model (the platform's
  \<^verbatim>\<open>localeCompare\<close>), so its answer is a number.\<close>

fun insert_by :: "('a \<Rightarrow> 'a \<Rightarrow> int) \<Rightarrow> 'a \<Rightarrow> 'a list \<Rightarrow> 'a list" where
  "insert_by cmp x [] = [x]"
| "insert_by cmp x (y # ys) = (if cmp x y \<le> 0 then x # y # ys else y # insert_by cmp x ys)"

definition sort_by :: "('a \<Rightarrow> 'a \<Rightarrow> int) \<Rightarrow> 'a list \<Rightarrow> 'a list" where
  "sort_by cmp xs = foldr (insert_by cmp) xs []"

lemma set_insert_by [simp]: "set (insert_by cmp x ys) = insert x (set ys)"
  by (induction ys) auto

lemma set_sort_by [simp]: "set (sort_by cmp xs) = set xs"
  by (induction xs) (simp_all add: sort_by_def)

lemma distinct_insert_by: "distinct (map f (insert_by cmp x ys)) \<longleftrightarrow> distinct (map f (x # ys))"
  by (induction ys) auto

lemma distinct_sort_by: "distinct (map f (sort_by cmp xs)) \<longleftrightarrow> distinct (map f xs)"
proof (induction xs)
  case (Cons x xs)
  have "sort_by cmp (x # xs) = insert_by cmp x (sort_by cmp xs)" by (simp add: sort_by_def)
  with Cons show ?case by (simp add: distinct_insert_by image_iff)
qed (simp add: sort_by_def)

text \<open>The loop that files each row under its key, and what a lookup finds.\<close>

definition file_under :: "('a \<Rightarrow> 'k) \<Rightarrow> 'a \<Rightarrow> ('k \<Rightarrow> 'a list option) \<Rightarrow> ('k \<Rightarrow> 'a list option)" where
  "file_under k x m = (case m (k x) of Some l \<Rightarrow> m(k x \<mapsto> l @ [x]) | None \<Rightarrow> m(k x \<mapsto> [x]))"

definition filed_lists :: "('a \<Rightarrow> 'k) \<Rightarrow> 'a list \<Rightarrow> ('k \<Rightarrow> 'a list option)" where
  "filed_lists k xs = fold (file_under k) xs Map.empty"

definition filed_at :: "('k \<Rightarrow> 'a list option) \<Rightarrow> 'k \<Rightarrow> 'a list" where
  "filed_at m key = (case m key of Some l \<Rightarrow> l | None \<Rightarrow> [])"

lemma filed_at_lists [simp]: "filed_at (filed_lists k xs) key = filter (\<lambda>x. k x = key) xs"
proof -
  have "filed_at (fold (file_under k) xs m) key = filed_at m key @ filter (\<lambda>x. k x = key) xs" for m
    by (induction xs arbitrary: m) (auto simp: filed_at_def file_under_def split: option.split)
  from this [of Map.empty] show ?thesis by (simp add: filed_lists_def filed_at_def)
qed

section \<open>Query strings\<close>

text \<open>\<^verbatim>\<open>URLSearchParams.toString()\<close>: the form encoding of the URL standard, an octet at a time.\<close>

definition form_safe :: "char \<Rightarrow> bool" where
  "form_safe c \<longleftrightarrow>
     in_class (CHR ''a'') (CHR ''z'') c \<or> in_class (CHR ''A'') (CHR ''Z'') c \<or> is_digit c \<or> c \<in> set ''*-._''"

definition form_octet :: "char \<Rightarrow> string" where
  "form_octet c =
     (if form_safe c then [c] else if c = CHR '' '' then ''+''
      else let k = (of_char c :: nat) in [CHR ''%'', hex_char (k div 16), hex_char (k mod 16)])"

definition form_encode :: "string \<Rightarrow> string" where
  "form_encode s = concat (map form_octet s)"

definition search_string :: "(string \<times> string) list \<Rightarrow> string" where
  "search_string ps = join ''&'' (map (\<lambda>(k, v). form_encode k @ ''='' @ form_encode v) ps)"

text \<open>The reader: pairs between \<^verbatim>\<open>&\<close>, the name up to the first \<^verbatim>\<open>=\<close>.\<close>

fun form_decode :: "string \<Rightarrow> string" where
  "form_decode [] = []"
| "form_decode (c # cs) =
     (if c = CHR ''+'' then CHR '' '' # form_decode cs
      else if c = CHR ''%'' then
        (case cs of h # l # rest \<Rightarrow> char_of (16 * hex_val h + hex_val l) # form_decode rest | _ \<Rightarrow> [])
      else c # form_decode cs)"

definition read_pair :: "string \<Rightarrow> string \<times> string" where
  "read_pair s =
     (form_decode (takeWhile (\<lambda>c. c \<noteq> CHR ''='') s), form_decode (drop 1 (dropWhile (\<lambda>c. c \<noteq> CHR ''='') s)))"

definition read_search :: "string \<Rightarrow> (string \<times> string) list" where
  "read_search s = map read_pair (filter (\<lambda>p. p \<noteq> []) (split_on (CHR ''&'') s))"

lemma form_safe_not: "form_safe c \<Longrightarrow> c \<noteq> CHR ''+'' \<and> c \<noteq> CHR ''%'' \<and> c \<noteq> CHR ''='' \<and> c \<noteq> CHR ''&''"
  by (auto simp: form_safe_def is_digit_def less_eq_char_def)

lemma hex_char_safe: "n < 16 \<Longrightarrow> hex_char n \<noteq> CHR ''='' \<and> hex_char n \<noteq> CHR ''&''"
proof -
  have "hex_char 6 \<noteq> CHR ''=''" "hex_char 0 \<noteq> CHR ''&''" by code_simp+
  moreover assume "n < 16"
  ultimately show ?thesis using hex_val_char [of n] by (auto simp: hex_val_def)
qed

lemma octet_less: "of_char (c :: char) < (256 :: nat)"
  by (simp add: of_char_def)

lemma form_encode_inert: "x \<in> set (form_encode s) \<Longrightarrow> x \<noteq> CHR ''='' \<and> x \<noteq> CHR ''&''"
  using hex_char_safe octet_less
  by (auto simp: form_encode_def form_octet_def Let_def less_mult_imp_div_less dest: form_safe_not split: if_splits)

lemma form_decode_octet: "form_decode (form_octet c @ rest) = c # form_decode rest"
proof (cases "form_safe c \<or> c = CHR '' ''")
  case True
  then show ?thesis by (auto simp: form_octet_def form_safe_def is_digit_def dest: form_safe_not)
next
  case False
  let ?k = "of_char c :: nat"
  have "?k div 16 < 16" "?k mod 16 < 16" using octet_less [of c] by (simp_all add: less_mult_imp_div_less)
  then have "16 * hex_val (hex_char (?k div 16)) + hex_val (hex_char (?k mod 16)) = ?k"
    by (simp add: hex_val_char)
  with False show ?thesis by (simp add: form_octet_def Let_def)
qed

lemma form_decode_encode [simp]: "form_decode (form_encode s) = s"
  by (induction s) (simp_all add: form_encode_def form_decode_octet)

lemma read_pair_write: "read_pair (form_encode k @ ''='' @ form_encode v) = (k, v)"
proof -
  have *: "\<And>x. x \<in> set (form_encode k) \<Longrightarrow> x \<noteq> CHR ''=''" by (simp add: form_encode_inert)
  then have "takeWhile (\<lambda>c. c \<noteq> CHR ''='') (form_encode k @ ''='' @ form_encode v) = form_encode k"
    "dropWhile (\<lambda>c. c \<noteq> CHR ''='') (form_encode k @ ''='' @ form_encode v) = ''='' @ form_encode v"
    by (simp_all add: takeWhile_append2 dropWhile_append2)
  then show ?thesis by (simp add: read_pair_def)
qed

lemma read_search_string [simp]: "read_search (search_string ps) = ps"
proof (cases ps)
  case Nil
  then show ?thesis by (simp add: read_search_def search_string_def)
next
  case (Cons p qs)
  let ?w = "\<lambda>(k, v). form_encode k @ ''='' @ form_encode v"
  have "split_on (CHR ''&'') (join [CHR ''&''] (map ?w ps)) = map ?w ps"
    using Cons by (intro split_on_join) (auto dest: form_encode_inert)
  moreover have "filter (\<lambda>p. p \<noteq> []) (map ?w ps) = map ?w ps"
    by (auto simp: filter_id_conv split_def)
  moreover have "map (read_pair \<circ> ?w) ps = ps"
    by (rule map_idI) (auto simp: read_pair_write simp del: append_Cons)
  ultimately show ?thesis by (simp add: read_search_def search_string_def)
qed

end
