(* ===== verification/Query_Reader.thy ===== *)
theory Query_Reader
  imports Web_Base
begin

text \<open>
  How \<^verbatim>\<open>GET /bookings\<close> reads its query string: the pairs by name, as the platform hands them to the
  validation pipe, through \<^verbatim>\<open>listBookingsQuerySchema\<close> of \<^verbatim>\<open>packages/shared/src/booking-list.ts\<close> - strict about
  unknown names, one value for a scalar, any number for a set filter.
\<close>

section \<open>Single values\<close>

text \<open>\<^verbatim>\<open>z.string().uuid()\<close>: five groups of hexadecimal digits.\<close>

definition is_hex :: "char \<Rightarrow> bool" where
  "is_hex c \<longleftrightarrow> is_digit c \<or> in_class (CHR ''a'') (CHR ''f'') c \<or> in_class (CHR ''A'') (CHR ''F'') c"

definition is_uuid :: "string \<Rightarrow> bool" where
  "is_uuid s \<longleftrightarrow>
     map length (split_on (CHR ''-'') s) = [8, 4, 4, 4, 12] \<and>
     list_all (list_all is_hex) (split_on (CHR ''-'') s)"

text \<open>\<^verbatim>\<open>bookingStatusSchema\<close> and \<^verbatim>\<open>bookingSourceSchema\<close>: the member a string spells.\<close>

definition booking_statuses :: "booking_status list" where
  "booking_statuses = [Pending_payment, Confirmed, Cancelled, Expired]"

definition booking_sources :: "booking_source list" where
  "booking_sources = [Direct, Airbnb, Booking_com, Vrbo, Manual_block]"

definition bookingStatusSchema :: "string \<Rightarrow> booking_status option" where
  "bookingStatusSchema s = List.find (\<lambda>x. status_name x = s) booking_statuses"

definition bookingSourceSchema :: "string \<Rightarrow> booking_source option" where
  "bookingSourceSchema s = List.find (\<lambda>x. source_name x = s) booking_sources"

lemma status_of_name [simp]: "bookingStatusSchema (status_name x) = Some x"
  by (cases x) (simp_all add: bookingStatusSchema_def booking_statuses_def)

lemma source_of_name [simp]: "bookingSourceSchema (source_name x) = Some x"
  by (cases x) (simp_all add: bookingSourceSchema_def booking_sources_def)

section \<open>The whole query\<close>

definition values_of :: "(string \<times> string) list \<Rightarrow> string \<Rightarrow> string list" where
  "values_of ps k = map snd (filter (\<lambda>p. fst p = k) ps)"

text \<open>\<open>None\<close> is a refusal (400), \<open>Some None\<close> an absent parameter.\<close>

definition scalar_param :: "(string \<Rightarrow> bool) \<Rightarrow> string list \<Rightarrow> string option option" where
  "scalar_param ok vs =
     (case vs of [] \<Rightarrow> Some None | [v] \<Rightarrow> if ok v then Some (Some v) else None | _ \<Rightarrow> None)"

definition repeatable :: "(string \<Rightarrow> 'a option) \<Rightarrow> string list \<Rightarrow> 'a list option option" where
  "repeatable inner vs = (if vs = [] then Some None else map_option Some (those (map inner vs)))"

definition list_query_keys :: "string list" where
  "list_query_keys = [''from'', ''to'', ''propertyId'', ''unitId'', ''status'', ''source'']"

definition readListBookingsQuery :: "(string \<times> string) list \<Rightarrow> list_bookings_query option" where
  "readListBookingsQuery ps =
     (if \<not> list_all (\<lambda>p. fst p \<in> set list_query_keys) ps then None
      else
        Option.bind (scalar_param is_iso_date (values_of ps ''from'')) (\<lambda>from.
        Option.bind (scalar_param is_iso_date (values_of ps ''to'')) (\<lambda>to.
        Option.bind (scalar_param is_uuid (values_of ps ''propertyId'')) (\<lambda>propertyId.
        Option.bind (scalar_param is_uuid (values_of ps ''unitId'')) (\<lambda>unitId.
        Option.bind (repeatable bookingStatusSchema (values_of ps ''status'')) (\<lambda>status.
        Option.bind (repeatable bookingSourceSchema (values_of ps ''source'')) (\<lambda>source.
          let q = \<lparr>lq_from = from, lq_to = to, lq_propertyId = propertyId, lq_unitId = unitId,
                lq_status = status, lq_source = source\<rparr>
          in if listBookingsQuerySchema q then Some q else None)))))))"

section \<open>What a written query reads as\<close>

text \<open>The pairs the two pages write: a window, perhaps a property, the set filters.\<close>

definition filter_pairs ::
  "date \<times> date \<Rightarrow> uuid option \<Rightarrow> booking_status list \<Rightarrow> booking_source list \<Rightarrow> (string \<times> string) list" where
  "filter_pairs window propertyId ss xs =
     [(''from'', fst window), (''to'', snd window)] @
     (case propertyId of None \<Rightarrow> [] | Some p \<Rightarrow> if p = [] then [] else [(''propertyId'', p)]) @
     map (\<lambda>s. (''status'', status_name s)) ss @ map (\<lambda>s. (''source'', source_name s)) xs"

definition nonempty_option :: "'a list \<Rightarrow> 'a list option" where
  "nonempty_option xs = (if xs = [] then None else Some xs)"

lemma those_map_Some: "(\<And>x. x \<in> set xs \<Longrightarrow> f x = Some (g x)) \<Longrightarrow> those (map f xs) = Some (map g xs)"
  by (induction xs) auto

lemma values_of_simps [simp]:
  "values_of [] k = []"
  "values_of ((k', v) # ps) k = (if k' = k then v # values_of ps k else values_of ps k)"
  "values_of (ps @ qs) k = values_of ps k @ values_of qs k"
  "values_of (map (\<lambda>x. (k', f x)) xs) k = (if k' = k then map f xs else [])"
  by (auto simp: values_of_def filter_map comp_def)

lemma repeatable_names:
  "repeatable bookingStatusSchema (map status_name ss) = Some (nonempty_option ss)"
  "repeatable bookingSourceSchema (map source_name xs) = Some (nonempty_option xs)"
  by (simp_all add: repeatable_def nonempty_option_def comp_def those_map_Some [where g = id, simplified])

lemma read_filter_pairs:
  assumes "is_iso_date from" "is_iso_date to" "from < to" "day_of to - day_of from \<le> MAX_AVAILABILITY_NIGHTS"
    and "\<And>p. propertyId = Some p \<Longrightarrow> is_uuid p"
  shows "readListBookingsQuery (filter_pairs (from, to) propertyId ss xs) =
    Some \<lparr>lq_from = Some from, lq_to = Some to, lq_propertyId = propertyId, lq_unitId = None,
      lq_status = nonempty_option ss, lq_source = nonempty_option xs\<rparr>"
proof -
  have "\<not> is_uuid []" by (simp add: is_uuid_def)
  then show ?thesis
    using assms
    by (cases propertyId)
      (auto simp: readListBookingsQuery_def filter_pairs_def list_query_keys_def scalar_param_def
        repeatable_names listBookingsQuerySchema_def countNights_iso list_all_iff)
qed

lemma map_res_members: "map_res f xs = Inr ys \<Longrightarrow> y \<in> set ys \<longleftrightarrow> (\<exists>x \<in> set xs. f x = Inr y)"
  by (induction xs arbitrary: ys) (auto simp: bind_res_Inr_iff)

lemma map_res_answers: "map_res f xs = Inr ys \<Longrightarrow> x \<in> set xs \<Longrightarrow> \<exists>y \<in> set ys. f x = Inr y"
  by (induction xs arbitrary: ys) (auto simp: bind_res_Inr_iff)

section \<open>The two reads\<close>

text \<open>\<^verbatim>\<open>GET /bookings\<close> and \<^verbatim>\<open>GET /bookings/export.csv\<close>: the validation pipe, then the service.\<close>

definition get_bookings :: "tenant_context \<Rightarrow> string \<Rightarrow> db \<Rightarrow> app_error + booking_list_row list" where
  "get_bookings ctx query d =
     (case readListBookingsQuery (read_search query) of
        None \<Rightarrow> Inl (BadRequest ''Validation failed'')
      | Some q \<Rightarrow> list_bookings ctx q d)"

definition get_export :: "tenant_context \<Rightarrow> string \<Rightarrow> db \<Rightarrow> app_error + string" where
  "get_export ctx query d =
     (case readListBookingsQuery (read_search query) of
        None \<Rightarrow> Inl (BadRequest ''Validation failed'')
      | Some q \<Rightarrow> exportCsv ctx q d)"

end
