(* ===== verification/Web_Calendar.thy ===== *)
theory Web_Calendar
  imports Query_Reader Properties
begin

text \<open>
  The owner's unified calendar, \<^verbatim>\<open>apps/web/src/features/calendar/calendar-model.ts\<close> with the query of
  \<^verbatim>\<open>use-calendar.ts\<close>: the window of day columns, the bar a stay becomes, and the rows composed from the three
  lists the server answers. The page is shown to draw the ledger: a cell is covered exactly when a booking
  holds that night, and never by two bars.
\<close>

section \<open>The window\<close>

text \<open>Dates the code takes apart are \<^verbatim>\<open>YYYY-MM-DD\<close>; what it would print for anything else (\<^verbatim>\<open>NaN\<close>) has no
  value here. \<^verbatim>\<open>%\<close> is the remainder of truncated division.\<close>

definition js_rem :: "int \<Rightarrow> int \<Rightarrow> int" where
  "js_rem a b = (if a < 0 then - ((- a) mod b) else a mod b)"

definition year_month :: "date \<Rightarrow> (int \<times> int) option" where
  "year_month s =
     (case split_on (CHR ''-'') s of
        ys # ms # _ \<Rightarrow> Option.bind (js_number ys) (\<lambda>y. map_option (Pair y) (js_number ms))
      | _ \<Rightarrow> None)"

definition currentMonthWindow :: "date \<Rightarrow> (date \<times> date) option" where
  "currentMonthWindow today =
     (let from = take 7 today @ ''-01'' in
      map_option (\<lambda>(y, m).
        (from, if m = 12 then int_string (y + 1) @ ''-01-01''
               else int_string y @ ''-'' @ pad_start 2 (int_string (m + 1)) @ ''-01''))
        (year_month from))"

definition shiftMonth :: "date \<times> date \<Rightarrow> int \<Rightarrow> (date \<times> date) option" where
  "shiftMonth window delta =
     Option.bind (year_month (fst window)) (\<lambda>(y, m).
       let base = y * 12 + (m - 1) + delta; ny = base div 12; nm = js_rem base 12 + 1
       in currentMonthWindow (int_string ny @ ''-'' @ pad_start 2 (int_string nm) @ ''-01''))"

record day =
  dy_date :: date
  dy_dom :: int
  dy_dow :: int
  dy_isWeekend :: bool

text \<open>\<^verbatim>\<open>getUTCDay\<close>: the epoch was a Thursday.\<close>

definition getUTCDay :: "instant \<Rightarrow> int" where
  "getUTCDay t = (t div MS_PER_NIGHT + 4) mod 7"

definition day_column :: "date \<Rightarrow> int \<Rightarrow> day option" where
  "day_column from i =
     Option.bind (addDays from i) (\<lambda>date.
     Option.bind (date_parse date) (\<lambda>t.
     Option.bind (js_number (take 2 (drop 8 date))) (\<lambda>dom.
       let dow = getUTCDay t in
       Some \<lparr>dy_date = date, dy_dom = dom, dy_dow = dow, dy_isWeekend = (dow = 0 \<or> dow = 6)\<rparr>)))"

definition windowDays :: "date \<Rightarrow> date \<Rightarrow> day list option" where
  "windowDays from to =
     (case countNights from to of
        None \<Rightarrow> Some []
      | Some n \<Rightarrow> those (map (\<lambda>i. day_column from (int i)) [0..<nat n]))"

section \<open>Bars\<close>

record bar_span =
  bs_start :: int
  bs_end :: int
  bs_continuesLeft :: bool
  bs_continuesRight :: bool

text \<open>\<open>Some None\<close> is the code's \<^verbatim>\<open>null\<close>; a date that does not parse has no geometry at all.\<close>

definition barSpan :: "date \<times> date \<Rightarrow> date \<Rightarrow> date \<Rightarrow> bar_span option option" where
  "barSpan window checkIn checkOut =
     (case (countNights (fst window) (snd window), countNights (fst window) checkIn, countNights (fst window) checkOut) of
        (Some dayCount, Some rawStart, Some rawEnd) \<Rightarrow>
          let start = max 0 (min rawStart dayCount); end1 = max 0 (min rawEnd dayCount) in
          Some (if end1 \<le> start then None
            else Some \<lparr>bs_start = start, bs_end = end1, bs_continuesLeft = rawStart < 0,
              bs_continuesRight = rawEnd > dayCount\<rparr>)
      | _ \<Rightarrow> None)"

section \<open>Composition\<close>

record calendar_row =
  cl_unit :: unit_response
  cl_archived :: bool
  cl_bookings :: "booking_list_row list"

record calendar_group =
  cg_property :: property_response
  cg_rows :: "calendar_row list"

definition pw_id :: "property_response \<Rightarrow> uuid" where
  "pw_id p = p_id (pw_row p)"

definition pw_name :: "property_response \<Rightarrow> string" where
  "pw_name p = p_name (pw_row p)"

text \<open>The rows of one property: its units in name order, an archived unit only when it carries a booking.\<close>

definition unit_row_of :: "(uuid \<Rightarrow> booking_list_row list option) \<Rightarrow> unit_response \<Rightarrow> calendar_row option" where
  "unit_row_of byUnit unit =
     (let bs = filed_at byUnit (ur_id unit); archived = ur_archived unit in
      if archived \<and> bs = [] then None
      else Some \<lparr>cl_unit = unit, cl_archived = archived, cl_bookings = bs\<rparr>)"

definition buildCalendar ::
  "(string \<Rightarrow> string \<Rightarrow> int) \<Rightarrow> property_response list \<Rightarrow> unit_response list \<Rightarrow> booking_list_row list \<Rightarrow>
   uuid option \<Rightarrow> calendar_group list" where
  "buildCalendar localeCompare ps us bs propertyId =
     (let byUnit = filed_lists lr_unitId bs;
          unitsByProperty = filed_lists ur_propertyId us;
          visible = (case propertyId of
              None \<Rightarrow> ps
            | Some pid \<Rightarrow> if pid = [] then ps else filter (\<lambda>p. pw_id p = pid) ps)
      in List.map_filter (\<lambda>property.
           let rows = List.map_filter (unit_row_of byUnit)
             (sort_by (\<lambda>a b. localeCompare (ur_name a) (ur_name b)) (filed_at unitsByProperty (pw_id property)))
           in if rows = [] then None else Some \<lparr>cg_property = property, cg_rows = rows\<rparr>)
         (sort_by (\<lambda>a b. localeCompare (pw_name a) (pw_name b)) visible))"

definition isEmptyCalendar :: "calendar_group list \<Rightarrow> bool" where
  "isEmptyCalendar groups \<longleftrightarrow> length groups = 0"

text \<open>\<^verbatim>\<open>bookingsPath\<close> of \<^verbatim>\<open>use-calendar.ts\<close>: the occupying statuses, one parameter each.\<close>

definition calendar_query_string :: "date \<times> date \<Rightarrow> uuid option \<Rightarrow> string" where
  "calendar_query_string window propertyId =
     search_string
       ([(''from'', fst window), (''to'', snd window)] @
        (case propertyId of None \<Rightarrow> [] | Some p \<Rightarrow> if p = [] then [] else [(''propertyId'', p)]) @
        map (\<lambda>s. (''status'', status_name s)) OCCUPYING_STATUSES)"

definition calendar_path :: "date \<times> date \<Rightarrow> uuid option \<Rightarrow> string" where
  "calendar_path window propertyId = ''/bookings?'' @ calendar_query_string window propertyId"

section \<open>The geometry of a bar\<close>

definition paints :: "bar_span \<Rightarrow> int \<Rightarrow> bool" where
  "paints s i \<longleftrightarrow> bs_start s \<le> i \<and> i < bs_end s"

definition bar_paints :: "date \<times> date \<Rightarrow> booking_list_row \<Rightarrow> int \<Rightarrow> bool" where
  "bar_paints window b i =
     (case barSpan window (lr_checkIn b) (lr_checkOut b) of Some (Some s) \<Rightarrow> paints s i | _ \<Rightarrow> False)"

lemma bar_paints_iff:
  assumes "is_iso_date from" "is_iso_date to" "is_iso_date (lr_checkIn b)" "is_iso_date (lr_checkOut b)"
    and "0 \<le> i" "i < day_of to - day_of from"
  shows "bar_paints (from, to) b i \<longleftrightarrow>
    day_of (lr_checkIn b) \<le> day_of from + i \<and> day_of from + i < day_of (lr_checkOut b)"
  using assms by (auto simp: bar_paints_def barSpan_def countNights_iso Let_def paints_def)

lemma bar_edges:
  assumes "is_iso_date from" "is_iso_date to" "is_iso_date a" "is_iso_date b" "a < b"
    and "barSpan (from, to) a b = Some (Some s)"
  shows "0 \<le> bs_start s \<and> bs_start s < bs_end s \<and> bs_end s \<le> day_of to - day_of from \<and>
    (bs_continuesLeft s \<longleftrightarrow> a < from) \<and> (bs_continuesRight s \<longleftrightarrow> to < b)"
  using assms by (auto simp: barSpan_def countNights_iso Let_def day_of_less_iff split: if_splits)

section \<open>The rows of the grid\<close>

lemma map_filter_mem: "y \<in> set (List.map_filter f xs) \<longleftrightarrow> (\<exists>x \<in> set xs. f x = Some y)"
  by (induction xs) (auto simp: List.map_filter_simps split: option.split)

lemma unit_row_of_Some:
  "unit_row_of (filed_lists lr_unitId bs) u = Some row \<longleftrightarrow>
     \<not> (ur_archived u \<and> filter (\<lambda>b. lr_unitId b = ur_id u) bs = []) \<and>
     row = \<lparr>cl_unit = u, cl_archived = ur_archived u, cl_bookings = filter (\<lambda>b. lr_unitId b = ur_id u) bs\<rparr>"
  by (auto simp: unit_row_of_def Let_def)

text \<open>A property is on the page when it is chosen, a unit when its property is and it is not archived and
  empty; and nothing else is.\<close>

definition chosen :: "uuid option \<Rightarrow> uuid \<Rightarrow> bool" where
  "chosen propertyId pid \<longleftrightarrow> propertyId = None \<or> propertyId = Some [] \<or> propertyId = Some pid"

lemma grid_rows:
  "(\<exists>g \<in> set (buildCalendar cmp ps us bs propertyId). row \<in> set (cg_rows g)) \<longleftrightarrow>
   (\<exists>p \<in> set ps. \<exists>u \<in> set us. chosen propertyId (pw_id p) \<and> ur_propertyId u = pw_id p \<and>
      unit_row_of (filed_lists lr_unitId bs) u = Some row)"
proof -
  have vis: "p \<in> set (case propertyId of None \<Rightarrow> ps
        | Some pid \<Rightarrow> if pid = [] then ps else filter (\<lambda>p. pw_id p = pid) ps) \<longleftrightarrow>
      p \<in> set ps \<and> chosen propertyId (pw_id p)" for p
    by (auto simp: chosen_def split: option.split)
  define rows where "rows p = List.map_filter (unit_row_of (filed_lists lr_unitId bs))
      (sort_by (\<lambda>a b. cmp (ur_name a) (ur_name b)) (filed_at (filed_lists ur_propertyId us) (pw_id p)))" for p
  have "buildCalendar cmp ps us bs propertyId =
      List.map_filter (\<lambda>p. if rows p = [] then None else Some \<lparr>cg_property = p, cg_rows = rows p\<rparr>)
        (sort_by (\<lambda>a b. cmp (pw_name a) (pw_name b)) (case propertyId of None \<Rightarrow> ps
          | Some pid \<Rightarrow> if pid = [] then ps else filter (\<lambda>p. pw_id p = pid) ps))"
    unfolding buildCalendar_def rows_def Let_def ..
  then have "g \<in> set (buildCalendar cmp ps us bs propertyId) \<longleftrightarrow>
      (\<exists>p \<in> set ps. chosen propertyId (pw_id p) \<and> rows p \<noteq> [] \<and> g = \<lparr>cg_property = p, cg_rows = rows p\<rparr>)" for g
    by (auto simp: map_filter_mem vis split: if_splits)
  moreover have "row \<in> set (rows p) \<longleftrightarrow>
      (\<exists>u \<in> set us. ur_propertyId u = pw_id p \<and> unit_row_of (filed_lists lr_unitId bs) u = Some row)" for p
    by (auto simp: rows_def map_filter_mem)
  ultimately have "(\<exists>g \<in> set (buildCalendar cmp ps us bs propertyId). row \<in> set (cg_rows g)) \<longleftrightarrow>
      (\<exists>p \<in> set ps. chosen propertyId (pw_id p) \<and> (\<exists>u \<in> set us. ur_propertyId u = pw_id p \<and>
         unit_row_of (filed_lists lr_unitId bs) u = Some row))"
    by (metis (no_types, lifting) calendar_group.select_convs(2) empty_iff empty_set)
  then show ?thesis by blast
qed

section \<open>What the page draws\<close>

text \<open>The window the page asks for: ISO dates, at most the nights the boundary allows.\<close>

definition window_legal :: "date \<Rightarrow> date \<Rightarrow> bool" where
  "window_legal from to \<longleftrightarrow>
     is_iso_date from \<and> is_iso_date to \<and> from < to \<and> day_of to - day_of from \<le> MAX_AVAILABILITY_NIGHTS"

definition grid_query :: "date \<Rightarrow> date \<Rightarrow> uuid option \<Rightarrow> list_bookings_query" where
  "grid_query from to propertyId =
     \<lparr>lq_from = Some from, lq_to = Some to, lq_propertyId = propertyId, lq_unitId = None,
      lq_status = Some OCCUPYING_STATUSES, lq_source = None\<rparr>"

lemma calendar_request:
  assumes "window_legal from to" "\<And>p. propertyId = Some p \<Longrightarrow> is_uuid p"
  shows "get_bookings ctx (calendar_query_string (from, to) propertyId) d =
    list_bookings ctx (grid_query from to propertyId) d"
proof -
  have "readListBookingsQuery (filter_pairs (from, to) propertyId OCCUPYING_STATUSES []) =
      Some (grid_query from to propertyId)"
    using assms unfolding window_legal_def
    by (subst read_filter_pairs) (auto simp: grid_query_def nonempty_option_def OCCUPYING_STATUSES_def)
  then show ?thesis by (simp add: get_bookings_def calendar_query_string_def filter_pairs_def)
qed

definition holds_night :: "db \<Rightarrow> uuid \<Rightarrow> int \<Rightarrow> bool" where
  "holds_night d uid n \<longleftrightarrow>
     (\<exists>b \<in> set (bookings d). bk_unitId b = uid \<and> occupies b \<and> day_of (bk_checkIn b) \<le> n \<and> n < day_of (bk_checkOut b))"

lemma length_filter_unique:
  assumes "distinct xs" "\<And>x y. x \<in> set xs \<Longrightarrow> y \<in> set xs \<Longrightarrow> P x \<Longrightarrow> P y \<Longrightarrow> x = y"
  shows "length (filter P xs) = (if \<exists>x \<in> set xs. P x then 1 else 0)"
proof (cases "\<exists>x \<in> set xs. P x")
  case True
  then obtain x where "x \<in> set xs" "P x" by blast
  with assms have "set (filter P xs) = {x}" by auto
  moreover have "distinct (filter P xs)" using assms(1) by simp
  ultimately have "length (filter P xs) = card {x}" by (metis distinct_card)
  with True show ?thesis by simp
qed (simp add: filter_empty_conv)

lemma length_filter_sort: "length (filter P (sort_key k xs)) = length (filter P xs)"
  by (metis filter_sort length_sort)

lemma grid_listed:
  assumes "inventory_ok d" "booking_table_ok d" "u \<in> set (units d)" "rls_unit d s u" "chosen propertyId (u_propertyId u)"
    "propertyId \<noteq> Some []" "b \<in> set (bookings d)" "bk_unitId b = u_id u"
  shows "listed d s (grid_query from to propertyId) b \<longleftrightarrow>
    occupies b \<and> range_overlaps (bk_checkIn b) (bk_checkOut b) from to"
proof -
  have o: "owned_unit d s (u_id u) u" using assms(4) by (simp add: owned_unit_def rls_unit_def)
  note seen = booking_seen [OF assms(1-3) o assms(7,8)]
  have t: "u_tenantId u = bk_tenantId b" using seen assms(4) by (simp add: rls_unit_def)
  have "v = u" if "v \<in> set (units d)" "u_id v = bk_unitId b" for v
    using unit_by_id [OF assms(1) that(1) assms(3)] that(2) assms(8) by simp
  then have "(\<exists>v \<in> set (units d). rls_unit d s v \<and> u_id v = bk_unitId b \<and> u_tenantId v = bk_tenantId b \<and>
      conditions s (grid_query from to propertyId) b v) \<longleftrightarrow> conditions s (grid_query from to propertyId) b u"
    using t assms(3,4,8) by metis
  then have "listed d s (grid_query from to propertyId) b \<longleftrightarrow> conditions s (grid_query from to propertyId) b u"
    by (simp only: listed_def seen(1) simp_thms)
  also have "\<dots> \<longleftrightarrow> occupies b \<and> range_overlaps (bk_checkIn b) (bk_checkOut b) from to"
    using seen(2) assms(5,6) by (cases propertyId)
      (auto simp: grid_query_def conditions_def set_filter_def occupies_def OCCUPYING_STATUSES_def chosen_def)
  finally show ?thesis .
qed

lemma night_in_window:
  assumes "is_iso_date ci" "is_iso_date co" "is_iso_date from" "is_iso_date to"
    and "0 \<le> i" "i < day_of to - day_of from" "day_of ci \<le> day_of from + i" "day_of from + i < day_of co"
  shows "range_overlaps ci co from to"
  using assms by (simp add: range_overlaps_def day_of_less_iff)

lemma nights_unique:
  assumes ok: "db_ok d" and b: "b \<in> set (bookings d)" "occupies b" "day_of (bk_checkIn b) \<le> n" "n < day_of (bk_checkOut b)"
    and c: "c \<in> set (bookings d)" "occupies c" "day_of (bk_checkIn c) \<le> n" "n < day_of (bk_checkOut c)"
    and "bk_unitId b = bk_unitId c"
  shows "b = c"
proof -
  have dates: "is_iso_date (bk_checkIn x) \<and> is_iso_date (bk_checkOut x)" if "x \<in> set (bookings d)" for x
    using ok that by (simp add: db_ok_def dates_ok_def)
  then have "first_day \<le> n" "n \<le> last_day"
    using b day_of_range [of "bk_checkIn b"] day_of_range [of "bk_checkOut b"] by auto
  from date_of_day [OF this] obtain x where "is_iso_date x" "day_of x = n" by blast
  then show ?thesis
    using assms dates [OF b(1)] dates [OF c(1)]
    by (intro booking_night_unique [OF db_okD(2) [OF ok], of b c x]) (simp_all add: day_of_less_iff day_of_le_iff)
qed

lemma cell_count:
  assumes ok: "db_ok d" and u: "u \<in> set (units d)" "rls_unit d (session_of p) u"
    and sel: "chosen propertyId (u_propertyId u)" "propertyId \<noteq> Some []"
    and w: "is_iso_date from" "is_iso_date to"
    and bs: "list_bookings (Some p) (grid_query from to propertyId) d = Inr bs"
    and i: "0 \<le> i" "i < day_of to - day_of from"
  shows "length (filter (\<lambda>r. bar_paints (from, to) r i) (filter (\<lambda>r. lr_unitId r = u_id u) bs)) =
    (if holds_night d (u_id u) (day_of from + i) then 1 else 0)"
proof -
  let ?s = "session_of p" and ?q = "grid_query from to propertyId"
  let ?held = "\<lambda>b. bk_unitId b = u_id u \<and> occupies b \<and> day_of (bk_checkIn b) \<le> day_of from + i \<and>
      day_of from + i < day_of (bk_checkOut b)"
  have dates: "is_iso_date (bk_checkIn b) \<and> is_iso_date (bk_checkOut b)" if "b \<in> set (bookings d)" for b
    using ok that by (simp add: db_ok_def dates_ok_def)
  have paint: "lr_unitId r = u_id u \<and> bar_paints (from, to) r i \<longleftrightarrow>
      bk_unitId b = u_id u \<and> day_of (bk_checkIn b) \<le> day_of from + i \<and> day_of from + i < day_of (bk_checkOut b)"
    if "toRow b = Inr r" "b \<in> set (bookings d)" for b r
  proof -
    from that(1) have "lr_unitId r = bk_unitId b" "lr_checkIn r = bk_checkIn b" "lr_checkOut r = bk_checkOut b"
      by (auto simp: toRow_def bind_res_Inr_iff)
    then show ?thesis using bar_paints_iff [OF w, of r i] dates [OF that(2)] i by simp
  qed
  have repo: "list_repo d ?s ?q = sort_key (\<lambda>b. (bk_checkIn b, bk_id b)) (filter (listed d ?s ?q) (bookings d))"
    by (rule list_repo_eq [OF db_okD(1) [OF ok]])
  have "length (filter (\<lambda>r. lr_unitId r = u_id u \<and> bar_paints (from, to) r i) rs) =
      length (filter (\<lambda>b. bk_unitId b = u_id u \<and> day_of (bk_checkIn b) \<le> day_of from + i \<and>
        day_of from + i < day_of (bk_checkOut b)) xs)"
    if "list_all2 (\<lambda>b r. toRow b = Inr r) xs rs" "set xs \<subseteq> set (bookings d)" for xs rs
    using that by (induction rule: list_all2_induct) (simp_all add: paint)
  from this [OF list_bookings_rows [OF bs]]
  have "length (filter (\<lambda>r. lr_unitId r = u_id u \<and> bar_paints (from, to) r i) bs) =
      length (filter (\<lambda>b. bk_unitId b = u_id u \<and> day_of (bk_checkIn b) \<le> day_of from + i \<and>
        day_of from + i < day_of (bk_checkOut b)) (filter (listed d ?s ?q) (bookings d)))"
    by (simp add: repo length_filter_sort)
  also have "\<dots> = length (filter ?held (bookings d))"
    unfolding filter_filter
    by (intro arg_cong [where f = length] filter_cong refl)
      (use grid_listed [OF db_okD(1) [OF ok] db_okD(2) [OF ok] u sel] night_in_window [OF _ _ w i] dates in blast)
  also have "\<dots> = (if \<exists>b \<in> set (bookings d). ?held b then 1 else 0)"
    using ok nights_unique [OF ok]
    by (intro length_filter_unique) (auto simp: db_ok_def booking_table_ok_def distinct_map)
  finally show ?thesis by (simp add: filter_filter holds_night_def conj_commute)
qed

text \<open>The two lists the page composes: a unit is answered exactly when its policy shows it, with its
  effective flag, and its property is answered with it.\<close>

lemma units_answered:
  assumes "inventory_ok d" "listAllUnits (Some p) d = Inr us"
  shows "r \<in> set us \<Longrightarrow> \<exists>u \<in> set (units d). rls_unit d (session_of p) u \<and> ur_id r = u_id u \<and> ur_propertyId r = u_propertyId u"
    and "u \<in> set (units d) \<Longrightarrow> rls_unit d (session_of p) u \<Longrightarrow>
      \<exists>r \<in> set us. ur_id r = u_id u \<and> ur_propertyId r = u_propertyId u \<and> ur_archived r = effective_archived d u"
proof -
  let ?P = "\<lambda>u. u_tenantId u = s_tenantId (session_of p)"
  have us: "map_res unit_toResponse (findAllUnits d (session_of p)) = Inr us"
    using assms(2) by (simp add: listAllUnits_def)
  have rows: "(u, a) \<in> set (findAllUnits d (session_of p)) \<longleftrightarrow>
      u \<in> set (units d) \<and> rls_unit d (session_of p) u \<and> a = effective_archived d u" for u a
    using set_unit_columns [OF assms(1), of u a "session_of p" ?P] by (auto simp: findAllUnits_def rls_unit_def)
  have keeps: "ur_id r = u_id u \<and> ur_propertyId r = u_propertyId u \<and> ur_archived r = a"
    if "unit_toResponse (u, a) = Inr r" for u a r
    using that by (auto simp: unit_toResponse_def bind_res_Inr_iff)
  show "\<exists>u \<in> set (units d). rls_unit d (session_of p) u \<and> ur_id r = u_id u \<and> ur_propertyId r = u_propertyId u"
    if "r \<in> set us"
  proof -
    obtain x where "x \<in> set (findAllUnits d (session_of p))" "unit_toResponse x = Inr r"
      using map_res_members [OF us, of r] \<open>r \<in> set us\<close> by blast
    moreover obtain u a where "x = (u, a)" by (rule prod.exhaust)
    ultimately show ?thesis using rows [of u a] keeps [of u a r] by blast
  qed
  show "\<exists>r \<in> set us. ur_id r = u_id u \<and> ur_propertyId r = u_propertyId u \<and> ur_archived r = effective_archived d u"
    if "u \<in> set (units d)" "rls_unit d (session_of p) u"
    using map_res_answers [OF us, of "(u, effective_archived d u)"] that
      rows [of u "effective_archived d u"] keeps [of u "effective_archived d u"] by blast
qed

lemma property_answered:
  assumes "inventory_ok d" "list_properties base (Some p) d = Inr ps" "u \<in> set (units d)" "rls_unit d (session_of p) u"
  shows "\<exists>r \<in> set ps. pw_id r = u_propertyId u"
proof -
  let ?s = "session_of p"
  obtain pr where pr: "pr \<in> set (properties d)" "p_id pr = u_propertyId u" "p_tenantId pr = u_tenantId u"
    using unit_property [OF assms(1,3)] by blast
  with assms(4) have "own_property d ?s pr"
    by (simp add: own_property_def rls_unit_property rls_unit_def)
  with pr(1) have "(pr, pricedUnitCount d ?s pr) \<in> set (findAll d ?s)" by (simp add: findAll_def)
  then obtain r where "r \<in> set ps" "property_toResponse base (pr, pricedUnitCount d ?s pr) = Inr r"
    using map_res_answers [of "property_toResponse base" "findAll d ?s" ps] assms(2)
    by (auto simp: list_properties_def)
  moreover from this(2) have "pw_id r = u_propertyId u"
    using pr(2) by (auto simp: property_toResponse_def pw_id_def split: if_splits)
  ultimately show ?thesis by blast
qed

lemma calendar_cell:
  assumes "db_ok d" "window_legal from to" "\<And>x. propertyId = Some x \<Longrightarrow> is_uuid x"
    and "listAllUnits (Some p) d = Inr us"
    and "get_bookings (Some p) (calendar_query_string (from, to) propertyId) d = Inr bs"
  shows "u \<in> set (units d) \<Longrightarrow> rls_unit d (session_of p) u \<Longrightarrow> chosen propertyId (u_propertyId u) \<Longrightarrow>
      0 \<le> i \<Longrightarrow> i < day_of to - day_of from \<Longrightarrow>
      length (filter (\<lambda>r. bar_paints (from, to) r i) (filter (\<lambda>r. lr_unitId r = u_id u) bs)) =
        (if holds_night d (u_id u) (day_of from + i) then 1 else 0)"
    and "g \<in> set (buildCalendar localeCompare ps us bs propertyId) \<Longrightarrow> row \<in> set (cg_rows g) \<Longrightarrow>
      0 \<le> i \<Longrightarrow> i < day_of to - day_of from \<Longrightarrow>
      length (filter (\<lambda>b. bar_paints (from, to) b i) (cl_bookings row)) =
        (if holds_night d (ur_id (cl_unit row)) (day_of from + i) then 1 else 0)"
proof -
  have bs: "list_bookings (Some p) (grid_query from to propertyId) d = Inr bs"
    using assms(5) calendar_request [OF assms(2,3)] by simp
  have w: "is_iso_date from" "is_iso_date to" using assms(2) by (simp_all add: window_legal_def)
  have ne: "propertyId \<noteq> Some []" using assms(3) by (auto simp: is_uuid_def)
  note count = cell_count [OF assms(1) _ _ _ ne w bs]
  show "u \<in> set (units d) \<Longrightarrow> rls_unit d (session_of p) u \<Longrightarrow> chosen propertyId (u_propertyId u) \<Longrightarrow>
      0 \<le> i \<Longrightarrow> i < day_of to - day_of from \<Longrightarrow>
      length (filter (\<lambda>r. bar_paints (from, to) r i) (filter (\<lambda>r. lr_unitId r = u_id u) bs)) =
        (if holds_night d (u_id u) (day_of from + i) then 1 else 0)" by (rule count)
  assume "g \<in> set (buildCalendar localeCompare ps us bs propertyId)" "row \<in> set (cg_rows g)"
    and i: "0 \<le> i" "i < day_of to - day_of from"
  then obtain v where v: "v \<in> set us" "chosen propertyId (ur_propertyId v)"
    "cl_unit row = v" "cl_bookings row = filter (\<lambda>b. lr_unitId b = ur_id v) bs"
    using grid_rows [of localeCompare ps us bs propertyId row] by (auto simp: unit_row_of_Some)
  from units_answered(1) [OF db_okD(1) [OF assms(1)] assms(4) v(1)] v count [OF _ _ _ i]
  show "length (filter (\<lambda>b. bar_paints (from, to) b i) (cl_bookings row)) =
      (if holds_night d (ur_id (cl_unit row)) (day_of from + i) then 1 else 0)" by metis
qed

lemma calendar_row_shown:
  assumes "db_ok d" "window_legal from to" "\<And>x. propertyId = Some x \<Longrightarrow> is_uuid x"
    and "list_properties base (Some p) d = Inr ps" "listAllUnits (Some p) d = Inr us"
    and "get_bookings (Some p) (calendar_query_string (from, to) propertyId) d = Inr bs"
    and u: "u \<in> set (units d)" "rls_unit d (session_of p) u" "chosen propertyId (u_propertyId u)"
    and shown: "\<not> effective_archived d u \<or>
      (\<exists>k. 0 \<le> k \<and> k < day_of to - day_of from \<and> holds_night d (u_id u) (day_of from + k))"
  shows "\<exists>g \<in> set (buildCalendar localeCompare ps us bs propertyId). \<exists>row \<in> set (cg_rows g).
    ur_id (cl_unit row) = u_id u"
proof -
  note inv = db_okD(1) [OF assms(1)]
  obtain r where r: "r \<in> set us" "ur_id r = u_id u" "ur_propertyId r = u_propertyId u"
    "ur_archived r = effective_archived d u"
    using units_answered(2) [OF inv assms(5) u(1,2)] by blast
  obtain pr where pr: "pr \<in> set ps" "pw_id pr = u_propertyId u"
    using property_answered [OF inv assms(4) u(1,2)] by blast
  have "filter (\<lambda>b. lr_unitId b = u_id u) bs \<noteq> []" if "effective_archived d u"
    using shown that calendar_cell(1) [OF assms(1-3,5,6) u] by fastforce
  then have "unit_row_of (filed_lists lr_unitId bs) r =
      Some \<lparr>cl_unit = r, cl_archived = ur_archived r, cl_bookings = filter (\<lambda>b. lr_unitId b = ur_id r) bs\<rparr>"
    using r by (auto simp: unit_row_of_Some)
  then show ?thesis
    using grid_rows [of localeCompare ps us bs propertyId] r pr u(3) by (metis calendar_row.select_convs(1))
qed

text \<open>Claim C19. The owner's calendar draws the ledger. Composed from the server's answers to the page's own
  three requests, every cell of every row is covered by exactly one bar when an occupying booking of that
  unit holds that night and by none otherwise - so no two bars ever overlap and no stay in the window is
  missing; and every unit the member can see has a row, unless it is archived and free.\<close>

theorem calendar_draws_ledger:
  assumes "db_ok d" "window_legal from to" "\<And>x. propertyId = Some x \<Longrightarrow> is_uuid x"
    and "list_properties base (Some p) d = Inr ps" "listAllUnits (Some p) d = Inr us"
    and "get_bookings (Some p) (calendar_query_string (from, to) propertyId) d = Inr bs"
    and "groups = buildCalendar localeCompare ps us bs propertyId"
  shows "(\<forall>g \<in> set groups. \<forall>row \<in> set (cg_rows g). \<forall>i. 0 \<le> i \<and> i < day_of to - day_of from \<longrightarrow>
      length (filter (\<lambda>b. bar_paints (from, to) b i) (cl_bookings row)) =
        (if holds_night d (ur_id (cl_unit row)) (day_of from + i) then 1 else 0)) \<and>
    (\<forall>u \<in> set (units d). rls_unit d (session_of p) u \<and> chosen propertyId (u_propertyId u) \<and>
      (\<not> effective_archived d u \<or>
        (\<exists>k. 0 \<le> k \<and> k < day_of to - day_of from \<and> holds_night d (u_id u) (day_of from + k))) \<longrightarrow>
      (\<exists>g \<in> set groups. \<exists>row \<in> set (cg_rows g). ur_id (cl_unit row) = u_id u))"
  using calendar_cell(2) [OF assms(1-3,5,6)] calendar_row_shown [OF assms(1-6)] unfolding assms(7) by blast

section \<open>Months\<close>

definition month_window :: "nat \<Rightarrow> nat \<Rightarrow> date \<times> date" where
  "month_window y m = (fmt_date y m 1, if m = 12 then fmt_date (y + 1) 1 1 else fmt_date y (m + 1) 1)"

lemma int_string_nat: "int_string (int n) = digits n"
  by (simp add: int_string_def)

lemma year_month_iso:
  assumes "y < 10000" "m < 100"
  shows "year_month (fmt_date y m d) = Some (int y, int m)"
proof -
  have "split_on (CHR ''-'') (fmt_date y m d) = [pad 4 y, pad 2 m, pad 2 d]"
    by (simp add: fmt_date_def split_on_append split_on_last pad_no_dash)
  with assms show ?thesis by (simp add: year_month_def js_number_pad)
qed

lemma digits_pad: "10 ^ w \<le> n \<Longrightarrow> n < 10 ^ Suc w \<Longrightarrow> digits n = pad (Suc w) n"
proof (induction w arbitrary: n)
  case (Suc w)
  then have "10 ^ w \<le> n div 10" "n div 10 < 10 ^ Suc w" "\<not> n < 10"
    by (auto simp: less_eq_div_iff_mult_less_eq less_mult_imp_div_less mult.commute)
      (metis le_less_trans less_numeral_extra(3) mult_le_mono2 nat_mult_1_right not_less one_le_numeral one_le_power)
  with Suc.IH show ?case by (simp add: digits.simps [of n])
qed (simp add: digits.simps)

lemma digits_year: "1000 \<le> y \<Longrightarrow> y < 10000 \<Longrightarrow> digits y = pad 4 y"
  using digits_pad [of 3 y] by simp

lemma currentMonthWindow_iso:
  assumes "1000 \<le> y" "y < 9999" "1 \<le> m" "m \<le> 12"
  shows "currentMonthWindow (fmt_date y m d) = Some (month_window y m)"
proof -
  have one: "pad 2 1 = ''01''" by code_simp
  then have f: "take 7 (fmt_date y m d) @ ''-01'' = fmt_date y m 1"
    by (simp only: fmt_date_def) simp
  have "pad_start 2 (digits (m + 1)) = pad 2 (m + 1)" using assms by (intro pad_start_digits) simp_all
  then have "pad_start 2 (int_string (int m + 1)) = pad 2 (m + 1)"
    using int_string_nat [of "m + 1"] by (simp add: add.commute)
  moreover have "int_string (int y + 1) = pad 4 (y + 1)" "int_string (int y) = pad 4 y"
    using assms int_string_nat [of "y + 1"] int_string_nat [of y] by (simp_all add: digits_year add.commute)
  ultimately show ?thesis
    using assms one year_month_iso [of y m 1]
    by (simp add: currentMonthWindow_def f month_window_def Let_def) (simp add: fmt_date_def)
qed

lemma shiftMonth_iso:
  assumes "1000 \<le> y" "y < 9999" "1 \<le> m" "m \<le> 12" "1000 \<le> z" "z < 9999" "1 \<le> k" "k \<le> 12"
    and "12 * int z + int k = 12 * int y + int m + delta"
  shows "shiftMonth (fmt_date y m d, t) delta = Some (month_window z k)"
proof -
  have b: "int y * 12 + (int m - 1) + delta = int z * 12 + int (k - 1)" using assms by simp
  have "(int z * 12 + int (k - 1)) div 12 = int z" "js_rem (int z * 12 + int (k - 1)) 12 + 1 = int k"
    using assms by (simp_all add: js_rem_def)
  moreover have "pad_start 2 (int_string (int k)) = pad 2 k"
    using assms by (simp add: int_string_nat pad_start_digits)
  moreover have "pad 2 1 = ''01''" by code_simp
  ultimately show ?thesis
    using assms year_month_iso [of y m d] currentMonthWindow_iso [of z k 1]
    by (simp add: shiftMonth_def b Let_def int_string_nat digits_year fmt_date_def)
qed

lemma month_window_legal:
  assumes "y < 9999" "1 \<le> m" "m \<le> 12" "month_window y m = (from, to)"
  shows "window_legal from to \<and> day_of to - day_of from = days_in_month (int y) m"
proof -
  have v: "valid_md (int x) k 1" if "1 \<le> k" "k \<le> 12" for x k
    by (rule month_cases [OF that])
      (simp_all add: valid_md_def days_in_month_def month_days_def feb_days_def)
  have day: "is_iso_date (fmt_date z k 1)" "day_of (fmt_date z k 1) = civil_days (int z) k 1"
    if "1 \<le> k" "k \<le> 12" "z < 10000" for z k
    using that v [of k z] by (auto simp: is_iso_date_fmt day_of_def iso_fields)
  have gap: "day_of to - day_of from = days_in_month (int y) m \<and> is_iso_date from \<and> is_iso_date to"
  proof (cases "m = 12")
    case True
    then show ?thesis
      using assms day [of 12 y] day [of 1 "y + 1"] day_from_year_Suc [of "int y"] days_before_12 [of "int y"]
      by (auto simp: month_window_def civil_days_def days_before_def add.commute)
  next
    case False
    then show ?thesis
      using assms day [of m y] day [of "m + 1" y] days_before_Suc [of m "int y"]
      by (auto simp: month_window_def civil_days_def)
  qed
  moreover have "1 \<le> days_in_month (int y) m" using v [OF assms(2,3), of y] by (simp add: valid_md_def)
  moreover have "days_in_month (int y) m \<le> 31"
    by (rule month_cases [OF assms(2,3)]) (simp_all add: days_in_month_def month_days_def feb_days_def)
  ultimately show ?thesis
    using day_of_less_iff [of "from" to] by (simp add: window_legal_def MAX_AVAILABILITY_NIGHTS_def)
qed

text \<open>The columns are the days of the window, in order, none missing.\<close>

lemma day_column_iso:
  assumes "is_iso_date from" "is_iso_date to" "0 \<le> i" "i < day_of to - day_of from"
  shows "\<exists>c. day_column from i = Some c \<and> is_iso_date (dy_date c) \<and> day_of (dy_date c) = day_of from + i \<and>
    dy_dom c = int (iso_day (dy_date c)) \<and> dy_dow c = (day_of from + i + 4) mod 7"
proof -
  have "first_day \<le> day_of from + i" "day_of from + i \<le> last_day"
    using assms day_of_range [OF assms(1)] day_of_range [OF assms(2)] by simp_all
  from addDays_iso [OF assms(1) this]
  obtain t where t: "addDays from i = Some t" "is_iso_date t" "day_of t = day_of from + i" by blast
  then have "length t = 10" "list_all is_digit (take 2 (drop 8 t))"
    unfolding is_iso_date_def list_all_append by blast+
  then have "js_number (take 2 (drop 8 t)) = Some (int (iso_day t))"
    by (auto simp: js_number_def iso_day_def)
  with t show ?thesis by (simp add: day_column_def date_parse_def getUTCDay_def MS_PER_NIGHT_def Let_def)
qed

lemma windowDays_iso:
  assumes "is_iso_date from" "is_iso_date to"
  shows "\<exists>cs. windowDays from to = Some cs \<and> length cs = nat (day_of to - day_of from) \<and>
    (\<forall>k < length cs. is_iso_date (dy_date (cs ! k)) \<and> day_of (dy_date (cs ! k)) = day_of from + int k \<and>
       dy_dow (cs ! k) = (day_of from + int k + 4) mod 7)"
proof -
  let ?n = "nat (day_of to - day_of from)"
  have "\<forall>k \<in> {0..<?n}. \<exists>c. day_column from (int k) = Some c \<and> is_iso_date (dy_date c) \<and>
      day_of (dy_date c) = day_of from + int k \<and> dy_dow c = (day_of from + int k + 4) mod 7"
  proof
    fix k assume "k \<in> {0..<?n}"
    then have "0 \<le> int k" "int k < day_of to - day_of from" by auto
    from day_column_iso [OF assms this]
    show "\<exists>c. day_column from (int k) = Some c \<and> is_iso_date (dy_date c) \<and>
      day_of (dy_date c) = day_of from + int k \<and> dy_dow c = (day_of from + int k + 4) mod 7" by blast
  qed
  from bchoice [OF this] obtain g where g: "\<forall>k \<in> {0..<?n}. day_column from (int k) = Some (g k) \<and>
      is_iso_date (dy_date (g k)) \<and> day_of (dy_date (g k)) = day_of from + int k \<and>
      dy_dow (g k) = (day_of from + int k + 4) mod 7" by blast
  then have "windowDays from to = Some (map g [0..<?n])"
    using those_map_Some [of "[0..<?n]" "\<lambda>i. day_column from (int i)" g] by (simp add: windowDays_def countNights_iso [OF assms])
  with g show ?thesis by simp
qed

end
