(* ===== verification/Web_Reservations.thy ===== *)
theory Web_Reservations
  imports Web_Calendar
begin

text \<open>
  The owner's reservations list, \<^verbatim>\<open>apps/web/src/features/reservations\<close>: the URL state, the window the page
  queries, the query string it shares with the CSV export, the rows it joins and the words it shows
  (\<^verbatim>\<open>bookings/booking-display.ts\<close>). What the page sends is shown to be accepted and read as meant, and what
  it shows to be the ledger with the right names.
\<close>

section \<open>The URL\<close>

text \<open>A search value as the router hands it over: absent, one string, several, or anything else.\<close>

datatype search_value = Absent | Single string | Several "string list" | Unreadable

record reservations_search =
  se_from :: "date option"
  se_to :: "date option"
  se_propertyId :: "uuid option"
  se_status :: "booking_status list option"
  se_source :: "booking_source list option"

text \<open>A bad value degrades to an absent one (\<^verbatim>\<open>.catch(undefined)\<close>).\<close>

definition scalar_search :: "(string \<Rightarrow> bool) \<Rightarrow> search_value \<Rightarrow> string option" where
  "scalar_search ok v = (case v of Single s \<Rightarrow> if ok s then Some s else None | _ \<Rightarrow> None)"

definition setParam :: "(string \<Rightarrow> 'a option) \<Rightarrow> search_value \<Rightarrow> 'a list option" where
  "setParam inner v =
     (case v of
        Absent \<Rightarrow> None
      | Single s \<Rightarrow> those (map inner [s])
      | Several ss \<Rightarrow> those (map inner ss)
      | Unreadable \<Rightarrow> None)"

definition reservationsSearchSchema ::
  "search_value \<Rightarrow> search_value \<Rightarrow> search_value \<Rightarrow> search_value \<Rightarrow> search_value \<Rightarrow> reservations_search" where
  "reservationsSearchSchema from to propertyId status source =
     \<lparr>se_from = scalar_search is_iso_date from, se_to = scalar_search is_iso_date to,
      se_propertyId = scalar_search is_uuid propertyId,
      se_status = setParam bookingStatusSchema status, se_source = setParam bookingSourceSchema source\<rparr>"

section \<open>The model\<close>

text \<open>\<^verbatim>\<open>defaultWindow\<close> has no answer when its last day leaves the range of \<^verbatim>\<open>Date\<close>.\<close>

definition defaultWindow :: "date \<Rightarrow> (date \<times> date) option" where
  "defaultWindow today = map_option (Pair today) (addDays today MAX_AVAILABILITY_NIGHTS)"

record window_result =
  wr_window :: "date \<times> date"
  wr_error :: "string option"
  wr_isDefault :: bool

text \<open>An absent edge and an empty one are both falsy.\<close>

definition edge :: "date option \<Rightarrow> date option" where
  "edge s = (case s of Some x \<Rightarrow> if x = [] then None else Some x | None \<Rightarrow> None)"

definition resolveWindow :: "date option \<Rightarrow> date option \<Rightarrow> date \<Rightarrow> window_result option" where
  "resolveWindow from to today =
     Option.bind (defaultWindow today) (\<lambda>w.
       let fallback = (\<lambda>e. Some \<lparr>wr_window = w, wr_error = e, wr_isDefault = True\<rparr>) in
       case (edge from, edge to) of
         (None, None) \<Rightarrow> fallback None
       | (Some a, Some b) \<Rightarrow>
           if a \<ge> b then fallback (Some ''The end date must be after the start.'')
           else if (case countNights a b of None \<Rightarrow> False | Some n \<Rightarrow> n > MAX_AVAILABILITY_NIGHTS)
             then fallback (Some (''Choose a window of at most '' @ int_string MAX_AVAILABILITY_NIGHTS @ '' nights.''))
           else Some \<lparr>wr_window = (a, b), wr_error = None, wr_isDefault = False\<rparr>
       | _ \<Rightarrow> fallback (Some ''Pick both a start and end date.''))"

definition truthy_list :: "'a list option \<Rightarrow> bool" where
  "truthy_list v \<longleftrightarrow> (case v of Some xs \<Rightarrow> length xs > 0 | None \<Rightarrow> False)"

definition hasActiveFilters :: "reservations_search \<Rightarrow> bool" where
  "hasActiveFilters s \<longleftrightarrow>
     edge (se_from s) \<noteq> None \<or> edge (se_to s) \<noteq> None \<or> edge (se_propertyId s) \<noteq> None \<or>
     truthy_list (se_status s) \<or> truthy_list (se_source s)"

record reservation_row =
  rw_booking :: booking_list_row
  rw_propertyName :: string
  rw_unitName :: string

text \<open>\<^verbatim>\<open>new Map(xs.map((x) => [x.id, x]))\<close>: of two rows with one id the later wins. The dash a row without a
  property shows is an em dash, three octets.\<close>

definition map_by :: "('a \<Rightarrow> 'k) \<Rightarrow> 'a list \<Rightarrow> ('k \<Rightarrow> 'a option)" where
  "map_by k xs = fold (\<lambda>x m. m(k x \<mapsto> x)) xs Map.empty"

definition em_dash :: string where
  "em_dash = [CHR 0xE2, CHR 0x80, CHR 0x94]"

definition composeRows ::
  "booking_list_row list \<Rightarrow> unit_response list \<Rightarrow> property_response list \<Rightarrow> reservation_row list" where
  "composeRows bs us ps =
     (let unitById = map_by ur_id us; propertyById = map_by pw_id ps in
      List.map_filter (\<lambda>b.
        case unitById (lr_unitId b) of
          None \<Rightarrow> None
        | Some u \<Rightarrow> Some \<lparr>rw_booking = b,
            rw_propertyName = (case propertyById (ur_propertyId u) of Some p \<Rightarrow> pw_name p | None \<Rightarrow> em_dash),
            rw_unitName = ur_name u\<rparr>) bs)"

section \<open>The requests\<close>

record reservation_filters =
  rf_window :: "date \<times> date"
  rf_propertyId :: "uuid option"
  rf_status :: "booking_status list option"
  rf_source :: "booking_source list option"

definition or_empty :: "'a list option \<Rightarrow> 'a list" where
  "or_empty v = (case v of None \<Rightarrow> [] | Some xs \<Rightarrow> xs)"

definition bookingsQueryString :: "reservation_filters \<Rightarrow> string" where
  "bookingsQueryString f =
     search_string
       ([(''from'', fst (rf_window f)), (''to'', snd (rf_window f))] @
        (case rf_propertyId f of None \<Rightarrow> [] | Some p \<Rightarrow> if p = [] then [] else [(''propertyId'', p)]) @
        map (\<lambda>s. (''status'', status_name s)) (or_empty (rf_status f)) @
        map (\<lambda>s. (''source'', source_name s)) (or_empty (rf_source f)))"

definition bookingsPath :: "reservation_filters \<Rightarrow> string" where
  "bookingsPath f = ''/bookings?'' @ bookingsQueryString f"

definition reservationsExportPath :: "reservation_filters \<Rightarrow> string" where
  "reservationsExportPath f = ''/bookings/export.csv?'' @ bookingsQueryString f"

definition exportFilename :: "reservation_filters \<Rightarrow> string" where
  "exportFilename f = ''reservations-'' @ fst (rf_window f) @ ''_'' @ snd (rf_window f) @ ''.csv''"

section \<open>The words\<close>

fun STATUS_LABEL :: "booking_status \<Rightarrow> string" where
  "STATUS_LABEL Confirmed = ''Confirmed''"
| "STATUS_LABEL Pending_payment = ''Hold''"
| "STATUS_LABEL Cancelled = ''Cancelled''"
| "STATUS_LABEL Expired = ''Expired''"

definition STATUS_ORDER :: "booking_status list" where
  "STATUS_ORDER = [Confirmed, Pending_payment, Cancelled, Expired]"

definition bookingTitle :: "booking_source \<Rightarrow> string option \<Rightarrow> string" where
  "bookingTitle source guestName =
     (if source = Manual_block then ''Manual block''
      else case guestName of Some g \<Rightarrow> g | None \<Rightarrow> ''Walk-in'')"

fun source_label :: "booking_source \<Rightarrow> string" where
  "source_label Direct = ''Direct''"
| "source_label Airbnb = ''Airbnb''"
| "source_label Booking_com = ''Booking.com''"
| "source_label Vrbo = ''Vrbo''"
| "source_label Manual_block = ''Manual''"

definition SOURCE_ORDER :: "booking_source list" where
  "SOURCE_ORDER = [Direct, Airbnb, Booking_com, Vrbo, Manual_block]"

text \<open>The page: its URL and its day, the filters it sends.\<close>

definition page_filters :: "reservations_search \<Rightarrow> date \<Rightarrow> reservation_filters option" where
  "page_filters s today =
     map_option (\<lambda>w. \<lparr>rf_window = wr_window w, rf_propertyId = se_propertyId s, rf_status = se_status s,
         rf_source = se_source s\<rparr>)
       (resolveWindow (se_from s) (se_to s) today)"

section \<open>What the page asks for\<close>

lemma edge_scalar [simp]: "edge (scalar_search is_iso_date v) = scalar_search is_iso_date v"
  by (auto simp: edge_def scalar_search_def is_iso_date_def split: search_value.split)

lemma scalar_search_Some: "scalar_search ok v = Some x \<Longrightarrow> ok x"
  by (auto simp: scalar_search_def split: search_value.splits if_splits)

text \<open>The default window: from today, as many nights as the boundary admits.\<close>

definition upcoming :: "date \<Rightarrow> date \<times> date \<Rightarrow> bool" where
  "upcoming today w \<longleftrightarrow>
     fst w = today \<and> is_iso_date (snd w) \<and> day_of (snd w) = day_of today + MAX_AVAILABILITY_NIGHTS"

lemma upcoming_legal: "is_iso_date today \<Longrightarrow> upcoming today w \<Longrightarrow> window_legal (fst w) (snd w)"
  by (auto simp: upcoming_def window_legal_def day_of_less_iff MAX_AVAILABILITY_NIGHTS_def)

lemma defaultWindow_upcoming:
  assumes "is_iso_date today" "day_of today + MAX_AVAILABILITY_NIGHTS \<le> last_day"
  shows "\<exists>w. defaultWindow today = Some w \<and> upcoming today w"
proof -
  have "first_day \<le> day_of today + MAX_AVAILABILITY_NIGHTS"
    using day_of_range [OF assms(1)] by (simp add: MAX_AVAILABILITY_NIGHTS_def)
  from addDays_iso [OF assms(1) this assms(2)] show ?thesis by (auto simp: defaultWindow_def upcoming_def)
qed

lemma resolveWindow_cases:
  assumes "is_iso_date today" "day_of today + MAX_AVAILABILITY_NIGHTS \<le> last_day"
    and "\<And>x. from = Some x \<Longrightarrow> is_iso_date x" "\<And>x. to = Some x \<Longrightarrow> is_iso_date x"
  shows "\<exists>r. resolveWindow from to today = Some r \<and>
    (case (from, to) of
       (Some a, Some b) \<Rightarrow>
         if window_legal a b then wr_window r = (a, b) \<and> wr_error r = None
         else upcoming today (wr_window r) \<and> wr_error r \<noteq> None
     | (None, None) \<Rightarrow> upcoming today (wr_window r) \<and> wr_error r = None
     | _ \<Rightarrow> upcoming today (wr_window r) \<and> wr_error r \<noteq> None)"
proof -
  obtain w where w: "defaultWindow today = Some w" "upcoming today w"
    using defaultWindow_upcoming [OF assms(1,2)] by blast
  have e: "edge from = from" "edge to = to"
    using assms(3,4) by (auto simp: edge_def is_iso_date_def split: option.split)
  show ?thesis
  proof (cases "\<exists>a b. from = Some a \<and> to = Some b")
    case True
    then obtain a b where ab: "from = Some a" "to = Some b" by blast
    then show ?thesis
      using w e assms(3) [OF ab(1)] assms(4) [OF ab(2)]
      by (auto simp: resolveWindow_def Let_def window_legal_def countNights_iso not_less)
  next
    case False
    then show ?thesis using w e by (cases "from"; cases to) (auto simp: resolveWindow_def Let_def)
  qed
qed

lemma request_read:
  assumes "window_legal (fst (rf_window f)) (snd (rf_window f))" "\<And>p. rf_propertyId f = Some p \<Longrightarrow> is_uuid p"
  shows "readListBookingsQuery (read_search (bookingsQueryString f)) =
    Some \<lparr>lq_from = Some (fst (rf_window f)), lq_to = Some (snd (rf_window f)),
      lq_propertyId = rf_propertyId f, lq_unitId = None,
      lq_status = nonempty_option (or_empty (rf_status f)), lq_source = nonempty_option (or_empty (rf_source f))\<rparr>"
proof -
  obtain a b where w: "rf_window f = (a, b)" by (cases "rf_window f")
  then have "is_iso_date a" "is_iso_date b" "a < b" "day_of b - day_of a \<le> MAX_AVAILABILITY_NIGHTS"
    using assms(1) by (simp_all add: window_legal_def)
  from read_filter_pairs [OF this, of "rf_propertyId f" "or_empty (rf_status f)" "or_empty (rf_source f)"] w assms(2)
  show ?thesis by (simp add: bookingsQueryString_def filter_pairs_def)
qed

text \<open>Claim C22. Whatever URL the reservations page is opened with, and on whatever day, the request it sends
  is one the API accepts - never a lone edge, a reversed or an overlong window - and the API reads it as
  exactly the filters of the URL; the window is the owner's own when it is legal, and the next 366 nights
  otherwise. The CSV export is asked with the same query and so exports the very rows of the list.\<close>

theorem reservations_request_accepted:
  assumes "is_iso_date today" "day_of today + MAX_AVAILABILITY_NIGHTS \<le> last_day"
    and s: "s = reservationsSearchSchema v1 v2 v3 v4 v5"
  shows "\<exists>f. page_filters s today = Some f \<and>
    (case (se_from s, se_to s) of
       (Some a, Some b) \<Rightarrow> if window_legal a b then rf_window f = (a, b) else upcoming today (rf_window f)
     | _ \<Rightarrow> upcoming today (rf_window f)) \<and>
    (let q = \<lparr>lq_from = Some (fst (rf_window f)), lq_to = Some (snd (rf_window f)),
           lq_propertyId = se_propertyId s, lq_unitId = None,
           lq_status = nonempty_option (or_empty (se_status s)),
           lq_source = nonempty_option (or_empty (se_source s))\<rparr>
     in get_bookings ctx (bookingsQueryString f) d = list_bookings ctx q d \<and>
        get_export ctx (bookingsQueryString f) d = exportCsv ctx q d)"
proof -
  have dates: "\<And>x. se_from s = Some x \<Longrightarrow> is_iso_date x" "\<And>x. se_to s = Some x \<Longrightarrow> is_iso_date x"
    and pid: "\<And>x. se_propertyId s = Some x \<Longrightarrow> is_uuid x"
    unfolding s reservationsSearchSchema_def by (auto dest: scalar_search_Some)
  obtain r where r: "resolveWindow (se_from s) (se_to s) today = Some r"
    "case (se_from s, se_to s) of
       (Some a, Some b) \<Rightarrow> if window_legal a b then wr_window r = (a, b) else upcoming today (wr_window r)
     | _ \<Rightarrow> upcoming today (wr_window r)"
    using resolveWindow_cases [OF assms(1,2), of "se_from s" "se_to s"] dates
    by (auto split: option.splits if_splits)
  define f where "f = \<lparr>rf_window = wr_window r, rf_propertyId = se_propertyId s, rf_status = se_status s,
    rf_source = se_source s\<rparr>"
  have "window_legal (fst (wr_window r)) (snd (wr_window r))"
    using r(2) upcoming_legal [OF assms(1)] by (auto split: option.splits if_splits)
  then have "readListBookingsQuery (read_search (bookingsQueryString f)) =
      Some \<lparr>lq_from = Some (fst (rf_window f)), lq_to = Some (snd (rf_window f)),
        lq_propertyId = se_propertyId s, lq_unitId = None,
        lq_status = nonempty_option (or_empty (se_status s)), lq_source = nonempty_option (or_empty (se_source s))\<rparr>"
    using request_read [of f] pid by (simp add: f_def)
  moreover have w: "rf_window f = wr_window r" and "page_filters s today = Some f"
    using r(1) by (simp_all add: f_def page_filters_def)
  moreover note r(2) [folded w]
  ultimately show ?thesis by (auto simp: get_bookings_def get_export_def Let_def)
qed

section \<open>What the page shows\<close>

lemma map_by_unique: "distinct (map k xs) \<Longrightarrow> x \<in> set xs \<Longrightarrow> map_by k xs (k x) = Some x"
proof -
  have keep: "fold (\<lambda>x m. m(k x \<mapsto> x)) ys m i = m i" if "i \<notin> k ` set ys" for ys m i
    using that by (induction ys arbitrary: m) auto
  have "fold (\<lambda>x m. m(k x \<mapsto> x)) xs m (k x) = Some x" if "distinct (map k xs)" "x \<in> set xs" for m
    using that by (induction xs arbitrary: m) (auto simp: keep)
  then show "distinct (map k xs) \<Longrightarrow> x \<in> set xs \<Longrightarrow> map_by k xs (k x) = Some x" by (simp add: map_by_def)
qed

lemma composeRows_keeps:
  assumes "distinct (map ur_id us)" "\<And>b. b \<in> set bs \<Longrightarrow> \<exists>u \<in> set us. ur_id u = lr_unitId b"
  shows "map rw_booking (composeRows bs us ps) = bs"
  using assms(2)
proof (induction bs)
  case (Cons b bs)
  then obtain u where "u \<in> set us" "ur_id u = lr_unitId b" by auto
  with map_by_unique [OF assms(1) this(1)] Cons show ?case
    by (auto simp: composeRows_def List.map_filter_simps Let_def)
qed (simp add: composeRows_def List.map_filter_simps)

lemma composeRows_names:
  assumes "distinct (map ur_id us)" "distinct (map pw_id ps)" "row \<in> set (composeRows bs us ps)"
    and "u \<in> set us" "ur_id u = lr_unitId (rw_booking row)" "p \<in> set ps" "pw_id p = ur_propertyId u"
  shows "rw_unitName row = ur_name u \<and> rw_propertyName row = pw_name p"
proof -
  note keys = map_by_unique [OF assms(1,4)] map_by_unique [OF assms(2,6)]
  from assms(3) obtain b where "b \<in> set bs" "(case map_by ur_id us (lr_unitId b) of None \<Rightarrow> None
      | Some u \<Rightarrow> Some \<lparr>rw_booking = b,
          rw_propertyName = (case map_by pw_id ps (ur_propertyId u) of Some p \<Rightarrow> pw_name p | None \<Rightarrow> em_dash),
          rw_unitName = ur_name u\<rparr>) = Some row"
    unfolding composeRows_def Let_def map_filter_mem by blast
  then show ?thesis using keys assms(5,7) by (auto split: option.split_asm)
qed

end
