(* ===== verification/Web_Picker.thy ===== *)
theory Web_Picker
  imports Web_Calendar
begin

text \<open>
  The guest's availability picker, \<^verbatim>\<open>apps/web/src/features/public-booking/availability-model.ts\<close> with the
  quote's debounce of \<^verbatim>\<open>use-availability.ts\<close> and the URL state of \<^verbatim>\<open>property-search.ts\<close>. The widget speaks
  \<^verbatim>\<open>Date\<close> and inclusive ranges, the server half-open ISO ranges: the days it greys are shown to be the nights
  the ledger holds.
\<close>

section \<open>Local dates\<close>

text \<open>A \<^verbatim>\<open>Date\<close> the module builds is a local midnight: its day, counted as the platform counts civil days.
  \<^verbatim>\<open>new Date(y, m, d)\<close> carries a month outside 0 to 11 into the year, and reads the years 0 to 99 as 1900 to
  1999; no value stands for an invalid date.\<close>

definition local_date :: "int \<Rightarrow> int \<Rightarrow> int \<Rightarrow> int" where
  "local_date y m0 d =
     (let y' = (if 0 \<le> y \<and> y \<le> 99 then 1900 + y else y)
      in civil_days (y' + m0 div 12) (nat (m0 mod 12) + 1) 1 + d - 1)"

definition isoToDate :: "date \<Rightarrow> int option" where
  "isoToDate s =
     (case split_on (CHR ''-'') s of
        ys # ms # ds # _ \<Rightarrow>
          Option.bind (js_number ys) (\<lambda>y. Option.bind (js_number ms) (\<lambda>m. Option.bind (js_number ds) (\<lambda>d.
            Some (local_date y (m - 1) d))))
      | _ \<Rightarrow> None)"

definition pad2 :: "int \<Rightarrow> string" where
  "pad2 n = pad_start 2 (int_string n)"

definition dateToIso :: "int \<Rightarrow> date" where
  "dateToIso t =
     (case civil_of_days t of (y, m, d) \<Rightarrow> int_string y @ ''-'' @ pad2 (int m) @ ''-'' @ pad2 (int d))"

definition monthWindow :: "int \<Rightarrow> date \<times> date" where
  "monthWindow month =
     (case civil_of_days month of (y, m1, _) \<Rightarrow>
        let m = int m1 - 1;
            from = int_string y @ ''-'' @ pad2 (m + 1) @ ''-01'';
            ny = (if m = 11 then y + 1 else y);
            nm = (if m = 11 then 0 else m + 1)
        in (from, int_string ny @ ''-'' @ pad2 (nm + 1) @ ''-01''))"

section \<open>What the widget is told\<close>

record date_range =
  dr_from :: "int option"
  dr_to :: "int option"

text \<open>No answer when a range's end is not a date: \<^verbatim>\<open>lastNightOf\<close> throws there.\<close>

definition blockedMatchers :: "blocked_range list \<Rightarrow> date_range list option" where
  "blockedMatchers rs =
     those (map (\<lambda>r. map_option (\<lambda>night. \<lparr>dr_from = isoToDate (br_from r), dr_to = isoToDate night\<rparr>)
       (lastNightOf r)) rs)"

definition pastDisabled :: "date \<Rightarrow> int option" where
  "pastDisabled todayIso = isoToDate todayIso"

definition initialMonth :: "date option \<Rightarrow> date \<Rightarrow> int option" where
  "initialMonth from todayIso =
     isoToDate (case from of Some f \<Rightarrow> if f \<noteq> [] \<and> f > todayIso then f else todayIso | None \<Rightarrow> todayIso)"

definition truthy_date :: "date option \<Rightarrow> date option" where
  "truthy_date s = (if s = Some [] then None else s)"

definition rangeFromSearch :: "date option \<Rightarrow> date option \<Rightarrow> date_range option" where
  "rangeFromSearch from to =
     map_option (\<lambda>f. \<lparr>dr_from = isoToDate f, dr_to = Option.bind (truthy_date to) isoToDate\<rparr>) (truthy_date from)"

definition stayFromRange :: "date_range option \<Rightarrow> (date \<times> date) option" where
  "stayFromRange range1 =
     Option.bind range1 (\<lambda>r. Option.bind (dr_from r) (\<lambda>f. Option.bind (dr_to r) (\<lambda>t.
       let from = dateToIso f; to = dateToIso t in if to > from then Some (from, to) else None)))"

definition sameStay :: "(date \<times> date) option \<Rightarrow> (date \<times> date) option \<Rightarrow> bool" where
  "sameStay a b =
     (case (a, b) of
        (Some x, Some y) \<Rightarrow> fst x = fst y \<and> snd x = snd y
      | _ \<Rightarrow> a = None \<and> b = None)"

text \<open>\<^verbatim>\<open>useQuote\<close>: the card says it is checking while the debounced stay lags behind the selection.\<close>

definition quote_syncing :: "(date \<times> date) option \<Rightarrow> (date \<times> date) option \<Rightarrow> bool" where
  "quote_syncing stay debounced \<longleftrightarrow> stay \<noteq> None \<and> \<not> sameStay stay debounced"

definition availabilityPath :: "uuid \<Rightarrow> date \<Rightarrow> date \<Rightarrow> string" where
  "availabilityPath unitId from to =
     ''/public/units/'' @ unitId @ ''/availability?'' @ search_string [(''from'', from), (''to'', to)]"

section \<open>The two clocks agree\<close>

lemma civil_of_iso:
  assumes "is_iso_date s"
  obtains y m d where "y < 10000" "valid_md (int y) m d" "s = fmt_date y m d"
    "day_of s = civil_days (int y) m d" "civil_of_days (day_of s) = (int y, m, d)"
  using assms by (elim iso_dateE) (simp add: civil_of_civil_days)

text \<open>Years from 100 on: before, the platform's two-digit rule moves the date to the twentieth century.\<close>

definition modern :: "date \<Rightarrow> bool" where
  "modern s \<longleftrightarrow> is_iso_date s \<and> 1000 \<le> iso_year s"

lemma isoToDate_modern:
  assumes "modern s"
  shows "isoToDate s = Some (day_of s)"
proof -
  obtain y m d where s: "y < 10000" "valid_md (int y) m d" "s = fmt_date y m d" "day_of s = civil_days (int y) m d"
    using assms by (auto simp: modern_def elim: iso_dateE)
  note small = valid_md_less [OF s(2)]
  have y: "1000 \<le> y" using assms s(1,3) small by (simp add: modern_def iso_fields)
  have parts: "split_on (CHR ''-'') s = [pad 4 y, pad 2 m, pad 2 d]"
    by (simp add: s(3) fmt_date_def split_on_append split_on_last pad_no_dash)
  have m: "1 \<le> m" "m \<le> 12" using s(2) by (simp_all add: valid_md_def)
  then have mm: "(int m - 1) div 12 = 0" "nat ((int m - 1) mod 12) + 1 = m" by simp_all
  have "local_date (int y) (int m - 1) (int d) = civil_days (int y) m 1 + int d - 1"
    using y by (simp only: local_date_def Let_def mm) simp
  also have "\<dots> = day_of s" using s(4) by (simp add: civil_days_def)
  finally show ?thesis using s(1) small by (simp add: isoToDate_def parts js_number_pad)
qed

lemma dateToIso_modern:
  assumes "modern s"
  shows "dateToIso (day_of s) = s"
proof -
  obtain y m d where s: "y < 10000" "valid_md (int y) m d" "s = fmt_date y m d"
    "day_of s = civil_days (int y) m d" "civil_of_days (day_of s) = (int y, m, d)"
    using assms by (auto simp: modern_def elim: civil_of_iso)
  note small = valid_md_less [OF s(2)]
  have "1000 \<le> y" using assms s(1,3) small by (simp add: modern_def iso_fields)
  then have "int_string (int y) = pad 4 y" "pad2 (int m) = pad 2 m" "pad2 (int d) = pad 2 d"
    using s(1) small by (simp_all add: pad2_def int_string_nat digits_year pad_start_digits)
  then have "dateToIso (day_of s) = fmt_date y m d" by (simp add: dateToIso_def s(5) fmt_date_def)
  then show ?thesis by (simp add: s(3))
qed

text \<open>A picked stay survives the URL: what the link carries is what is quoted.\<close>

lemma stay_roundtrip:
  assumes "modern a" "modern b" "a < b"
  shows "stayFromRange (rangeFromSearch (Some a) (Some b)) = Some (a, b)"
proof -
  have "a \<noteq> []" "b \<noteq> []" using assms by (auto simp: modern_def is_iso_date_def)
  then show ?thesis
    using assms by (simp add: stayFromRange_def rangeFromSearch_def truthy_date_def isoToDate_modern dateToIso_modern)
qed

section \<open>What is greyed is what is held\<close>

lemma coalesce_loop_ends:
  assumes "\<forall>r \<in> set ls \<union> set rs. P (br_from r) \<and> P (br_to r)"
  shows "\<forall>r \<in> set (coalesce_loop ls rs). P (br_from r) \<and> P (br_to r)"
  using assms by (induction ls rs rule: coalesce_loop.induct) auto

lemma coalesceRanges_ends:
  assumes "\<forall>r \<in> set rs. P (br_from r) \<and> P (br_to r)"
  shows "\<forall>r \<in> set (coalesceRanges rs). P (br_from r) \<and> P (br_to r)"
proof (cases "length rs \<le> 1")
  case True
  then have "coalesceRanges rs = rs" by (simp add: coalesceRanges_def)
  with assms show ?thesis by simp
next
  case False
  obtain r qs where qs: "sort_key br_from rs = r # qs"
    using False length_sort [of br_from rs] by (cases "sort_key br_from rs") simp_all
  with False have "coalesceRanges rs = rev (coalesce_loop [r] qs)" by (simp add: coalesceRanges_def)
  moreover have "set (r # qs) = set rs" unfolding qs [symmetric] by simp
  then have "\<forall>x \<in> set [r] \<union> set qs. P (br_from x) \<and> P (br_to x)" using assms by auto
  then have "\<forall>x \<in> set (coalesce_loop [r] qs). P (br_from x) \<and> P (br_to x)" by (rule coalesce_loop_ends)
  ultimately show ?thesis by (simp only: set_rev)
qed

lemma modern_between: "modern a \<Longrightarrow> is_iso_date x \<Longrightarrow> a \<le> x \<Longrightarrow> modern x"
proof -
  assume a: "modern a" "is_iso_date x" "a \<le> x"
  have "take 4 a \<le> take 4 x"
    using a(3) append_le_append [of "take 4 a" "take 4 x" "drop 4 a" "drop 4 x"] a(1,2)
    by (auto simp: modern_def is_iso_date_def)
  moreover have "list_all is_digit (take 4 a)" "list_all is_digit (take 4 x)"
    "length (take 4 a) = 4" "length (take 4 x) = 4"
    using a by (auto simp: modern_def is_iso_date_def)
  ultimately have "iso_year a \<le> iso_year x"
    unfolding iso_year_def by (metis num_mono not_less)
  with a show "modern x" by (simp add: modern_def)
qed

lemma matcher_of_range:
  assumes "modern (br_from r)" "modern (br_to r)"
  shows "\<exists>n. lastNightOf r = Some n \<and> isoToDate (br_from r) = Some (day_of (br_from r)) \<and>
    (day_of (br_from r) < day_of (br_to r) \<longrightarrow> isoToDate n = Some (day_of (br_to r) - 1))"
proof -
  have iso: "is_iso_date (br_from r)" "is_iso_date (br_to r)" using assms by (simp_all add: modern_def)
  have "first_day < day_of (br_to r)"
  proof -
    have "fmt_date 0 1 1 < br_to r"
    proof -
      obtain y m d where "y < 10000" "valid_md (int y) m d" "br_to r = fmt_date y m d"
        using iso(2) by (rule iso_dateE)
      moreover from this have "1000 \<le> y"
        using assms(2) valid_md_less [of "int y" m d] by (simp add: modern_def iso_fields)
      ultimately show ?thesis using fmt_date_less [of 0 1 1 y m d] valid_md_less [of "int y" m d] by simp
    qed
    moreover have "is_iso_date (fmt_date 0 1 1)" "day_of (fmt_date 0 1 1) = first_day" by code_simp+
    ultimately show ?thesis using day_of_less_iff iso(2) by metis
  qed
  from lastNightOf_iso [OF iso(2) this] obtain n where
    n: "lastNightOf r = Some n" "is_iso_date n" "day_of n = day_of (br_to r) - 1" by blast
  moreover have "modern n" if "day_of (br_from r) < day_of (br_to r)"
    using modern_between [OF assms(1) n(2)] that n day_of_le_iff [OF iso(1) n(2)] by simp
  ultimately show ?thesis using isoToDate_modern assms(1) by auto
qed

definition matches :: "date_range \<Rightarrow> int \<Rightarrow> bool" where
  "matches m x \<longleftrightarrow> (\<exists>f t. dr_from m = Some f \<and> dr_to m = Some t \<and> f \<le> x \<and> x \<le> t)"

lemma blockedMatchers_days:
  assumes "\<forall>r \<in> set rs. modern (br_from r) \<and> modern (br_to r)" "nonempty_ranges rs"
  shows "\<exists>ms. blockedMatchers rs = Some ms \<and>
    (\<forall>x. (\<exists>m \<in> set ms. matches m x) \<longleftrightarrow> (\<exists>r \<in> set rs. day_of (br_from r) \<le> x \<and> x < day_of (br_to r)))"
  using assms
proof (induction rs)
  case (Cons r rs)
  then obtain ms where ms: "blockedMatchers rs = Some ms"
    "\<forall>x. (\<exists>m \<in> set ms. matches m x) \<longleftrightarrow> (\<exists>r \<in> set rs. day_of (br_from r) \<le> x \<and> x < day_of (br_to r))"
    by (auto simp: nonempty_ranges_def)
  have m: "modern (br_from r)" "modern (br_to r)" using Cons.prems(1) by simp_all
  then have "day_of (br_from r) < day_of (br_to r)"
    using Cons.prems(2) day_of_less_iff [of "br_from r" "br_to r"] by (simp add: nonempty_ranges_def modern_def)
  with matcher_of_range [OF m] obtain n where n: "lastNightOf r = Some n"
    "isoToDate (br_from r) = Some (day_of (br_from r))" "isoToDate n = Some (day_of (br_to r) - 1)" by blast
  then have "blockedMatchers (r # rs) =
      Some (\<lparr>dr_from = Some (day_of (br_from r)), dr_to = Some (day_of (br_to r) - 1)\<rparr> # ms)"
    using ms(1) by (simp add: blockedMatchers_def)
  with ms(2) show ?case by (auto simp: matches_def)
qed (simp add: blockedMatchers_def)

lemma monthWindow_iso:
  assumes "civil_of_days t = (int y, m, k)" "1000 \<le> y" "y < 9999"
  shows "monthWindow t = month_window y m" "1 \<le> m" "m \<le> 12"
proof -
  have m: "1 \<le> m" "m \<le> 12" using civil_days_of_civil [OF assms(1)] by (simp_all add: valid_md_def)
  then show "1 \<le> m" "m \<le> 12" by simp_all
  have one: "pad 2 (Suc 0) = ''01''" by code_simp
  have "pad2 (int m) = pad 2 m" "pad2 (int (m + 1)) = pad 2 (m + 1)"
    using m by (simp_all only: pad2_def int_string_nat) (simp_all add: pad_start_digits)
  moreover have "int_string (int y) = pad 4 y" "int_string (int (y + 1)) = pad 4 (y + 1)"
    using assms by (simp_all only: int_string_nat) (simp_all add: digits_year)
  moreover have "pad2 1 = pad 2 1" by code_simp
  ultimately show "monthWindow t = month_window y m"
    using m by (auto simp: monthWindow_def assms(1) Let_def month_window_def fmt_date_def one add.commute)
qed

lemma held_instant:
  assumes "db_ok d" "is_iso_date x"
  shows "(\<exists>k \<in> set (bookings d). bk_unitId k = uid \<and> occupies k \<and> bk_checkIn k \<le> x \<and> x < bk_checkOut k) \<longleftrightarrow>
    holds_night d uid (day_of x)"
proof -
  have "is_iso_date (bk_checkIn k) \<and> is_iso_date (bk_checkOut k)" if "k \<in> set (bookings d)" for k
    using assms(1) that by (simp add: db_ok_def dates_ok_def)
  then show ?thesis unfolding holds_night_def using day_of_le_iff day_of_less_iff assms(2) by metis
qed

text \<open>Claim C20. The calendar a guest picks from greys exactly the nights that are held. For the month the
  widget shows, the ranges the public endpoint answers become matchers without error, and a day of the month
  is greyed exactly when an occupying booking of the unit holds that night: the checkout day stays free.\<close>

theorem picker_greys_held_nights:
  assumes "db_ok d" "u \<in> set (units d)"
    and "civil_of_days month = (int y, m, k)" "1000 \<le> y" "y < 9999"
    and "monthWindow month = (a, b)" "getPublicQuote d (u_id u) a b = Inr r"
  shows "\<exists>ms. blockedMatchers (ar_blockedRanges r) = Some ms \<and>
    (\<forall>n. day_of a \<le> n \<and> n < day_of b \<longrightarrow> ((\<exists>g \<in> set ms. matches g n) \<longleftrightarrow> holds_night d (u_id u) n))"
proof -
  let ?s = "session_of (Visitor_principal (u_tenantId u))"
  note mw = monthWindow_iso [OF assms(3-5)]
  have w: "window_legal a b"
    using month_window_legal [of y m a b] mw assms(5,6) by simp
  then have "modern a"
    using mw assms(4-6) by (auto simp: window_legal_def modern_def month_window_def iso_fields)
  have sw: "stay_window_ok a b" using w by (simp add: window_legal_def stay_window_iff window_ok_def)
  note ranges = public_quote_answer(2) [OF assms(1,2) sw assms(7)]
  note o = visitor_owns [OF assms(2)]
  have iso: "is_iso_date (bk_checkIn q) \<and> is_iso_date (bk_checkOut q)" if "q \<in> set (bookings d)" for q
    using assms(1) that by (simp add: db_ok_def dates_ok_def)
  have "\<forall>q \<in> set (findBlockedRanges d ?s (u_id u) a b). modern (br_from q) \<and> modern (br_to q)"
    using iso w \<open>modern a\<close>
    by (auto simp: findBlockedRanges_def clip_def range_overlaps_def window_legal_def max_def min_def
        intro: modern_between less_imp_le)
  then have ends: "\<forall>q \<in> set (ar_blockedRanges r). modern (br_from q) \<and> modern (br_to q)"
    unfolding ranges by (rule coalesceRanges_ends)
  moreover have "nonempty_ranges (ar_blockedRanges r)"
    unfolding ranges using coalesceRanges_normal(1) [OF blocked_nonempty] by (simp add: separated_def)
  ultimately obtain ms where ms: "blockedMatchers (ar_blockedRanges r) = Some ms"
    "\<forall>x. (\<exists>g \<in> set ms. matches g x) \<longleftrightarrow> (\<exists>q \<in> set (ar_blockedRanges r). day_of (br_from q) \<le> x \<and> x < day_of (br_to q))"
    using blockedMatchers_days by blast
  have "(\<exists>g \<in> set ms. matches g n) \<longleftrightarrow> holds_night d (u_id u) n" if n: "day_of a \<le> n" "n < day_of b" for n
  proof -
    have "first_day \<le> n" "n \<le> last_day"
      using n day_of_range [of a] day_of_range [of b] w by (auto simp: window_legal_def)
    from date_of_day [OF this] obtain x where x: "is_iso_date x" "day_of x = n" by blast
    have "day_of (br_from q) \<le> n \<and> n < day_of (br_to q) \<longleftrightarrow> br_from q \<le> x \<and> x < br_to q"
      if "q \<in> set (ar_blockedRanges r)" for q
      using ends that x day_of_le_iff [of "br_from q" x] day_of_less_iff [of x "br_to q"] by (simp add: modern_def)
    then have "(\<exists>q \<in> set (ar_blockedRanges r). day_of (br_from q) \<le> n \<and> n < day_of (br_to q)) \<longleftrightarrow>
        x \<in> covered (ar_blockedRanges r)"
      unfolding covered_def by simp
    also have "\<dots> \<longleftrightarrow> a \<le> x \<and> x < b \<and> holds_night d (u_id u) n"
      unfolding ranges blocked_covered [OF assms(1,2) o] using held_instant [OF assms(1) x(1), of "u_id u"] x(2) by simp
    finally show ?thesis
      using ms(2) n x w by (simp add: window_legal_def day_of_le_iff day_of_less_iff)
  qed
  with ms(1) show ?thesis by blast
qed

end
