(* ===== verification/Web_Copy.thy ===== *)
theory Web_Copy
  imports Web_Base
begin

text \<open>
  The words of the web application. Which refusal leads (\<^verbatim>\<open>lib/refusal.ts\<close>), the dashboard's copy of a
  conflict (\<^verbatim>\<open>lib/conflict.ts\<close>) and the funnel's localized one (\<^verbatim>\<open>availability-copy.ts\<close>), the counts and
  placeholders of the catalog (\<^verbatim>\<open>i18n/format.ts\<close>, \<^verbatim>\<open>i18n/context.ts\<close>), the store of the visitor's language
  (\<^verbatim>\<open>i18n/locale.ts\<close>) and the phrase for an age (\<^verbatim>\<open>lib/relative-time.ts\<close>). The catalogs' texts and the
  platform's date formatting are arguments of the functions that use them.
\<close>

section \<open>Which refusal leads\<close>

definition PRECEDENCE :: "refusal_reason list" where
  "PRECEDENCE = [Archived, Unavailable, Overlap, Max_guests, Min_stay]"

definition primaryRefusalReason :: "refusal_reason list \<Rightarrow> refusal_reason option" where
  "primaryRefusalReason reasons = List.find (\<lambda>r. r \<in> set reasons) PRECEDENCE"

section \<open>The dashboard's copy\<close>

definition apostrophe :: string where
  "apostrophe = [CHR 0x27]"

definition plural :: "nat \<Rightarrow> string \<Rightarrow> string" where
  "plural n noun = digits n @ '' '' @ noun @ (if n = 1 then '''' else ''s'')"

definition describeRefusal :: "refusal_reason list \<Rightarrow> string" where
  "describeRefusal reasons =
     (case primaryRefusalReason reasons of
        Some Archived \<Rightarrow> ''This unit is no longer available for new bookings.''
      | Some Unavailable \<Rightarrow> ''This unit is no longer available for new bookings.''
      | Some Overlap \<Rightarrow> ''Those dates were just taken. Refresh and try again.''
      | Some Max_guests \<Rightarrow> ''That'' @ apostrophe @ ''s more guests than this unit can host.''
      | Some Min_stay \<Rightarrow> ''That stay is shorter than this unit'' @ apostrophe @ ''s minimum.''
      | None \<Rightarrow> ''Those dates can'' @ apostrophe @ ''t be booked.'')"

fun describeInviteRefusal :: "invite_refusal \<Rightarrow> string" where
  "describeInviteRefusal Invite_accepted =
     ''This invite has already been used. Sign in with your email and password instead.''"
| "describeInviteRefusal Invite_revoked =
     ''This invite was withdrawn. Ask the account owner to send you a new one.''"
| "describeInviteRefusal Invite_expired =
     ''This invite has expired. Ask the account owner to send you a new one.''"

definition history_line :: "string \<Rightarrow> nat \<Rightarrow> string" where
  "history_line noun count =
     ''This '' @ noun @ '' has '' @ plural count ''booking'' @
     '' - deleting it would erase that history. Archive it instead to retire it while keeping the record.''"

fun describeConflict :: "conflict \<Rightarrow> string" where
  "describeConflict Email_taken = ''Email already registered''"
| "describeConflict Unit_name_taken = ''A unit with this name already exists in this property''"
| "describeConflict (Property_has_bookings count) = history_line ''property'' count"
| "describeConflict (Unit_has_bookings count) = history_line ''unit'' count"
| "describeConflict (Dates_unavailable reasons) = describeRefusal reasons"
| "describeConflict (Booking_not_cancellable status) =
     (if status = Cancelled then ''This booking is already cancelled.'' else ''This booking has already expired.'')"
| "describeConflict (Booking_not_payable status) =
     (if status = Confirmed then ''This booking is already confirmed.''
      else ''This hold has lapsed - please pick your dates again.'')"
| "describeConflict Channel_already_connected = ''This channel is already connected to this unit''"
| "describeConflict (Invite_not_acceptable reason) = describeInviteRefusal reason"
| "describeConflict Invite_already_pending = ''An invite for this email is already pending''"
| "describeConflict Price_override_overlap = ''These dates already have a price override''"
| "describeConflict Payments_not_configured = ''Online payment is not set up for this property yet.''"

text \<open>\<^verbatim>\<open>conflictOf\<close>: an error the application did not raise itself, another status and an unknown body are no
  conflict. The body is what \<^verbatim>\<open>parseConflictBody\<close> is handed.\<close>

datatype web_error = Other_error | Api_error (err_status: nat) (err_body: "conflict option")

definition conflictOf :: "web_error \<Rightarrow> conflict option" where
  "conflictOf e =
     (case e of
        Api_error status body \<Rightarrow> if status \<noteq> 409 then None else Option.bind body parseConflictBody
      | Other_error \<Rightarrow> None)"

section \<open>The visitor's language\<close>

datatype locale_tag = En | Id | Zh

definition locale_name :: "locale_tag \<Rightarrow> string" where
  "locale_name l = (case l of En \<Rightarrow> ''en'' | Id \<Rightarrow> ''id'' | Zh \<Rightarrow> ''zh'')"

definition LOCALES :: "locale_tag list" where
  "LOCALES = [En, Id, Zh]"

definition DEFAULT_LOCALE :: locale_tag where
  "DEFAULT_LOCALE = En"

definition isLocale :: "string \<Rightarrow> locale_tag option" where
  "isLocale s = List.find (\<lambda>l. locale_name l = s) LOCALES"

definition dateTag :: "locale_tag \<Rightarrow> string" where
  "dateTag l = (case l of En \<Rightarrow> ''en-GB'' | Id \<Rightarrow> ''id-ID'' | Zh \<Rightarrow> ''zh-CN'')"

text \<open>What the browser keeps: the stored value (none when the storage throws or is empty), whether it can be
  written, and its language. A change notifies every listener once.\<close>

record locale_store =
  ls_current :: locale_tag
  ls_stored :: "string option"
  ls_writable :: bool
  ls_notified :: nat

definition detectInitial :: "string option \<Rightarrow> string \<Rightarrow> locale_tag" where
  "detectInitial stored language =
     (case Option.bind stored isLocale of
        Some l \<Rightarrow> l
      | None \<Rightarrow>
          let nav = to_lower language in
          if prefix ''id'' nav then Id else if prefix ''zh'' nav then Zh else DEFAULT_LOCALE)"

definition setLocale :: "locale_tag \<Rightarrow> locale_store \<Rightarrow> locale_store" where
  "setLocale next1 st =
     (if next1 = ls_current st then st
      else st\<lparr>ls_current := next1,
        ls_stored := (if ls_writable st then Some (locale_name next1) else ls_stored st),
        ls_notified := ls_notified st + 1\<rparr>)"

section \<open>The funnel's copy\<close>

definition formatNights :: "nat \<Rightarrow> locale_tag \<Rightarrow> string" where
  "formatNights n l =
     (case l of
        En \<Rightarrow> digits n @ '' '' @ (if n = 1 then ''night'' else ''nights'')
      | Id \<Rightarrow> digits n @ '' malam''
      | Zh \<Rightarrow> digits n @ '' '' @ [CHR 0xE6, CHR 0x99, CHR 0x9A])"

definition formatGuests :: "nat \<Rightarrow> locale_tag \<Rightarrow> string" where
  "formatGuests n l =
     (case l of
        En \<Rightarrow> digits n @ '' '' @ (if n = 1 then ''guest'' else ''guests'')
      | Id \<Rightarrow> digits n @ '' tamu''
      | Zh \<Rightarrow> digits n @ '' '' @
          [CHR 0xE4, CHR 0xBD, CHR 0x8D, CHR 0xE5, CHR 0xAE, CHR 0xA2, CHR 0xE4, CHR 0xBA, CHR 0xBA])"

text \<open>\<^verbatim>\<open>template.replace(/\{(\w+)\}/g, ...)\<close>: a brace that does not open a known placeholder stays.\<close>

definition word_char :: "char \<Rightarrow> bool" where
  "word_char c \<longleftrightarrow> form_safe c \<and> c \<notin> set ''*-.''"

function interpolate :: "(string \<Rightarrow> string option) \<Rightarrow> string \<Rightarrow> string" where
  "interpolate params [] = []"
| "interpolate params (c # cs) =
     (let key = takeWhile word_char cs; rest = dropWhile word_char cs in
      if c = CHR ''{'' \<and> key \<noteq> [] \<and> rest \<noteq> [] \<and> hd rest = CHR ''}'' then
        (case params key of Some v \<Rightarrow> v | None \<Rightarrow> c # key @ ''}'') @ interpolate params (tl rest)
      else c # interpolate params cs)"
  by pat_completeness auto
termination
  by (relation "measure (\<lambda>(p, s). length s)")
    (auto simp: less_Suc_eq_le intro: le_trans [OF _ length_dropWhile_le] le_trans [OF diff_le_self])

text \<open>The bag every component reads: the catalog's lookup and the platform's date format are its fields.\<close>

record i18n =
  in_locale :: locale_tag
  in_t :: "string \<Rightarrow> (string \<Rightarrow> string option) \<Rightarrow> string"
  in_fmtDate :: "date \<Rightarrow> string"
  in_fmtNights :: "nat \<Rightarrow> string"
  in_fmtGuests :: "nat \<Rightarrow> string"

definition createI18n ::
  "(locale_tag \<Rightarrow> string \<Rightarrow> string) \<Rightarrow> (string \<Rightarrow> date \<Rightarrow> string) \<Rightarrow> locale_tag \<Rightarrow> i18n" where
  "createI18n messages intl_date l =
     \<lparr>in_locale = l, in_t = (\<lambda>key params. interpolate params (messages l key)),
      in_fmtDate = intl_date (dateTag l), in_fmtNights = (\<lambda>n. formatNights n l),
      in_fmtGuests = (\<lambda>n. formatGuests n l)\<rparr>"

text \<open>The picker knows two reasons; the type of the program admits no other.\<close>

definition describeReason :: "i18n \<Rightarrow> refusal_reason \<Rightarrow> nat \<Rightarrow> string option" where
  "describeReason i reason minStay =
     (case reason of
        Min_stay \<Rightarrow> Some (in_t i ''picker.reasonMinStay'' [''nights'' \<mapsto> in_fmtNights i minStay])
      | Overlap \<Rightarrow> Some (in_t i ''picker.reasonOverlap'' Map.empty)
      | _ \<Rightarrow> None)"

definition describeBlockedNights :: "i18n \<Rightarrow> blocked_range \<Rightarrow> string option" where
  "describeBlockedNights i r =
     map_option (\<lambda>lastNight.
       if lastNight = br_from r then in_fmtDate i (br_from r)
       else in_fmtDate i (br_from r) @ '' - '' @ in_fmtDate i lastNight) (lastNightOf r)"

definition funnel_key :: "refusal_reason list \<Rightarrow> string" where
  "funnel_key reasons =
     (case primaryRefusalReason reasons of
        Some Archived \<Rightarrow> ''conflict.unavailable''
      | Some Unavailable \<Rightarrow> ''conflict.unavailable''
      | Some Overlap \<Rightarrow> ''conflict.overlap''
      | Some Max_guests \<Rightarrow> ''conflict.maxGuests''
      | Some Min_stay \<Rightarrow> ''conflict.minStay''
      | None \<Rightarrow> ''conflict.generic'')"

definition funnel_describeRefusal :: "i18n \<Rightarrow> refusal_reason list \<Rightarrow> string" where
  "funnel_describeRefusal i reasons = in_t i (funnel_key reasons) Map.empty"

section \<open>An age in words\<close>

definition formatAge :: "instant \<Rightarrow> instant \<Rightarrow> string" where
  "formatAge then1 now =
     (let minutes = (now - then1) div 60000 in
      if minutes < 1 then ''just now''
      else if minutes < 60 then plural (nat minutes) ''minute'' @ '' ago''
      else let hours = minutes div 60 in
        if hours < 24 then plural (nat hours) ''hour'' @ '' ago''
        else plural (nat (hours div 24)) ''day'' @ '' ago'')"

section \<open>Laws\<close>

lemma primary_iff:
  "primaryRefusalReason rs = Some Archived \<longleftrightarrow> Archived \<in> set rs"
  "primaryRefusalReason rs = Some Unavailable \<longleftrightarrow> Unavailable \<in> set rs \<and> Archived \<notin> set rs"
  "primaryRefusalReason rs = Some Overlap \<longleftrightarrow> Overlap \<in> set rs \<and> {Archived, Unavailable} \<inter> set rs = {}"
  "primaryRefusalReason rs = Some Max_guests \<longleftrightarrow>
     Max_guests \<in> set rs \<and> {Archived, Unavailable, Overlap} \<inter> set rs = {}"
  "primaryRefusalReason rs = Some Min_stay \<longleftrightarrow> set rs = {Min_stay}"
  "primaryRefusalReason rs = None \<longleftrightarrow> rs = []"
proof -
  have all: "x \<in> {Overlap, Min_stay, Max_guests, Unavailable, Archived}" for x by (cases x) simp_all
  show "primaryRefusalReason rs = Some Archived \<longleftrightarrow> Archived \<in> set rs"
    "primaryRefusalReason rs = Some Unavailable \<longleftrightarrow> Unavailable \<in> set rs \<and> Archived \<notin> set rs"
    "primaryRefusalReason rs = Some Overlap \<longleftrightarrow> Overlap \<in> set rs \<and> {Archived, Unavailable} \<inter> set rs = {}"
    "primaryRefusalReason rs = Some Max_guests \<longleftrightarrow>
       Max_guests \<in> set rs \<and> {Archived, Unavailable, Overlap} \<inter> set rs = {}"
    by (auto simp: primaryRefusalReason_def PRECEDENCE_def)
  show "primaryRefusalReason rs = Some Min_stay \<longleftrightarrow> set rs = {Min_stay}"
    by (auto simp: primaryRefusalReason_def PRECEDENCE_def) (metis refusal_reason.exhaust)
  show "primaryRefusalReason rs = None \<longleftrightarrow> rs = []"
    using all [of "hd rs"] by (cases rs) (auto simp: primaryRefusalReason_def PRECEDENCE_def)
qed

text \<open>The order of the reasons and their repetition never matter, and the two surfaces lead with the same one.\<close>

lemma primary_set: "set rs = set qs \<Longrightarrow> primaryRefusalReason rs = primaryRefusalReason qs"
  by (simp add: primaryRefusalReason_def)

lemma surfaces_agree: "describeRefusal rs = describeRefusal qs \<longleftrightarrow> funnel_key rs = funnel_key qs"
  by (auto simp: describeRefusal_def funnel_key_def apostrophe_def split: option.split refusal_reason.split)

lemma interpolate_plain: "CHR ''{'' \<notin> set s \<Longrightarrow> interpolate p s = s"
  by (induction s) (auto simp: Let_def)

lemma stored_language_survives:
  "ls_writable st \<Longrightarrow> l \<noteq> ls_current st \<Longrightarrow> detectInitial (ls_stored (setLocale l st)) nav = l"
  by (cases l) (simp_all add: setLocale_def detectInitial_def isLocale_def LOCALES_def locale_name_def)

end
