(* ===== verification/Web_Session.thy ===== *)
theory Web_Session
  imports Auth Wa_Link Web_Copy
begin

text \<open>
  The session of the web application: the token in memory (\<^verbatim>\<open>lib/auth.ts\<close>), the fetch wrapper with its one
  silent refresh (\<^verbatim>\<open>lib/api-client.ts\<close>), the \<^verbatim>\<open>?next\<close> the forms return to (\<^verbatim>\<open>auth-search.ts\<close>), the guards of
  the routes (\<^verbatim>\<open>router.tsx\<close>), the field errors of a form (\<^verbatim>\<open>lib/forms.ts\<close>), the owner's menu (\<^verbatim>\<open>lib/role.ts\<close>)
  and the workspace switcher. The platform's \<^verbatim>\<open>fetch\<close> is a parameter acting on a world of its own; it may fail.
\<close>

section \<open>The browser\<close>

record 'b http_request =
  rq_method :: string
  rq_url :: string
  rq_body :: "'b option"
  rq_bearer :: "string option"
  rq_language :: string

text \<open>A reply and what reading its JSON gives; no value when that throws.\<close>

record 'b web_reply =
  re_status :: nat
  re_json :: "'b option"

definition re_ok :: "'b web_reply \<Rightarrow> bool" where
  "re_ok r \<longleftrightarrow> 200 \<le> re_status r \<and> re_status r \<le> 299"

text \<open>\<^verbatim>\<open>fetch\<close>, and the shape the code reads a session's JSON as.\<close>

record ('b, 'w) platform =
  pl_fetch :: "'b http_request \<Rightarrow> 'w \<Rightarrow> 'b web_reply option \<times> 'w"
  pl_auth :: "'b \<Rightarrow> auth_answer"

record ('b, 'w) browser =
  br_token :: "string option"
  br_session :: "session_body option"
  br_notified :: nat
  br_pathname :: string
  br_search :: string
  br_assigned :: "string option"
    \<comment> \<open>the address the window was sent to, if it was\<close>
  br_language :: string
  br_cacheResets :: nat
  br_sent :: "'b http_request list"
  br_world :: 'w

definition on_wire ::
  "('b, 'w) platform \<Rightarrow> 'b http_request \<Rightarrow> ('b, 'w) browser \<Rightarrow> 'b web_reply option \<times> ('b, 'w) browser" where
  "on_wire pl q st =
     (case pl_fetch pl q (br_world st) of (r, w) \<Rightarrow> (r, st\<lparr>br_world := w, br_sent := br_sent st @ [q]\<rparr>))"

section \<open>The token in memory\<close>

definition setSession :: "auth_answer \<Rightarrow> ('b, 'w) browser \<Rightarrow> ('b, 'w) browser" where
  "setSession auth st =
     st\<lparr>br_token := Some (an_accessToken auth), br_session := Some (an_session auth),
        br_notified := br_notified st + 1\<rparr>"

definition clearSession :: "('b, 'w) browser \<Rightarrow> ('b, 'w) browser" where
  "clearSession st = st\<lparr>br_token := None, br_session := None, br_notified := br_notified st + 1\<rparr>"

definition refresh_request :: "'b http_request" where
  "refresh_request =
     \<lparr>rq_method = ''POST'', rq_url = ''/api/auth/refresh'', rq_body = None, rq_bearer = None, rq_language = []\<rparr>"

text \<open>\<^verbatim>\<open>refreshSession\<close>: no answer when the request or the reading of its JSON throws.\<close>

definition refreshSession :: "('b, 'w) platform \<Rightarrow> ('b, 'w) browser \<Rightarrow> bool option \<times> ('b, 'w) browser" where
  "refreshSession pl st =
     (case on_wire pl refresh_request st of
        (None, st1) \<Rightarrow> (None, st1)
      | (Some r, st1) \<Rightarrow>
          if \<not> re_ok r then (Some False, clearSession st1)
          else (case re_json r of
                  None \<Rightarrow> (None, st1)
                | Some j \<Rightarrow> (Some True, setSession (pl_auth pl j) st1)))"

definition ensureSession :: "('b, 'w) platform \<Rightarrow> ('b, 'w) browser \<Rightarrow> bool option \<times> ('b, 'w) browser" where
  "ensureSession pl st =
     (if (case br_token st of None \<Rightarrow> False | Some t \<Rightarrow> t \<noteq> []) then (Some True, st) else refreshSession pl st)"

definition isOwner :: "('b, 'w) browser \<Rightarrow> bool" where
  "isOwner st \<longleftrightarrow> (case br_session st of None \<Rightarrow> False | Some s \<Rightarrow> sb_role s = Owner)"

section \<open>The fetch wrapper\<close>

definition api_request :: "string \<Rightarrow> string \<Rightarrow> 'b option \<Rightarrow> ('b, 'w) browser \<Rightarrow> 'b http_request" where
  "api_request method path body st =
     \<lparr>rq_method = method, rq_url = ''/api'' @ path, rq_body = body,
      rq_bearer = (case br_token st of Some t \<Rightarrow> if t = [] then None else Some t | None \<Rightarrow> None),
      rq_language = br_language st\<rparr>"

definition send_api ::
  "('b, 'w) platform \<Rightarrow> string \<Rightarrow> string \<Rightarrow> 'b option \<Rightarrow> ('b, 'w) browser \<Rightarrow>
   'b web_reply option \<times> ('b, 'w) browser" where
  "send_api pl method path body st = on_wire pl (api_request method path body st) st"

definition login_url :: "string \<Rightarrow> string" where
  "login_url next1 = ''/login?next='' @ encodeURIComponent next1"

text \<open>The end of a session: cleared, and a visitor of the dashboard is sent to sign in.\<close>

definition log_out :: "('b, 'w) browser \<Rightarrow> ('b, 'w) browser" where
  "log_out st =
     (let st1 = clearSession st in
      if prefix ''/app'' (br_pathname st1)
      then st1\<lparr>br_assigned := Some (login_url (br_pathname st1 @ br_search st1))\<rparr>
      else st1)"

definition end_if_unauthorized ::
  "'b web_reply option \<times> ('b, 'w) browser \<Rightarrow> 'b web_reply option \<times> ('b, 'w) browser" where
  "end_if_unauthorized res =
     (case res of
        (Some r, st) \<Rightarrow> if re_status r = 401 then (Some r, log_out st) else (Some r, st)
      | (None, st) \<Rightarrow> (None, st))"

definition sendWithSession ::
  "('b, 'w) platform \<Rightarrow> string \<Rightarrow> string \<Rightarrow> 'b option \<Rightarrow> ('b, 'w) browser \<Rightarrow>
   'b web_reply option \<times> ('b, 'w) browser" where
  "sendWithSession pl method path body st =
     (case send_api pl method path body st of
        (None, st1) \<Rightarrow> (None, st1)
      | (Some r, st1) \<Rightarrow>
          if re_status r = 401 \<and> \<not> prefix ''/auth'' path then
            (case refreshSession pl st1 of
               (None, st2) \<Rightarrow> (None, st2)
             | (Some True, st2) \<Rightarrow> end_if_unauthorized (send_api pl method path body st2)
             | (Some False, st2) \<Rightarrow> end_if_unauthorized (Some r, st2))
          else (Some r, st1))"

text \<open>\<^verbatim>\<open>ApiError\<close>: the message and the first complaint per field of the error envelope.\<close>

datatype envelope_message = No_message | Text_message string | Issues "(string \<times> string) list"

record 'b api_error =
  ae_status :: nat
  ae_message :: string
  ae_fieldErrors :: "string \<Rightarrow> string option"
  ae_body :: "'b option"

definition first_message :: "string \<times> string \<Rightarrow> (string \<Rightarrow> string option) \<Rightarrow> (string \<Rightarrow> string option)" where
  "first_message complaint m =
     (case m (fst complaint) of Some _ \<Rightarrow> m | None \<Rightarrow> m(fst complaint \<mapsto> snd complaint))"

definition api_error_of :: "nat \<Rightarrow> envelope_message \<Rightarrow> 'b option \<Rightarrow> 'b api_error" where
  "api_error_of status msg body =
     \<lparr>ae_status = status,
      ae_message = (case msg of
          No_message \<Rightarrow> ''API error '' @ digits status
        | Text_message m \<Rightarrow> m
        | Issues _ \<Rightarrow> ''Validation failed''),
      ae_fieldErrors = (case msg of Issues is1 \<Rightarrow> fold first_message is1 Map.empty | _ \<Rightarrow> Map.empty),
      ae_body = body\<rparr>"

text \<open>\<^verbatim>\<open>request\<close>: the JSON of a good answer, nothing for a 204, an \<^verbatim>\<open>ApiError\<close> for a bad one; a thrown platform
  error is neither. How an envelope's message reads is a function of its JSON.\<close>

datatype 'b api_result = Answer "'b option" | Refused "'b api_error" | Broken

definition request ::
  "('b, 'w) platform \<Rightarrow> ('b \<Rightarrow> envelope_message) \<Rightarrow> string \<Rightarrow> string \<Rightarrow> 'b option \<Rightarrow> ('b, 'w) browser \<Rightarrow>
   'b api_result \<times> ('b, 'w) browser" where
  "request pl envelope method path body st =
     (case sendWithSession pl method path body st of
        (None, st1) \<Rightarrow> (Broken, st1)
      | (Some r, st1) \<Rightarrow>
          if \<not> re_ok r then
            (Refused (api_error_of (re_status r) (case re_json r of None \<Rightarrow> No_message | Some j \<Rightarrow> envelope j) (re_json r)), st1)
          else if re_status r = 204 then (Answer None, st1)
          else (case re_json r of None \<Rightarrow> (Broken, st1) | Some j \<Rightarrow> (Answer (Some j), st1)))"

text \<open>\<^verbatim>\<open>issuesToFieldErrors\<close>: a form's own complaints, keyed by the dotted path.\<close>

definition issuesToFieldErrors :: "(string list \<times> string) list \<Rightarrow> (string \<Rightarrow> string option)" where
  "issuesToFieldErrors issues = fold first_message (map (\<lambda>(p, m). (join ''.'' p, m)) issues) Map.empty"

section \<open>Where the forms return to\<close>

definition authSearchSchema :: "string option \<Rightarrow> string option" where
  "authSearchSchema next1 =
     (case next1 of
        Some (c # rest) \<Rightarrow>
          if c = CHR ''/'' \<and> \<not> prefix ''/'' rest then Some (c # rest) else None
      | _ \<Rightarrow> None)"

definition after_login :: "string option \<Rightarrow> string" where
  "after_login next1 = (case next1 of Some n \<Rightarrow> n | None \<Rightarrow> ''/app'')"

datatype guard_answer = Enter | Redirect string "string option" | Guard_failed

definition app_guard :: "('b, 'w) platform \<Rightarrow> string \<Rightarrow> ('b, 'w) browser \<Rightarrow> guard_answer \<times> ('b, 'w) browser" where
  "app_guard pl href st =
     (case ensureSession pl st of
        (None, st1) \<Rightarrow> (Guard_failed, st1)
      | (Some ok, st1) \<Rightarrow> (if ok then Enter else Redirect ''/login'' (Some href), st1))"

definition login_guard :: "('b, 'w) platform \<Rightarrow> ('b, 'w) browser \<Rightarrow> guard_answer \<times> ('b, 'w) browser" where
  "login_guard pl st =
     (case ensureSession pl st of
        (None, st1) \<Rightarrow> (Guard_failed, st1)
      | (Some ok, st1) \<Rightarrow> (if ok then Redirect ''/app'' None else Enter, st1))"

section \<open>The workspace switcher\<close>

text \<open>Whether the switch failed, and the browser after it; the whole query cache is dropped with the session.\<close>

definition switchTo ::
  "('b, 'w) platform \<Rightarrow> ('b \<Rightarrow> envelope_message) \<Rightarrow> (uuid \<Rightarrow> 'b) \<Rightarrow> bool \<Rightarrow> uuid \<Rightarrow> ('b, 'w) browser \<Rightarrow>
   bool \<times> ('b, 'w) browser" where
  "switchTo pl envelope body_of switching tenantId st =
     (case br_session st of
        None \<Rightarrow> (False, st)
      | Some s \<Rightarrow>
          if tenantId = sb_tenantId s \<or> switching then (False, st)
          else (case request pl envelope ''POST'' ''/auth/session'' (Some (body_of tenantId)) st of
                  (Answer (Some j), st1) \<Rightarrow>
                    let st2 = setSession (pl_auth pl j) st1 in
                    (False, st2\<lparr>br_cacheResets := br_cacheResets st2 + 1\<rparr>)
                | (_, st1) \<Rightarrow> (True, st1)))"

definition logout :: "('b, 'w) platform \<Rightarrow> ('b \<Rightarrow> envelope_message) \<Rightarrow> ('b, 'w) browser \<Rightarrow> ('b, 'w) browser" where
  "logout pl envelope st = clearSession (snd (request pl envelope ''POST'' ''/auth/logout'' None st))"

section \<open>The rules of the wrapper\<close>

lemma on_wire_simps:
  assumes "on_wire pl q st = (r, st')"
  shows "br_sent st' = br_sent st @ [q]" "br_token st' = br_token st" "br_session st' = br_session st"
    "br_pathname st' = br_pathname st" "br_search st' = br_search st" "br_assigned st' = br_assigned st"
    "br_language st' = br_language st"
  using assms by (auto simp: on_wire_def split: prod.splits)

lemma refreshSession_cases:
  assumes "refreshSession pl st = (ok, st')"
  shows "br_sent st' = br_sent st @ [refresh_request]" "br_pathname st' = br_pathname st"
    "br_search st' = br_search st" "br_assigned st' = br_assigned st" "br_language st' = br_language st"
    "ok = Some False \<Longrightarrow> br_token st' = None \<and> br_session st' = None"
    "ok = Some True \<Longrightarrow> \<exists>auth :: auth_answer. br_token st' = Some (an_accessToken auth) \<and> br_session st' = Some (an_session auth)"
    "ok = None \<Longrightarrow> br_token st' = br_token st \<and> br_session st' = br_session st"
proof -
  obtain r1 st1 where first: "on_wire pl refresh_request st = (r1, st1)" by (cases "on_wire pl refresh_request st")
  have "ok = None \<and> st' = st1 \<or> ok = Some False \<and> st' = clearSession st1 \<or>
      (\<exists>auth. ok = Some True \<and> st' = setSession auth st1)"
    using assms first by (auto simp: refreshSession_def split: option.splits if_splits)
  then show "br_sent st' = br_sent st @ [refresh_request]" "br_pathname st' = br_pathname st"
    "br_search st' = br_search st" "br_assigned st' = br_assigned st" "br_language st' = br_language st"
    "ok = Some False \<Longrightarrow> br_token st' = None \<and> br_session st' = None"
    "ok = Some True \<Longrightarrow> \<exists>auth :: auth_answer. br_token st' = Some (an_accessToken auth) \<and> br_session st' = Some (an_session auth)"
    "ok = None \<Longrightarrow> br_token st' = br_token st \<and> br_session st' = br_session st"
    using on_wire_simps [OF first] by (auto simp: setSession_def clearSession_def)
qed

lemma end_if_unauthorized_cases:
  assumes "end_if_unauthorized (r, st) = (r', st')"
  shows "r' = r" "br_sent st' = br_sent st"
    "(\<exists>a. r = Some a \<and> re_status a = 401) \<and> st' = log_out st \<or> (\<forall>a. r = Some a \<longrightarrow> re_status a \<noteq> 401) \<and> st' = st"
  using assms by (auto simp: end_if_unauthorized_def log_out_def clearSession_def Let_def split: option.splits if_splits)

lemma log_out_simps:
  "br_token (log_out st) = None" "br_session (log_out st) = None" "br_sent (log_out st) = br_sent st"
  "br_assigned (log_out st) =
    (if prefix ''/app'' (br_pathname st) then Some (login_url (br_pathname st @ br_search st)) else br_assigned st)"
  by (simp_all add: log_out_def clearSession_def Let_def)

text \<open>The address an expired session leaves behind is one the sign-in form will return to: a path of this
  application, with its search, never another origin.\<close>

lemma next_survives:
  assumes "prefix ''/app'' path"
  shows "authSearchSchema (Some (decodeURIComponent (drop (length ''/login?next='') (login_url (path @ search))))) =
    Some (path @ search)"
  using assms by (auto simp: login_url_def decode_encode authSearchSchema_def prefix_def)

lemma accepted_next_is_local:
  "authSearchSchema next1 = Some n \<Longrightarrow> next1 = Some n \<and> prefix ''/'' n \<and> \<not> prefix ''//'' n"
  by (auto simp: authSearchSchema_def split: option.splits list.splits if_splits)

text \<open>What a request leaves behind, whichever way it went.\<close>

lemma sendWithSession_cases:
  assumes "sendWithSession pl method path body st = (r, st')"
  shows "(\<exists>extra. br_sent st' = br_sent st @ api_request method path body st # extra \<and>
      (extra = [] \<or> \<not> prefix ''/auth'' path \<and>
        (extra = [refresh_request] \<or> (\<exists>token. extra = [refresh_request, (api_request method path body st)\<lparr>rq_bearer := token\<rparr>])))) \<and>
    (\<forall>a. r = Some a \<longrightarrow> \<not> prefix ''/auth'' path \<longrightarrow> re_status a = 401 \<longrightarrow>
       (\<exists>s. st' = log_out s \<and> br_pathname s = br_pathname st \<and> br_search s = br_search st)) \<and>
    (\<forall>a. r = Some a \<longrightarrow> re_status a \<noteq> 401 \<longrightarrow> br_assigned st' = br_assigned st)"
proof -
  let ?q = "api_request method path body st"
  obtain r1 st1 where first: "on_wire pl ?q st = (r1, st1)" by (cases "on_wire pl ?q st")
  note one = on_wire_simps [OF first]
  consider (plain) "r = r1" "st' = st1" "\<not> prefix ''/auth'' path \<longrightarrow> (\<forall>a. r1 = Some a \<longrightarrow> re_status a \<noteq> 401)"
    | (broken) st2 where "\<not> prefix ''/auth'' path" "refreshSession pl st1 = (None, st2)" "r = None" "st' = st2"
    | (gone) b st2 where "\<not> prefix ''/auth'' path" "refreshSession pl st1 = (Some False, st2)" "r1 = Some b"
        "re_status b = 401" "end_if_unauthorized (Some b, st2) = (r, st')"
    | (again) st2 where "\<not> prefix ''/auth'' path" "refreshSession pl st1 = (Some True, st2)"
        "end_if_unauthorized (on_wire pl (api_request method path body st2) st2) = (r, st')"
    using assms first
    by (auto simp: sendWithSession_def send_api_def split: prod.splits option.splits if_splits bool.splits)
  then show ?thesis
  proof cases
    case plain
    then show ?thesis using one by auto
  next
    case broken
    then show ?thesis using one refreshSession_cases(1,4) [OF broken(2)] by simp
  next
    case gone
    note two = refreshSession_cases [OF gone(2)] and stop = end_if_unauthorized_cases [OF gone(5)]
    from gone stop have "st' = log_out st2" "r = Some b" by auto
    with gone one two show ?thesis by (auto simp: log_out_simps)
  next
    case again
    then obtain r3 st3 where retry: "\<not> prefix ''/auth'' path" "refreshSession pl st1 = (Some True, st2)"
      "on_wire pl (api_request method path body st2) st2 = (r3, st3)" "end_if_unauthorized (r3, st3) = (r, st')"
      by (cases "on_wire pl (api_request method path body st2) st2") simp
    note two = refreshSession_cases [OF retry(2)] and three = on_wire_simps [OF retry(3)]
      and stop = end_if_unauthorized_cases [OF retry(4)]
    have "api_request method path body st2 = ?q\<lparr>rq_bearer := rq_bearer (api_request method path body st2)\<rparr>"
      using one two by (simp add: api_request_def)
    then have "br_sent st' = br_sent st @ ?q # [refresh_request, ?q\<lparr>rq_bearer := rq_bearer (api_request method path body st2)\<rparr>]"
      using one(1) two(1) three(1) stop(2) by simp
    moreover have "st' = log_out st3 \<and> (\<exists>a. r = Some a \<and> re_status a = 401) \<or>
        st' = st3 \<and> (\<forall>a. r = Some a \<longrightarrow> re_status a \<noteq> 401)"
      using stop(1,3) by auto
    ultimately show ?thesis using one two three retry(1) by (auto simp: log_out_simps)
  qed
qed


text \<open>The exemption is by prefix, so it also covers the guarded routes under \<^verbatim>\<open>/auth\<close> - the owner's invites and the
  workspace switch: an access token that has merely expired fails them, although a refresh would succeed.\<close>

lemma guarded_auth_never_refreshed:
  assumes "prefix ''/auth'' path" "sendWithSession pl method path body st = (r, st')"
  shows "br_sent st' = br_sent st @ [api_request method path body st] \<and> br_token st' = br_token st"
proof -
  obtain r1 st1 where first: "on_wire pl (api_request method path body st) st = (r1, st1)"
    by (cases "on_wire pl (api_request method path body st) st")
  with assms have "st' = st1" by (auto simp: sendWithSession_def send_api_def split: option.splits)
  with on_wire_simps [OF first] show ?thesis by simp
qed

end
