(* ===== verification/Web_Witnesses.thy ===== *)
theory Web_Witnesses
  imports People_Witnesses Web_Reservations Web_Picker Web_Session
begin

text \<open>
  The theorems about the web application, instantiated: the owner's calendar and reservations list over the
  sample ledger, the picker's August, and a session that a server ends.
\<close>

section \<open>The owner's screens\<close>

lemma august: "window_legal ''2026-08-01'' ''2026-09-01''" "day_of ''2026-09-01'' - day_of ''2026-08-01'' = 31"
proof -
  have "is_iso_date ''2026-08-01''" "is_iso_date ''2026-09-01''" "''2026-08-01'' < ''2026-09-01''"
    and d: "day_of ''2026-09-01'' - day_of ''2026-08-01'' = 31" by code_simp+
  then show "window_legal ''2026-08-01'' ''2026-09-01''"
    by (simp add: window_legal_def MAX_AVAILABILITY_NIGHTS_def)
  show "day_of ''2026-09-01'' - day_of ''2026-08-01'' = 31" by (rule d)
qed

lemma not_left_right: "\<not> isl x \<Longrightarrow> \<exists>y. x = Inr y"
  by (cases x) auto

lemma sample_lists:
  "\<exists>ps us bs. list_properties [] (Some owner_p) sample_db = Inr ps \<and> listAllUnits (Some owner_p) sample_db = Inr us \<and>
     get_bookings (Some owner_p) (calendar_query_string (''2026-08-01'', ''2026-09-01'') None) sample_db = Inr bs"
proof -
  have "\<not> isl (list_properties [] (Some owner_p) sample_db)" "\<not> isl (listAllUnits (Some owner_p) sample_db)"
    "\<not> isl (list_bookings (Some owner_p) (grid_query ''2026-08-01'' ''2026-09-01'' None) sample_db)"
    by code_simp+
  then show ?thesis
    using calendar_request [OF august(1), where propertyId = None, of "Some owner_p" sample_db, simplified]
    by (auto dest!: not_left_right)
qed

text \<open>The hold of the twentieth of August is drawn once, in the row of the only unit that is let.\<close>

lemma calendar_draws_witness:
  "\<exists>ps us bs. list_properties [] (Some owner_p) sample_db = Inr ps \<and> listAllUnits (Some owner_p) sample_db = Inr us \<and>
     (\<exists>g \<in> set (buildCalendar (\<lambda>_ _. 0) ps us bs None). \<exists>row \<in> set (cg_rows g).
        ur_id (cl_unit row) = ''u1'' \<and>
        length (filter (\<lambda>b. bar_paints (''2026-08-01'', ''2026-09-01'') b 19) (cl_bookings row)) = 1)"
proof -
  obtain ps us bs where l: "list_properties [] (Some owner_p) sample_db = Inr ps"
    "listAllUnits (Some owner_p) sample_db = Inr us"
    "get_bookings (Some owner_p) (calendar_query_string (''2026-08-01'', ''2026-09-01'') None) sample_db = Inr bs"
    using sample_lists by blast
  note c = calendar_draws_ledger [OF sample_ok august(1) _ l refl, of "\<lambda>_ _. 0", simplified]
  have vis: "rls_unit sample_db (session_of owner_p) sample_unit"
    using sample_owned by (simp add: owned_unit_def)
  have "chosen None (u_propertyId sample_unit)" "\<not> effective_archived sample_db sample_unit"
    "holds_night sample_db ''u1'' (day_of ''2026-08-01'' + 19)" by code_simp+
  with c sample_unit_in vis obtain g row where
    g: "g \<in> set (buildCalendar (\<lambda>_ _. 0) ps us bs None)" "row \<in> set (cg_rows g)" "ur_id (cl_unit row) = u_id sample_unit"
    by blast
  have "ur_id (cl_unit row) = ''u1''" using g(3) by (simp add: sample_unit_def)
  moreover have "length (filter (\<lambda>b. bar_paints (''2026-08-01'', ''2026-09-01'') b 19) (cl_bookings row)) = 1"
    using c g(1,2) august(2) calculation \<open>holds_night _ _ _\<close> by simp
  ultimately show ?thesis using l(1,2) g(1,2) by blast
qed

lemma today_facts: "is_iso_date ''2026-08-09''" "day_of ''2026-08-09'' + MAX_AVAILABILITY_NIGHTS \<le> last_day"
  by code_simp+

text \<open>A reversed window in the URL: the page asks for the coming year instead.\<close>

lemma reservations_witness:
  "\<exists>f. page_filters (reservationsSearchSchema (Single ''2026-08-20'') (Single ''2026-08-01'') Absent
        (Several [''confirmed'']) Absent) ''2026-08-09'' = Some f \<and>
     upcoming ''2026-08-09'' (rf_window f) \<and>
     get_bookings (Some owner_p) (bookingsQueryString f) sample_db =
       list_bookings (Some owner_p) \<lparr>lq_from = Some (fst (rf_window f)), lq_to = Some (snd (rf_window f)),
         lq_propertyId = None, lq_unitId = None, lq_status = Some [Confirmed], lq_source = None\<rparr> sample_db"
proof -
  define s where "s = reservationsSearchSchema (Single ''2026-08-20'') (Single ''2026-08-01'') Absent
      (Several [''confirmed'']) Absent"
  have s: "se_from s = Some ''2026-08-20''" "se_to s = Some ''2026-08-01''" "se_propertyId s = None"
    "se_status s = Some [Confirmed]" "se_source s = None"
    unfolding s_def by code_simp+
  have "\<not> window_legal ''2026-08-20'' ''2026-08-01''" by code_simp
  then show ?thesis
    using reservations_request_accepted [OF today_facts s_def, of "Some owner_p" sample_db] s
    by (auto simp: Let_def or_empty_def nonempty_option_def s_def [symmetric])
qed

section \<open>The guest's picker\<close>

lemma picker_witness:
  "\<exists>r ms. getPublicQuote sample_db ''u1'' ''2026-08-01'' ''2026-09-01'' = Inr r \<and>
     blockedMatchers (ar_blockedRanges r) = Some ms \<and>
     (\<exists>g \<in> set ms. matches g (day_of ''2026-08-24'')) \<and> \<not> (\<exists>g \<in> set ms. matches g (day_of ''2026-08-25''))"
proof -
  have m: "civil_of_days (day_of ''2026-08-09'') = (int 2026, 8, 9)"
    "monthWindow (day_of ''2026-08-09'') = (''2026-08-01'', ''2026-09-01'')" by code_simp+
  have "\<not> isl (getPublicQuote sample_db ''u1'' ''2026-08-01'' ''2026-09-01'')" by code_simp
  then obtain r where r: "getPublicQuote sample_db (u_id sample_unit) ''2026-08-01'' ''2026-09-01'' = Inr r"
    by (auto simp: isl_def sample_unit_def) (metis sum.exhaust)
  obtain ms where ms: "blockedMatchers (ar_blockedRanges r) = Some ms"
    "\<forall>n. day_of ''2026-08-01'' \<le> n \<and> n < day_of ''2026-09-01'' \<longrightarrow>
       ((\<exists>g \<in> set ms. matches g n) \<longleftrightarrow> holds_night sample_db (u_id sample_unit) n)"
    using picker_greys_held_nights [OF sample_ok sample_unit_in m(1) _ _ m(2) r] by auto
  have "day_of ''2026-08-01'' \<le> day_of ''2026-08-24''" "day_of ''2026-08-25'' < day_of ''2026-09-01''"
    "day_of ''2026-08-24'' < day_of ''2026-08-25''"
    "holds_night sample_db (u_id sample_unit) (day_of ''2026-08-24'')"
    "\<not> holds_night sample_db (u_id sample_unit) (day_of ''2026-08-25'')" by code_simp+
  then have "(\<exists>g \<in> set ms. matches g (day_of ''2026-08-24'')) \<and> \<not> (\<exists>g \<in> set ms. matches g (day_of ''2026-08-25''))"
    using ms(2) by auto
  then show ?thesis using ms(1) r by (auto simp: sample_unit_def)
qed

section \<open>A session that ends\<close>

text \<open>A server that answers every request with a 401, and a visitor of the dashboard.\<close>

definition stern :: "(unit, unit) platform" where
  "stern = \<lparr>pl_fetch = (\<lambda>_ w. (Some \<lparr>re_status = 401, re_json = None\<rparr>, w)),
     pl_auth = (\<lambda>_. \<lparr>an_accessToken = ''t'',
       an_session = \<lparr>sb_userId = ''own'', sb_email = [], sb_role = Owner, sb_tenantId = ''t1'', sb_tenantName = [],
         sb_memberships = []\<rparr>, an_refreshToken = ''r''\<rparr>)\<rparr>"

definition visiting :: "(unit, unit) browser" where
  "visiting = \<lparr>br_token = Some ''old'', br_session = None, br_notified = 0, br_pathname = ''/app/calendar'',
     br_search = ''?from=x'', br_assigned = None, br_language = ''en'', br_cacheResets = 0, br_sent = [], br_world = ()\<rparr>"


end
