(* ===== verification/Spec2Isabelle.thy ===== *)
theory Spec2Isabelle
  imports Channel_Witnesses Boot_Guard Web_Witnesses
begin

text \<open>Verification of Sambung, a direct-booking engine for small accommodation owners.

  THE PROGRAM. A NestJS API (apps/api/src) over PostgreSQL (packages/db), with the wire contracts and
  the pure arithmetic of the domain in packages/shared. Requests run under a principal: an owner, a
  staff member, or a visitor whose tenant is resolved from the thing visited
  (common/tenant-context.service.ts, common/public-scope.service.ts). Every statement of a request runs
  in a transaction whose three settings feed row-level security (db/tenant-db.service.ts, the policies
  in packages/db/drizzle). Bookings (bookings/) are made by guests as pending holds and by owners as
  confirmed rows; the exclusion constraint booking_no_overlap is the last word on a double booking.
  Payments (payments/) are opened against a hold, settle through an at-least-once webhook or a
  reconciling read, and land in an inbox when they arrive for a booking that is no longer pending.
  Credentials of each tenant are stored encrypted. Properties, units and price overrides (properties/,
  units/) are the inventory that is booked and priced; their photos live in an object store (storage/).
  Channels (channel-sync/) exchange calendars with other platforms: confirmed stays are exported as
  iCalendar, feeds are fetched, parsed and imported as blocks, and what the constraint refuses goes to
  a conflict inbox. People (auth/, staff/) register, sign in, and join a team by invite.
  A process refuses to start on a deployment whose settings are unsafe (validate-env.ts). The web
  application (apps/web) composes the API's neutral lists into the owner's calendar and reservations,
  greys the guest's picker, and keeps the session behind every request.

  THE MODEL. The database is one record db of row lists, one record per table of schema.ts with
  every column (Schema). An operation takes the state and what the environment supplies (the clock as
  milliseconds, fresh ids, the answers of third parties) and returns an error or a result with the new
  state, so that a raise rolls everything back exactly where the code's transaction does; an operation
  whose steps commit one by one answers the state beside its result. INSERT and UPDATE answer the
  name of the constraint they violate, and the interceptor (Errors) maps it to the conflict the client
  sees. Row-level security is a predicate on rows per table, over the session that a principal's
  transaction sets (Tenancy).

  THE PARTS, each with the theory that holds its definitions and the one that holds its theorems.
    Prelude            refusable steps, UPDATE and SELECT on lists, JavaScript text functions
    Iso_Date           Date.parse and toISOString on calendar days
    Availability, Money            packages/shared availability.ts, money.ts
    Schema, Exclusion, Booking_Table      schema.ts, the exclusion constraints
    Errors, Tenancy                common/db-error, common/tenant-context, db/tenant-db
    Bookings; Booking_Rules        bookings/ (quote, guest and owner booking, cancel, sweep)
    Bookings_Query, Bookings_Csv   bookings/bookings-query, bookings-csv (list, detail, export)
    Units, Price_Overrides; Inventory     units/
    Delivery, Gateway, Payments, Payment_Inbox; Payment_Rules     payments/ (webhook, gateways, inbox)
    Credentials                    payments/credential-*
    Wa_Link                        packages/shared booking-confirmation.ts
    Ical, Ical_Parse; Ical_Rules   channel-sync/ical.ts, ical-parse.ts
    Ical_Fetcher                   channel-sync/ical-fetcher.ts, common/private-host.ts
    Ical_Import; Import_Rules, Import_Healthy     channel-sync/ical-import.service.ts and its sweeper
    Channels; Channel_Rules        channel-sync/channels.*, ical-export.service.ts
    Sync_Conflicts; Conflict_Rules        channel-sync/sync-conflicts.*
    Accounts, Auth                 the tables of people with migrations 0015 and 0016; auth/
    Staff, Invites                 staff/ (roster and assignments; invites and their acceptance)
    Team_Invariant, Team_Rules, Team_Contracts, Team_Refinement   what those operations keep and mean
    Slug, Properties; Property_Rules      packages/shared slug.ts, property.ts; properties/
    Photo_Storage, Photo_Gc; Photo_Rules  storage/ (presign, listing, deletion; the sweep)
    Settings                       settings/
    Public_Page                    properties/public-properties.service.ts, og.ts, property-og-html.ts
    Mailer, Notifications          notifications/
    Boot_Guard                     deployment-env.ts, validate-env.ts, the choice of the gateway, the cookie
    Query_Reader                   the query strings of GET /bookings and of its CSV export
    Web_Base                       apps/web lib/date.ts, the query strings and lists of the web code
    Web_Calendar                   features/calendar (calendar-model.ts, use-calendar.ts)
    Web_Reservations               features/reservations, features/bookings/booking-display.ts
    Web_Picker                     features/public-booking (availability-model.ts, use-availability.ts)
    Web_Copy                       lib/refusal.ts, lib/conflict.ts, i18n/, availability-copy.ts
    Web_Session                    lib/auth.ts, lib/api-client.ts, router.tsx, the workspace switcher
    Sample, Witnesses, Channel_Witnesses, People_Witnesses, Web_Witnesses     the theorems on concrete rows

  WHAT IS SHOWN. Bookings: the quote, the guest's and the owner's booking, cancellation and the sweep
  do on every branch what their contracts say, over the invariant db_ok of the ledger; the loser of a
  race that reaches the exclusion constraint gets the answer of the pre-check; the owner's calendar
  and the public quote show one picture; the export reads back as the bookings listed and runs nothing.
  Payments: a delivery moves a booking exactly once, redelivery is inert, what settles late reaches the
  inbox, stored credentials decrypt and rotate. Channels: a pull keeps the invariant of the imported
  rows, touches only its own connection, never cancels on a truncated feed, and does exactly what the
  feed says when it is healthy; the export round-trips through the parser and leaks no guest; the
  fetcher asks only public hosts, at most six times. People: the tables refine an abstract roster of
  roles and grants along every run of the team's operations, and row-level security shows a staff
  session exactly what the roster gives it; every session minted is a seat of the tables; an invite is
  spent once. Properties: creation ends within five slugs with a well-formed free one; deletion never
  takes a booked property; galleries never dangle, and the sweep of the store always finishes and
  deletes exactly what it may. Boot: a process starts exactly as a proven sandbox or with every setting
  of a deployment. Web: the calendar page draws the ledger, one bar per held night; the picker greys
  exactly the held nights; whatever its URL, the reservations page asks what the API accepts and reads;
  a request is retried at most once, and a session that ends leads back to the page it ended on.

  INTERFACES. A table under an exclusion constraint is the locale excl_table (Exclusion), interpreted on
  the bookings and on the price overrides; a step delivered at least once is at_least_once (Delivery),
  interpreted on the webhook's processing of payment events.

  PARAMETERS. The host's time-zone database (zone_db, with zones_lawful), the URL parser and fetch
  (url_api, origin_api; platform in the browser), localeCompare, the payment provider's HTTP, AES-256-GCM (aead, with aead_lawful), JSON Web Tokens and
  bcrypt (auth_env, with auth_lawful), SHA-256, the mailer, the database's collation as a sort key,
  Unicode decomposition, random draws, and the object store (object_api, with store_lawful). Every
  hypothesis states documented behaviour and has an instance in the witness theories.

  BOUNDS AND FUEL. The redirect walk is bounded by the code's MAX_REDIRECTS = 5, hence fuel 6; lines are
  folded at 75 octets; a create tries five slugs; deletes go out in batches of 1000 keys. The listing of
  the store is a partial function (it may not end on a store that never ends its pages) and is proved
  to answer under store_lawful. Every other loop is total with its termination proved.

  NOT MODELLED. The components of the web application are React presentation over the models above:
  markup, hooks, the query cache, timers. Controllers, pipes and modules are NestJS wiring; but for the
  query of GET /bookings the decoding of zod happens before the model's requests. Scripts, doctors and
  seeds are operations of the deployment; message catalogues are data and Intl formatting is the
  platform's. Log lines, connection pooling and timeouts are not modelled, and concurrency is modelled
  as the state an operation finds: transactions are atomic.\<close>

end
